(* ===== verification/Gp_Prelude.thy ===== *)
theory Gp_Prelude
  imports Main
    "HOL-Library.Word"
    "HOL-Library.Monad_Syntax"
    "HOL-Library.List_Lexorder"
    "HOL-Library.Char_ord"
    "HOL-Library.Multiset"
begin

unbundle bit_operations_syntax

section \<open>Shared vocabulary of the gigapipe development\<close>

text \<open>
  What every component theory uses: the outcome of a Go call (\<open>res\<close>), the Go standard
  library functions on strings that the sources call, decimal printing of integers, and
  the lemma collections the component proofs are carried by.

  A Go function that returns \<open>(value, error)\<close> or panics is a function into \<open>'a res\<close>:
  \<open>Inr v\<close> is the value, \<open>Inl e\<close> the error, and a run-time panic is the error
  \<open>Panic\<close>. A Go string is a list of bytes, that is an Isabelle \<open>string\<close>.
\<close>

named_theorems res_simps \<open>unfolding the sequencing of Go calls\<close>
named_theorems go_string_simps \<open>Go string functions on the shapes the sources use\<close>

subsection \<open>Outcomes of Go calls\<close>

datatype go_error =
    ErrMsg string        \<comment> \<open>an error value, identified by its message\<close>
  | EOF                  \<comment> \<open>the sentinel \<open>io.EOF\<close>\<close>
  | SkipEntry            \<comment> \<open>the sentinel \<open>errSkipEntry\<close> of the log pipeline\<close>
  | BufferFull           \<comment> \<open>the sentinel \<open>ErrBufferFull\<close> of the RAM chunk\<close>
  | Panic string         \<comment> \<open>a run-time panic\<close>

type_synonym 'a res = "go_error + 'a"

definition rbind :: "'e + 'a \<Rightarrow> ('a \<Rightarrow> 'e + 'b) \<Rightarrow> 'e + 'b" where
  "rbind r f = (case r of Inl e \<Rightarrow> Inl e | Inr v \<Rightarrow> f v)"

lemma rbind_Inl [simp, res_simps]: "rbind (Inl e) f = Inl e"
  by (simp add: rbind_def)

lemma rbind_Inr [simp, res_simps]: "rbind (Inr v) f = f v"
  by (simp add: rbind_def)

lemma rbind_Inr_iff [res_simps]: "rbind r f = Inr w \<longleftrightarrow> (\<exists>v. r = Inr v \<and> f v = Inr w)"
  by (cases r) simp_all

lemma rbind_Inl_iff [res_simps]:
  "rbind r f = Inl e \<longleftrightarrow> r = Inl e \<or> (\<exists>v. r = Inr v \<and> f v = Inl e)"
  by (cases r) auto

lemma rbind_cong [fundef_cong]:
  "r = r' \<Longrightarrow> (\<And>v. r' = Inr v \<Longrightarrow> f v = f' v) \<Longrightarrow> rbind r f = rbind r' f'"
  by (cases r') simp_all

text \<open>A loop over a slice that stops at the first error.\<close>

fun mapM_res :: "('a \<Rightarrow> 'e + 'b) \<Rightarrow> 'a list \<Rightarrow> 'e + 'b list" where
  "mapM_res f [] = Inr []"
| "mapM_res f (x # xs) = rbind (f x) (\<lambda>y. rbind (mapM_res f xs) (\<lambda>ys. Inr (y # ys)))"

lemma mapM_res_cong [fundef_cong]:
  "xs = ys \<Longrightarrow> (\<And>x. x \<in> set ys \<Longrightarrow> f x = g x) \<Longrightarrow> mapM_res f xs = mapM_res g ys"
  by (induction ys arbitrary: xs) auto

lemma mapM_res_total: "(\<And>x. x \<in> set xs \<Longrightarrow> \<exists>y. f x = Inr y) \<Longrightarrow> \<exists>ys. mapM_res f xs = Inr ys"
  by (induction xs) (fastforce simp: res_simps)+

lemma mapM_res_length: "mapM_res f xs = Inr ys \<Longrightarrow> length ys = length xs"
  by (induction xs arbitrary: ys) (auto simp: res_simps)

lemma mapM_res_Inr [simp]: "mapM_res (\<lambda>x. Inr (f x)) xs = Inr (map f xs)"
  by (induction xs) simp_all

lemma mapM_res_nth:
  "mapM_res f xs = Inr ys \<Longrightarrow> i < length xs \<Longrightarrow> f (xs ! i) = Inr (ys ! i)"
proof (induction xs arbitrary: ys i)
  case (Cons x xs)
  then show ?case by (cases i) (auto simp: rbind_Inr_iff)
qed simp

lemma mapM_res_Inl:
  "mapM_res f xs = Inl e \<Longrightarrow> \<exists>x\<in>set xs. f x = Inl e"
  by (induction xs) (auto simp: rbind_Inl_iff)

lemma mapM_res_succeeds_iff:
  "(\<exists>ys. mapM_res f xs = Inr ys) \<longleftrightarrow> (\<forall>x\<in>set xs. \<exists>y. f x = Inr y)"
  by (induction xs) (auto simp: rbind_Inr_iff)

lemma mapM_res_map: "mapM_res f (map g xs) = mapM_res (\<lambda>x. f (g x)) xs"
  by (induction xs) simp_all

lemma mapM_res_append:
  "mapM_res f (xs @ ys) =
     rbind (mapM_res f xs) (\<lambda>us. rbind (mapM_res f ys) (\<lambda>vs. Inr (us @ vs)))"
  by (induction xs) (auto simp: rbind_def split: sum.splits)

subsection \<open>Go string functions\<close>

text \<open>\<open>strings.Join\<close>.\<close>

fun go_join :: "string \<Rightarrow> string list \<Rightarrow> string" where
  "go_join sep [] = []"
| "go_join sep [x] = x"
| "go_join sep (x # y # ys) = x @ sep @ go_join sep (y # ys)"

text \<open>\<open>strings.Replace(s, old, new, -1)\<close> where \<open>old\<close> is a single byte.\<close>

definition replace_byte :: "char \<Rightarrow> string \<Rightarrow> string \<Rightarrow> string" where
  "replace_byte c new s = concat (map (\<lambda>x. if x = c then new else [x]) s)"

lemma replace_byte_simps [simp, go_string_simps]:
  "replace_byte c new [] = []"
  "replace_byte c new (x # xs) = (if x = c then new else [x]) @ replace_byte c new xs"
  by (simp_all add: replace_byte_def)

lemma replace_byte_append [go_string_simps]:
  "replace_byte c new (xs @ ys) = replace_byte c new xs @ replace_byte c new ys"
  by (simp add: replace_byte_def)

lemma replace_byte_absent [go_string_simps]: "c \<notin> set s \<Longrightarrow> replace_byte c new s = s"
  by (induction s) auto

text \<open>\<open>strings.HasPrefix\<close> and \<open>strings.Contains\<close>.\<close>

fun has_prefix :: "string \<Rightarrow> string \<Rightarrow> bool" where
  "has_prefix [] s = True"
| "has_prefix (p # ps) [] = False"
| "has_prefix (p # ps) (x # xs) = (p = x \<and> has_prefix ps xs)"

fun go_contains :: "string \<Rightarrow> string \<Rightarrow> bool" where
  "go_contains sub [] = (sub = [])"
| "go_contains sub (x # xs) = (has_prefix sub (x # xs) \<or> go_contains sub xs)"

lemma has_prefix_iff: "has_prefix p s \<longleftrightarrow> (\<exists>t. s = p @ t)"
  by (induction p s rule: has_prefix.induct) auto

lemma go_contains_iff: "go_contains sub s \<longleftrightarrow> (\<exists>u v. s = u @ sub @ v)"
proof (induction s)
  case Nil
  show ?case by simp
next
  case (Cons x xs)
  show ?case
  proof
    assume "go_contains sub (x # xs)"
    then show "\<exists>u v. x # xs = u @ sub @ v"
      using Cons by (metis append_Cons append_Nil go_contains.simps(2) has_prefix_iff)
  next
    assume "\<exists>u v. x # xs = u @ sub @ v"
    then obtain u v where uv: "x # xs = u @ sub @ v" by blast
    show "go_contains sub (x # xs)"
    proof (cases u)
      case Nil
      with uv have "has_prefix sub (x # xs)" by (auto simp: has_prefix_iff)
      then show ?thesis by simp
    next
      case (Cons y ys)
      with uv have "xs = ys @ sub @ v" by simp
      with \<open>go_contains sub xs = _\<close> show ?thesis by auto
    qed
  qed
qed

text \<open>\<open>strings.Split\<close> at a single byte.\<close>

fun go_split :: "char \<Rightarrow> string \<Rightarrow> string list" where
  "go_split c [] = [[]]"
| "go_split c (x # xs) =
     (if x = c then [] # go_split c xs
      else (case go_split c xs of [] \<Rightarrow> [[x]] | p # ps \<Rightarrow> (x # p) # ps))"

lemma go_split_nonempty [simp]: "go_split c s \<noteq> []"
  by (induction s) (auto split: list.splits)

lemma go_join_split: "go_join [c] (go_split c s) = s"
proof (induction s)
  case Nil
  show ?case by simp
next
  case (Cons x xs)
  obtain p ps where p: "go_split c xs = p # ps"
    by (cases "go_split c xs") auto
  with Cons show ?case by (cases ps) auto
qed

lemma go_split_no_sep: "p \<in> set (go_split c s) \<Longrightarrow> c \<notin> set p"
proof (induction s arbitrary: p)
  case Nil
  then show ?case by simp
next
  case (Cons x xs)
  obtain q qs where q: "go_split c xs = q # qs"
    by (cases "go_split c xs") auto
  with Cons show ?case by (auto split: if_splits)
qed

text \<open>
  \<open>strings.ToLower\<close> on the bytes of the ASCII letters. The sources compare its result
  with lower-case ASCII words free of the letters \<open>k\<close> and \<open>i\<close> only, the two letters
  that are also lower-case images of other Unicode letters, so the comparison is exact.
\<close>

definition lower_byte :: "char \<Rightarrow> char" where
  "lower_byte c = (if CHR ''A'' \<le> c \<and> c \<le> CHR ''Z'' then char_of (of_char c + (32::nat)) else c)"

definition to_lower :: "string \<Rightarrow> string" where
  "to_lower s = map lower_byte s"

text \<open>
  \<open>strings.TrimSpace\<close> removes the leading and trailing code points for which
  \<open>unicode.IsSpace\<close> holds; \<open>go_spaces\<close> lists their UTF-8 encodings.
\<close>

definition go_spaces :: "string list" where
  "go_spaces =
     [[CHR 0x09], [CHR 0x0A], [CHR 0x0B], [CHR 0x0C], [CHR 0x0D], [CHR 0x20],
      [CHR 0xC2, CHR 0x85], [CHR 0xC2, CHR 0xA0],
      [CHR 0xE1, CHR 0x9A, CHR 0x80]]
     @ map (\<lambda>n. [CHR 0xE2, CHR 0x80, char_of (n::nat)]) [0x80..<0x8B]
     @ [[CHR 0xE2, CHR 0x80, CHR 0xA8], [CHR 0xE2, CHR 0x80, CHR 0xA9],
        [CHR 0xE2, CHR 0x80, CHR 0xAF], [CHR 0xE2, CHR 0x81, CHR 0x9F],
        [CHR 0xE3, CHR 0x80, CHR 0x80]]"

definition strip_one :: "string list \<Rightarrow> string \<Rightarrow> string option" where
  "strip_one ws s =
     map_option (\<lambda>w. drop (length w) s) (find (\<lambda>w. w \<noteq> [] \<and> has_prefix w s) ws)"

lemma strip_one_shorter: "strip_one ws s = Some t \<Longrightarrow> length t < length s"
  by (auto simp: strip_one_def find_Some_iff has_prefix_iff)

function strip_left :: "string list \<Rightarrow> string \<Rightarrow> string" where
  "strip_left ws s = (case strip_one ws s of None \<Rightarrow> s | Some t \<Rightarrow> strip_left ws t)"
  by pat_completeness auto
termination
  by (relation "measure (\<lambda>(ws, s). length s)") (auto dest: strip_one_shorter)

declare strip_left.simps [simp del]

definition trim_space :: "string \<Rightarrow> string" where
  "trim_space s = rev (strip_left (map rev go_spaces) (rev (strip_left go_spaces s)))"

lemma strip_left_suffix: "\<exists>p. s = p @ strip_left ws s"
proof (induction ws s rule: strip_left.induct)
  case (1 ws s)
  show ?case
  proof (cases "strip_one ws s")
    case None
    then show ?thesis by (simp add: strip_left.simps)
  next
    case (Some t)
    then obtain w where w: "s = w @ t"
      by (auto simp: strip_one_def find_Some_iff has_prefix_iff)
    from 1 [OF Some] obtain p where p: "t = p @ strip_left ws t" by blast
    have "strip_left ws s = strip_left ws t"
      using Some by (simp add: strip_left.simps [of ws s])
    with w p show ?thesis by (metis append_assoc)
  qed
qed

lemma trim_space_infix: "\<exists>u v. s = u @ trim_space s @ v"
proof -
  obtain u where u: "s = u @ strip_left go_spaces s"
    using strip_left_suffix by blast
  obtain v where "rev (strip_left go_spaces s) = v @ rev (trim_space s)"
    using strip_left_suffix [of "rev (strip_left go_spaces s)" "map rev go_spaces"]
    by (auto simp: trim_space_def)
  then have "strip_left go_spaces s = trim_space s @ rev v"
    by (metis rev_append rev_rev_ident)
  with u show ?thesis by metis
qed

subsection \<open>Decimal printing (\<open>%d\<close>)\<close>

definition digit_char :: "nat \<Rightarrow> char" where
  "digit_char n = char_of (48 + n)"

fun show_nat :: "nat \<Rightarrow> string" where
  "show_nat n = (if n < 10 then [digit_char n] else show_nat (n div 10) @ [digit_char (n mod 10)])"

declare show_nat.simps [simp del]

definition show_int :: "int \<Rightarrow> string" where
  "show_int i = (if i < 0 then CHR ''-'' # show_nat (nat (- i)) else show_nat (nat i))"

definition digits_val :: "string \<Rightarrow> nat" where
  "digits_val s = foldl (\<lambda>a c. 10 * a + (of_char c - 48)) 0 s"

lemma of_char_digit [simp]: "n < 10 \<Longrightarrow> (of_char (digit_char n) :: nat) = 48 + n"
  by (simp add: digit_char_def)

lemma digits_val_show_nat: "digits_val (show_nat n) = n"
proof (induction n rule: show_nat.induct)
  case (1 n)
  then show ?case
    by (subst show_nat.simps) (auto simp: digits_val_def)
qed

lemma show_nat_inj: "show_nat m = show_nat n \<Longrightarrow> m = n"
  by (metis digits_val_show_nat)

lemma show_nat_digits: "c \<in> set (show_nat n) \<Longrightarrow> \<exists>d<10. c = digit_char d"
proof (induction n rule: show_nat.induct)
  case (1 n)
  then show ?case
    by (cases "n < 10") (auto simp: show_nat.simps [of n] intro: exI [of _ "n mod 10"])
qed

lemma show_nat_nonempty [simp]: "show_nat n \<noteq> []"
  by (subst show_nat.simps) simp

subsection \<open>Association lists standing for Go maps\<close>

text \<open>
  A Go map is an association list with one pair per key; the order of the list stands for
  the unspecified iteration order of the runtime. \<open>m[k] = v\<close> is \<open>map_put\<close>,
  \<open>delete(m, k)\<close> is \<open>map_del\<close>, a read is \<open>map_of\<close>.
\<close>

fun map_put :: "'k \<Rightarrow> 'v \<Rightarrow> ('k \<times> 'v) list \<Rightarrow> ('k \<times> 'v) list" where
  "map_put k v [] = [(k, v)]"
| "map_put k v ((k', v') # m) = (if k = k' then (k, v) # m else (k', v') # map_put k v m)"

definition map_del :: "'k \<Rightarrow> ('k \<times> 'v) list \<Rightarrow> ('k \<times> 'v) list" where
  "map_del k m = filter (\<lambda>(k', _). k' \<noteq> k) m"

definition go_map :: "('k \<times> 'v) list \<Rightarrow> bool" where
  "go_map m \<longleftrightarrow> distinct (map fst m)"

lemma map_of_map_put [simp]: "map_of (map_put k v m) = (map_of m)(k \<mapsto> v)"
  by (induction m) (auto simp: fun_eq_iff)

lemma keys_map_put: "fst ` set (map_put k v m) = insert k (fst ` set m)"
  by (induction k v m rule: map_put.induct) auto

lemma go_map_put [simp]: "go_map m \<Longrightarrow> go_map (map_put k v m)"
proof (induction m)
  case Nil
  then show ?case by (simp add: go_map_def)
next
  case (Cons p m)
  obtain k' v' where p: "p = (k', v')" by force
  have "set (map fst (map_put k v m)) = insert k (fst ` set m)"
    by (simp add: keys_map_put)
  with Cons p show ?case by (auto simp: go_map_def)
qed

lemma map_of_map_del: "map_of (map_del k m) = (map_of m)(k := None)"
  by (induction m) (auto simp: map_del_def fun_eq_iff)

lemma go_map_filter [simp]: "go_map m \<Longrightarrow> go_map (filter P m)"
  by (induction m) (auto simp: go_map_def)

lemma map_of_filter_go_map:
  "go_map m \<Longrightarrow> map_of (filter (\<lambda>(k, v). P k v) m) k =
     (case map_of m k of None \<Rightarrow> None | Some v \<Rightarrow> if P k v then Some v else None)"
proof (induction m)
  case Nil
  then show ?case by simp
next
  case (Cons p m)
  obtain k' v' where p: "p = (k', v')" by force
  have no: "map_of m k' = None"
    using Cons.prems p by (auto simp: go_map_def map_of_eq_None_iff)
  have IH: "map_of (filter (\<lambda>(k, v). P k v) m) k =
     (case map_of m k of None \<Rightarrow> None | Some v \<Rightarrow> if P k v then Some v else None)"
    using Cons by (auto simp: go_map_def)
  show ?case using IH no p by (auto split: option.splits)
qed

end
