(* ===== verification/Sql_Select.thy ===== *)
theory Sql_Select
  imports Gp_Prelude
begin

section \<open>The SQL builder (reader/utils/sql\_select)\<close>

text \<open>
  Every query the reader sends to ClickHouse is an object of this package, built by the
  planners and printed by its \<open>String\<close> methods. The Go interface \<open>SQLObject\<close> is the
  datatype \<open>sqlobj\<close>, one constructor per struct of the package; pointers to \<open>With\<close>,
  \<open>Join\<close>, \<open>WindowFunction\<close> and \<open>Select\<close> are the mutually recursive datatypes
  \<open>with_q\<close>, \<open>join\<close>, \<open>window\<close> and \<open>sel\<close>. \<open>render\<close> is \<open>String\<close>, the operations on
  \<open>sel\<close> are the builder methods of \<open>Select\<close>.

  A \<open>CustomCol\<close> carries the Go closure as a function. \<open>SQLObject\<close> is an open interface;
  \<open>SqlExt\<close> is an object that another package implements: the name \<open>GetFunction\<close> gives if it is a condition, whether
  its \<open>String\<close> draws a number from the context, the options it passes on, the objects it
  prints in order, and the text made of them. The queries in \<open>s_anothers\<close> are those that a
  \<open>UnionAll\<close> of the planners adds to the one it embeds; a plain \<open>Select\<close> has none. \<open>Ctx.Params\<close> maps a name to an
  object that is used through its \<open>String\<close> method only, so a parameter is that method.
  \<open>%f\<close> of a \<open>float64\<close>, given by its 64 bits, is the field \<open>fmt_float\<close> of the context.
  A nil slice and an empty one print alike in every method, so both are the empty list;
  the settings map is nil exactly when it is empty.
\<close>

subsection \<open>Contexts and options (iface.go)\<close>

definition STRING_OPT_SKIP_WITH :: int where "STRING_OPT_SKIP_WITH = 1"
definition STRING_OPT_INLINE_WITH :: int where "STRING_OPT_INLINE_WITH = 2"
definition ORDER_BY_DIRECTION_ASC :: int where "ORDER_BY_DIRECTION_ASC = 3"
definition ORDER_BY_DIRECTION_DESC :: int where "ORDER_BY_DIRECTION_DESC = 4"
definition WITH_REF_NO_ALIAS :: int where "WITH_REF_NO_ALIAS = 5"

lemmas sql_option_defs =
  STRING_OPT_SKIP_WITH_def STRING_OPT_INLINE_WITH_def ORDER_BY_DIRECTION_ASC_def
  ORDER_BY_DIRECTION_DESC_def WITH_REF_NO_ALIAS_def

type_synonym sql_opts = "int list"

record sql_ctx =
  ctx_id :: int
  ctx_params :: "(string \<times> (sql_opts \<Rightarrow> string res)) list"
  fmt_float :: "64 word \<Rightarrow> string"

definition DefaultCtx :: "(64 word \<Rightarrow> string) \<Rightarrow> sql_ctx" where
  "DefaultCtx ff = \<lparr>ctx_id = 0, ctx_params = [], fmt_float = ff\<rparr>"

definition ctx_Id :: "sql_ctx \<Rightarrow> int \<times> sql_ctx" where
  "ctx_Id c = (let i = ctx_id c + 1 in (i, c\<lparr>ctx_id := i\<rparr>))"

text \<open>
  A \<open>String\<close> method may draw a number from the context it prints in, so printing is a
  transformer of the context.
\<close>

type_synonym 'a pr = "sql_ctx \<Rightarrow> 'a res \<times> sql_ctx"

definition pret :: "'a \<Rightarrow> 'a pr" where
  "pret v = (\<lambda>c. (Inr v, c))"

definition perr :: "go_error \<Rightarrow> 'a pr" where
  "perr e = (\<lambda>c. (Inl e, c))"

definition pbind :: "'a pr \<Rightarrow> ('a \<Rightarrow> 'b pr) \<Rightarrow> 'b pr" where
  "pbind m f = (\<lambda>c. case m c of (Inl e, c') \<Rightarrow> (Inl e, c') | (Inr v, c') \<Rightarrow> f v c')"

lemma pbind_simps [simp]:
  "pbind (pret v) f = f v" "pbind (perr e) f = perr e"
  by (simp_all add: pbind_def pret_def perr_def fun_eq_iff)

lemma pbind_cong [fundef_cong]:
  "m = m' \<Longrightarrow> (\<And>v c c'. m' c = (Inr v, c') \<Longrightarrow> f v = f' v) \<Longrightarrow> pbind m f = pbind m' f'"
  by (auto simp: pbind_def fun_eq_iff split: prod.splits sum.splits)

definition next_id :: "int pr" where
  "next_id = (\<lambda>c. case ctx_Id c of (i, c') \<Rightarrow> (Inr i, c'))"

subsection \<open>Objects (objects.go, condition.go, select.go)\<close>

record window_point =
  wp_Unbounded :: bool
  wp_Offset :: int
  wp_IsFollowing :: bool

datatype sqlobj =
    RawObject string
  | OrderBy sqlobj int bool "int option" int int "int option"
      \<comment> \<open>col, direction, withFill, withFillFrom, withFillTo, withFillStep, withFillStaleness\<close>
  | WithObj with_q
  | WithRef with_q
  | JoinObj join
  | LimitBy sqlobj "sqlobj list"
  | CtxParam string "string option"
  | StringVal string
  | IntVal int
  | BoolVal bool
  | FloatVal "64 word"
  | Col sqlobj string
  | In sqlobj "sqlobj list"
  | CustomCol "sql_opts \<Rightarrow> string pr"
  | SqlExt string bool "sql_opts \<Rightarrow> sql_opts" "sqlobj list" "int \<Rightarrow> string list \<Rightarrow> string"
      \<comment> \<open>function, takes an id, options for the parts, parts, text\<close>
  | WindowObj window
  | WindowFunctionRef window
  | LogicalOp string "sqlobj list"
  | CNot sqlobj
  | CNotNull sqlobj
  | SelectObj sel
and with_q = With (w_query: sel) (w_alias: string)
and join = Join (j_tp: string) (j_table: sqlobj) (j_on: "sqlobj option")
and "window" = WindowFunction (win_Alias: string) (win_PartitionBy: "sqlobj list")
      (win_OrderBy: "sqlobj list") (win_Rows: bool) (win_Start: window_point) (win_End: window_point)
and sel = Select (s_distinct: bool) (s_columns: "sqlobj list") (s_from: "sqlobj option")
      (s_where: "sqlobj option") (s_preWhere: "sqlobj option") (s_having: "sqlobj option")
      (s_groupBy: "sqlobj list") (s_orderBy: "sqlobj list") (s_limit: "sqlobj list")
      (s_offset: "sqlobj option") (s_withs: "with_q list") (s_joins: "join list")
      (s_windows: "window list") (s_settings: "(string \<times> string) list")
      (s_anothers: "sel list")

definition NewSelect :: sel where
  "NewSelect = Select False [] None None None None [] [] [] None [] [] [] [] []"

subsection \<open>Printing\<close>

text \<open>\<open>StringVal.String\<close>: eight replacements, one after the other, then the quotes.\<close>

definition escape_pairs :: "(char \<times> string) list" where
  "escape_pairs =
     [(CHR 0x5C, [CHR 0x5C, CHR 0x5C]),
      (CHR 0x00, [CHR 0x5C, CHR ''0'']),
      (CHR 0x0A, [CHR 0x5C, CHR ''n'']),
      (CHR 0x0D, [CHR 0x5C, CHR ''r'']),
      (CHR 0x08, [CHR 0x5C, CHR ''b'']),
      (CHR 0x09, [CHR 0x5C, CHR ''t'']),
      (CHR 0x1A, [CHR 0x5C, CHR ''x'', CHR ''1'', CHR ''a'']),
      (CHR 0x27, [CHR 0x5C, CHR 0x27])]"

definition render_StringVal :: "string \<Rightarrow> string" where
  "render_StringVal v =
     CHR 0x27 # fold (\<lambda>(c, r) s. replace_byte c r s) escape_pairs v @ [CHR 0x27]"

text \<open>\<open>WindowPoint.String\<close>, with the source's spelling of the keyword.\<close>

definition render_WindowPoint :: "window_point \<Rightarrow> string" where
  "render_WindowPoint w =
     (if wp_Offset w = 0 then ''CURRENT ROW''
      else (if wp_Unbounded w then ''UNBOUBDED'' else show_int (wp_Offset w)) @ '' '' @
           (if wp_IsFollowing w then ''FOLLOWING'' else ''PRECEDING''))"

text \<open>The \<open>WITH FILL\<close> suffix of \<open>OrderBy.String\<close>.\<close>

definition with_fill_str :: "bool \<Rightarrow> int option \<Rightarrow> int \<Rightarrow> int \<Rightarrow> int option \<Rightarrow> string" where
  "with_fill_str fill from till step stale =
     (if \<not> fill then ''''
      else '' WITH FILL'' @
        (case from of None \<Rightarrow> '''' | Some f \<Rightarrow> '' FROM '' @ show_int f) @
        '' TO '' @ show_int till @ '' STEP '' @ show_int step @
        (case stale of None \<Rightarrow> '''' | Some st \<Rightarrow> '' STALENESS '' @ show_int st) @ '' '')"

text \<open>
  The parts of a \<open>SELECT\<close>, one per method of \<open>selectRenderer\<close>. A part takes what printing
  its children gives, in the order the method prints them, and stops at the first error.
\<close>

definition collect :: "string pr list \<Rightarrow> string list pr" where
  "collect rs = foldr (\<lambda>r k. pbind r (\<lambda>x. pbind k (\<lambda>xs. pret (x # xs)))) rs (pret [])"

definition skip_with :: "sql_opts \<Rightarrow> bool" where
  "skip_with opts = list_ex (\<lambda>i. i = STRING_OPT_SKIP_WITH \<or> i = STRING_OPT_INLINE_WITH) opts"

definition with_part :: "sql_opts \<Rightarrow> string pr list \<Rightarrow> string pr" where
  "with_part opts ws =
     (if skip_with opts \<or> ws = [] then pret ''''
      else pbind (collect ws) (\<lambda>ss. pret (''WITH '' @ go_join '','' ss)))"

definition sel_part :: "bool \<Rightarrow> string pr list \<Rightarrow> string pr" where
  "sel_part dist cols =
     (if cols = [] then perr (ErrMsg ''no 'SELECT' part'')
      else pbind (collect cols) (\<lambda>ss.
        pret ('' SELECT '' @ (if dist then '' DISTINCT '' else '''') @ go_join '', '' ss)))"

definition from_part :: "string pr option \<Rightarrow> (string \<times> string pr) list \<Rightarrow> string pr" where
  "from_part from joins =
     (case from of None \<Rightarrow> pret ''''
      | Some fr \<Rightarrow> pbind fr (\<lambda>f.
          pbind (collect (map (\<lambda>(tp, r). pbind r (\<lambda>s. pret ('' '' @ tp @ '' JOIN '' @ s))) joins))
            (\<lambda>js. pret ('' FROM '' @ f @ concat js))))"

definition cond_part :: "string \<Rightarrow> string pr option \<Rightarrow> string pr" where
  "cond_part kw c = (case c of None \<Rightarrow> pret '''' | Some r \<Rightarrow> pbind r (\<lambda>s. pret (kw @ s)))"

definition list_part :: "string \<Rightarrow> string pr list \<Rightarrow> string pr" where
  "list_part kw rs =
     (if rs = [] then pret '''' else pbind (collect rs) (\<lambda>ss. pret (kw @ go_join '', '' ss)))"

definition window_part :: "(string \<times> string pr) list \<Rightarrow> string pr" where
  "window_part ws =
     pbind (collect (map snd (filter (\<lambda>(a, r). a \<noteq> '''') ws))) (\<lambda>ss.
       pret (if ss = [] then '''' else '' WINDOW '' @ go_join '', '' ss))"

definition limit_part :: "string pr list \<Rightarrow> string pr" where
  "limit_part rs =
     pbind (collect rs) (\<lambda>ss. pret (if ss = [] then '''' else '' LIMIT '' @ go_join '' LIMIT '' ss))"

definition offset_part :: "string pr option \<Rightarrow> string pr" where
  "offset_part o' =
     (case o' of None \<Rightarrow> pret ''''
      | Some r \<Rightarrow> pbind r (\<lambda>s. pret (if s = '''' then '''' else '' OFFSET '' @ s)))"

definition settings_part :: "(string \<times> string) list \<Rightarrow> string pr" where
  "settings_part st =
     pret (if st = [] then ''''
          else '' SETTINGS '' @ concat (map (\<lambda>(k, v). k @ ''='' @ v @ '' '') st))"

text \<open>\<open>WindowFunction.stringify\<close>; the caller ignores its error but not a panic.\<close>

definition stringify_part :: "string \<Rightarrow> string pr list \<Rightarrow> string pr" where
  "stringify_part prefix rs =
     (if rs = [] then pret ''''
      else pbind (collect rs) (\<lambda>ss. pret (prefix @ '' '' @ go_join '', '' ss @ '' '')))"

definition drop_error :: "string pr \<Rightarrow> string pr" where
  "drop_error r = (\<lambda>c. case r c of
     (Inl (Panic p), c') \<Rightarrow> (Inl (Panic p), c') | (Inl _, c') \<Rightarrow> (Inr '''', c') | (Inr s, c') \<Rightarrow> (Inr s, c'))"

definition window_str :: "string \<Rightarrow> string pr \<Rightarrow> string pr \<Rightarrow> bool \<Rightarrow> window_point \<Rightarrow>
    window_point \<Rightarrow> string pr" where
  "window_str alias partitionBy orderBy rows start stop =
     pbind (drop_error partitionBy) (\<lambda>p. pbind (drop_error orderBy) (\<lambda>o'.
       pret ((if alias = '''' then '''' else alias @ '' AS '') @ ''('' @ p @ o' @ '' '' @
            (if rows then ''ROWS'' else ''RANGE'') @ '' BETWEEN '' @ render_WindowPoint start @
            '' AND '' @ render_WindowPoint stop @ '')'')))"

text \<open>\<open>String\<close> of every object.\<close>

fun render :: "sql_opts \<Rightarrow> sqlobj \<Rightarrow> string pr"
and render_with :: "sql_opts \<Rightarrow> with_q \<Rightarrow> string pr"
and render_join :: "sql_opts \<Rightarrow> join \<Rightarrow> string pr"
and render_window :: "sql_opts \<Rightarrow> window \<Rightarrow> string pr"
and render_select :: "sql_opts \<Rightarrow> sel \<Rightarrow> string pr"
where
  "render opts (RawObject v) = pret v"
| "render opts (OrderBy col dir fill from till step stale) =
     pbind (render opts col) (\<lambda>str.
       pret (str @ '' '' @ (if dir = ORDER_BY_DIRECTION_ASC then ''asc'' else ''desc'') @ '' '' @
            with_fill_str fill from till step stale))"
| "render opts (WithObj w) = render_with opts w"
| "render opts (WithRef (With q alias)) =
     (if alias = '''' then perr (ErrMsg ''alias is empty'')
      else if STRING_OPT_INLINE_WITH \<in> set opts then
        pbind (render_select (filter (\<lambda>i. i \<noteq> WITH_REF_NO_ALIAS) opts) q) (\<lambda>str.
          pret (''('' @ str @ '')'' @
               (if WITH_REF_NO_ALIAS \<in> set opts then '''' else '' as '' @ alias)))
      else pret alias)"
| "render opts (JoinObj j) = render_join opts j"
| "render opts (LimitBy limit exprs) =
     pbind (render opts limit) (\<lambda>l.
       pbind (collect (map (render opts) exprs)) (\<lambda>es.
         pret (l @ '' BY '' @ go_join '', '' es)))"
| "render opts (CtxParam name def) =
     (\<lambda>c. case map_of (ctx_params c) name of
        None \<Rightarrow> (case def of None \<Rightarrow> perr (ErrMsg (''undefined parameter '' @ name)) c | Some d \<Rightarrow> pret d c)
      | Some f \<Rightarrow> (f opts, c))"
| "render opts (StringVal v) = pret (render_StringVal v)"
| "render opts (IntVal i) = pret (show_int i)"
| "render opts (BoolVal b) = pret (if b then ''true'' else ''false'')"
| "render opts (FloatVal f) = (\<lambda>c. pret (fmt_float c f) c)"
| "render opts (Col expr alias) =
     pbind (render (opts @ [WITH_REF_NO_ALIAS]) expr) (\<lambda>e.
       pret (if alias = '''' then e else e @ '' as '' @ alias))"
| "render opts (In left right) =
     pbind (collect (map (render opts) right)) (\<lambda>parts.
       pbind (render opts left) (\<lambda>str. pret (str @ '' IN ('' @ go_join '','' parts @ '')'')))"
| "render opts (CustomCol f) = f opts"
| "render opts (SqlExt fn newid optf args f) =
     pbind (collect (map (render (optf opts)) args)) (\<lambda>ss.
       if newid then pbind next_id (\<lambda>i. pret (f i ss)) else pret (f 0 ss))"
| "render opts (WindowObj w) = render_window opts w"
| "render opts (WindowFunctionRef w) =
     (if win_Alias w = '''' then render_window opts w else pret (win_Alias w))"
| "render opts (LogicalOp fn clauses) =
     pbind (collect (map (render opts) clauses)) (\<lambda>ss.
       pret (go_join ('' '' @ fn @ '' '') (map (\<lambda>s. ''('' @ s @ '')'') ss)))"
| "render opts (CNot e) = pbind (render opts e) (\<lambda>s. pret (''!('' @ s @ '')''))"
| "render opts (CNotNull e) = pbind (render opts e) (\<lambda>s. pret (s @ '' IS NOT NULL''))"
| "render opts (SelectObj s) = render_select opts s"
| "render_with opts (With q alias) =
     pbind (render_select opts q) (\<lambda>s. pret (alias @ '' as ('' @ s @ '')''))"
| "render_join opts (Join tp tbl on) =
     pbind (render opts tbl) (\<lambda>t.
       pbind (if to_lower tp \<noteq> ''array''
              then (case on of None \<Rightarrow> perr (Panic ''nil pointer dereference'')
                    | Some cond \<Rightarrow> pbind (render opts cond) (\<lambda>s. pret (''ON '' @ s)))
              else pret '''') (\<lambda>o'. pret (t @ '' '' @ o')))"
| "render_window opts (WindowFunction alias part ord rows start stop) =
     window_str alias (stringify_part ''PARTITION BY'' (map (render opts) part))
       (stringify_part ''ORDER BY'' (map (render opts) ord)) rows start stop"
| "render_select opts (Select dist cols from wh pre hav gby oby lim off withs joins wins st anothers) =
     pbind (with_part opts (map (render_with (opts @ [STRING_OPT_SKIP_WITH])) withs)) (\<lambda>r1.
     pbind (sel_part dist (map (render opts) cols)) (\<lambda>r2.
     pbind (from_part (map_option (render opts) from)
              (map (\<lambda>j. (j_tp j, render_join opts j)) joins)) (\<lambda>r3.
     pbind (cond_part '' PREWHERE '' (map_option (render opts) pre)) (\<lambda>r4.
     pbind (cond_part '' WHERE '' (map_option (render opts) wh)) (\<lambda>r5.
     pbind (list_part '' GROUP BY '' (map (render opts) gby)) (\<lambda>r6.
     pbind (cond_part '' HAVING '' (map_option (render opts) hav)) (\<lambda>r7.
     pbind (window_part (map (\<lambda>w. (win_Alias w, render_window opts w)) wins)) (\<lambda>r8.
     pbind (list_part '' ORDER BY '' (map (render opts) oby)) (\<lambda>r9.
     pbind (limit_part (map (render opts) lim)) (\<lambda>r10.
     pbind (offset_part (map_option (render opts) off)) (\<lambda>r11.
     pbind (settings_part st) (\<lambda>r12.
     pbind (collect (map (render_select opts) anothers)) (\<lambda>rs.
       pret (go_join '' UNION ALL ''
         ((r1 @ r2 @ r3 @ r4 @ r5 @ r6 @ r7 @ r8 @ r9 @ r10 @ r11 @ r12) # rs)))))))))))))))"


subsection \<open>The builder methods of \<open>Select\<close>\<close>

text \<open>Assignment to one field.\<close>

definition set_distinct :: "bool \<Rightarrow> sel \<Rightarrow> sel" where
  "set_distinct x s =
     Select x (s_columns s) (s_from s) (s_where s) (s_preWhere s) (s_having s) (s_groupBy s)
     (s_orderBy s) (s_limit s) (s_offset s) (s_withs s) (s_joins s) (s_windows s) (s_settings s) (s_anothers s)"

definition set_columns :: "sqlobj list \<Rightarrow> sel \<Rightarrow> sel" where
  "set_columns x s =
     Select (s_distinct s) x (s_from s) (s_where s) (s_preWhere s) (s_having s) (s_groupBy s)
     (s_orderBy s) (s_limit s) (s_offset s) (s_withs s) (s_joins s) (s_windows s) (s_settings s) (s_anothers s)"

definition set_from :: "sqlobj option \<Rightarrow> sel \<Rightarrow> sel" where
  "set_from x s =
     Select (s_distinct s) (s_columns s) x (s_where s) (s_preWhere s) (s_having s) (s_groupBy
     s) (s_orderBy s) (s_limit s) (s_offset s) (s_withs s) (s_joins s) (s_windows s)
     (s_settings s) (s_anothers s)"

definition set_where :: "sqlobj option \<Rightarrow> sel \<Rightarrow> sel" where
  "set_where x s =
     Select (s_distinct s) (s_columns s) (s_from s) x (s_preWhere s) (s_having s) (s_groupBy
     s) (s_orderBy s) (s_limit s) (s_offset s) (s_withs s) (s_joins s) (s_windows s)
     (s_settings s) (s_anothers s)"

definition set_preWhere :: "sqlobj option \<Rightarrow> sel \<Rightarrow> sel" where
  "set_preWhere x s =
     Select (s_distinct s) (s_columns s) (s_from s) (s_where s) x (s_having s) (s_groupBy s)
     (s_orderBy s) (s_limit s) (s_offset s) (s_withs s) (s_joins s) (s_windows s) (s_settings s) (s_anothers s)"

definition set_having :: "sqlobj option \<Rightarrow> sel \<Rightarrow> sel" where
  "set_having x s =
     Select (s_distinct s) (s_columns s) (s_from s) (s_where s) (s_preWhere s) x (s_groupBy
     s) (s_orderBy s) (s_limit s) (s_offset s) (s_withs s) (s_joins s) (s_windows s)
     (s_settings s) (s_anothers s)"

definition set_groupBy :: "sqlobj list \<Rightarrow> sel \<Rightarrow> sel" where
  "set_groupBy x s =
     Select (s_distinct s) (s_columns s) (s_from s) (s_where s) (s_preWhere s) (s_having s) x
     (s_orderBy s) (s_limit s) (s_offset s) (s_withs s) (s_joins s) (s_windows s) (s_settings s) (s_anothers s)"

definition set_orderBy :: "sqlobj list \<Rightarrow> sel \<Rightarrow> sel" where
  "set_orderBy x s =
     Select (s_distinct s) (s_columns s) (s_from s) (s_where s) (s_preWhere s) (s_having s)
     (s_groupBy s) x (s_limit s) (s_offset s) (s_withs s) (s_joins s) (s_windows s)
     (s_settings s) (s_anothers s)"

definition set_limit :: "sqlobj list \<Rightarrow> sel \<Rightarrow> sel" where
  "set_limit x s =
     Select (s_distinct s) (s_columns s) (s_from s) (s_where s) (s_preWhere s) (s_having s)
     (s_groupBy s) (s_orderBy s) x (s_offset s) (s_withs s) (s_joins s) (s_windows s)
     (s_settings s) (s_anothers s)"

definition set_offset :: "sqlobj option \<Rightarrow> sel \<Rightarrow> sel" where
  "set_offset x s =
     Select (s_distinct s) (s_columns s) (s_from s) (s_where s) (s_preWhere s) (s_having s)
     (s_groupBy s) (s_orderBy s) (s_limit s) x (s_withs s) (s_joins s) (s_windows s)
     (s_settings s) (s_anothers s)"

definition set_withs :: "with_q list \<Rightarrow> sel \<Rightarrow> sel" where
  "set_withs x s =
     Select (s_distinct s) (s_columns s) (s_from s) (s_where s) (s_preWhere s) (s_having s)
     (s_groupBy s) (s_orderBy s) (s_limit s) (s_offset s) x (s_joins s) (s_windows s)
     (s_settings s) (s_anothers s)"

definition set_joins :: "join list \<Rightarrow> sel \<Rightarrow> sel" where
  "set_joins x s =
     Select (s_distinct s) (s_columns s) (s_from s) (s_where s) (s_preWhere s) (s_having s)
     (s_groupBy s) (s_orderBy s) (s_limit s) (s_offset s) (s_withs s) x (s_windows s)
     (s_settings s) (s_anothers s)"

definition set_windows :: "window list \<Rightarrow> sel \<Rightarrow> sel" where
  "set_windows x s =
     Select (s_distinct s) (s_columns s) (s_from s) (s_where s) (s_preWhere s) (s_having s)
     (s_groupBy s) (s_orderBy s) (s_limit s) (s_offset s) (s_withs s) (s_joins s) x
     (s_settings s) (s_anothers s)"

definition set_settings :: "(string \<times> string) list \<Rightarrow> sel \<Rightarrow> sel" where
  "set_settings x s =
     Select (s_distinct s) (s_columns s) (s_from s) (s_where s) (s_preWhere s) (s_having s)
     (s_groupBy s) (s_orderBy s) (s_limit s) (s_offset s) (s_withs s) (s_joins s) (s_windows
     s) x (s_anothers s)"

lemma set_distinct_sel [simp]:
  "s_distinct (set_distinct x s) = x"
  "s_columns (set_distinct x s) = s_columns s"
  "s_from (set_distinct x s) = s_from s"
  "s_where (set_distinct x s) = s_where s"
  "s_preWhere (set_distinct x s) = s_preWhere s"
  "s_having (set_distinct x s) = s_having s"
  "s_groupBy (set_distinct x s) = s_groupBy s"
  "s_orderBy (set_distinct x s) = s_orderBy s"
  "s_limit (set_distinct x s) = s_limit s"
  "s_offset (set_distinct x s) = s_offset s"
  "s_withs (set_distinct x s) = s_withs s"
  "s_joins (set_distinct x s) = s_joins s"
  "s_windows (set_distinct x s) = s_windows s"
  "s_settings (set_distinct x s) = s_settings s"
  "s_anothers (set_distinct x s) = s_anothers s"
  by (simp_all add: set_distinct_def)

lemma set_columns_sel [simp]:
  "s_distinct (set_columns x s) = s_distinct s"
  "s_columns (set_columns x s) = x"
  "s_from (set_columns x s) = s_from s"
  "s_where (set_columns x s) = s_where s"
  "s_preWhere (set_columns x s) = s_preWhere s"
  "s_having (set_columns x s) = s_having s"
  "s_groupBy (set_columns x s) = s_groupBy s"
  "s_orderBy (set_columns x s) = s_orderBy s"
  "s_limit (set_columns x s) = s_limit s"
  "s_offset (set_columns x s) = s_offset s"
  "s_withs (set_columns x s) = s_withs s"
  "s_joins (set_columns x s) = s_joins s"
  "s_windows (set_columns x s) = s_windows s"
  "s_settings (set_columns x s) = s_settings s"
  "s_anothers (set_columns x s) = s_anothers s"
  by (simp_all add: set_columns_def)

lemma set_from_sel [simp]:
  "s_distinct (set_from x s) = s_distinct s"
  "s_columns (set_from x s) = s_columns s"
  "s_from (set_from x s) = x"
  "s_where (set_from x s) = s_where s"
  "s_preWhere (set_from x s) = s_preWhere s"
  "s_having (set_from x s) = s_having s"
  "s_groupBy (set_from x s) = s_groupBy s"
  "s_orderBy (set_from x s) = s_orderBy s"
  "s_limit (set_from x s) = s_limit s"
  "s_offset (set_from x s) = s_offset s"
  "s_withs (set_from x s) = s_withs s"
  "s_joins (set_from x s) = s_joins s"
  "s_windows (set_from x s) = s_windows s"
  "s_settings (set_from x s) = s_settings s"
  "s_anothers (set_from x s) = s_anothers s"
  by (simp_all add: set_from_def)

lemma set_where_sel [simp]:
  "s_distinct (set_where x s) = s_distinct s"
  "s_columns (set_where x s) = s_columns s"
  "s_from (set_where x s) = s_from s"
  "s_where (set_where x s) = x"
  "s_preWhere (set_where x s) = s_preWhere s"
  "s_having (set_where x s) = s_having s"
  "s_groupBy (set_where x s) = s_groupBy s"
  "s_orderBy (set_where x s) = s_orderBy s"
  "s_limit (set_where x s) = s_limit s"
  "s_offset (set_where x s) = s_offset s"
  "s_withs (set_where x s) = s_withs s"
  "s_joins (set_where x s) = s_joins s"
  "s_windows (set_where x s) = s_windows s"
  "s_settings (set_where x s) = s_settings s"
  "s_anothers (set_where x s) = s_anothers s"
  by (simp_all add: set_where_def)

lemma set_preWhere_sel [simp]:
  "s_distinct (set_preWhere x s) = s_distinct s"
  "s_columns (set_preWhere x s) = s_columns s"
  "s_from (set_preWhere x s) = s_from s"
  "s_where (set_preWhere x s) = s_where s"
  "s_preWhere (set_preWhere x s) = x"
  "s_having (set_preWhere x s) = s_having s"
  "s_groupBy (set_preWhere x s) = s_groupBy s"
  "s_orderBy (set_preWhere x s) = s_orderBy s"
  "s_limit (set_preWhere x s) = s_limit s"
  "s_offset (set_preWhere x s) = s_offset s"
  "s_withs (set_preWhere x s) = s_withs s"
  "s_joins (set_preWhere x s) = s_joins s"
  "s_windows (set_preWhere x s) = s_windows s"
  "s_settings (set_preWhere x s) = s_settings s"
  "s_anothers (set_preWhere x s) = s_anothers s"
  by (simp_all add: set_preWhere_def)

lemma set_having_sel [simp]:
  "s_distinct (set_having x s) = s_distinct s"
  "s_columns (set_having x s) = s_columns s"
  "s_from (set_having x s) = s_from s"
  "s_where (set_having x s) = s_where s"
  "s_preWhere (set_having x s) = s_preWhere s"
  "s_having (set_having x s) = x"
  "s_groupBy (set_having x s) = s_groupBy s"
  "s_orderBy (set_having x s) = s_orderBy s"
  "s_limit (set_having x s) = s_limit s"
  "s_offset (set_having x s) = s_offset s"
  "s_withs (set_having x s) = s_withs s"
  "s_joins (set_having x s) = s_joins s"
  "s_windows (set_having x s) = s_windows s"
  "s_settings (set_having x s) = s_settings s"
  "s_anothers (set_having x s) = s_anothers s"
  by (simp_all add: set_having_def)

lemma set_groupBy_sel [simp]:
  "s_distinct (set_groupBy x s) = s_distinct s"
  "s_columns (set_groupBy x s) = s_columns s"
  "s_from (set_groupBy x s) = s_from s"
  "s_where (set_groupBy x s) = s_where s"
  "s_preWhere (set_groupBy x s) = s_preWhere s"
  "s_having (set_groupBy x s) = s_having s"
  "s_groupBy (set_groupBy x s) = x"
  "s_orderBy (set_groupBy x s) = s_orderBy s"
  "s_limit (set_groupBy x s) = s_limit s"
  "s_offset (set_groupBy x s) = s_offset s"
  "s_withs (set_groupBy x s) = s_withs s"
  "s_joins (set_groupBy x s) = s_joins s"
  "s_windows (set_groupBy x s) = s_windows s"
  "s_settings (set_groupBy x s) = s_settings s"
  "s_anothers (set_groupBy x s) = s_anothers s"
  by (simp_all add: set_groupBy_def)

lemma set_orderBy_sel [simp]:
  "s_distinct (set_orderBy x s) = s_distinct s"
  "s_columns (set_orderBy x s) = s_columns s"
  "s_from (set_orderBy x s) = s_from s"
  "s_where (set_orderBy x s) = s_where s"
  "s_preWhere (set_orderBy x s) = s_preWhere s"
  "s_having (set_orderBy x s) = s_having s"
  "s_groupBy (set_orderBy x s) = s_groupBy s"
  "s_orderBy (set_orderBy x s) = x"
  "s_limit (set_orderBy x s) = s_limit s"
  "s_offset (set_orderBy x s) = s_offset s"
  "s_withs (set_orderBy x s) = s_withs s"
  "s_joins (set_orderBy x s) = s_joins s"
  "s_windows (set_orderBy x s) = s_windows s"
  "s_settings (set_orderBy x s) = s_settings s"
  "s_anothers (set_orderBy x s) = s_anothers s"
  by (simp_all add: set_orderBy_def)

lemma set_limit_sel [simp]:
  "s_distinct (set_limit x s) = s_distinct s"
  "s_columns (set_limit x s) = s_columns s"
  "s_from (set_limit x s) = s_from s"
  "s_where (set_limit x s) = s_where s"
  "s_preWhere (set_limit x s) = s_preWhere s"
  "s_having (set_limit x s) = s_having s"
  "s_groupBy (set_limit x s) = s_groupBy s"
  "s_orderBy (set_limit x s) = s_orderBy s"
  "s_limit (set_limit x s) = x"
  "s_offset (set_limit x s) = s_offset s"
  "s_withs (set_limit x s) = s_withs s"
  "s_joins (set_limit x s) = s_joins s"
  "s_windows (set_limit x s) = s_windows s"
  "s_settings (set_limit x s) = s_settings s"
  "s_anothers (set_limit x s) = s_anothers s"
  by (simp_all add: set_limit_def)

lemma set_offset_sel [simp]:
  "s_distinct (set_offset x s) = s_distinct s"
  "s_columns (set_offset x s) = s_columns s"
  "s_from (set_offset x s) = s_from s"
  "s_where (set_offset x s) = s_where s"
  "s_preWhere (set_offset x s) = s_preWhere s"
  "s_having (set_offset x s) = s_having s"
  "s_groupBy (set_offset x s) = s_groupBy s"
  "s_orderBy (set_offset x s) = s_orderBy s"
  "s_limit (set_offset x s) = s_limit s"
  "s_offset (set_offset x s) = x"
  "s_withs (set_offset x s) = s_withs s"
  "s_joins (set_offset x s) = s_joins s"
  "s_windows (set_offset x s) = s_windows s"
  "s_settings (set_offset x s) = s_settings s"
  "s_anothers (set_offset x s) = s_anothers s"
  by (simp_all add: set_offset_def)

lemma set_withs_sel [simp]:
  "s_distinct (set_withs x s) = s_distinct s"
  "s_columns (set_withs x s) = s_columns s"
  "s_from (set_withs x s) = s_from s"
  "s_where (set_withs x s) = s_where s"
  "s_preWhere (set_withs x s) = s_preWhere s"
  "s_having (set_withs x s) = s_having s"
  "s_groupBy (set_withs x s) = s_groupBy s"
  "s_orderBy (set_withs x s) = s_orderBy s"
  "s_limit (set_withs x s) = s_limit s"
  "s_offset (set_withs x s) = s_offset s"
  "s_withs (set_withs x s) = x"
  "s_joins (set_withs x s) = s_joins s"
  "s_windows (set_withs x s) = s_windows s"
  "s_settings (set_withs x s) = s_settings s"
  "s_anothers (set_withs x s) = s_anothers s"
  by (simp_all add: set_withs_def)

lemma set_joins_sel [simp]:
  "s_distinct (set_joins x s) = s_distinct s"
  "s_columns (set_joins x s) = s_columns s"
  "s_from (set_joins x s) = s_from s"
  "s_where (set_joins x s) = s_where s"
  "s_preWhere (set_joins x s) = s_preWhere s"
  "s_having (set_joins x s) = s_having s"
  "s_groupBy (set_joins x s) = s_groupBy s"
  "s_orderBy (set_joins x s) = s_orderBy s"
  "s_limit (set_joins x s) = s_limit s"
  "s_offset (set_joins x s) = s_offset s"
  "s_withs (set_joins x s) = s_withs s"
  "s_joins (set_joins x s) = x"
  "s_windows (set_joins x s) = s_windows s"
  "s_settings (set_joins x s) = s_settings s"
  "s_anothers (set_joins x s) = s_anothers s"
  by (simp_all add: set_joins_def)

lemma set_windows_sel [simp]:
  "s_distinct (set_windows x s) = s_distinct s"
  "s_columns (set_windows x s) = s_columns s"
  "s_from (set_windows x s) = s_from s"
  "s_where (set_windows x s) = s_where s"
  "s_preWhere (set_windows x s) = s_preWhere s"
  "s_having (set_windows x s) = s_having s"
  "s_groupBy (set_windows x s) = s_groupBy s"
  "s_orderBy (set_windows x s) = s_orderBy s"
  "s_limit (set_windows x s) = s_limit s"
  "s_offset (set_windows x s) = s_offset s"
  "s_withs (set_windows x s) = s_withs s"
  "s_joins (set_windows x s) = s_joins s"
  "s_windows (set_windows x s) = x"
  "s_settings (set_windows x s) = s_settings s"
  "s_anothers (set_windows x s) = s_anothers s"
  by (simp_all add: set_windows_def)

lemma set_settings_sel [simp]:
  "s_distinct (set_settings x s) = s_distinct s"
  "s_columns (set_settings x s) = s_columns s"
  "s_from (set_settings x s) = s_from s"
  "s_where (set_settings x s) = s_where s"
  "s_preWhere (set_settings x s) = s_preWhere s"
  "s_having (set_settings x s) = s_having s"
  "s_groupBy (set_settings x s) = s_groupBy s"
  "s_orderBy (set_settings x s) = s_orderBy s"
  "s_limit (set_settings x s) = s_limit s"
  "s_offset (set_settings x s) = s_offset s"
  "s_withs (set_settings x s) = s_withs s"
  "s_joins (set_settings x s) = s_joins s"
  "s_windows (set_settings x s) = s_windows s"
  "s_settings (set_settings x s) = x"
  "s_anothers (set_settings x s) = s_anothers s"
  by (simp_all add: set_settings_def)

definition sel_Distinct :: "bool \<Rightarrow> sel \<Rightarrow> sel" where
  "sel_Distinct b s = set_distinct b s"

definition sel_Select :: "sqlobj list \<Rightarrow> sel \<Rightarrow> sel" where
  "sel_Select cols s = set_columns cols s"

definition sel_From :: "sqlobj \<Rightarrow> sel \<Rightarrow> sel" where
  "sel_From t s = set_from (Some t) s"

definition sel_SetSetting :: "string \<Rightarrow> string \<Rightarrow> sel \<Rightarrow> sel" where
  "sel_SetSetting k v s = set_settings (map_put k v (s_settings s)) s"

text \<open>\<open>And\<close>, \<open>Or\<close> and the two-operand conditions of condition.go.\<close>

definition NewGenericLogicalOp :: "string \<Rightarrow> sqlobj list \<Rightarrow> sqlobj" where
  "NewGenericLogicalOp fn clauses = LogicalOp fn clauses"

definition sql_And :: "sqlobj list \<Rightarrow> sqlobj" where
  "sql_And clauses = NewGenericLogicalOp ''and'' clauses"

definition sql_Or :: "sqlobj list \<Rightarrow> sqlobj" where
  "sql_Or clauses = NewGenericLogicalOp ''or'' clauses"

definition BinaryLogicalOp :: "string \<Rightarrow> sqlobj \<Rightarrow> sqlobj \<Rightarrow> sqlobj" where
  "BinaryLogicalOp fn l r = LogicalOp fn [l, r]"

definition sql_Eq :: "sqlobj \<Rightarrow> sqlobj \<Rightarrow> sqlobj" where "sql_Eq l r = BinaryLogicalOp ''=='' l r"
definition sql_Neq :: "sqlobj \<Rightarrow> sqlobj \<Rightarrow> sqlobj" where "sql_Neq l r = BinaryLogicalOp ''!='' l r"
definition sql_Lt :: "sqlobj \<Rightarrow> sqlobj \<Rightarrow> sqlobj" where "sql_Lt l r = BinaryLogicalOp ''<'' l r"
definition sql_Le :: "sqlobj \<Rightarrow> sqlobj \<Rightarrow> sqlobj" where "sql_Le l r = BinaryLogicalOp ''<='' l r"
definition sql_Gt :: "sqlobj \<Rightarrow> sqlobj \<Rightarrow> sqlobj" where "sql_Gt l r = BinaryLogicalOp ''>'' l r"
definition sql_Ge :: "sqlobj \<Rightarrow> sqlobj \<Rightarrow> sqlobj" where "sql_Ge l r = BinaryLogicalOp ''>='' l r"

lemmas sql_cond_defs =
  NewGenericLogicalOp_def sql_And_def sql_Or_def BinaryLogicalOp_def
  sql_Eq_def sql_Neq_def sql_Lt_def sql_Le_def sql_Gt_def sql_Ge_def

text \<open>\<open>GetFunction\<close> of the objects that are conditions; other objects have no such method.\<close>

fun GetFunction :: "sqlobj \<Rightarrow> string" where
  "GetFunction (LogicalOp fn cs) = fn"
| "GetFunction (CNot e) = ''NOT''"
| "GetFunction (CNotNull e) = ''IS NOT NULL''"
| "GetFunction (In l r) = ''IN''"
| "GetFunction (SqlExt fn newid optf args f) = fn"
| "GetFunction _ = ''''"

text \<open>\<open>AppendEntity\<close> on a \<open>LogicalOp\<close>; it is called on nothing else.\<close>

fun AppendEntity :: "sqlobj \<Rightarrow> sqlobj list \<Rightarrow> sqlobj" where
  "AppendEntity (LogicalOp fn cs) clauses = LogicalOp fn (cs @ clauses)"
| "AppendEntity x clauses = x"

fun is_LogicalOp :: "sqlobj \<Rightarrow> bool" where
  "is_LogicalOp (LogicalOp fn cs) = True"
| "is_LogicalOp _ = False"

text \<open>\<open>GetEntity\<close> of the conditions.\<close>

fun GetEntity :: "sqlobj \<Rightarrow> sqlobj list" where
  "GetEntity (LogicalOp fn cs) = cs"
| "GetEntity (CNot e) = [e]"
| "GetEntity (CNotNull e) = [e]"
| "GetEntity (In l r) = l # r"
| "GetEntity _ = []"

text \<open>The remaining constructors of condition.go and objects.go.\<close>

definition sql_Not :: "sqlobj \<Rightarrow> sqlobj" where
  "sql_Not expr = CNot expr"

definition sql_NotNull :: "sqlobj \<Rightarrow> sqlobj" where
  "sql_NotNull obj = CNotNull obj"

definition NewRawObject :: "string \<Rightarrow> sqlobj" where
  "NewRawObject val = RawObject val"

definition NewOrderBy :: "sqlobj \<Rightarrow> int \<Rightarrow> sqlobj" where
  "NewOrderBy col direction = OrderBy col direction False None 0 0 None"

fun order_WithFill :: "int \<Rightarrow> int \<Rightarrow> int \<Rightarrow> sqlobj \<Rightarrow> sqlobj" where
  "order_WithFill lo till step (OrderBy col dir fill from' till' step' stale) =
     OrderBy col dir True (Some lo) till step stale"
| "order_WithFill lo till step x = x"

fun order_WithFillStaleness :: "int \<Rightarrow> int \<Rightarrow> int \<Rightarrow> sqlobj \<Rightarrow> sqlobj" where
  "order_WithFillStaleness till step staleness (OrderBy col dir fill from' till' step' stale) =
     OrderBy col dir True None till step (Some staleness)"
| "order_WithFillStaleness till step staleness x = x"

definition NewWith :: "sel \<Rightarrow> string \<Rightarrow> with_q" where
  "NewWith query al = With query al"

definition NewWithRef :: "with_q \<Rightarrow> sqlobj" where
  "NewWithRef ref = WithRef ref"

definition NewJoin :: "string \<Rightarrow> sqlobj \<Rightarrow> sqlobj option \<Rightarrow> join" where
  "NewJoin tp table on = Join tp table on"

definition NewLimitBy :: "sqlobj \<Rightarrow> sqlobj list \<Rightarrow> sqlobj" where
  "NewLimitBy limit exprs = LimitBy limit exprs"

definition NewCtxParam :: "string \<Rightarrow> string option \<Rightarrow> sqlobj" where
  "NewCtxParam name def = CtxParam name def"

definition NewCtxParamOrDef :: "string \<Rightarrow> string \<Rightarrow> sqlobj" where
  "NewCtxParamOrDef name def = CtxParam name (Some def)"

definition NewCol :: "sqlobj \<Rightarrow> string \<Rightarrow> sqlobj" where
  "NewCol expr al = Col expr al"

definition NewSimpleCol :: "string \<Rightarrow> string \<Rightarrow> sqlobj" where
  "NewSimpleCol name al = Col (NewRawObject name) al"

definition NewIn :: "sqlobj \<Rightarrow> sqlobj list \<Rightarrow> sqlobj" where
  "NewIn left right = In left right"

definition sel_AndWhere :: "sqlobj list \<Rightarrow> sel \<Rightarrow> sel" where
  "sel_AndWhere clauses s =
     (case s_where s of
        None \<Rightarrow> set_where (Some (sql_And clauses)) s
      | Some w \<Rightarrow>
          if is_LogicalOp w \<and> GetFunction w = ''and'' then set_where (Some (AppendEntity w clauses)) s
          else set_where (Some (sql_And (w # clauses))) s)"

definition sel_OrWhere :: "sqlobj list \<Rightarrow> sel \<Rightarrow> sel" where
  "sel_OrWhere clauses s =
     (case s_where s of
        None \<Rightarrow> set_where (Some (sql_Or clauses)) s
      | Some w \<Rightarrow>
          if is_LogicalOp w \<and> GetFunction w = ''or'' then set_where (Some (AppendEntity w clauses)) s
          else set_where (Some (sql_Or (w # clauses))) s)"

text \<open>
  \<open>AndPreWhere\<close> allocates \<open>len(clauses)\<close> slots and writes \<open>len(clauses) + 1\<close> of them in its
  last branch, so that branch always panics.
\<close>

definition sel_AndPreWhere :: "sqlobj list \<Rightarrow> sel \<Rightarrow> sel res" where
  "sel_AndPreWhere clauses s =
     (case s_preWhere s of
        None \<Rightarrow> Inr (set_preWhere (Some (sql_And clauses)) s)
      | Some w \<Rightarrow>
          if is_LogicalOp w \<and> GetFunction w = ''and''
          then Inr (set_preWhere (Some (AppendEntity w clauses)) s)
          else Inl (Panic ''index out of range''))"

text \<open>\<open>OrPreWhere\<close> builds the new list in its last branch and returns without storing it.\<close>

definition sel_OrPreWhere :: "sqlobj list \<Rightarrow> sel \<Rightarrow> sel" where
  "sel_OrPreWhere clauses s =
     (case s_preWhere s of
        None \<Rightarrow> set_preWhere (Some (sql_Or clauses)) s
      | Some w \<Rightarrow>
          if is_LogicalOp w \<and> GetFunction w = ''or''
          then set_preWhere (Some (AppendEntity w clauses)) s
          else s)"

definition sel_AndHaving :: "sqlobj list \<Rightarrow> sel \<Rightarrow> sel" where
  "sel_AndHaving clauses s =
     (case s_having s of
        None \<Rightarrow> set_having (Some (sql_And clauses)) s
      | Some w \<Rightarrow>
          if is_LogicalOp w \<and> GetFunction w = ''and'' then set_having (Some (AppendEntity w clauses)) s
          else set_having (Some (sql_And (w # clauses))) s)"

text \<open>
  \<open>OrHaving\<close> asks the \<open>WHERE\<close> condition, not the \<open>HAVING\<close> one, for its function; a nil
  \<open>WHERE\<close> makes that call panic.
\<close>

definition sel_OrHaving :: "sqlobj list \<Rightarrow> sel \<Rightarrow> sel res" where
  "sel_OrHaving clauses s =
     (case s_having s of
        None \<Rightarrow> Inr (set_having (Some (sql_Or clauses)) s)
      | Some h \<Rightarrow>
          if is_LogicalOp h then
            (case s_where s of
               None \<Rightarrow> Inl (Panic ''nil pointer dereference'')
             | Some w \<Rightarrow>
                 if GetFunction w = ''or'' then Inr (set_having (Some (AppendEntity h clauses)) s)
                 else Inr (set_having (Some (sql_Or (h # clauses))) s))
          else Inr (set_having (Some (sql_Or (h # clauses))) s))"

definition sel_SetHaving :: "sqlobj option \<Rightarrow> sel \<Rightarrow> sel" where
  "sel_SetHaving h s = set_having h s"

definition sel_GroupBy :: "sqlobj list \<Rightarrow> sel \<Rightarrow> sel" where
  "sel_GroupBy fs s = set_groupBy fs s"

definition sel_OrderBy :: "sqlobj list \<Rightarrow> sel \<Rightarrow> sel" where
  "sel_OrderBy fs s = set_orderBy fs s"

definition sel_Limit :: "sqlobj list \<Rightarrow> sel \<Rightarrow> sel" where
  "sel_Limit l s = set_limit l s"

definition sel_AddLimit :: "sqlobj list \<Rightarrow> sel \<Rightarrow> sel" where
  "sel_AddLimit l s = set_limit (s_limit s @ l) s"

definition sel_GetLimit :: "sel \<Rightarrow> sqlobj option" where
  "sel_GetLimit s = (case s_limit s of [] \<Rightarrow> None | l # _ \<Rightarrow> Some l)"

definition sel_Offset :: "sqlobj option \<Rightarrow> sel \<Rightarrow> sel" where
  "sel_Offset off s = set_offset off s"

text \<open>
  \<open>AddWith\<close>: a query whose alias is taken is skipped; otherwise the queries it depends on
  are added first, then the query itself.
\<close>

fun add_withs :: "with_q list \<Rightarrow> with_q list \<Rightarrow> with_q list" where
  "add_withs [] acc = acc"
| "add_withs (With (Select d cs f wh pw h g ob l off deps js wins st an) alias # ws) acc =
     (if list_ex (\<lambda>x. w_alias x = alias) acc then add_withs ws acc
      else add_withs ws
        (add_withs deps acc @ [With (Select d cs f wh pw h g ob l off deps js wins st an) alias]))"

definition sel_With :: "with_q list \<Rightarrow> sel \<Rightarrow> sel" where
  "sel_With ws s = set_withs (add_withs ws []) s"

definition sel_AddWith :: "with_q list \<Rightarrow> sel \<Rightarrow> sel" where
  "sel_AddWith ws s = set_withs (add_withs ws (s_withs s)) s"

definition sel_DropWith :: "string list \<Rightarrow> sel \<Rightarrow> sel" where
  "sel_DropWith aliases s =
     set_withs (filter (\<lambda>w. w_alias w \<notin> set aliases) (s_withs s)) s"

definition sel_Join :: "join list \<Rightarrow> sel \<Rightarrow> sel" where
  "sel_Join js s = set_joins js s"

definition sel_AddJoin :: "join list \<Rightarrow> sel \<Rightarrow> sel" where
  "sel_AddJoin js s = set_joins (s_joins s @ js) s"

definition sel_AddWindows :: "window list \<Rightarrow> sel \<Rightarrow> sel" where
  "sel_AddWindows ws s = set_windows (s_windows s @ ws) s"

definition sel_SetWindows :: "window list \<Rightarrow> sel \<Rightarrow> sel" where
  "sel_SetWindows ws s = set_windows ws s"

end
