(* ===== verification/Sql_Select_Correct.thy ===== *)
theory Sql_Select_Correct
  imports Sql_Select
begin

section \<open>Correctness of the SQL builder\<close>

text \<open>
  What the planners rely on: a string value is printed as a literal that every reader of the
  documented syntax reads back as exactly that string (no injection); the clause
  builders mean conjunction and disjunction; the \<open>WITH\<close> list is kept in dependency order;
  a well-formed object always prints.
\<close>

subsection \<open>String literals\<close>

text \<open>
  ClickHouse's lexer is not part of the repository. A reader \<open>rd\<close> takes the text after the
  opening quote of a literal and gives the value and the text after the closing quote;
  \<open>reads_literals rd\<close> is the documented syntax of string literals: a quote ends the literal
  unless another quote follows, two quotes stand for one, a backslash starts an escape from the
  documented list or \<open>xHH\<close>, and every other byte stands for itself.
\<close>

definition escape_codes :: "(char \<times> char) list" where
  "escape_codes =
     [(CHR 0x5C, CHR 0x5C), (CHR 0x27, CHR 0x27), (CHR ''0'', CHR 0x00), (CHR ''n'', CHR 0x0A), (CHR ''r'', CHR 0x0D),
      (CHR ''b'', CHR 0x08), (CHR ''t'', CHR 0x09), (CHR ''a'', CHR 0x07), (CHR ''f'', CHR 0x0C), (CHR ''v'', CHR 0x0B)]"

definition hex_val :: "char \<Rightarrow> nat option" where
  "hex_val c =
     (let n = of_char c in
      if 48 \<le> n \<and> n \<le> 57 then Some (n - 48)
      else if 97 \<le> n \<and> n \<le> 102 then Some (n - 87)
      else if 65 \<le> n \<and> n \<le> 70 then Some (n - 55) else None)"

definition reads_literals :: "(string \<Rightarrow> (string \<times> string) option) \<Rightarrow> bool" where
  "reads_literals rd \<longleftrightarrow>
     rd [CHR 0x27] = Some ([], []) \<and>
     (\<forall>c cs. c \<noteq> CHR 0x27 \<longrightarrow> rd (CHR 0x27 # c # cs) = Some ([], c # cs)) \<and>
     (\<forall>cs. rd (CHR 0x27 # CHR 0x27 # cs) = map_option (apfst (Cons (CHR 0x27))) (rd cs)) \<and>
     (\<forall>c cs. c \<noteq> CHR 0x27 \<and> c \<noteq> CHR 0x5C \<longrightarrow> rd (c # cs) = map_option (apfst (Cons c)) (rd cs)) \<and>
     (\<forall>e x cs. (e, x) \<in> set escape_codes \<longrightarrow> rd (CHR 0x5C # e # cs) = map_option (apfst (Cons x)) (rd cs)) \<and>
     (\<forall>h1 h2 a b cs. hex_val h1 = Some a \<and> hex_val h2 = Some b \<longrightarrow>
        rd (CHR 0x5C # CHR ''x'' # h1 # h2 # cs) = map_option (apfst (Cons (char_of (16 * a + b)))) (rd cs))"

definition escape_body :: "string \<Rightarrow> string" where
  "escape_body s = fold (\<lambda>(c, r) s. replace_byte c r s) escape_pairs s"

lemma escape_body_Nil [simp]: "escape_body [] = []"
  by (simp add: escape_body_def escape_pairs_def)

lemma escape_body_Cons: "escape_body (x # xs) = escape_body [x] @ escape_body xs"
proof -
  have "escape_body ([x] @ xs) = escape_body [x] @ escape_body xs"
    unfolding escape_body_def escape_pairs_def
    by (simp only: fold_simps prod.case id_apply comp_apply replace_byte_append)
  then show ?thesis by simp
qed

lemma escape_body_byte:
  "escape_body [x] = (case map_of escape_pairs x of None \<Rightarrow> [x] | Some r \<Rightarrow> r)"
  by (simp add: escape_body_def escape_pairs_def)

lemma char_of_0x1A [simp]: "char_of (26::nat) = CHR 0x1A"
  by code_simp

lemma read_escape_byte:
  assumes "reads_literals rd"
  shows "rd (escape_body [x] @ cs) = map_option (apfst (Cons x)) (rd cs)"
proof (cases "map_of escape_pairs x")
  case None
  then have "x \<noteq> CHR 0x27" "x \<noteq> CHR 0x5C" by (auto simp: escape_pairs_def)
  with None assms show ?thesis by (simp add: escape_body_byte reads_literals_def)
next
  case (Some r)
  have esc: "(e, x) \<in> set escape_codes \<Longrightarrow> rd (CHR 0x5C # e # cs) = map_option (apfst (Cons x)) (rd cs)" for e
    using assms unfolding reads_literals_def by blast
  have "hex_val CHR ''1'' = Some 1" "hex_val CHR ''a'' = Some 10" by code_simp+
  then have hex: "rd (CHR 0x5C # CHR ''x'' # CHR ''1'' # CHR ''a'' # cs) = map_option (apfst (Cons (char_of (16 * 1 + 10 :: nat)))) (rd cs)"
    using assms unfolding reads_literals_def by blast
  from Some have "x \<in> {CHR 0x5C, CHR 0x00, CHR 0x0A, CHR 0x0D, CHR 0x08, CHR 0x09, CHR 0x1A, CHR 0x27}"
    by (auto simp: escape_pairs_def split: if_splits)
  then show ?thesis
    using esc hex by (elim insertE emptyE) (simp_all add: escape_body_byte escape_pairs_def escape_codes_def)
qed

lemma read_escape_body:
  assumes "reads_literals rd" "rest = [] \<or> hd rest \<noteq> CHR 0x27"
  shows "rd (escape_body v @ CHR 0x27 # rest) = Some (v, rest)"
proof (induction v)
  case Nil
  show ?case using assms by (cases rest) (simp_all add: reads_literals_def)
next
  case (Cons x xs)
  have "escape_body (x # xs) @ CHR 0x27 # rest = escape_body [x] @ (escape_body xs @ CHR 0x27 # rest)"
    by (subst escape_body_Cons) simp
  then show ?case using Cons read_escape_byte [OF assms(1), of x] by simp
qed

text \<open>A reader with these laws, for the witness.\<close>

fun example_reader :: "string \<Rightarrow> (string \<times> string) option" where
  "example_reader [] = None"
| "example_reader (c # cs) =
     (if c = CHR 0x27 then
        (case cs of
           d # ds \<Rightarrow> if d = CHR 0x27 then map_option (apfst (Cons d)) (example_reader ds) else Some ([], cs)
         | [] \<Rightarrow> Some ([], []))
      else if c \<noteq> CHR 0x5C then map_option (apfst (Cons c)) (example_reader cs)
      else (case cs of
              CHR ''x'' # h1 # h2 # ds \<Rightarrow>
                (case (hex_val h1, hex_val h2) of
                   (Some a, Some b) \<Rightarrow> map_option (apfst (Cons (char_of (16 * a + b)))) (example_reader ds)
                 | _ \<Rightarrow> None)
            | e # ds \<Rightarrow> map_option (apfst (Cons (case map_of escape_codes e of Some x \<Rightarrow> x | None \<Rightarrow> e))) (example_reader ds)
            | [] \<Rightarrow> None))"

lemma example_reader_laws: "reads_literals example_reader"
  unfolding reads_literals_def by (auto simp: escape_codes_def)

text \<open>
  C12: a string value is printed as one literal. Every reader with the documented laws of
  ClickHouse's literals reads from the printed text, followed by any text that does not begin
  with a quote, exactly that value, and leaves the text after it. User input that reaches a
  query through \<open>StringVal\<close> therefore cannot end the literal early.
\<close>

theorem StringVal_roundtrip:
  assumes "reads_literals rd" "render opts (StringVal v) c = (Inr lit, c')" "rest = [] \<or> hd rest \<noteq> CHR 0x27"
  shows "\<exists>body. lit = CHR 0x27 # body \<and> rd (body @ rest) = Some (v, rest)"
  using read_escape_body [OF assms(1,3), of v] assms(2) by (auto simp: pret_def render_StringVal_def escape_body_def)

theorem StringVal_roundtrip_witness:
  "\<exists>body. render_StringVal ''a' OR 1'' = CHR 0x27 # body \<and>
     example_reader (body @ '' LIMIT 1'') = Some (''a' OR 1'', '' LIMIT 1'')"
  by (rule StringVal_roundtrip [OF example_reader_laws, where opts = "[]" and c = "DefaultCtx (\<lambda>_. [])"])
     (simp_all add: pret_def)

subsection \<open>Clauses as conditions\<close>

text \<open>
  The meaning of a condition over a valuation \<open>v\<close> of its atoms: \<open>and\<close> and \<open>or\<close> nodes
  are conjunction and disjunction, \<open>CNot\<close> is negation, everything else is an atom.
\<close>

fun cond_holds :: "(sqlobj \<Rightarrow> bool) \<Rightarrow> sqlobj \<Rightarrow> bool" where
  "cond_holds v (LogicalOp fn cs) =
     (if fn = ''and'' then list_all (cond_holds v) cs
      else if fn = ''or'' then list_ex (cond_holds v) cs
      else v (LogicalOp fn cs))"
| "cond_holds v (CNot e) = (\<not> cond_holds v e)"
| "cond_holds v x = v x"

definition clause_holds :: "(sqlobj \<Rightarrow> bool) \<Rightarrow> sqlobj option \<Rightarrow> bool" where
  "clause_holds v c = (case c of None \<Rightarrow> True | Some x \<Rightarrow> cond_holds v x)"

definition clause_denies :: "(sqlobj \<Rightarrow> bool) \<Rightarrow> sqlobj option \<Rightarrow> bool" where
  "clause_denies v c = (case c of None \<Rightarrow> True | Some x \<Rightarrow> \<not> cond_holds v x)"

lemma is_LogicalOpE:
  assumes "is_LogicalOp w"
  obtains fn cs where "w = LogicalOp fn cs"
  using assms by (cases w) auto

lemma cond_holds_And [simp]: "cond_holds v (sql_And cs) = list_all (cond_holds v) cs"
  by (simp add: sql_cond_defs)

lemma cond_holds_Or [simp]: "cond_holds v (sql_Or cs) = list_ex (cond_holds v) cs"
  by (simp add: sql_cond_defs)

lemma cond_holds_append_and:
  "is_LogicalOp w \<Longrightarrow> GetFunction w = ''and'' \<Longrightarrow>
     cond_holds v (AppendEntity w cs) = (cond_holds v w \<and> list_all (cond_holds v) cs)"
  by (auto elim!: is_LogicalOpE)

lemma cond_holds_append_or:
  "is_LogicalOp w \<Longrightarrow> GetFunction w = ''or'' \<Longrightarrow>
     cond_holds v (AppendEntity w cs) = (cond_holds v w \<or> list_ex (cond_holds v) cs)"
  by (auto elim!: is_LogicalOpE)

text \<open>
  The contract of a clause builder: \<open>get\<close> reads the clause of a query, \<open>add\<close> strengthens it.
  A planner that adds conditions batch by batch gets the conjunction of all of them.
\<close>

locale conjunctive_clause =
  fixes get :: "sel \<Rightarrow> sqlobj option"
    and add :: "sqlobj list \<Rightarrow> sel \<Rightarrow> sel"
  assumes add_holds: "clause_holds v (get (add cs s)) = (clause_holds v (get s) \<and> list_all (cond_holds v) cs)"
begin

lemma adds_hold:
  "clause_holds v (get (fold add css s)) =
     (clause_holds v (get s) \<and> list_all (list_all (cond_holds v)) css)"
proof (induction css arbitrary: s)
  case Nil
  show ?case by simp
next
  case (Cons cs css)
  show ?case by (simp add: Cons.IH add_holds conj_assoc)
qed

lemma adds_order:
  "mset css = mset css' \<Longrightarrow>
     clause_holds v (get (fold add css s)) = clause_holds v (get (fold add css' s))"
  by (simp add: adds_hold list_all_iff flip: set_mset_mset)

end

lemma AndWhere_holds:
  "clause_holds v (s_where (sel_AndWhere cs s)) =
     (clause_holds v (s_where s) \<and> list_all (cond_holds v) cs)"
  by (auto simp: sel_AndWhere_def clause_holds_def cond_holds_append_and split: option.splits)

lemma AndHaving_holds:
  "clause_holds v (s_having (sel_AndHaving cs s)) =
     (clause_holds v (s_having s) \<and> list_all (cond_holds v) cs)"
  by (auto simp: sel_AndHaving_def clause_holds_def cond_holds_append_and split: option.splits)

interpretation where_clause: conjunctive_clause s_where sel_AndWhere
  by unfold_locales (rule AndWhere_holds)

interpretation having_clause: conjunctive_clause s_having sel_AndHaving
  by unfold_locales (rule AndHaving_holds)

text \<open>
  conditions added to the \<open>WHERE\<close> clause by any sequence of \<open>AndWhere\<close> calls hold
  together: the clause means what it meant before and every added condition; so does the
  \<open>HAVING\<close> clause under \<open>AndHaving\<close>.
\<close>

theorem AndWhere_conjunction:
  "clause_holds v (s_where (fold sel_AndWhere css s)) =
     (clause_holds v (s_where s) \<and> (\<forall>cs\<in>set css. \<forall>c\<in>set cs. cond_holds v c)) \<and>
   clause_holds v (s_having (fold sel_AndHaving css s)) =
     (clause_holds v (s_having s) \<and> (\<forall>cs\<in>set css. \<forall>c\<in>set cs. cond_holds v c))"
  by (simp add: where_clause.adds_hold having_clause.adds_hold list_all_iff)

theorem AndWhere_conjunction_witness:
  "\<not> clause_holds (\<lambda>x. x = RawObject ''a'')
       (s_where (fold sel_AndWhere [[RawObject ''a''], [RawObject ''b'']] NewSelect))"
  using AndWhere_conjunction [of "\<lambda>x. x = RawObject ''a''" "[[RawObject ''a''], [RawObject ''b'']]" NewSelect]
  by simp

text \<open>
  \<open>OrWhere\<close> weakens the \<open>WHERE\<close> clause to the disjunction of what it was (nothing, when
  there was no clause yet) and the added conditions.
\<close>

theorem OrWhere_disjunction:
  "clause_holds v (s_where (sel_OrWhere cs s)) =
     ((case s_where s of None \<Rightarrow> False | Some w \<Rightarrow> cond_holds v w) \<or> list_ex (cond_holds v) cs)"
  by (auto simp: sel_OrWhere_def clause_holds_def cond_holds_append_or split: option.splits)

text \<open>
  what \<open>OrHaving\<close> does to an existing \<open>HAVING\<close> operation \<open>h\<close>. It means disjunction when
  \<open>h\<close> and the \<open>WHERE\<close> condition that the method inspects agree on being an \<open>or\<close>; it panics
  when there is no \<open>WHERE\<close> condition; and it conjoins instead when the \<open>WHERE\<close> condition is
  an \<open>or\<close> and \<open>h\<close> an \<open>and\<close>.
\<close>

theorem OrHaving_behaviour:
  assumes "s_having s = Some h" and "is_LogicalOp h"
  shows "case s_where s of
           None \<Rightarrow> sel_OrHaving cs s = Inl (Panic ''nil pointer dereference'')
         | Some w \<Rightarrow> \<exists>s'. sel_OrHaving cs s = Inr s' \<and>
             ((GetFunction w = ''or'') = (GetFunction h = ''or'') \<longrightarrow>
                clause_holds v (s_having s') = (cond_holds v h \<or> list_ex (cond_holds v) cs)) \<and>
             (GetFunction w = ''or'' \<and> GetFunction h = ''and'' \<longrightarrow>
                clause_holds v (s_having s') = (cond_holds v h \<and> list_all (cond_holds v) cs))"
  using assms
  by (auto simp: sel_OrHaving_def clause_holds_def cond_holds_append_or cond_holds_append_and
      split: option.splits)

theorem OrHaving_behaviour_witness:
  "\<exists>s'. sel_OrHaving [RawObject ''b'']
          (set_having (Some (sql_And [RawObject ''a''])) (set_where (Some (sql_Or [])) NewSelect)) = Inr s' \<and>
        \<not> clause_holds (\<lambda>x. x = RawObject ''a'') (s_having s')"
  using OrHaving_behaviour [of "set_having (Some (sql_And [RawObject ''a''])) (set_where (Some (sql_Or [])) NewSelect)"
      "sql_And [RawObject ''a'']" "[RawObject ''b'']" "\<lambda>x. x = RawObject ''a''"]
  by (auto simp: sql_cond_defs)

text \<open>
  \<open>AndPreWhere\<close> adds conjunctively while the clause is empty or an \<open>and\<close>, and panics on
  any other \<open>PREWHERE\<close> condition; \<open>OrPreWhere\<close> silently drops its argument on an existing
  condition that is not an \<open>or\<close>.
\<close>

theorem PreWhere_behaviour:
  "(case s_preWhere s of
      None \<Rightarrow> \<exists>s'. sel_AndPreWhere cs s = Inr s' \<and>
                clause_holds v (s_preWhere s') = list_all (cond_holds v) cs
    | Some w \<Rightarrow>
        if is_LogicalOp w \<and> GetFunction w = ''and''
        then \<exists>s'. sel_AndPreWhere cs s = Inr s' \<and>
               clause_holds v (s_preWhere s') = (cond_holds v w \<and> list_all (cond_holds v) cs)
        else sel_AndPreWhere cs s = Inl (Panic ''index out of range'')) \<and>
   (case s_preWhere s of
      None \<Rightarrow> clause_holds v (s_preWhere (sel_OrPreWhere cs s)) = list_ex (cond_holds v) cs
    | Some w \<Rightarrow>
        if is_LogicalOp w \<and> GetFunction w = ''or''
        then clause_holds v (s_preWhere (sel_OrPreWhere cs s)) = (cond_holds v w \<or> list_ex (cond_holds v) cs)
        else sel_OrPreWhere cs s = s)"
  by (auto simp: sel_AndPreWhere_def sel_OrPreWhere_def clause_holds_def cond_holds_append_and
      cond_holds_append_or split: option.splits)

subsection \<open>The WITH list\<close>

text \<open>
  ClickHouse reads the \<open>WITH\<close> list from left to right, so a query must come after the
  queries it refers to. \<open>with_ordered\<close> says so of a list.
\<close>

definition aliases :: "with_q list \<Rightarrow> string set" where
  "aliases ws = w_alias ` set ws"

definition deps :: "with_q \<Rightarrow> with_q list" where
  "deps w = s_withs (w_query w)"

definition with_ordered :: "with_q list \<Rightarrow> bool" where
  "with_ordered ws \<longleftrightarrow>
     (\<forall>i<length ws. aliases (deps (ws ! i)) \<subseteq> aliases (take i ws))"

lemma aliases_simps [simp]:
  "aliases [] = {}" "aliases (w # ws) = insert (w_alias w) (aliases ws)"
  "aliases (xs @ ys) = aliases xs \<union> aliases ys"
  by (auto simp: aliases_def)

lemma add_withs_Cons:
  "add_withs (w # ws) acc =
     (if w_alias w \<in> aliases acc then add_withs ws acc
      else add_withs ws (add_withs (deps w) acc @ [w]))"
proof (cases w)
  case (With q al)
  then show ?thesis by (cases q) (auto simp: deps_def aliases_def list_ex_iff)
qed

lemma add_withs_induct [case_names Nil Cons]:
  assumes "\<And>acc. P [] acc"
    and "\<And>w ws acc. (w_alias w \<in> aliases acc \<Longrightarrow> P ws acc) \<Longrightarrow>
      (w_alias w \<notin> aliases acc \<Longrightarrow> P (deps w) acc) \<Longrightarrow>
      (w_alias w \<notin> aliases acc \<Longrightarrow> P ws (add_withs (deps w) acc @ [w])) \<Longrightarrow> P (w # ws) acc"
  shows "P ws acc"
proof (induction ws acc rule: add_withs.induct)
  case (1 acc)
  then show ?case using assms(1) .
next
  case (2 d cs f wh pw h g ob l off ds js wins st al ws acc)
  then show ?case
    by (intro assms(2)) (auto simp: deps_def aliases_def list_ex_iff)
qed

lemma add_withs_prefix: "\<exists>zs. add_withs ws acc = acc @ zs"
proof (induction ws acc rule: add_withs_induct)
  case (Cons w ws acc)
  then show ?case by (cases "w_alias w \<in> aliases acc") (auto simp: add_withs_Cons)
qed simp

lemma add_withs_aliases: "aliases acc \<union> aliases ws \<subseteq> aliases (add_withs ws acc)"
proof (induction ws acc rule: add_withs_induct)
  case (Cons w ws acc)
  then show ?case
    by (cases "w_alias w \<in> aliases acc") (auto simp: add_withs_Cons)
qed simp

lemma with_ordered_snoc:
  "with_ordered (ws @ [w]) \<longleftrightarrow> with_ordered ws \<and> aliases (deps w) \<subseteq> aliases ws"
  by (auto simp: with_ordered_def nth_append less_Suc_eq)

lemma add_withs_ordered: "with_ordered acc \<Longrightarrow> with_ordered (add_withs ws acc)"
proof (induction ws acc rule: add_withs_induct)
  case (Cons w ws acc)
  show ?case
  proof (cases "w_alias w \<in> aliases acc")
    case True
    with Cons show ?thesis by (simp add: add_withs_Cons)
  next
    case False
    with Cons have "with_ordered (add_withs (deps w) acc)" by simp
    moreover have "aliases (deps w) \<subseteq> aliases (add_withs (deps w) acc)"
      using add_withs_aliases [of acc "deps w"] by simp
    ultimately have "with_ordered (add_withs (deps w) acc @ [w])"
      by (simp add: with_ordered_snoc)
    with Cons False show ?thesis by (simp add: add_withs_Cons)
  qed
qed simp

text \<open>
  C32: adding queries to the \<open>WITH\<close> list keeps what was there as a prefix, makes every
  added alias available, and keeps the list in dependency order: every query of it comes
  after all the queries its own \<open>WITH\<close> list names.
\<close>

theorem AddWith_dependency_order:
  assumes "with_ordered (s_withs s)"
  shows "with_ordered (s_withs (sel_AddWith ws s)) \<and>
         aliases ws \<subseteq> aliases (s_withs (sel_AddWith ws s)) \<and>
         (\<exists>zs. s_withs (sel_AddWith ws s) = s_withs s @ zs)"
  using assms add_withs_ordered [of "s_withs s" ws] add_withs_aliases [of "s_withs s" ws]
    add_withs_prefix [of ws "s_withs s"]
  by (auto simp: sel_AddWith_def)

theorem AddWith_dependency_order_witness:
  "with_ordered (s_withs (sel_AddWith
     [With (sel_AddWith [With NewSelect ''a''] NewSelect) ''b''] NewSelect))"
  using AddWith_dependency_order [of NewSelect "[With (sel_AddWith [With NewSelect ''a''] NewSelect) ''b'']"]
  by (simp add: with_ordered_def NewSelect_def)

text \<open>
  Two queries of one list never share an alias, unless a query nests its own alias:
  \<open>all_aliases\<close> collects the aliases a list reaches, \<open>self_free\<close> says that no query of it
  reaches its own.
\<close>

function all_aliases :: "with_q list \<Rightarrow> string set" where
  "all_aliases [] = {}"
| "all_aliases (w # ws) = insert (w_alias w) (all_aliases (deps w) \<union> all_aliases ws)"
  by pat_completeness auto

lemma size_deps: "size_list size (deps w) < size w"
proof (cases w)
  case (With q al)
  then show ?thesis by (cases q) (simp add: deps_def)
qed

termination all_aliases
  by (relation "measure (size_list size)") (auto intro: less_le_trans [OF size_deps])

function self_free :: "with_q list \<Rightarrow> bool" where
  "self_free [] = True"
| "self_free (w # ws) = (w_alias w \<notin> all_aliases (deps w) \<and> self_free (deps w) \<and> self_free ws)"
  by pat_completeness auto
termination
  by (relation "measure (size_list size)") (auto intro: less_le_trans [OF size_deps])

lemma add_withs_aliases_upper: "aliases (add_withs ws acc) \<subseteq> aliases acc \<union> all_aliases ws"
proof (induction ws acc rule: add_withs_induct)
  case (Cons w ws acc)
  then show ?case
    by (cases "w_alias w \<in> aliases acc") (fastforce simp: add_withs_Cons)+
qed simp

lemma add_withs_distinct:
  "distinct (map w_alias acc) \<Longrightarrow> self_free ws \<Longrightarrow> distinct (map w_alias (add_withs ws acc))"
proof (induction ws acc rule: add_withs_induct)
  case (Cons w ws acc)
  show ?case
  proof (cases "w_alias w \<in> aliases acc")
    case True
    with Cons show ?thesis by (simp add: add_withs_Cons)
  next
    case False
    with Cons.prems have "w_alias w \<notin> aliases (add_withs (deps w) acc)"
      using add_withs_aliases_upper [of "deps w" acc] by auto
    with Cons False show ?thesis by (simp add: add_withs_Cons aliases_def)
  qed
qed simp

text \<open>
  a \<open>WITH\<close> list with distinct aliases stays so under \<open>AddWith\<close>, provided that no
  added query reaches its own alias through the lists nested in it.
\<close>

theorem AddWith_distinct_aliases:
  assumes "distinct (map w_alias (s_withs s))" and "self_free ws"
  shows "distinct (map w_alias (s_withs (sel_AddWith ws s)))"
  using add_withs_distinct [OF assms] by (simp add: sel_AddWith_def)

theorem AddWith_distinct_aliases_witness:
  "distinct (map w_alias (s_withs (sel_AddWith
     [With NewSelect ''a'', With (sel_AddWith [With NewSelect ''a''] NewSelect) ''b''] NewSelect)))"
  using AddWith_distinct_aliases [of NewSelect
      "[With NewSelect ''a'', With (sel_AddWith [With NewSelect ''a''] NewSelect) ''b'']"]
  by (simp add: NewSelect_def deps_def sel_AddWith_def set_withs_def)

subsection \<open>Printing never fails on well-formed objects\<close>

text \<open>
  What a planner has to provide so that its query prints: every \<open>SELECT\<close> has columns, every
  reference to a \<open>WITH\<close> query has an alias, every join but an array join has a condition,
  and every context parameter has no value in the context and has a default. Closures are excluded: nothing is
  known of what they return.
\<close>

fun wf_obj :: "sql_ctx \<Rightarrow> sqlobj \<Rightarrow> bool"
and wf_with :: "sql_ctx \<Rightarrow> with_q \<Rightarrow> bool"
and wf_join :: "sql_ctx \<Rightarrow> join \<Rightarrow> bool"
and wf_window :: "sql_ctx \<Rightarrow> window \<Rightarrow> bool"
and wf_sel :: "sql_ctx \<Rightarrow> sel \<Rightarrow> bool"
where
  "wf_obj c (OrderBy col d fill from till step stale) = wf_obj c col"
| "wf_obj c (WithObj w) = wf_with c w"
| "wf_obj c (WithRef w) = (w_alias w \<noteq> '''' \<and> wf_with c w)"
| "wf_obj c (JoinObj j) = wf_join c j"
| "wf_obj c (LimitBy l es) = (wf_obj c l \<and> list_all (wf_obj c) es)"
| "wf_obj c (CtxParam name def) = (map_of (ctx_params c) name = None \<and> def \<noteq> None)"
| "wf_obj c (Col e a) = wf_obj c e"
| "wf_obj c (In l r) = (wf_obj c l \<and> list_all (wf_obj c) r)"
| "wf_obj c (CustomCol f) = False"
| "wf_obj c (SqlExt fn newid optf args f) = list_all (wf_obj c) args"
| "wf_obj c (WindowObj w) = wf_window c w"
| "wf_obj c (WindowFunctionRef w) = wf_window c w"
| "wf_obj c (LogicalOp fn cs) = list_all (wf_obj c) cs"
| "wf_obj c (CNot e) = wf_obj c e"
| "wf_obj c (CNotNull e) = wf_obj c e"
| "wf_obj c (SelectObj s) = wf_sel c s"
| "wf_obj c _ = True"
| "wf_with c (With q a) = wf_sel c q"
| "wf_join c (Join tp t on) =
     (wf_obj c t \<and> (to_lower tp = ''array'' \<or> on \<noteq> None) \<and> list_all (wf_obj c) (case on of None \<Rightarrow> [] | Some x \<Rightarrow> [x]))"
| "wf_window c (WindowFunction a p ob r st stop) = (list_all (wf_obj c) p \<and> list_all (wf_obj c) ob)"
| "wf_sel c (Select dist cols from wh pre hav gby oby lim off withs joins wins st an) =
     (cols \<noteq> [] \<and> list_all (wf_obj c) cols \<and> pred_option (wf_obj c) from \<and>
      pred_option (wf_obj c) wh \<and> pred_option (wf_obj c) pre \<and> pred_option (wf_obj c) hav \<and>
      list_all (wf_obj c) gby \<and> list_all (wf_obj c) oby \<and> list_all (wf_obj c) lim \<and>
      pred_option (wf_obj c) off \<and> list_all (wf_with c) withs \<and> list_all (wf_join c) joins \<and>
      list_all (wf_window c) wins \<and> list_all (wf_sel c) an)"

text \<open>Printing that succeeds in every context with the parameters of \<open>c\<close>, and keeps those.\<close>

definition prints :: "sql_ctx \<Rightarrow> 'a pr \<Rightarrow> bool" where
  "prints c m \<longleftrightarrow>
     (\<forall>d. ctx_params d = ctx_params c \<longrightarrow> (\<exists>s d'. m d = (Inr s, d') \<and> ctx_params d' = ctx_params c))"

lemma prints_pret [simp]: "prints c (pret s)"
  by (simp add: prints_def pret_def)

lemma printsE:
  assumes "prints c m" "ctx_params d = ctx_params c"
  obtains s d' where "m d = (Inr s, d')" "ctx_params d' = ctx_params c"
  using assms by (auto simp: prints_def)

lemma prints_pbind [intro]:
  assumes "prints c m" "\<And>s. prints c (f s)"
  shows "prints c (pbind m f)"
  unfolding prints_def
proof (intro allI impI)
  fix d :: sql_ctx assume "ctx_params d = ctx_params c"
  then obtain s d' where m: "m d = (Inr s, d')" "ctx_params d' = ctx_params c"
    using assms(1) by (elim printsE)
  obtain t d'' where "f s d' = (Inr t, d'')" "ctx_params d'' = ctx_params c"
    using assms(2) [of s] m(2) by (elim printsE)
  with m show "\<exists>s d'. pbind m f d = (Inr s, d') \<and> ctx_params d' = ctx_params c"
    by (simp add: pbind_def)
qed

lemma pbind_pret_eq:
  "pbind m (\<lambda>s. pret (f s)) d = (Inr t, d') \<longleftrightarrow> (\<exists>s. m d = (Inr s, d') \<and> f s = t)"
  by (cases "m d") (auto simp: pbind_def pret_def split: sum.splits)

lemma prints_pbind_pretD: "prints c (pbind m (\<lambda>s. pret (f s))) \<Longrightarrow> prints c m"
  unfolding prints_def pbind_pret_eq by blast

lemma prints_next_id [simp]: "prints c next_id"
  by (simp add: prints_def next_id_def ctx_Id_def Let_def)

lemma prints_collect: "list_all (prints c) rs \<Longrightarrow> prints c (collect rs)"
  unfolding collect_def by (induction rs) (auto intro!: prints_pbind)

lemma prints_parts:
  "list_all (prints c) ws \<Longrightarrow> prints c (with_part opts ws)"
  "cols \<noteq> [] \<Longrightarrow> list_all (prints c) cols \<Longrightarrow> prints c (sel_part d cols)"
  "pred_option (prints c) fr \<Longrightarrow> list_all (\<lambda>(tp, r). prints c r) js \<Longrightarrow> prints c (from_part fr js)"
  "pred_option (prints c) x \<Longrightarrow> prints c (cond_part kw x)"
  "list_all (prints c) rs \<Longrightarrow> prints c (list_part kw rs)"
  "list_all (\<lambda>(a, r). prints c r) wins \<Longrightarrow> prints c (window_part wins)"
  "list_all (prints c) rs \<Longrightarrow> prints c (limit_part rs)"
  "pred_option (prints c) x \<Longrightarrow> prints c (offset_part x)"
  "prints c (settings_part st)"
  "list_all (prints c) rs \<Longrightarrow> prints c (stringify_part kw rs)"
  by (auto simp: with_part_def sel_part_def from_part_def cond_part_def list_part_def
      window_part_def limit_part_def offset_part_def settings_part_def stringify_part_def
      list_all_iff split: option.splits intro!: prints_collect prints_pbind)

lemma prints_drop_error: "prints c p \<Longrightarrow> prints c (drop_error p)"
  unfolding prints_def drop_error_def by fastforce

lemma prints_window_str: "prints c p \<Longrightarrow> prints c q \<Longrightarrow> prints c (window_str a p q r st en)"
  unfolding window_str_def by (intro prints_pbind prints_drop_error prints_pret)

lemma prints_CtxParam:
  "map_of (ctx_params c) name = None \<Longrightarrow> prints c (render opts (CtxParam name (Some d)))"
  by (simp add: prints_def pret_def)

lemma prints_FloatVal: "prints c (render opts (FloatVal f))"
  by (simp add: prints_def pret_def)

lemma render_prints:
  "wf_obj c x \<Longrightarrow> prints c (render opts x)"
  "wf_with c w \<Longrightarrow> prints c (render_with opts w)"
  "wf_join c j \<Longrightarrow> prints c (render_join opts j)"
  "wf_window c n \<Longrightarrow> prints c (render_window opts n)"
  "wf_sel c s \<Longrightarrow> prints c (render_select opts s)"
proof (induction x and w and j and n and s arbitrary: opts and opts and opts and opts and opts)
  case (WithRef w)
  obtain q al where w: "w = With q al" by (cases w)
  have "prints c (render_select o' q)" for o'
    by (rule prints_pbind_pretD [where f = "\<lambda>s. al @ '' as ('' @ s @ '')''"]) (use WithRef w in simp)
  with WithRef w show ?case by auto
next
  case (WindowFunctionRef w)
  then show ?case by (cases w) auto
next
  case (Join tp t on)
  then show ?case
    by (cases on) (auto intro!: prints_pbind)
next
  case (Select dist cols fr wh pre hav gby oby lim off withs joins wins st an)
  show ?case
    unfolding render_select.simps
    by (intro prints_pbind prints_parts prints_collect prints_pret)
       (use Select in \<open>auto simp: list_all_iff option.pred_set\<close>)
next
  case (CtxParam name def)
  then show ?case using prints_CtxParam by fastforce
next
  case (FloatVal f)
  show ?case by (rule prints_FloatVal)
next
  case (SqlExt fn newid optf args f)
  then have "prints c (collect (map (render (optf opts)) args))"
    by (intro prints_collect) (auto simp: list_all_iff)
  then show ?case by (auto intro!: prints_pbind)
qed (auto simp: list_all_iff intro!: prints_pbind prints_collect prints_window_str prints_parts
       split: option.splits)

text \<open>
  C33: every well-formed object prints, under every combination of printing options: no method
  of the package returns an error or panics on it. Well-formed (\<open>wf_obj\<close>) means, at every depth:
  every \<open>SELECT\<close> has at least one column, every reference to a \<open>WITH\<close> query has a non-empty
  alias, every join but an array join has a condition, every context parameter is unset in the
  context and has a default, and no column is a bare closure (\<open>CustomCol\<close>).
\<close>

theorem render_total: "wf_obj c x \<Longrightarrow> \<exists>s c'. render opts x c = (Inr s, c')"
  using render_prints(1) [of c x opts] by (auto simp: prints_def)

theorem render_total_witness:
  "\<exists>s c'. render [STRING_OPT_INLINE_WITH]
     (SelectObj (sel_From (WithRef (With (sel_Select [IntVal 1] NewSelect) ''a''))
        (sel_Select [RawObject ''b''] NewSelect))) (DefaultCtx (\<lambda>_. [])) = (Inr s, c')"
  by (rule render_total)
     (simp add: DefaultCtx_def sel_From_def sel_Select_def set_from_def set_columns_def NewSelect_def)

end
