(* ===== verification/City_Hash.thy ===== *)
theory City_Hash
  imports Gp_Prelude
begin

section \<open>CityHash 1.0.2, the reader's copy (reader/utils/cityhash102)\<close>

text \<open>
  The hash behind series fingerprints and profile identifiers, at the width of the source:
  \<open>uint64\<close> is \<open>64 word\<close>, \<open>uint32\<close> lengths and indices are \<open>32 word\<close>, a byte slice is a list
  of \<open>8 word\<close>. Reading outside a slice panics in Go; here it is \<open>None\<close>, so that a result
  \<open>Some h\<close> says that no access was out of range. A shift by 64 or more gives 0, as in Go.
\<close>

type_synonym bytes = "8 word list"
type_synonym u64 = "64 word"
type_synonym u32 = "32 word"
type_synonym Uint128 = "u64 \<times> u64"

definition k0 :: u64 where "k0 = 0xc3a5c85c97cb3127"
definition k1 :: u64 where "k1 = 0xb492b66fbe98f273"
definition k2 :: u64 where "k2 = 0x9ae16a3b2f90404f"
definition k3 :: u64 where "k3 = 0xc949d7c7509e6557"
definition kMul :: u64 where "kMul = 0x9ddfea08eb382d69"

text \<open>Slicing \<open>s[i:]\<close> and little-endian reads of a slice's first bytes.\<close>

definition slice_from :: "bytes \<Rightarrow> u32 \<Rightarrow> bytes option" where
  "slice_from s i = (if unat i \<le> length s then Some (drop (unat i) s) else None)"

definition index_at :: "bytes \<Rightarrow> u32 \<Rightarrow> 8 word option" where
  "index_at s i = (if unat i < length s then Some (s ! unat i) else None)"

definition le_bytes :: "bytes \<Rightarrow> 'a::len word" where
  "le_bytes p = foldr (\<lambda>b acc. ucast b OR push_bit 8 acc) p 0"

definition fetch64 :: "bytes \<Rightarrow> u64 option" where
  "fetch64 p = (if length p < 8 then None else Some (le_bytes (take 8 p)))"

definition fetch32 :: "bytes \<Rightarrow> u32 option" where
  "fetch32 p = (if length p < 4 then None else Some (le_bytes (take 4 p)))"

definition fetch64_at :: "bytes \<Rightarrow> u32 \<Rightarrow> u64 option" where
  "fetch64_at s i = do { t \<leftarrow> slice_from s i; fetch64 t }"

definition rotate64 :: "u64 \<Rightarrow> u32 \<Rightarrow> u64" where
  "rotate64 val shift =
     (if shift \<noteq> 0 then drop_bit (unat shift) val OR push_bit (unat (64 - shift)) val else val)"

definition swap64 :: "u64 \<times> u64 \<Rightarrow> u64 \<times> u64" where
  "swap64 p = (snd p, fst p)"

definition rotate64ByAtLeast1 :: "u64 \<Rightarrow> u32 \<Rightarrow> u64" where
  "rotate64ByAtLeast1 val shift = drop_bit (unat shift) val OR push_bit (unat (64 - shift)) val"

definition shiftMix :: "u64 \<Rightarrow> u64" where
  "shiftMix val = val XOR drop_bit 47 val"

definition Lower64 :: "Uint128 \<Rightarrow> u64" where "Lower64 u = fst u"
definition Higher64 :: "Uint128 \<Rightarrow> u64" where "Higher64 u = snd u"
definition setLower64 :: "u64 \<Rightarrow> Uint128 \<Rightarrow> Uint128" where "setLower64 l u = (l, snd u)"
definition setHigher64 :: "u64 \<Rightarrow> Uint128 \<Rightarrow> Uint128" where "setHigher64 h u = (fst u, h)"

text \<open>\<open>Uint128.Bytes\<close>: both halves in little-endian order.\<close>

definition put64 :: "u64 \<Rightarrow> bytes" where
  "put64 v = map (\<lambda>i. ucast (drop_bit (8 * i) v)) [0..<8]"

definition Uint128_Bytes :: "Uint128 \<Rightarrow> bytes" where
  "Uint128_Bytes u = put64 (fst u) @ put64 (snd u)"

definition hash128to64 :: "Uint128 \<Rightarrow> u64" where
  "hash128to64 x =
     (let a = (Lower64 x XOR Higher64 x) * kMul;
          a = a XOR drop_bit 47 a;
          b = (Higher64 x XOR a) * kMul;
          b = b XOR drop_bit 47 b
      in b * kMul)"

definition hashLen16 :: "u64 \<Rightarrow> u64 \<Rightarrow> u64" where
  "hashLen16 u v = hash128to64 (u, v)"

definition hashLen0to16 :: "bytes \<Rightarrow> u32 \<Rightarrow> u64 option" where
  "hashLen0to16 s length' =
     (if 8 < length' then do {
        a \<leftarrow> fetch64 s;
        b \<leftarrow> fetch64_at s (length' - 8);
        Some (hashLen16 a (rotate64ByAtLeast1 (b + ucast length') length') XOR b)
      }
      else if 4 \<le> length' then do {
        a \<leftarrow> fetch32 s;
        t \<leftarrow> slice_from s (length' - 4);
        b \<leftarrow> fetch32 t;
        Some (hashLen16 (ucast length' + push_bit 3 (ucast a)) (ucast b))
      }
      else if 0 < length' then do {
        a \<leftarrow> index_at s 0;
        b \<leftarrow> index_at s (drop_bit 1 length');
        c \<leftarrow> index_at s (length' - 1);
        let y = (ucast a :: u32) + push_bit 8 (ucast b);
        let z = length' + push_bit 2 (ucast c);
        Some (shiftMix (ucast y * k2 XOR ucast z * k3) * k2)
      }
      else Some k2)"

definition hashLen17to32 :: "bytes \<Rightarrow> u32 \<Rightarrow> u64 option" where
  "hashLen17to32 s length' = do {
     a0 \<leftarrow> fetch64 s;
     b \<leftarrow> fetch64_at s 8;
     c0 \<leftarrow> fetch64_at s (length' - 8);
     d0 \<leftarrow> fetch64_at s (length' - 16);
     let a = a0 * k1;
     let c = c0 * k2;
     let d = d0 * k0;
     Some (hashLen16 (rotate64 (a - b) 43 + rotate64 c 30 + d)
             (a + rotate64 (b XOR k3) 20 - c + ucast length'))
   }"

definition weakHashLen32WithSeeds ::
    "u64 \<Rightarrow> u64 \<Rightarrow> u64 \<Rightarrow> u64 \<Rightarrow> u64 \<Rightarrow> u64 \<Rightarrow> Uint128" where
  "weakHashLen32WithSeeds w x y z a b =
     (let a = a + w;
          b = rotate64 (b + a + z) 21;
          c = a;
          a = a + x;
          a = a + y;
          b = b + rotate64 a 44
      in (a + z, b + c))"

definition weakHashLen32WithSeeds_3 :: "bytes \<Rightarrow> u64 \<Rightarrow> u64 \<Rightarrow> Uint128 option" where
  "weakHashLen32WithSeeds_3 s a b = do {
     w \<leftarrow> fetch64 s;
     x \<leftarrow> fetch64_at s 8;
     y \<leftarrow> fetch64_at s 16;
     z \<leftarrow> fetch64_at s 24;
     Some (weakHashLen32WithSeeds w x y z a b)
   }"

definition hashLen33to64 :: "bytes \<Rightarrow> u32 \<Rightarrow> u64 option" where
  "hashLen33to64 s length' = do {
     z \<leftarrow> fetch64_at s 24;
     s0 \<leftarrow> fetch64 s;
     e16 \<leftarrow> fetch64_at s (length' - 16);
     let a = s0 + (ucast length' + e16) * k0;
     let b = rotate64 (a + z) 52;
     let c = rotate64 a 37;
     s8 \<leftarrow> fetch64_at s 8;
     let a = a + s8;
     let c = c + rotate64 a 7;
     s16 \<leftarrow> fetch64_at s 16;
     let a = a + s16;
     let vf = a + z;
     let vs = b + rotate64 a 31 + c;
     e32 \<leftarrow> fetch64_at s (length' - 32);
     let a = s16 + e32;
     z \<leftarrow> fetch64_at s (length' - 8);
     let b = rotate64 (a + z) 52;
     let c = rotate64 a 37;
     e24 \<leftarrow> fetch64_at s (length' - 24);
     let a = a + e24;
     let c = c + rotate64 a 7;
     let a = a + e16;
     let wf = a + z;
     let ws = b + rotate64 a 31 + c;
     let r = shiftMix ((vf + ws) * k2 + (wf + vs) * k0);
     Some (shiftMix (r * k0 + vs) * k2)
   }"

text \<open>
  The 64 bytes mixed per round by \<open>CityHash64\<close> and \<open>CityHash128WithSeed\<close>: the state is
  \<open>x, y, z, v, w\<close>.
\<close>

type_synonym city_state = "u64 \<times> u64 \<times> u64 \<times> Uint128 \<times> Uint128"

definition city_round :: "bytes \<Rightarrow> city_state \<Rightarrow> city_state option" where
  "city_round s st = (case st of (x, y, z, v, w) \<Rightarrow> do {
     s16 \<leftarrow> fetch64_at s 16;
     let x = rotate64 (x + y + Lower64 v + s16) 37 * k1;
     s48 \<leftarrow> fetch64_at s 48;
     let y = rotate64 (y + Higher64 v + s48) 42 * k1;
     let x = x XOR Higher64 w;
     let y = y XOR Lower64 v;
     let z = rotate64 (z XOR Lower64 w) 33;
     v \<leftarrow> weakHashLen32WithSeeds_3 s (Higher64 v * k1) (x + Lower64 w);
     s32 \<leftarrow> slice_from s 32;
     w \<leftarrow> weakHashLen32WithSeeds_3 s32 (z + Higher64 w) y;
     Some (case swap64 (z, x) of (z, x) \<Rightarrow> (x, y, z, v, w))
   })"

lemma slice_from_shorter: "slice_from s i = Some t \<Longrightarrow> i \<noteq> 0 \<Longrightarrow> 0 < length s \<Longrightarrow> length t < length s"
  by (auto simp: slice_from_def unat_gt_0 split: if_splits)

lemma slice_from_length: "slice_from s i = Some t \<Longrightarrow> length t = length s - unat i \<and> unat i \<le> length s"
  by (auto simp: slice_from_def split: if_splits)

function city64_loop :: "bytes \<Rightarrow> u32 \<Rightarrow> city_state \<Rightarrow> city_state option" where
  "city64_loop s length' st = do {
     st \<leftarrow> city_round s st;
     s \<leftarrow> slice_from s 64;
     let length' = length' - 64;
     (if length' = 0 then Some st else city64_loop s length' st)
   }"
  by pat_completeness auto
termination
  by (relation "measure (\<lambda>(s, l, st). length s)") (auto dest: slice_from_length)

declare city64_loop.simps [simp del]

definition CityHash64 :: "bytes \<Rightarrow> u32 \<Rightarrow> u64 option" where
  "CityHash64 s length' =
     (if length' \<le> 32 then
        (if length' \<le> 16 then hashLen0to16 s length' else hashLen17to32 s length')
      else if length' \<le> 64 then hashLen33to64 s length'
      else do {
        x \<leftarrow> fetch64 s;
        y0 \<leftarrow> fetch64_at s (length' - 16);
        let y = y0 XOR k1;
        z0 \<leftarrow> fetch64_at s (length' - 56);
        let z = z0 XOR k0;
        t64 \<leftarrow> slice_from s (length' - 64);
        v \<leftarrow> weakHashLen32WithSeeds_3 t64 (ucast length') y;
        t32 \<leftarrow> slice_from s (length' - 32);
        w \<leftarrow> weakHashLen32WithSeeds_3 t32 (ucast length' * k1) k0;
        let z = z + shiftMix (Higher64 v) * k1;
        let x = rotate64 (z + x) 39 * k1;
        let y = rotate64 y 33 * k1;
        (x, y, z, v, w) \<leftarrow> city64_loop s ((length' - 1) AND NOT 63) (x, y, z, v, w);
        Some (hashLen16 (hashLen16 (Lower64 v) (Lower64 w) + shiftMix y * k1 + z)
                (hashLen16 (Higher64 v) (Higher64 w) + x))
      })"

definition CityHash64WithSeeds :: "bytes \<Rightarrow> u32 \<Rightarrow> u64 \<Rightarrow> u64 \<Rightarrow> u64 option" where
  "CityHash64WithSeeds s length' seed0 seed1 = do {
     h \<leftarrow> CityHash64 s length';
     Some (hashLen16 (h - seed0) seed1)
   }"

definition CityHash64WithSeed :: "bytes \<Rightarrow> u32 \<Rightarrow> u64 \<Rightarrow> u64 option" where
  "CityHash64WithSeed s length' seed = CityHash64WithSeeds s length' k2 seed"

text \<open>
  The loop of \<open>cityMurmur\<close> over 16-byte blocks; \<open>l\<close> is the \<open>int32\<close> \<open>int32(length) - 16\<close>.
\<close>

function murmur_loop :: "bytes \<Rightarrow> u32 \<Rightarrow> u64 \<Rightarrow> u64 \<Rightarrow> u64 \<Rightarrow> u64 \<Rightarrow> (u64 \<times> u64 \<times> u64 \<times> u64) option" where
  "murmur_loop s l a b c d = do {
     f0 \<leftarrow> fetch64 s;
     let a = a XOR shiftMix (f0 * k1) * k1;
     let a = a * k1;
     let b = b XOR a;
     f8 \<leftarrow> fetch64_at s 8;
     let c = c XOR shiftMix (f8 * k1) * k1;
     let c = c * k1;
     let d = d XOR c;
     s \<leftarrow> slice_from s 16;
     let l = l - 16;
     (if sint l \<le> 0 then Some (a, b, c, d) else murmur_loop s l a b c d)
   }"
  by pat_completeness auto
termination
  by (relation "measure (\<lambda>(s, l, a, b, c, d). length s)") (auto dest: slice_from_length)

declare murmur_loop.simps [simp del]

definition cityMurmur :: "bytes \<Rightarrow> u32 \<Rightarrow> Uint128 \<Rightarrow> Uint128 option" where
  "cityMurmur s length' seed =
     (let a = Lower64 seed; b = Higher64 seed; l = length' - 16 in do {
        (a, b, c, d) \<leftarrow>
          (if sint l \<le> 0 then do {
             let a = shiftMix (a * k1) * k1;
             h \<leftarrow> hashLen0to16 s length';
             let c = b * k1 + h;
             d \<leftarrow> (if 8 \<le> length' then do { f \<leftarrow> fetch64 s; Some (shiftMix (a + f)) }
                   else Some (shiftMix (a + c)));
             Some (a, b, c, d)
           }
           else do {
             e8 \<leftarrow> fetch64_at s (length' - 8);
             let c = hashLen16 (e8 + k1) a;
             e16 \<leftarrow> fetch64_at s (length' - 16);
             let d = hashLen16 (b + ucast length') (c + e16);
             murmur_loop s l (a + d) b c d
           });
        let a = hashLen16 a c;
        let b = hashLen16 d b;
        Some (a XOR b, hashLen16 b a)
      })"

text \<open>The main loop of \<open>CityHash128WithSeed\<close>: two rounds, 128 bytes, per pass.\<close>

function city128_loop :: "bytes \<Rightarrow> u32 \<Rightarrow> u32 \<Rightarrow> city_state \<Rightarrow> (u32 \<times> u32 \<times> city_state) option" where
  "city128_loop s pos length' st = do {
     st \<leftarrow> city_round s st;
     s \<leftarrow> slice_from s 64;
     st \<leftarrow> city_round s st;
     s \<leftarrow> slice_from s 64;
     let pos = pos + 128;
     let length' = length' - 128;
     (if length' < 128 then Some (pos, length', st) else city128_loop s pos length' st)
   }"
  by pat_completeness auto
termination
  by (relation "measure (\<lambda>(s, pos, l, st). length s)") (auto dest!: slice_from_length)

declare city128_loop.simps [simp del]

text \<open>
  The tail loop: up to four chunks of 32 bytes, read backwards from the end. \<open>tailDone\<close>
  grows by 32 while it is below \<open>length'\<close>, so at most \<open>length' div 32 + 1\<close> passes run; the
  first argument counts the passes left.
\<close>

fun tail_loop :: "nat \<Rightarrow> bytes \<Rightarrow> u32 \<Rightarrow> u32 \<Rightarrow> u32 \<Rightarrow> city_state \<Rightarrow> city_state option" where
  "tail_loop 0 t pos length' tailDone st = (if tailDone < length' then None else Some st)"
| "tail_loop (Suc n) t pos length' tailDone st =
     (if tailDone < length' then
        (case st of (x, y, z, v, w) \<Rightarrow> do {
           let tailDone = tailDone + 32;
           let y = rotate64 (y - x) 42 * k0 + Higher64 v;
           f \<leftarrow> fetch64_at t (pos + length' - tailDone + 16);
           let w = setLower64 (Lower64 w + f) w;
           let x = rotate64 x 49 * k0 + Lower64 w;
           let w = setLower64 (Lower64 w + Lower64 v) w;
           u \<leftarrow> slice_from t (pos + length' - tailDone);
           v \<leftarrow> weakHashLen32WithSeeds_3 u (Lower64 v) (Higher64 v);
           tail_loop n t pos length' tailDone (x, y, z, v, w)
         })
      else Some st)"

definition CityHash128WithSeed :: "bytes \<Rightarrow> u32 \<Rightarrow> Uint128 \<Rightarrow> Uint128 option" where
  "CityHash128WithSeed s length' seed =
     (if length' < 128 then cityMurmur s length' seed
      else do {
        let x = Lower64 seed;
        let y = Higher64 seed;
        let z = ucast length' * k1;
        s0 \<leftarrow> fetch64 s;
        let vl = rotate64 (y XOR k1) 49 * k1 + s0;
        s8 \<leftarrow> fetch64_at s 8;
        let v = (vl, rotate64 vl 42 * k1 + s8);
        let wl = rotate64 (y + z) 35 * k1 + x;
        s88 \<leftarrow> fetch64_at s 88;
        let w = (wl, rotate64 (x + s88) 53 * k1);
        (pos, len, x, y, z, v, w) \<leftarrow> city128_loop s 0 length' (x, y, z, v, w);
        let y = y + (rotate64 (Lower64 w) 37 * k0 + z);
        let x = x + rotate64 (Lower64 v + z) 49 * k0;
        (x, y, z, v, w) \<leftarrow> tail_loop 4 s pos len 0 (x, y, z, v, w);
        let x = hashLen16 x (Lower64 v);
        let y = hashLen16 y (Lower64 w);
        Some (hashLen16 (x + Higher64 v) (Higher64 w) + y, hashLen16 (x + Higher64 w) (y + Higher64 v))
      })"

text \<open>\<open>s[16:length]\<close> is taken within the slice's length.\<close>

definition slice_between :: "bytes \<Rightarrow> u32 \<Rightarrow> u32 \<Rightarrow> bytes option" where
  "slice_between s i j =
     (if i \<le> j \<and> unat j \<le> length s then Some (drop (unat i) (take (unat j) s)) else None)"

definition CityHash128 :: "bytes \<Rightarrow> u32 \<Rightarrow> Uint128 option" where
  "CityHash128 s length' =
     (if 16 \<le> length' then do {
        t \<leftarrow> slice_between s 16 length';
        s0 \<leftarrow> fetch64 s;
        s8 \<leftarrow> fetch64_at s 8;
        CityHash128WithSeed t (length' - 16) (s0 XOR k3, s8)
      }
      else if 8 \<le> length' then do {
        s0 \<leftarrow> fetch64 s;
        e8 \<leftarrow> fetch64_at s (length' - 8);
        CityHash128WithSeed [] 0 (s0 XOR (ucast length' * k0), e8 XOR k1)
      }
      else CityHash128WithSeed s length' (k0, k1))"

end
