(* ===== verification/City_Hash_Correct.thy ===== *)
theory City_Hash_Correct
  imports City_Hash
begin

section \<open>Correctness of the hash\<close>

text \<open>
  Facts the users of the hash rely on: hashing a slice with its own length never reads
  outside the slice, whatever the length; the 128-to-64-bit mixer is a bijection of its low
  half, so two different 64-bit hashes stay different under the same seeds.
\<close>

subsection \<open>No access out of range\<close>

definition ok :: "'a option \<Rightarrow> bool" where
  "ok r \<longleftrightarrow> r \<noteq> None"

lemma ok_Some [simp, intro]: "ok (Some v)"
  by (simp add: ok_def)

lemma ok_bind [intro]: "ok r \<Longrightarrow> (\<And>v. r = Some v \<Longrightarrow> ok (f v)) \<Longrightarrow> ok (Option.bind r f)"
  by (cases r) (auto simp: ok_def)

lemma ok_case_prod [intro]: "(\<And>a b. p = (a, b) \<Longrightarrow> ok (f a b)) \<Longrightarrow> ok (case p of (a, b) \<Rightarrow> f a b)"
  by (cases p) simp

lemma ok_if [intro]: "(P \<Longrightarrow> ok r) \<Longrightarrow> (\<not> P \<Longrightarrow> ok r') \<Longrightarrow> ok (if P then r else r')"
  by simp

lemma ok_fetch64: "8 \<le> length s \<Longrightarrow> ok (fetch64 s)"
  by (simp add: fetch64_def)

lemma ok_fetch32: "4 \<le> length s \<Longrightarrow> ok (fetch32 s)"
  by (simp add: fetch32_def)

lemma ok_slice_from: "unat i \<le> length s \<Longrightarrow> ok (slice_from s i)"
  by (simp add: slice_from_def)

lemma ok_fetch64_at: "unat i + 8 \<le> length s \<Longrightarrow> ok (fetch64_at s i)"
  by (auto simp: fetch64_at_def slice_from_def fetch64_def)

lemma ok_weakHash_3: "32 \<le> length s \<Longrightarrow> ok (weakHashLen32WithSeeds_3 s a b)"
  unfolding weakHashLen32WithSeeds_3_def
  by (intro ok_bind ok_fetch64 ok_fetch64_at ok_Some) simp_all

lemma ok_city_round: "64 \<le> length s \<Longrightarrow> ok (city_round s st)"
  unfolding city_round_def Let_def
  by (intro ok_case_prod ok_bind ok_fetch64_at ok_weakHash_3 ok_slice_from ok_Some)
     (auto dest: slice_from_length)

text \<open>Indices counted back from the end of a slice of length \<open>l\<close>.\<close>

lemma ok_fetch64_tail:
  assumes "unat l = length s" "8 \<le> unat k" "unat k \<le> length s"
  shows "ok (fetch64_at s (l - k))"
  using assms by (intro ok_fetch64_at) (simp add: unat_sub word_le_nat_alt)

lemma ok_slice_tail:
  assumes "unat l = length s" "unat k \<le> length s"
  shows "ok (slice_from s (l - k))"
  using assms by (intro ok_slice_from) (simp add: unat_sub word_le_nat_alt)

lemma slice_tail_length:
  "slice_from s (l - k) = Some t \<Longrightarrow> unat l = length s \<Longrightarrow> unat (k::u32) \<le> length s \<Longrightarrow> length t = unat k"
  by (auto simp: slice_from_def unat_sub word_le_nat_alt split: if_splits)

lemma ok_index_at: "unat i < length s \<Longrightarrow> ok (index_at s i)"
  by (simp add: index_at_def)

lemmas ok_intros =
  ok_bind ok_case_prod ok_if ok_Some ok_fetch64 ok_fetch32 ok_fetch64_at ok_slice_from ok_weakHash_3

lemma ok_hashLen0to16:
  assumes "unat l = length s"
  shows "ok (hashLen0to16 s l)"
  unfolding hashLen0to16_def Let_def
proof (intro ok_if)
  assume "8 < l"
  then have "8 < length s" using assms by (simp add: word_less_nat_alt)
  then show "ok (fetch64 s \<bind> (\<lambda>a. fetch64_at s (l - 8) \<bind>
      (\<lambda>b. Some (hashLen16 a (rotate64ByAtLeast1 (b + ucast l) l) XOR b))))"
    using assms by (intro ok_bind ok_fetch64 ok_fetch64_tail ok_Some) simp_all
next
  assume "4 \<le> l"
  then have "4 \<le> length s" using assms by (simp add: word_le_nat_alt)
  then show "ok (fetch32 s \<bind> (\<lambda>a. slice_from s (l - 4) \<bind> (\<lambda>t. fetch32 t \<bind>
      (\<lambda>b. Some (hashLen16 (ucast l + push_bit 3 (ucast a)) (ucast b))))))"
    using assms
    by (intro ok_bind ok_fetch32 ok_slice_tail ok_Some) (simp_all add: slice_tail_length)
next
  assume "0 < l"
  then have pos: "0 < length s" using assms by (simp add: word_less_nat_alt)
  have "unat (drop_bit 1 l) = length s div 2"
    using assms by (simp add: drop_bit_eq_div unat_div_distrib)
  then have "unat (drop_bit 1 l) < length s" using pos by simp
  moreover have "1 \<le> l" using pos assms by (simp add: word_le_nat_alt Suc_le_eq)
  then have "unat (l - 1) = unat l - 1" by (simp add: unat_sub)
  then have "unat (l - 1) < length s" using pos assms by simp
  ultimately show "ok (index_at s 0 \<bind> (\<lambda>a. index_at s (drop_bit 1 l) \<bind> (\<lambda>b. index_at s (l - 1) \<bind>
      (\<lambda>c. Some (shiftMix (ucast ((ucast a :: u32) + push_bit 8 (ucast b)) * k2 XOR
         ucast (l + push_bit 2 (ucast c)) * k3) * k2)))))"
    using pos by (intro ok_bind ok_index_at ok_Some) simp_all
qed simp

lemma ok_hashLen17to32:
  assumes "unat l = length s" "16 < unat l"
  shows "ok (hashLen17to32 s l)"
  unfolding hashLen17to32_def Let_def
  using assms by (intro ok_bind ok_fetch64 ok_fetch64_tail ok_Some ok_fetch64_at) simp_all

lemma ok_hashLen33to64:
  assumes "unat l = length s" "32 < unat l"
  shows "ok (hashLen33to64 s l)"
proof -
  have h: "ok (fetch64_at s 24)" "ok (fetch64 s)" "ok (fetch64_at s (l - 16))" "ok (fetch64_at s 8)"
    "ok (fetch64_at s 16)" "ok (fetch64_at s (l - 32))" "ok (fetch64_at s (l - 8))"
    "ok (fetch64_at s (l - 24))"
    using assms by (simp_all add: ok_fetch64_at ok_fetch64 ok_fetch64_tail)
  show ?thesis unfolding hashLen33to64_def Let_def by (intro ok_bind ok_Some h)
qed

lemma unat_round_down: "unat ((l::u32) AND NOT 63) = unat l div 64 * 64"
proof -
  have m: "(63 :: u32) = mask 6" by (simp add: mask_eq_exp_minus_1)
  have "unat (l AND mask 6) = unat l mod 64"
    by (simp add: take_bit_eq_mod unat_mod_distrib flip: take_bit_eq_mask)
  moreover have "l AND NOT (mask 6) = l - (l AND mask 6)"
  proof -
    have "(l AND mask 6) AND (l AND NOT (mask 6)) = 0" "(l AND mask 6) OR (l AND NOT (mask 6)) = l"
      by (rule bit_eqI; auto simp: bit_simps)+
    then show ?thesis
      using word_plus_and_or [of "l AND mask 6" "l AND NOT (mask 6)"] by (simp add: algebra_simps)
  qed
  moreover have "l AND mask 6 \<le> l" by (rule word_and_le2)
  ultimately have "unat (l AND NOT (mask 6)) = unat l - unat l mod 64"
    by (simp add: unat_sub)
  then show ?thesis unfolding m by (simp add: minus_mod_eq_div_mult)
qed

lemma ok_city64_loop:
  "64 dvd unat l \<Longrightarrow> 0 < unat l \<Longrightarrow> unat l \<le> length s \<Longrightarrow> ok (city64_loop s l st)"
proof (induction s l st rule: city64_loop.induct)
  case (1 s l st)
  from "1.prems" have 64: "64 \<le> unat l" by (auto elim: dvdE)
  then have sub: "unat (l - 64) = unat l - 64"
    by (simp add: unat_sub word_le_nat_alt)
  show ?case
    unfolding city64_loop.simps [of s l st] Let_def
  proof (intro ok_bind ok_if ok_Some)
    show "ok (city_round s st)" using "1.prems" 64 by (intro ok_city_round) simp
  next
    show "ok (slice_from s 64)" using "1.prems" 64 by (intro ok_slice_from) simp
  next
    fix st' t
    assume st': "city_round s st = Some st'" and t: "slice_from s 64 = Some t" and nz: "l - 64 \<noteq> 0"
    from nz have "0 < unat (l - 64)" by (metis unat_gt_0)
    moreover have "unat (l - 64) \<le> length t"
      using sub slice_from_length [OF t] "1.prems" by simp
    moreover have "64 dvd unat (l - 64)"
      using sub "1.prems" 64 by (simp add: dvd_diff_nat)
    ultimately show "ok (city64_loop t (l - 64) st')"
      using "1.IH" [OF st' t refl nz] by simp
  qed
qed

lemma ok_CityHash64:
  assumes "unat l = length s"
  shows "ok (CityHash64 s l)"
proof (cases "unat l \<le> 64")
  case True
  then show ?thesis
    using assms ok_hashLen0to16 [of l s] ok_hashLen17to32 [of l s] ok_hashLen33to64 [of l s]
    by (auto simp: CityHash64_def word_le_nat_alt)
next
  case False
  have l1: "unat (l - 1) = unat l - 1"
    using False by (simp add: unat_sub word_le_nat_alt)
  have "unat ((l - 1) AND NOT 63) = (unat l - 1) div 64 * 64"
    by (simp only: unat_round_down l1)
  moreover have "0 < (unat l - 1) div 64 * 64" "(unat l - 1) div 64 * 64 \<le> length s"
    using False assms by (simp_all add: div_greater_zero_iff)
  ultimately have loop: "ok (city64_loop s ((l - 1) AND NOT 63) st)" for st
    by (intro ok_city64_loop) simp_all
  note loops = loop loop [simplified]
  show ?thesis
    unfolding CityHash64_def Let_def
    using False assms
    by (auto simp: word_le_nat_alt slice_tail_length
        intro!: ok_bind ok_fetch64 ok_fetch64_tail ok_slice_tail ok_weakHash_3 loops ok_case_prod)
qed

subsection \<open>The 128-bit variants\<close>

lemma sint_small: "unat (l::u32) < 2 ^ 31 \<Longrightarrow> sint l = int (unat l)"
proof -
  assume small: "unat l < 2 ^ 31"
  have "uint l = int (unat l)" by simp
  moreover have "int (unat l) < int (2 ^ 31)" using small by (simp only: of_nat_less_iff)
  moreover have "- 2147483648 \<le> uint l" by (rule order_trans [of _ 0]) simp_all
  ultimately show ?thesis
    by (simp add: sint_uint signed_take_bit_int_eq_self)
qed

lemma unat_plus_16: "unat (j::u32) + 16 < 2 ^ 32 \<Longrightarrow> unat (j + 16) = unat j + 16"
  by (simp add: unat_word_ariths)

lemma sint_minus_16: "0 \<le> sint (l::u32) \<Longrightarrow> sint (l - 16) = sint l - 16"
proof -
  assume pos: "0 \<le> sint l"
  have "sint l < 2 ^ 31" using sint_lt [of l] by simp
  with pos show ?thesis
    by (simp add: sint_word_ariths signed_take_bit_int_eq_self)
qed

lemma ok_murmur_loop:
  "0 < sint l \<Longrightarrow> int (length s) = sint l + 16 \<Longrightarrow> ok (murmur_loop s l a b c d)"
proof (induction s l a b c d rule: murmur_loop.induct)
  case (1 s l a b c d)
  then have 17: "17 \<le> length s" by linarith
  show ?case
    unfolding murmur_loop.simps [of s l a b c d] Let_def
  proof (intro ok_bind ok_if ok_Some ok_fetch64 ok_fetch64_at ok_slice_from)
    fix f0 f8 t
    assume f0: "fetch64 s = Some f0" and f8: "fetch64_at s 8 = Some f8"
      and t: "slice_from s 16 = Some t" and pos: "\<not> sint (l - 16) \<le> 0"
    have "int (length t) = sint (l - 16) + 16"
      using sint_minus_16 [of l] slice_from_length [OF t] "1.prems" pos 17 by simp
    then show "ok (murmur_loop t (l - 16) ((a XOR shiftMix (f0 * k1) * k1) * k1)
       (b XOR (a XOR shiftMix (f0 * k1) * k1) * k1) ((c XOR shiftMix (f8 * k1) * k1) * k1)
       (d XOR (c XOR shiftMix (f8 * k1) * k1) * k1))"
      using "1.IH" [OF f0 refl refl refl f8 refl refl refl t refl pos] pos by simp
  qed (use 17 in simp_all)
qed

lemma ok_cityMurmur:
  assumes "unat l = length s" "unat l < 128"
  shows "ok (cityMurmur s l seed)"
proof -
  have l: "sint l = int (length s)" using assms by (simp add: sint_small)
  then have l16: "sint (l - 16) = int (length s) - 16" by (simp add: sint_minus_16)
  have loop: "16 < length s \<Longrightarrow> ok (murmur_loop s (l - 16) a b c d)" for a b c d
    by (rule ok_murmur_loop) (simp_all add: l16)
  have len: "8 \<le> l \<Longrightarrow> 8 \<le> length s" using assms by (simp add: word_le_nat_alt)
  show ?thesis
    unfolding cityMurmur_def Let_def l16
    by (intro ok_bind ok_case_prod ok_if ok_Some ok_fetch64 ok_hashLen0to16 ok_fetch64_tail loop assms)
       (use assms len in simp_all)
qed

lemma city128_loop_ok:
  assumes "128 \<le> unat l" "unat pos + unat l = N" "N < 2 ^ 32" "unat l \<le> length s"
  shows "\<exists>pos' l' st'. city128_loop s pos l st = Some (pos', l', st') \<and>
           unat pos' + unat l' = N \<and> unat l' < 128 \<and> 128 \<le> unat pos'"
  using assms
proof (induction s pos l st rule: city128_loop.induct)
  case (1 s pos l st)
  have sub: "unat (l - 128) = unat l - 128"
    using "1.prems" by (simp add: unat_sub word_le_nat_alt)
  have add: "unat (pos + 128) = unat pos + 128"
    using "1.prems" by (simp add: unat_word_ariths)
  have t: "slice_from s 64 = Some (drop 64 s)" "slice_from (drop 64 s) 64 = Some (drop 128 s)"
    using "1.prems" by (simp_all add: slice_from_def)
  obtain st1 where st1: "city_round s st = Some st1"
    using ok_city_round [of s st] "1.prems" by (auto simp: ok_def)
  obtain st2 where st2: "city_round (drop 64 s) st1 = Some st2"
  proof -
    have "64 \<le> length (drop 64 s)" using "1.prems" by simp
    then show ?thesis using that ok_city_round [of "drop 64 s" st1] unfolding ok_def by blast
  qed
  show ?case
  proof (cases "l - 128 < 128")
    case True
    then show ?thesis
      using st1 st2 t sub add "1.prems"
      by (cases st2) (simp add: city128_loop.simps [of s pos l st] word_less_nat_alt)
  next
    case False
    then have "128 \<le> unat (l - 128)" by (simp add: word_less_nat_alt)
    moreover have "unat (pos + 128) + unat (l - 128) = N" "unat (l - 128) \<le> length (drop 128 s)"
      using sub add "1.prems" by simp_all
    ultimately show ?thesis
      using "1.IH" [OF st1 t(1) st2 t(2) refl refl False] st1 st2 t False "1.prems"
      by (simp add: city128_loop.simps [of s pos l st])
  qed
qed

lemma ok_tail_loop:
  assumes "unat pos + unat l = length t" "length t < 2 ^ 32" "128 \<le> unat pos" "unat l < 128"
    and "unat td + 32 * n = 128"
  shows "ok (tail_loop n t pos l td st)"
  using assms(5)
proof (induction n arbitrary: td st)
  case 0
  then show ?case using assms by (simp add: word_less_nat_alt)
next
  case (Suc n)
  have td: "unat (td + 32) = unat td + 32" "unat (td + 32) \<le> 128"
    using Suc.prems by (simp_all add: unat_word_ariths)
  have pl: "unat (pos + l) = length t"
    using assms(1,2) by (simp add: unat_word_ariths)
  have le: "td + 32 \<le> pos + l" using td pl assms by (simp add: word_le_nat_alt)
  then have i: "unat (pos + l - (td + 32)) = length t - (unat td + 32)"
    using td pl by (simp add: unat_sub)
  then have i16: "unat (pos + l - (td + 32) + 16) = length t - (unat td + 32) + 16"
    using assms td unat_plus_16 [of "pos + l - (td + 32)"] by (simp only: i)
  have u: "slice_from t (pos + l - (td + 32)) = Some u \<Longrightarrow> 32 \<le> length u" for u
    using slice_from_length [of t "pos + l - (td + 32)" u] i td assms by simp
  have IH: "ok (tail_loop n t pos l (td + 32) st')" for st'
    using Suc.prems td by (intro Suc.IH) simp
  show ?case
    unfolding tail_loop.simps Let_def
    by (intro ok_if ok_case_prod ok_bind ok_fetch64_at ok_slice_from ok_weakHash_3 ok_Some IH u)
       (use i i16 td assms in simp_all)
qed

lemma ok_CityHash128WithSeed:
  assumes "unat l = length s"
  shows "ok (CityHash128WithSeed s l seed)"
proof (cases "unat l < 128")
  case True
  then show ?thesis
    using ok_cityMurmur [OF assms True] by (simp add: CityHash128WithSeed_def word_less_nat_alt)
next
  case False
  have len: "length s < 2 ^ 32" using assms unsigned_less [of l, where 'a = nat] by simp
  have loop: "ok (city128_loop s 0 l st)" for st
    using city128_loop_ok [of l 0 "length s" s st] False assms len by (auto simp: ok_def)
  have tail: "city128_loop s 0 l st = Some (pos, l', st') \<Longrightarrow> ok (tail_loop 4 s pos l' 0 st'')"
    for st pos l' st' st''
    using city128_loop_ok [of l 0 "length s" s st] False assms len by (intro ok_tail_loop) auto
  show ?thesis
    using False assms
    by (auto simp: CityHash128WithSeed_def Let_def word_less_nat_alt
        intro!: ok_bind ok_case_prod ok_fetch64 ok_fetch64_at loop tail)
qed

lemma ok_CityHash128:
  assumes "unat l = length s"
  shows "ok (CityHash128 s l)"
proof -
  have between: "16 \<le> l \<Longrightarrow> slice_between s 16 l = Some (drop 16 s)"
    using assms by (simp add: slice_between_def)
  have "16 \<le> l \<Longrightarrow> unat (l - 16) = length (drop 16 s)"
    using assms by (simp add: unat_sub)
  moreover have "8 \<le> l \<Longrightarrow> ok (fetch64_at s (l - 8))"
    using assms by (intro ok_fetch64_tail) (simp_all add: word_le_nat_alt)
  moreover have "16 \<le> l \<Longrightarrow> 16 \<le> length s" "8 \<le> l \<Longrightarrow> 8 \<le> length s"
    using assms by (simp_all add: word_le_nat_alt)
  ultimately show ?thesis
    using assms ok_CityHash128WithSeed [of 0 "[]"]
    by (auto simp: CityHash128_def between
        intro!: ok_if ok_bind ok_fetch64 ok_fetch64_at [of 8] ok_CityHash128WithSeed)
qed

text \<open>
  C30: hashing a byte slice with its own length never reads outside the slice: for every
  slice of fewer than \<open>2^32\<close> bytes \<open>CityHash64\<close> and \<open>CityHash128\<close> return a hash and do not
  panic.
\<close>

theorem CityHash_memory_safe:
  assumes "length s < 2 ^ 32"
  shows "(\<exists>h. CityHash64 s (of_nat (length s)) = Some h) \<and>
         (\<exists>h. CityHash128 s (of_nat (length s)) = Some h)"
proof -
  have "unat (of_nat (length s) :: u32) = length s"
    using assms by (simp add: unat_of_nat)
  then show ?thesis
    using ok_CityHash64 [of "of_nat (length s)" s] ok_CityHash128 [of "of_nat (length s)" s]
    by (simp add: ok_def)
qed

theorem CityHash_memory_safe_witness:
  "(\<exists>h. CityHash64 (replicate 1000 7) 1000 = Some h) \<and>
   (\<exists>h. CityHash128 (replicate 1000 7) 1000 = Some h)"
  using CityHash_memory_safe [of "replicate 1000 7"] by simp

subsection \<open>Mixing is a permutation\<close>

text \<open>
  \<open>shiftMix\<close> folds the top 17 bits into the low ones; applying it twice undoes it. The
  multiplier \<open>kMul\<close> is odd, hence invertible modulo \<open>2^64\<close>.
\<close>

definition kMul_inverse :: u64 where
  "kMul_inverse = 15877131476434367193"

lemma kMul_mult_inverse: "kMul * kMul_inverse = 1"
  by (simp add: kMul_def kMul_inverse_def)

lemma shiftMix_involution: "shiftMix (shiftMix v) = v"
  by (rule bit_eqI) (auto simp: shiftMix_def bit_simps)

lemma mult_kMul_inject: "a * kMul = b * kMul \<longleftrightarrow> a = b"
proof
  assume "a * kMul = b * kMul"
  then have "a * kMul * kMul_inverse = b * kMul * kMul_inverse" by simp
  then show "a = b" by (simp add: mult.assoc kMul_mult_inverse)
qed simp

lemma shiftMix_inject: "shiftMix a = shiftMix b \<longleftrightarrow> a = b"
proof
  assume "shiftMix a = shiftMix b"
  then have "shiftMix (shiftMix a) = shiftMix (shiftMix b)" by (rule arg_cong)
  then show "a = b" by (simp only: shiftMix_involution)
qed simp

lemma xor_left_inject: "(h::u64) XOR a = h XOR b \<longleftrightarrow> a = b"
proof
  assume "h XOR a = h XOR b"
  then have "h XOR (h XOR a) = h XOR (h XOR b)" by simp
  then show "a = b" by simp
qed simp

lemma xor_right_inject: "(a::u64) XOR h = b XOR h \<longleftrightarrow> a = b"
  using xor_left_inject [of h a b] by (simp add: xor.commute)

lemma hash128to64_steps:
  "hash128to64 (lo, hi) =
     shiftMix ((hi XOR shiftMix ((lo XOR hi) * kMul)) * kMul) * kMul"
  by (simp add: hash128to64_def shiftMix_def Let_def Lower64_def Higher64_def)

text \<open>
  for a fixed high half the mixer of two 64-bit values is injective in the low half;
  therefore seeding never makes two different \<open>CityHash64\<close> values collide.
\<close>

theorem hashLen16_injective:
  "(hashLen16 u v = hashLen16 u' v \<longleftrightarrow> u = u') \<and>
   (CityHash64WithSeeds s l seed0 seed1 = CityHash64WithSeeds s' l' seed0 seed1 \<longleftrightarrow>
      CityHash64 s l = CityHash64 s' l')"
proof -
  have inj: "hashLen16 u v = hashLen16 u' v \<longleftrightarrow> u = u'" for u u' v
    by (simp add: hashLen16_def hash128to64_steps mult_kMul_inject shiftMix_inject
        xor_left_inject xor_right_inject)
  then show ?thesis
    by (cases "CityHash64 s l"; cases "CityHash64 s' l'") (simp_all add: CityHash64WithSeeds_def)
qed

text \<open>Rotation by a proper amount keeps every bit, in a new place.\<close>

lemma bit_rotate64:
  assumes "0 < unat k" "unat k < 64" "i < 64"
  shows "bit (rotate64 v k) i = bit v ((i + unat k) mod 64)"
proof -
  have k: "k \<noteq> 0" using assms by auto
  have "unat (64 - k) = 64 - unat k"
    using assms by (subst unat_sub) (simp_all add: word_le_nat_alt)
  then show ?thesis
    using assms k
    by (cases "i + unat k < 64")
       (auto simp: rotate64_def bit_simps mod_if not_less add.commute dest: bit_imp_le_length)
qed

end
