(* ===== verification/City_Hash_Writer.thy ===== *)
theory City_Hash_Writer
  imports City_Hash_Correct
begin

section \<open>CityHash 1.0.2, the writer's copy (writer/utils/helputils/cityhash102)\<close>

text \<open>
  The writer keeps its own copy of the hash, with a few helpers of its own. It is modelled
  function by function from that copy, under names that start with \<open>w_\<close>; slices and their
  reads are those of \<open>City_Hash\<close>. The two copies are then proved to be the same function.
\<close>

definition w_k0 :: u64 where "w_k0 = 0xc3a5c85c97cb3127"
definition w_k1 :: u64 where "w_k1 = 0xb492b66fbe98f273"
definition w_k2 :: u64 where "w_k2 = 0x9ae16a3b2f90404f"
definition w_k3 :: u64 where "w_k3 = 0xc949d7c7509e6557"
definition w_kMul :: u64 where "w_kMul = 0x9ddfea08eb382d69"

definition w_fetch64 :: "bytes \<Rightarrow> u64 option" where
  "w_fetch64 p = (if length p < 8 then None else Some (le_bytes (take 8 p)))"

definition w_fetch32 :: "bytes \<Rightarrow> u32 option" where
  "w_fetch32 p = (if length p < 4 then None else Some (le_bytes (take 4 p)))"

definition w_fetch64_at :: "bytes \<Rightarrow> u32 \<Rightarrow> u64 option" where
  "w_fetch64_at s i = do { t \<leftarrow> slice_from s i; w_fetch64 t }"

definition w_rotate64 :: "u64 \<Rightarrow> u32 \<Rightarrow> u64" where
  "w_rotate64 val shift =
     (if shift \<noteq> 0 then drop_bit (unat shift) val OR push_bit (unat (64 - shift)) val else val)"

definition w_swap64 :: "u64 \<times> u64 \<Rightarrow> u64 \<times> u64" where
  "w_swap64 p = (snd p, fst p)"

definition w_rotate64ByAtLeast1 :: "u64 \<Rightarrow> u32 \<Rightarrow> u64" where
  "w_rotate64ByAtLeast1 val shift = drop_bit (unat shift) val OR push_bit (unat (64 - shift)) val"

definition w_shiftMix :: "u64 \<Rightarrow> u64" where
  "w_shiftMix val = val XOR drop_bit 47 val"

definition w_Lower64 :: "Uint128 \<Rightarrow> u64" where "w_Lower64 u = fst u"
definition w_Higher64 :: "Uint128 \<Rightarrow> u64" where "w_Higher64 u = snd u"
definition w_setLower64 :: "u64 \<Rightarrow> Uint128 \<Rightarrow> Uint128" where "w_setLower64 l u = (l, snd u)"
definition w_setHigher64 :: "u64 \<Rightarrow> Uint128 \<Rightarrow> Uint128" where "w_setHigher64 h u = (fst u, h)"

definition w_put64 :: "u64 \<Rightarrow> bytes" where
  "w_put64 v = map (\<lambda>i. ucast (drop_bit (8 * i) v)) [0..<8]"

definition w_Uint128_Bytes :: "Uint128 \<Rightarrow> bytes" where
  "w_Uint128_Bytes u = w_put64 (fst u) @ w_put64 (snd u)"

definition w_Hash128to64 :: "Uint128 \<Rightarrow> u64" where
  "w_Hash128to64 x =
     (let a = (w_Lower64 x XOR w_Higher64 x) * w_kMul;
          a = a XOR drop_bit 47 a;
          b = (w_Higher64 x XOR a) * w_kMul;
          b = b XOR drop_bit 47 b
      in b * w_kMul)"

definition w_hashLen16 :: "u64 \<Rightarrow> u64 \<Rightarrow> u64" where
  "w_hashLen16 u v = w_Hash128to64 (u, v)"

definition w_hashLen0to16 :: "bytes \<Rightarrow> u32 \<Rightarrow> u64 option" where
  "w_hashLen0to16 s length' =
     (if 8 < length' then do {
        a \<leftarrow> w_fetch64 s;
        b \<leftarrow> w_fetch64_at s (length' - 8);
        Some (w_hashLen16 a (w_rotate64ByAtLeast1 (b + ucast length') length') XOR b)
      }
      else if 4 \<le> length' then do {
        a \<leftarrow> w_fetch32 s;
        t \<leftarrow> slice_from s (length' - 4);
        b \<leftarrow> w_fetch32 t;
        Some (w_hashLen16 (ucast length' + push_bit 3 (ucast a)) (ucast b))
      }
      else if 0 < length' then do {
        a \<leftarrow> index_at s 0;
        b \<leftarrow> index_at s (drop_bit 1 length');
        c \<leftarrow> index_at s (length' - 1);
        let y = (ucast a :: u32) + push_bit 8 (ucast b);
        let z = length' + push_bit 2 (ucast c);
        Some (w_shiftMix (ucast y * w_k2 XOR ucast z * w_k3) * w_k2)
      }
      else Some w_k2)"

definition w_hashLen17to32 :: "bytes \<Rightarrow> u32 \<Rightarrow> u64 option" where
  "w_hashLen17to32 s length' = do {
     a0 \<leftarrow> w_fetch64 s;
     b \<leftarrow> w_fetch64_at s 8;
     c0 \<leftarrow> w_fetch64_at s (length' - 8);
     d0 \<leftarrow> w_fetch64_at s (length' - 16);
     let a = a0 * w_k1;
     let c = c0 * w_k2;
     let d = d0 * w_k0;
     Some (w_hashLen16 (w_rotate64 (a - b) 43 + w_rotate64 c 30 + d)
             (a + w_rotate64 (b XOR w_k3) 20 - c + ucast length'))
   }"

definition w_weakHashLen32WithSeeds ::
    "u64 \<Rightarrow> u64 \<Rightarrow> u64 \<Rightarrow> u64 \<Rightarrow> u64 \<Rightarrow> u64 \<Rightarrow> Uint128" where
  "w_weakHashLen32WithSeeds w x y z a b =
     (let a = a + w;
          b = w_rotate64 (b + a + z) 21;
          c = a;
          a = a + x;
          a = a + y;
          b = b + w_rotate64 a 44
      in (a + z, b + c))"

definition w_weakHashLen32WithSeeds_3 :: "bytes \<Rightarrow> u64 \<Rightarrow> u64 \<Rightarrow> Uint128 option" where
  "w_weakHashLen32WithSeeds_3 s a b = do {
     w \<leftarrow> w_fetch64 s;
     x \<leftarrow> w_fetch64_at s 8;
     y \<leftarrow> w_fetch64_at s 16;
     z \<leftarrow> w_fetch64_at s 24;
     Some (w_weakHashLen32WithSeeds w x y z a b)
   }"

definition w_hashLen33to64 :: "bytes \<Rightarrow> u32 \<Rightarrow> u64 option" where
  "w_hashLen33to64 s length' = do {
     z \<leftarrow> w_fetch64_at s 24;
     s0 \<leftarrow> w_fetch64 s;
     e16 \<leftarrow> w_fetch64_at s (length' - 16);
     let a = s0 + (ucast length' + e16) * w_k0;
     let b = w_rotate64 (a + z) 52;
     let c = w_rotate64 a 37;
     s8 \<leftarrow> w_fetch64_at s 8;
     let a = a + s8;
     let c = c + w_rotate64 a 7;
     s16 \<leftarrow> w_fetch64_at s 16;
     let a = a + s16;
     let vf = a + z;
     let vs = b + w_rotate64 a 31 + c;
     e32 \<leftarrow> w_fetch64_at s (length' - 32);
     let a = s16 + e32;
     z \<leftarrow> w_fetch64_at s (length' - 8);
     let b = w_rotate64 (a + z) 52;
     let c = w_rotate64 a 37;
     e24 \<leftarrow> w_fetch64_at s (length' - 24);
     let a = a + e24;
     let c = c + w_rotate64 a 7;
     let a = a + e16;
     let wf = a + z;
     let ws = b + w_rotate64 a 31 + c;
     let r = w_shiftMix ((vf + ws) * w_k2 + (wf + vs) * w_k0);
     Some (w_shiftMix (r * w_k0 + vs) * w_k2)
   }"

definition w_city_round :: "bytes \<Rightarrow> city_state \<Rightarrow> city_state option" where
  "w_city_round s st = (case st of (x, y, z, v, w) \<Rightarrow> do {
     s16 \<leftarrow> w_fetch64_at s 16;
     let x = w_rotate64 (x + y + w_Lower64 v + s16) 37 * w_k1;
     s48 \<leftarrow> w_fetch64_at s 48;
     let y = w_rotate64 (y + w_Higher64 v + s48) 42 * w_k1;
     let x = x XOR w_Higher64 w;
     let y = y XOR w_Lower64 v;
     let z = w_rotate64 (z XOR w_Lower64 w) 33;
     v \<leftarrow> w_weakHashLen32WithSeeds_3 s (w_Higher64 v * w_k1) (x + w_Lower64 w);
     s32 \<leftarrow> slice_from s 32;
     w \<leftarrow> w_weakHashLen32WithSeeds_3 s32 (z + w_Higher64 w) y;
     Some (case w_swap64 (z, x) of (z, x) \<Rightarrow> (x, y, z, v, w))
   })"

function w_city64_loop :: "bytes \<Rightarrow> u32 \<Rightarrow> city_state \<Rightarrow> city_state option" where
  "w_city64_loop s length' st = do {
     st \<leftarrow> w_city_round s st;
     s \<leftarrow> slice_from s 64;
     let length' = length' - 64;
     (if length' = 0 then Some st else w_city64_loop s length' st)
   }"
  by pat_completeness auto
termination
  by (relation "measure (\<lambda>(s, l, st). length s)") (auto dest: slice_from_length)

declare w_city64_loop.simps [simp del]

definition w_CityHash64 :: "bytes \<Rightarrow> u32 \<Rightarrow> u64 option" where
  "w_CityHash64 s length' =
     (if length' \<le> 32 then
        (if length' \<le> 16 then w_hashLen0to16 s length' else w_hashLen17to32 s length')
      else if length' \<le> 64 then w_hashLen33to64 s length'
      else do {
        x \<leftarrow> w_fetch64 s;
        y0 \<leftarrow> w_fetch64_at s (length' - 16);
        let y = y0 XOR w_k1;
        z0 \<leftarrow> w_fetch64_at s (length' - 56);
        let z = z0 XOR w_k0;
        t64 \<leftarrow> slice_from s (length' - 64);
        v \<leftarrow> w_weakHashLen32WithSeeds_3 t64 (ucast length') y;
        t32 \<leftarrow> slice_from s (length' - 32);
        w \<leftarrow> w_weakHashLen32WithSeeds_3 t32 (ucast length' * w_k1) w_k0;
        let z = z + w_shiftMix (w_Higher64 v) * w_k1;
        let x = w_rotate64 (z + x) 39 * w_k1;
        let y = w_rotate64 y 33 * w_k1;
        (x, y, z, v, w) \<leftarrow> w_city64_loop s ((length' - 1) AND NOT 63) (x, y, z, v, w);
        Some (w_hashLen16 (w_hashLen16 (w_Lower64 v) (w_Lower64 w) + w_shiftMix y * w_k1 + z)
                (w_hashLen16 (w_Higher64 v) (w_Higher64 w) + x))
      })"

definition w_CityHash64WithSeeds :: "bytes \<Rightarrow> u32 \<Rightarrow> u64 \<Rightarrow> u64 \<Rightarrow> u64 option" where
  "w_CityHash64WithSeeds s length' seed0 seed1 = do {
     h \<leftarrow> w_CityHash64 s length';
     Some (w_hashLen16 (h - seed0) seed1)
   }"

definition w_CityHash64WithSeed :: "bytes \<Rightarrow> u32 \<Rightarrow> u64 \<Rightarrow> u64 option" where
  "w_CityHash64WithSeed s length' seed = w_CityHash64WithSeeds s length' w_k2 seed"

function w_murmur_loop :: "bytes \<Rightarrow> u32 \<Rightarrow> u64 \<Rightarrow> u64 \<Rightarrow> u64 \<Rightarrow> u64 \<Rightarrow> (u64 \<times> u64 \<times> u64 \<times> u64) option" where
  "w_murmur_loop s l a b c d = do {
     f0 \<leftarrow> w_fetch64 s;
     let a = a XOR w_shiftMix (f0 * w_k1) * w_k1;
     let a = a * w_k1;
     let b = b XOR a;
     f8 \<leftarrow> w_fetch64_at s 8;
     let c = c XOR w_shiftMix (f8 * w_k1) * w_k1;
     let c = c * w_k1;
     let d = d XOR c;
     s \<leftarrow> slice_from s 16;
     let l = l - 16;
     (if sint l \<le> 0 then Some (a, b, c, d) else w_murmur_loop s l a b c d)
   }"
  by pat_completeness auto
termination
  by (relation "measure (\<lambda>(s, l, a, b, c, d). length s)") (auto dest: slice_from_length)

declare w_murmur_loop.simps [simp del]

definition w_cityMurmur :: "bytes \<Rightarrow> u32 \<Rightarrow> Uint128 \<Rightarrow> Uint128 option" where
  "w_cityMurmur s length' seed =
     (let a = w_Lower64 seed; b = w_Higher64 seed; l = length' - 16 in do {
        (a, b, c, d) \<leftarrow>
          (if sint l \<le> 0 then do {
             let a = w_shiftMix (a * w_k1) * w_k1;
             h \<leftarrow> w_hashLen0to16 s length';
             let c = b * w_k1 + h;
             d \<leftarrow> (if 8 \<le> length' then do { f \<leftarrow> w_fetch64 s; Some (w_shiftMix (a + f)) }
                   else Some (w_shiftMix (a + c)));
             Some (a, b, c, d)
           }
           else do {
             e8 \<leftarrow> w_fetch64_at s (length' - 8);
             let c = w_hashLen16 (e8 + w_k1) a;
             e16 \<leftarrow> w_fetch64_at s (length' - 16);
             let d = w_hashLen16 (b + ucast length') (c + e16);
             w_murmur_loop s l (a + d) b c d
           });
        let a = w_hashLen16 a c;
        let b = w_hashLen16 d b;
        Some (a XOR b, w_hashLen16 b a)
      })"

function w_city128_loop :: "bytes \<Rightarrow> u32 \<Rightarrow> u32 \<Rightarrow> city_state \<Rightarrow> (u32 \<times> u32 \<times> city_state) option" where
  "w_city128_loop s pos length' st = do {
     st \<leftarrow> w_city_round s st;
     s \<leftarrow> slice_from s 64;
     st \<leftarrow> w_city_round s st;
     s \<leftarrow> slice_from s 64;
     let pos = pos + 128;
     let length' = length' - 128;
     (if length' < 128 then Some (pos, length', st) else w_city128_loop s pos length' st)
   }"
  by pat_completeness auto
termination
  by (relation "measure (\<lambda>(s, pos, l, st). length s)") (auto dest!: slice_from_length)

declare w_city128_loop.simps [simp del]

fun w_tail_loop :: "nat \<Rightarrow> bytes \<Rightarrow> u32 \<Rightarrow> u32 \<Rightarrow> u32 \<Rightarrow> city_state \<Rightarrow> city_state option" where
  "w_tail_loop 0 t pos length' tailDone st = (if tailDone < length' then None else Some st)"
| "w_tail_loop (Suc n) t pos length' tailDone st =
     (if tailDone < length' then
        (case st of (x, y, z, v, w) \<Rightarrow> do {
           let tailDone = tailDone + 32;
           let y = w_rotate64 (y - x) 42 * w_k0 + w_Higher64 v;
           f \<leftarrow> w_fetch64_at t (pos + length' - tailDone + 16);
           let w = w_setLower64 (w_Lower64 w + f) w;
           let x = w_rotate64 x 49 * w_k0 + w_Lower64 w;
           let w = w_setLower64 (w_Lower64 w + w_Lower64 v) w;
           u \<leftarrow> slice_from t (pos + length' - tailDone);
           v \<leftarrow> w_weakHashLen32WithSeeds_3 u (w_Lower64 v) (w_Higher64 v);
           w_tail_loop n t pos length' tailDone (x, y, z, v, w)
         })
      else Some st)"

definition w_CityHash128WithSeed :: "bytes \<Rightarrow> u32 \<Rightarrow> Uint128 \<Rightarrow> Uint128 option" where
  "w_CityHash128WithSeed s length' seed =
     (if length' < 128 then w_cityMurmur s length' seed
      else do {
        let x = w_Lower64 seed;
        let y = w_Higher64 seed;
        let z = ucast length' * w_k1;
        s0 \<leftarrow> w_fetch64 s;
        let vl = w_rotate64 (y XOR w_k1) 49 * w_k1 + s0;
        s8 \<leftarrow> w_fetch64_at s 8;
        let v = (vl, w_rotate64 vl 42 * w_k1 + s8);
        let wl = w_rotate64 (y + z) 35 * w_k1 + x;
        s88 \<leftarrow> w_fetch64_at s 88;
        let w = (wl, w_rotate64 (x + s88) 53 * w_k1);
        (pos, len, x, y, z, v, w) \<leftarrow> w_city128_loop s 0 length' (x, y, z, v, w);
        let y = y + (w_rotate64 (w_Lower64 w) 37 * w_k0 + z);
        let x = x + w_rotate64 (w_Lower64 v + z) 49 * w_k0;
        (x, y, z, v, w) \<leftarrow> w_tail_loop 4 s pos len 0 (x, y, z, v, w);
        let x = w_hashLen16 x (w_Lower64 v);
        let y = w_hashLen16 y (w_Lower64 w);
        Some (w_hashLen16 (x + w_Higher64 v) (w_Higher64 w) + y, w_hashLen16 (x + w_Higher64 w) (y + w_Higher64 v))
      })"

definition w_CityHash128 :: "bytes \<Rightarrow> u32 \<Rightarrow> Uint128 option" where
  "w_CityHash128 s length' =
     (if 16 \<le> length' then do {
        t \<leftarrow> slice_between s 16 length';
        s0 \<leftarrow> w_fetch64 s;
        s8 \<leftarrow> w_fetch64_at s 8;
        w_CityHash128WithSeed t (length' - 16) (s0 XOR w_k3, s8)
      }
      else if 8 \<le> length' then do {
        s0 \<leftarrow> w_fetch64 s;
        e8 \<leftarrow> w_fetch64_at s (length' - 8);
        w_CityHash128WithSeed [] 0 (s0 XOR (ucast length' * w_k0), e8 XOR w_k1)
      }
      else w_CityHash128WithSeed s length' (w_k0, w_k1))"

definition w_rotate32 :: "u32 \<Rightarrow> u32 \<Rightarrow> u32" where
  "w_rotate32 val shift =
     (if shift \<noteq> 0 then drop_bit (unat shift) val OR push_bit (unat (32 - shift)) val else val)"

definition w_swap32 :: "u32 \<times> u32 \<Rightarrow> u32 \<times> u32" where
  "w_swap32 p = (snd p, fst p)"

definition w_permute3 :: "u32 \<times> u32 \<times> u32 \<Rightarrow> u32 \<times> u32 \<times> u32" where
  "w_permute3 p = (case p of (a, b, c) \<Rightarrow>
     (case w_swap32 (a, b) of (a, b) \<Rightarrow> (case w_swap32 (a, c) of (a, c) \<Rightarrow> (a, b, c))))"

definition w_hashLen16_3 :: "u64 \<Rightarrow> u64 \<Rightarrow> u64 \<Rightarrow> u64" where
  "w_hashLen16_3 u v mul =
     (let a = (u XOR v) * mul;
          a = a XOR drop_bit 47 a;
          b = (v XOR a) * mul;
          b = b XOR drop_bit 47 b
      in b * mul)"

subsection \<open>The two copies agree\<close>

lemma w_consts: "w_k0 = k0" "w_k1 = k1" "w_k2 = k2" "w_k3 = k3" "w_kMul = kMul"
  by (simp_all add: w_k0_def k0_def w_k1_def k1_def w_k2_def k2_def w_k3_def k3_def
      w_kMul_def kMul_def)

lemma w_basic:
  "w_fetch64 = fetch64" "w_fetch32 = fetch32" "w_fetch64_at = fetch64_at" "w_rotate64 = rotate64"
  "w_swap64 = swap64" "w_rotate64ByAtLeast1 = rotate64ByAtLeast1" "w_shiftMix = shiftMix"
  "w_Lower64 = Lower64" "w_Higher64 = Higher64" "w_setLower64 = setLower64"
  "w_setHigher64 = setHigher64" "w_put64 = put64"
  by (simp_all add: fun_eq_iff w_fetch64_def fetch64_def w_fetch32_def fetch32_def
      w_fetch64_at_def fetch64_at_def w_rotate64_def rotate64_def w_swap64_def swap64_def
      w_rotate64ByAtLeast1_def rotate64ByAtLeast1_def w_shiftMix_def shiftMix_def
      w_Lower64_def Lower64_def w_Higher64_def Higher64_def w_setLower64_def setLower64_def
      w_setHigher64_def setHigher64_def w_put64_def put64_def)

lemma w_mixers:
  "w_Uint128_Bytes = Uint128_Bytes" "w_Hash128to64 = hash128to64" "w_hashLen16 = hashLen16"
  "w_hashLen0to16 = hashLen0to16" "w_hashLen17to32 = hashLen17to32"
  "w_weakHashLen32WithSeeds = weakHashLen32WithSeeds"
  "w_weakHashLen32WithSeeds_3 = weakHashLen32WithSeeds_3"
  "w_hashLen33to64 = hashLen33to64" "w_city_round = city_round"
  unfolding fun_eq_iff w_Uint128_Bytes_def Uint128_Bytes_def w_Hash128to64_def hash128to64_def
    w_hashLen16_def hashLen16_def w_hashLen0to16_def hashLen0to16_def w_hashLen17to32_def
    hashLen17to32_def w_weakHashLen32WithSeeds_def weakHashLen32WithSeeds_def
    w_weakHashLen32WithSeeds_3_def weakHashLen32WithSeeds_3_def w_hashLen33to64_def
    hashLen33to64_def w_city_round_def city_round_def w_basic w_consts
  by (intro allI refl)+

lemma w_city64_loop: "w_city64_loop s l st = city64_loop s l st"
  by (induction s l st rule: city64_loop.induct)
     (subst w_city64_loop.simps, subst city64_loop.simps,
      auto simp: w_mixers Let_def intro!: Option.bind_cong)

lemma w_murmur_loop: "w_murmur_loop s l a b c d = murmur_loop s l a b c d"
  by (induction s l a b c d rule: murmur_loop.induct)
     (subst w_murmur_loop.simps, subst murmur_loop.simps,
      auto simp: w_basic w_consts Let_def intro!: Option.bind_cong)

lemma w_city128_loop: "w_city128_loop s pos l st = city128_loop s pos l st"
  by (induction s pos l st rule: city128_loop.induct)
     (subst w_city128_loop.simps, subst city128_loop.simps,
      auto simp: w_mixers Let_def intro!: Option.bind_cong)

lemma w_tail_loop: "w_tail_loop n t pos l td st = tail_loop n t pos l td st"
  by (induction n arbitrary: td st) (simp_all add: w_basic w_mixers w_consts Let_def split: prod.splits)

lemma w_loops:
  "w_city64_loop = city64_loop" "w_murmur_loop = murmur_loop" "w_city128_loop = city128_loop"
  "w_tail_loop = tail_loop"
  by (simp_all add: fun_eq_iff w_city64_loop w_murmur_loop w_city128_loop w_tail_loop)

lemma w_CityHash64_eq: "w_CityHash64 = CityHash64"
  unfolding fun_eq_iff w_CityHash64_def CityHash64_def w_basic w_mixers w_loops w_consts
  by (intro allI refl)

lemma w_cityMurmur_eq: "w_cityMurmur = cityMurmur"
  unfolding fun_eq_iff w_cityMurmur_def cityMurmur_def w_basic w_mixers w_loops w_consts
  by (intro allI refl)

lemma w_CityHash128WithSeed_eq: "w_CityHash128WithSeed = CityHash128WithSeed"
  unfolding fun_eq_iff w_CityHash128WithSeed_def CityHash128WithSeed_def w_basic w_mixers w_loops
    w_consts w_cityMurmur_eq
  by (intro allI refl)

text \<open>
  C29: the writer's copy of the hash and the reader's are the same function on every input
  and every length argument, the inputs on which they panic included. The copies are two files
  that have to be kept alike; the fingerprints of the writer come from another library.
\<close>

theorem writer_reader_hash_agree:
  "w_CityHash64 s l = CityHash64 s l \<and> w_CityHash128 s l = CityHash128 s l \<and>
   w_CityHash64WithSeed s l sd = CityHash64WithSeed s l sd \<and> w_Hash128to64 u = hash128to64 u"
  by (simp add: w_CityHash64_eq w_mixers w_CityHash128_def CityHash128_def w_basic w_consts
      w_CityHash128WithSeed_eq w_CityHash64WithSeed_def CityHash64WithSeed_def
      w_CityHash64WithSeeds_def CityHash64WithSeeds_def)

end
