(* ===== verification/Federation.thy ===== *)
theory Federation
  imports Sql_Select_Correct
begin

section \<open>Tenant scoping (shared/federation, logql\_transpiler/shared/federation.go)\<close>

text \<open>
  In federated mode every read is restricted to the tenants named by the request header
  \<open>X-Scope-OrgID\<close>. The request context carries an optional \<open>OidFilter\<close>; the process-wide
  flag \<open>enabled\<close> of package \<open>federation\<close> is an argument. Iterating the runes of a Go string
  meets an unsupported rune exactly when the string has an unsupported byte, since every
  supported rune is ASCII, so the validity test runs over bytes.
\<close>

definition parseBool :: "string \<Rightarrow> bool" where
  "parseBool v = (to_lower (trim_space v) \<in> set [''true'', ''1'', ''yes'', ''y''])"

record OidFilter =
  Tenants :: "string list"
  Deny :: bool

definition maxTenantIDLength :: nat where
  "maxTenantIDLength = 150"

definition isSupportedTenantRune :: "char \<Rightarrow> bool" where
  "isSupportedTenantRune r \<longleftrightarrow>
     CHR ''a'' \<le> r \<and> r \<le> CHR ''z'' \<or> CHR ''A'' \<le> r \<and> r \<le> CHR ''Z'' \<or>
     CHR ''0'' \<le> r \<and> r \<le> CHR ''9'' \<or> r \<in> set ''-_.''"

definition validTenantID :: "string \<Rightarrow> bool" where
  "validTenantID s \<longleftrightarrow>
     \<not> (s = '''' \<or> length s > maxTenantIDLength) \<and> \<not> (s = ''.'' \<or> s = ''..'') \<and>
     list_all isSupportedTenantRune s"

text \<open>The loop of \<open>ResolveTenants\<close>; \<open>seen\<close> and the result so far hold the same names.\<close>

fun resolve_loop :: "string list \<Rightarrow> string list \<Rightarrow> string list option" where
  "resolve_loop [] tenants = Some tenants"
| "resolve_loop (p # parts) tenants =
     (let t = trim_space p in
      if \<not> validTenantID t then None
      else if t \<in> set tenants then resolve_loop parts tenants
      else resolve_loop parts (tenants @ [t]))"

definition ResolveTenants :: "string \<Rightarrow> string list option" where
  "ResolveTenants raw =
     (if raw = '''' then None else map_option sort (resolve_loop (go_split CHR ''|'' raw) []))"

definition OidFilterFor :: "string \<Rightarrow> OidFilter" where
  "OidFilterFor raw =
     (case ResolveTenants raw of
        None \<Rightarrow> \<lparr>Tenants = [], Deny = True\<rparr>
      | Some ts \<Rightarrow> \<lparr>Tenants = ts, Deny = False\<rparr>)"

text \<open>\<open>ReadOidPreRequestPlugin\<close>: what it stores in the request context.\<close>

definition ReadOidPreRequestPlugin :: "bool \<Rightarrow> OidFilter option \<Rightarrow> string \<Rightarrow> OidFilter option" where
  "ReadOidPreRequestPlugin enabled ctx header =
     (if \<not> enabled then ctx else Some (OidFilterFor header))"

definition OidFilterFromContext :: "OidFilter option \<Rightarrow> OidFilter" where
  "OidFilterFromContext ctx =
     (case ctx of None \<Rightarrow> \<lparr>Tenants = [], Deny = False\<rparr> | Some f \<Rightarrow> f)"

definition BuildOidCondition :: "string \<Rightarrow> OidFilter \<Rightarrow> sqlobj" where
  "BuildOidCondition col f =
     (if Deny f \<or> Tenants f = [] then sql_Eq (IntVal 1) (IntVal 0)
      else if length (Tenants f) = 1 then sql_Eq (RawObject col) (StringVal (Tenants f ! 0))
      else In (RawObject col) (map StringVal (Tenants f)))"

definition OidConditionFromContext :: "bool \<Rightarrow> OidFilter option \<Rightarrow> string \<Rightarrow> sqlobj option" where
  "OidConditionFromContext enabled ctx tableAlias =
     (if \<not> enabled then None
      else Some (BuildOidCondition
        (if tableAlias \<noteq> '''' then tableAlias @ ''.oid'' else ''oid'') (OidFilterFromContext ctx)))"

subsection \<open>The tenants of a request\<close>

lemma resolve_loop_Some:
  "resolve_loop parts acc = Some ts \<Longrightarrow>
     set ts = set acc \<union> trim_space ` set parts \<and> (distinct acc \<longrightarrow> distinct ts) \<and>
     (\<forall>p\<in>set parts. validTenantID (trim_space p))"
proof (induction parts acc rule: resolve_loop.induct)
  case (2 p parts acc)
  have valid: "validTenantID (trim_space p)"
    using "2.prems" by (simp add: Let_def split: if_splits)
  show ?case
  proof (cases "trim_space p \<in> set acc")
    case True
    then have "resolve_loop parts acc = Some ts" using "2.prems" valid by simp
    with "2.IH"(1) [OF refl] True valid show ?thesis by auto
  next
    case False
    then have "resolve_loop parts (acc @ [trim_space p]) = Some ts" using "2.prems" valid by simp
    with "2.IH"(2) [OF refl] False valid show ?thesis by auto
  qed
qed simp

lemma resolve_loop_None:
  "resolve_loop parts acc = None \<longleftrightarrow> (\<exists>p\<in>set parts. \<not> validTenantID (trim_space p))"
  by (induction parts acc rule: resolve_loop.induct) (auto simp: Let_def)

lemma set_sort_tenants [simp]: "set (sort ts) = set (ts :: string list)"
  by simp

text \<open>
  \<open>ResolveTenants\<close> accepts exactly the non-empty headers all of whose parts are valid
  tenant names after trimming, and returns these names without repetition, in order.
\<close>

theorem ResolveTenants_spec:
  "case ResolveTenants raw of
     None \<Rightarrow> raw = '''' \<or> (\<exists>p\<in>set (go_split CHR ''|'' raw). \<not> validTenantID (trim_space p))
   | Some ts \<Rightarrow> raw \<noteq> '''' \<and> ts \<noteq> [] \<and> sorted ts \<and> distinct ts \<and> list_all validTenantID ts \<and>
       set ts = trim_space ` set (go_split CHR ''|'' raw)"
proof (cases "raw = ''''")
  case True
  then show ?thesis by (simp add: ResolveTenants_def)
next
  case False
  show ?thesis
  proof (cases "resolve_loop (go_split CHR ''|'' raw) []")
    case None
    then have "\<exists>p\<in>set (go_split CHR ''|'' raw). \<not> validTenantID (trim_space p)"
      using resolve_loop_None by blast
    with None show ?thesis by (simp add: ResolveTenants_def)
  next
    case (Some ts)
    from resolve_loop_Some [OF Some]
    have ts: "set ts = trim_space ` set (go_split CHR ''|'' raw)" "distinct ts" "list_all validTenantID ts"
      by (auto simp: list_all_iff)
    then have "ts \<noteq> []" by auto
    then have "sort ts \<noteq> []" by (metis set_empty set_sort)
    with False Some ts show ?thesis
      by (auto simp: ResolveTenants_def list_all_iff)
  qed
qed

theorem ResolveTenants_spec_witness:
  "case ResolveTenants ''b| a|b'' of
     None \<Rightarrow> ''b| a|b'' = '''' \<or> (\<exists>p\<in>set (go_split CHR ''|'' ''b| a|b''). \<not> validTenantID (trim_space p))
   | Some ts \<Rightarrow> ''b| a|b'' \<noteq> '''' \<and> ts \<noteq> [] \<and> sorted ts \<and> distinct ts \<and> list_all validTenantID ts \<and>
       set ts = trim_space ` set (go_split CHR ''|'' ''b| a|b'')"
  by (rule ResolveTenants_spec)

subsection \<open>The headers that name a tenant\<close>

text \<open>
  What a header should mean, as a grammar, with none of the functions of the code: parts with
  bars between them, each a tenant name with any white space around it. A tenant name has 1 to
  150 bytes, letters, digits and \<open>-_.\<close>, and is neither \<open>.\<close> nor \<open>..\<close>.
\<close>

definition tenant_chars :: string where
  "tenant_chars = ''abcdefghijklmnopqrstuvwxyzABCDEFGHIJKLMNOPQRSTUVWXYZ0123456789-_.''"

definition tenant_name :: "string \<Rightarrow> bool" where
  "tenant_name t \<longleftrightarrow> 1 \<le> length t \<and> length t \<le> 150 \<and> set t \<subseteq> set tenant_chars \<and> t \<notin> {''.'', ''..''}"

definition padded_name :: "string \<Rightarrow> string \<Rightarrow> bool" where
  "padded_name p t \<longleftrightarrow>
     tenant_name t \<and> (\<exists>us vs. set us \<subseteq> set go_spaces \<and> set vs \<subseteq> set go_spaces \<and> p = concat us @ t @ concat vs)"

definition names_tenant :: "string \<Rightarrow> string \<Rightarrow> bool" where
  "names_tenant header t \<longleftrightarrow>
     (\<exists>ps. header = go_join ''|'' ps \<and> (\<forall>p\<in>set ps. \<exists>u. padded_name p u) \<and> (\<exists>p\<in>set ps. padded_name p t))"

lemma tenant_char_codes:
  "c \<in> set tenant_chars \<longleftrightarrow>
     97 \<le> (of_char c :: nat) \<and> (of_char c :: nat) < 123 \<or> 65 \<le> (of_char c :: nat) \<and> (of_char c :: nat) < 91 \<or>
     48 \<le> (of_char c :: nat) \<and> (of_char c :: nat) < 58 \<or> (of_char c :: nat) \<in> {45, 95, 46}"
proof -
  have codes: "map (of_char :: char \<Rightarrow> nat) tenant_chars = [97..<123] @ [65..<91] @ [48..<58] @ [45, 95, 46]"
    by code_simp
  have "c \<in> set tenant_chars \<longleftrightarrow> of_char c \<in> set (map (of_char :: char \<Rightarrow> nat) tenant_chars)"
    by (auto simp: image_iff)
  then show ?thesis
    by (simp only: codes set_append set_upt atLeastLessThan_iff Un_iff list.set disj_assoc)
qed

lemma supported_iff: "isSupportedTenantRune c \<longleftrightarrow> c \<in> set tenant_chars"
proof -
  have eq: "c = d \<longleftrightarrow> (of_char c :: nat) = of_char d" for d by simp
  show ?thesis
    unfolding tenant_char_codes isSupportedTenantRune_def less_eq_char_def list.set insert_iff empty_iff eq by simp arith
qed

lemma valid_iff: "validTenantID t \<longleftrightarrow> tenant_name t"
  by (cases t) (auto simp: validTenantID_def tenant_name_def maxTenantIDLength_def supported_iff list_all_iff)

lemma strip_left_spaces: "\<exists>us. set us \<subseteq> set ws \<and> s = concat us @ strip_left ws s"
proof (induction ws s rule: strip_left.induct)
  case (1 ws s)
  show ?case
  proof (cases "strip_one ws s")
    case None
    then show ?thesis by (intro exI [of _ "[]"]) (simp add: strip_left.simps)
  next
    case (Some t)
    then obtain w where w: "s = w @ t" "w \<in> set ws"
      by (auto simp: strip_one_def find_Some_iff has_prefix_iff)
    obtain us where "set us \<subseteq> set ws" "t = concat us @ strip_left ws t" using 1 [OF Some] by blast
    moreover have "strip_left ws s = strip_left ws t" using Some by (simp add: strip_left.simps [of ws s])
    ultimately show ?thesis using w by (intro exI [of _ "w # us"]) auto
  qed
qed

lemma trim_space_padding:
  "\<exists>us vs. set us \<subseteq> set go_spaces \<and> set vs \<subseteq> set go_spaces \<and> s = concat us @ trim_space s @ concat vs"
proof -
  let ?l = "strip_left go_spaces s" and ?ws = "map rev go_spaces"
  obtain us where us: "set us \<subseteq> set go_spaces" "s = concat us @ ?l" using strip_left_spaces by blast
  obtain vs where vs: "set vs \<subseteq> set ?ws" "rev ?l = concat vs @ strip_left ?ws (rev ?l)"
    using strip_left_spaces by blast
  from vs(2) have "?l = rev (strip_left ?ws (rev ?l)) @ rev (concat vs)" by (metis rev_append rev_rev_ident)
  then have "?l = trim_space s @ concat (map rev (rev vs))" by (simp add: trim_space_def rev_concat rev_map)
  moreover have "set (map rev (rev vs)) \<subseteq> set go_spaces" using vs(1) by auto
  ultimately show ?thesis using us by metis
qed

text \<open>Stripping leaves a text whose first byte begins no space, and takes the spaces before it.\<close>

definition free_of :: "string list \<Rightarrow> char \<Rightarrow> bool" where
  "free_of ws c \<longleftrightarrow> (\<forall>w\<in>set ws. w \<noteq> [] \<and> hd w \<noteq> c)"

definition prefix_free :: "string list \<Rightarrow> bool" where
  "prefix_free ws \<longleftrightarrow> list_all (\<lambda>w. w \<noteq> [] \<and> list_all (\<lambda>w'. has_prefix w w' \<longrightarrow> w = w') ws) ws"

lemma strip_left_stops: "free_of ws c \<Longrightarrow> strip_left ws (c # s) = c # s"
proof -
  assume "free_of ws c"
  then have "strip_one ws (c # s) = None"
    by (auto simp: strip_one_def find_None_iff has_prefix_iff free_of_def Cons_eq_append_conv)
  then show ?thesis by (simp add: strip_left.simps)
qed

lemma strip_one_space:
  assumes "prefix_free ws" "w \<in> set ws"
  shows "strip_one ws (w @ s) = Some s"
proof -
  have same: "w' = w" if mem: "w' \<in> set ws" and pre: "has_prefix w' (w @ s)" for w'
  proof -
    have "has_prefix w' w \<or> has_prefix w w'"
      using pre by (auto simp: has_prefix_iff append_eq_append_conv2)
    then show ?thesis using assms mem by (auto simp: prefix_free_def list_all_iff)
  qed
  have "w \<noteq> []" using assms by (auto simp: prefix_free_def list_all_iff)
  then have "find (\<lambda>w. w \<noteq> [] \<and> has_prefix w (w' @ s)) ws \<noteq> None" if "w' = w" for w'
    using assms(2) that by (auto simp: find_None_iff has_prefix_iff)
  then obtain w' where f: "find (\<lambda>w'. w' \<noteq> [] \<and> has_prefix w' (w @ s)) ws = Some w'" by blast
  then have "w' = w" by (intro same) (auto simp: find_Some_iff)
  with f show ?thesis by (simp add: strip_one_def)
qed

lemma strip_left_all:
  assumes "prefix_free ws" "free_of ws c" "set us \<subseteq> set ws"
  shows "strip_left ws (concat us @ c # s) = c # s"
  using assms(3)
proof (induction us)
  case Nil
  then show ?case by (simp add: strip_left_stops assms(2))
next
  case (Cons u us)
  then have "strip_one ws (u @ (concat us @ c # s)) = Some (concat us @ c # s)"
    by (intro strip_one_space assms(1)) simp
  then show ?case using Cons by (subst strip_left.simps) simp
qed

lemma spaces_free:
  "prefix_free go_spaces" "prefix_free (map rev go_spaces)"
  "c \<in> set tenant_chars \<Longrightarrow> free_of go_spaces c" "c \<in> set tenant_chars \<Longrightarrow> free_of (map rev go_spaces) c"
proof -
  show "prefix_free go_spaces" "prefix_free (map rev go_spaces)" by code_simp+
  have ends: "list_all (\<lambda>w. w \<noteq> [] \<and> \<not> (33 \<le> (of_char (hd w) :: nat) \<and> (of_char (hd w) :: nat) < 128)) (go_spaces @ map rev go_spaces)"
    by code_simp
  assume "c \<in> set tenant_chars"
  then have "33 \<le> (of_char c :: nat)" "(of_char c :: nat) < 128" by (auto simp: tenant_char_codes)
  with ends show "free_of go_spaces c" "free_of (map rev go_spaces) c"
    by (auto simp: free_of_def list_all_iff)
qed

lemma padded_name_iff: "padded_name p t \<longleftrightarrow> validTenantID t \<and> trim_space p = t"
proof
  assume "validTenantID t \<and> trim_space p = t"
  then show "padded_name p t" using trim_space_padding [of p] by (auto simp: padded_name_def valid_iff)
next
  assume "padded_name p t"
  then obtain us vs where t: "tenant_name t" and
    p: "set us \<subseteq> set go_spaces" "set vs \<subseteq> set go_spaces" "p = concat us @ t @ concat vs"
    by (auto simp: padded_name_def)
  have "free_of go_spaces c \<and> free_of (map rev go_spaces) c" if "c \<in> set t" for c
    using that t spaces_free(3,4) by (auto simp: tenant_name_def)
  moreover obtain c t' where ct: "t = c # t'" using t by (cases t) (auto simp: tenant_name_def)
  moreover obtain d t'' where dt: "rev t = d # t''" using ct by (cases "rev t") auto
  moreover have "d \<in> set (rev t)" unfolding dt by simp
  moreover have "c \<in> set t" using ct by simp
  ultimately have free: "free_of go_spaces c" "free_of (map rev go_spaces) d" by (blast, metis set_rev)
  have left: "strip_left go_spaces p = t @ concat vs"
    using strip_left_all [OF spaces_free(1) free(1) p(1)] unfolding p(3) ct by simp
  have vs: "set (map rev (rev vs)) \<subseteq> set (map rev go_spaces)" using p(2) by auto
  have "rev (t @ concat vs) = concat (map rev (rev vs)) @ d # t''" by (simp add: dt rev_concat rev_map)
  then have "strip_left (map rev go_spaces) (rev (t @ concat vs)) = d # t''"
    using strip_left_all [OF spaces_free(2) free(2) vs] by simp
  then have "trim_space p = t" unfolding trim_space_def left by (metis dt rev_rev_ident)
  with t show "validTenantID t \<and> trim_space p = t" by (simp add: valid_iff)
qed

lemma go_split_join:
  "ps \<noteq> [] \<Longrightarrow> \<forall>p\<in>set ps. c \<notin> set p \<Longrightarrow> go_split c (go_join [c] ps) = ps"
proof (induction ps rule: remdups_adj.induct)
  case (2 p)
  then show ?case by (induction p) auto
next
  case (3 p q ps)
  have "c \<notin> set p \<Longrightarrow> go_split c (p @ c # go_join [c] (q # ps)) = p # go_split c (go_join [c] (q # ps))" for p
    by (induction p) auto
  with 3 show ?case by (auto split: if_splits)
qed simp

lemma padded_no_bar: "padded_name p t \<Longrightarrow> CHR ''|'' \<notin> set p"
proof -
  assume "padded_name p t"
  moreover have "CHR ''|'' \<notin> set tenant_chars" "list_all (\<lambda>w. CHR ''|'' \<notin> set w) go_spaces" by code_simp+
  ultimately show ?thesis by (fastforce simp: padded_name_def tenant_name_def list_all_iff)
qed

lemma names_tenant_iff:
  "names_tenant header t \<longleftrightarrow> (\<exists>ts. ResolveTenants header = Some ts \<and> t \<in> set ts)"
proof
  let ?ps = "go_split CHR ''|'' header"
  assume "\<exists>ts. ResolveTenants header = Some ts \<and> t \<in> set ts"
  then obtain ts where ts: "ResolveTenants header = Some ts" "t \<in> set ts" by blast
  then have "\<forall>p\<in>set ?ps. padded_name p (trim_space p)" "\<exists>p\<in>set ?ps. padded_name p t"
    using ResolveTenants_spec [of header] by (auto simp: padded_name_iff list_all_iff)
  then show "names_tenant header t" unfolding names_tenant_def using go_join_split [of "CHR ''|''" header] by metis
next
  assume "names_tenant header t"
  then obtain ps where ps: "header = go_join ''|'' ps" "\<forall>p\<in>set ps. \<exists>u. padded_name p u" "\<exists>p\<in>set ps. padded_name p t"
    by (auto simp: names_tenant_def)
  then have "ps \<noteq> []" by auto
  moreover have "\<forall>p\<in>set ps. CHR ''|'' \<notin> set p" using ps(2) padded_no_bar by blast
  ultimately have split: "go_split CHR ''|'' header = ps" using ps(1) go_split_join by simp
  have valid: "\<forall>p\<in>set ps. validTenantID (trim_space p)" using ps(2) by (auto simp: padded_name_iff)
  have "header \<noteq> ''''"
  proof
    assume "header = ''''"
    then have "ps = ['''']" using split by simp
    moreover have "trim_space '''' = ''''" using trim_space_padding [of "''''"] by (metis append_is_Nil_conv)
    ultimately show False using valid by (simp add: validTenantID_def)
  qed
  with ResolveTenants_spec [of header] valid split
  obtain ts where "ResolveTenants header = Some ts" "set ts = trim_space ` set ps"
    by (cases "ResolveTenants header") auto
  then show "\<exists>ts. ResolveTenants header = Some ts \<and> t \<in> set ts" using ps(3) by (auto simp: padded_name_iff image_iff)
qed

lemma OidFilterFor_names: "\<not> Deny (OidFilterFor header) \<and> t \<in> set (Tenants (OidFilterFor header)) \<longleftrightarrow> names_tenant header t"
  by (auto simp: OidFilterFor_def names_tenant_iff split: option.splits)

subsection \<open>The condition on a row\<close>

text \<open>
  A row maps a column, by the name a query gives it, to its value. \<open>row_atoms row v\<close> is what SQL
  documents of the conditions built here: \<open>v\<close> makes an equality of a column and a literal, a list
  of literals, and an equality of numbers true exactly if they hold in the row.
\<close>

definition row_atoms :: "(string \<Rightarrow> string) \<Rightarrow> (sqlobj \<Rightarrow> bool) \<Rightarrow> bool" where
  "row_atoms row v \<longleftrightarrow>
     (\<forall>c t. v (sql_Eq (RawObject c) (StringVal t)) = (row c = t)) \<and>
     (\<forall>c ts. v (In (RawObject c) (map StringVal ts)) = (row c \<in> set ts)) \<and>
     (\<forall>i j. v (sql_Eq (IntVal i) (IntVal j)) = (i = j))"

lemma BuildOidCondition_holds:
  assumes "row_atoms row v"
  shows "cond_holds v (BuildOidCondition col f) \<longleftrightarrow> \<not> Deny f \<and> row col \<in> set (Tenants f)"
proof -
  have eq: "cond_holds v (sql_Eq l r) = v (sql_Eq l r)" for l r by (simp add: sql_cond_defs)
  consider "Deny f" | "Tenants f = []" | t where "\<not> Deny f" "Tenants f = [t]"
    | "\<not> Deny f" "2 \<le> length (Tenants f)"
    by (cases "Tenants f" rule: remdups_adj.cases) auto
  then show ?thesis
    by cases (use assms in \<open>auto simp: BuildOidCondition_def eq row_atoms_def simp del: cond_holds.simps(1)\<close>)
qed

text \<open>A valuation with these laws.\<close>

fun literal_of :: "(string \<Rightarrow> string) \<Rightarrow> sqlobj \<Rightarrow> (string + int) option" where
  "literal_of row (RawObject c) = Some (Inl (row c))"
| "literal_of row (StringVal t) = Some (Inl t)"
| "literal_of row (IntVal i) = Some (Inr i)"
| "literal_of row _ = None"

fun example_atoms :: "(string \<Rightarrow> string) \<Rightarrow> sqlobj \<Rightarrow> bool" where
  "example_atoms row (LogicalOp fn cs) = (length cs = 2 \<and> literal_of row (cs ! 0) = literal_of row (cs ! 1))"
| "example_atoms row (In l vs) = list_ex (\<lambda>x. literal_of row x = literal_of row l) vs"
| "example_atoms row _ = False"

lemma example_atoms_laws: "row_atoms row (example_atoms row)"
  by (auto simp: row_atoms_def sql_cond_defs list_ex_iff)

subsection \<open>The printed condition\<close>

lemma escaped_unsupported: "list_all (\<lambda>p. \<not> isSupportedTenantRune (fst p)) escape_pairs"
  by code_simp

lemma supported_not_escaped: "isSupportedTenantRune x \<Longrightarrow> escape_body [x] = [x]"
proof -
  assume "isSupportedTenantRune x"
  then have "map_of escape_pairs x = None"
    using escaped_unsupported by (auto simp: map_of_eq_None_iff list_all_iff)
  then show ?thesis by (simp add: escape_body_byte)
qed

lemma valid_tenant_literal: "validTenantID t \<Longrightarrow> render_StringVal t = CHR 0x27 # t @ [CHR 0x27]"
proof -
  assume "validTenantID t"
  then have "list_all isSupportedTenantRune t" by (simp add: validTenantID_def)
  then have "escape_body t = t"
  proof (induction t)
    case (Cons x xs)
    then show ?case
      by (subst escape_body_Cons) (simp add: supported_not_escaped)
  qed simp
  then show ?thesis by (simp add: render_StringVal_def escape_body_def)
qed

lemma collect_pret [simp]: "collect (map (\<lambda>x. pret (f x)) xs) = pret (map f xs)"
  unfolding collect_def by (induction xs) simp_all

lemma collect_pair [simp]: "collect [pret x, pret y] = pret [x, y]"
  by (simp add: collect_def)

text \<open>
  the text of the condition for a resolved header: one tenant prints as an equality,
  several as a list, each name verbatim between quotes; a header that does not resolve
  prints the contradiction \<open>(1) == (0)\<close>.
\<close>

theorem oid_condition_text:
  "render opts (BuildOidCondition col (OidFilterFor raw)) = pret
     (case ResolveTenants raw of
        None \<Rightarrow> ''(1) == (0)''
      | Some [t] \<Rightarrow> ''('' @ col @ '') == ('' @ CHR 0x27 # t @ CHR 0x27 # '')''
      | Some ts \<Rightarrow> col @ '' IN ('' @ go_join '','' (map (\<lambda>t. CHR 0x27 # t @ [CHR 0x27]) ts) @ '')'')"
proof (cases "ResolveTenants raw")
  case None
  have "show_int 1 = ''1''" "show_int 0 = ''0''" by code_simp+
  with None show ?thesis
    by (simp add: OidFilterFor_def BuildOidCondition_def sql_cond_defs)
next
  case (Some ts)
  then have ts: "ts \<noteq> []" "list_all validTenantID ts"
    using ResolveTenants_spec [of raw] by simp_all
  have lits: "map render_StringVal ts = map (\<lambda>t. CHR 0x27 # t @ [CHR 0x27]) ts"
    using ts by (simp add: list_all_iff valid_tenant_literal)
  show ?thesis
  proof (cases "length ts = 1")
    case True
    then obtain t where "ts = [t]" by (auto simp: length_Suc_conv)
    with Some ts show ?thesis
      by (simp add: OidFilterFor_def BuildOidCondition_def sql_cond_defs valid_tenant_literal)
  next
    case False
    then obtain t u us where tu: "ts = t # u # us"
      using ts by (cases ts rule: remdups_adj.cases) auto
    have "render opts (BuildOidCondition col (OidFilterFor raw)) =
        pret (col @ '' IN ('' @ go_join '','' (map render_StringVal ts) @ '')'')"
      using Some False ts by (simp add: OidFilterFor_def BuildOidCondition_def comp_def)
    then show ?thesis by (simp only: lits) (simp add: Some tu)
  qed
qed

end
