(* ===== verification/Shard_Topo.thy ===== *)
theory Shard_Topo
  imports Gp_Prelude "HOL-Library.Product_Lexorder"
begin

section \<open>Shard topology discovery and refresh (shared/shardtopo)\<close>

text \<open>
  The writer routes local-shard writes by a snapshot of the cluster layout. A snapshot is
  built from the rows of \<open>system.clusters\<close>, restricted to the replicas in the write set, and
  is refreshed periodically; a refresh may grow the number of shards but never shrink it.

  DNS resolution (\<open>net.LookupHost\<close>), the ClickHouse query and the textual form of an IP
  address (\<open>net.ParseIP\<close> followed by \<open>String\<close>) are arguments: \<open>lookup\<close>, \<open>query\<close>,
  \<open>parse_ip\<close>. An \<open>allowIPs\<close> map holds only \<open>true\<close>; it is the list of its keys, \<open>None\<close> when
  nil. Go's \<open>sort.Slice\<close> leaves the order of equal elements open; the model takes the stable
  one and the theorems do not depend on it.
\<close>

record Replica =
  rep_ShardNum :: int
  rep_ReplicaNum :: int
  rep_HostName :: string
  rep_HostAddr :: string
  rep_Port :: "16 word"

record Shard =
  sh_ShardNum :: int
  sh_Replicas :: "Replica list"

record Snapshot =
  snap_ClusterName :: string
  snap_ShardCount :: int
  snap_Shards :: "Shard list"

datatype topo_error =
    EmptyClusterName
  | NoWriteIPs
  | QueryFailed go_error
  | ScanFailed go_error
  | IterateFailed go_error
  | NoReplicas
  | InvalidShardNum int
  | NotContiguous int nat
  | MissingShard int
  | NoWriteReplica int
  | ResolveFailed
  | ResolvedToNothing

definition normalizeIP :: "(string \<Rightarrow> string option) \<Rightarrow> string \<Rightarrow> string" where
  "normalizeIP parse_ip s =
     (let s = trim_space s in case parse_ip s of Some ip \<Rightarrow> ip | None \<Rightarrow> s)"

definition resolveHostAddr ::
    "(string \<Rightarrow> string list option) \<Rightarrow> (string \<Rightarrow> string option) \<Rightarrow> string \<Rightarrow> string" where
  "resolveHostAddr lookup parse_ip fqdn =
     (case lookup fqdn of
        None \<Rightarrow> ''''
      | Some [] \<Rightarrow> ''''
      | Some (ip # _) \<Rightarrow> normalizeIP parse_ip ip)"

definition replicaInWriteSet :: "(string \<Rightarrow> string option) \<Rightarrow> string list \<Rightarrow> Replica \<Rightarrow> bool" where
  "replicaInWriteSet parse_ip allowIPs r \<longleftrightarrow>
     normalizeIP parse_ip (rep_HostAddr r) \<in> set allowIPs \<or>
     normalizeIP parse_ip (rep_HostName r) \<in> set allowIPs"

definition ResolveIPSet ::
    "(string \<Rightarrow> string list option) \<Rightarrow> (string \<Rightarrow> string option) \<Rightarrow> string \<Rightarrow> topo_error + string list" where
  "ResolveIPSet lookup parse_ip host =
     (case lookup host of
        None \<Rightarrow> Inl ResolveFailed
      | Some ips \<Rightarrow>
          (let s = remdups (map (normalizeIP parse_ip) ips) in
           if s = [] then Inl ResolvedToNothing else Inr s))"

text \<open>The first loop of \<open>BuildSnapshot\<close>: group the replicas, track the largest shard number.\<close>

fun group_replicas ::
    "Replica list \<Rightarrow> (int \<times> Replica list) list \<Rightarrow> int \<Rightarrow> topo_error + (int \<times> Replica list) list \<times> int" where
  "group_replicas [] byShard maxShard = Inr (byShard, maxShard)"
| "group_replicas (r # rs) byShard maxShard =
     (if rep_ShardNum r < 1 then Inl (InvalidShardNum (rep_ShardNum r))
      else group_replicas rs
        (map_put (rep_ShardNum r)
          ((case map_of byShard (rep_ShardNum r) of None \<Rightarrow> [] | Some g \<Rightarrow> g) @ [r]) byShard)
        (if rep_ShardNum r > maxShard then rep_ShardNum r else maxShard))"

text \<open>The body of the second loop, for one shard number.\<close>

definition build_shard ::
    "(string \<Rightarrow> string option) \<Rightarrow> string list option \<Rightarrow> (int \<times> Replica list) list \<Rightarrow> int \<Rightarrow> topo_error + Shard" where
  "build_shard parse_ip allowIPs byShard shard =
     (let candidates = (case map_of byShard shard of None \<Rightarrow> [] | Some g \<Rightarrow> g) in
      if candidates = [] then Inl (MissingShard shard)
      else
        (let eligible = (case allowIPs of None \<Rightarrow> candidates
                         | Some ips \<Rightarrow> filter (replicaInWriteSet parse_ip ips) candidates) in
         if eligible = [] then Inl (NoWriteReplica shard)
         else Inr \<lparr>sh_ShardNum = shard,
                   sh_Replicas = sort_key (\<lambda>r. (rep_ReplicaNum r, rep_HostAddr r)) eligible\<rparr>))"

definition BuildSnapshot ::
    "(string \<Rightarrow> string option) \<Rightarrow> string \<Rightarrow> Replica list \<Rightarrow> string list option \<Rightarrow> topo_error + Snapshot" where
  "BuildSnapshot parse_ip clusterName replicas allowIPs =
     (if replicas = [] then Inl NoReplicas
      else rbind (group_replicas replicas [] 0) (\<lambda>(byShard, maxShard).
        if int (length byShard) \<noteq> maxShard then Inl (NotContiguous maxShard (length byShard))
        else rbind (mapM_res (build_shard parse_ip allowIPs byShard) [1..maxShard]) (\<lambda>shards.
          Inr \<lparr>snap_ClusterName = clusterName, snap_ShardCount = maxShard, snap_Shards = shards\<rparr>)))"

text \<open>
  \<open>Discover\<close>. The query gives its rows, each of which may fail to scan, and the error of the
  iteration as a whole.
\<close>

type_synonym cluster_query = "string \<Rightarrow> go_error + ((go_error + Replica) list \<times> go_error option)"

definition discover_row ::
    "(string \<Rightarrow> string list option) \<Rightarrow> (string \<Rightarrow> string option) \<Rightarrow> string \<Rightarrow> go_error + Replica \<Rightarrow> topo_error + Replica" where
  "discover_row lookup parse_ip dnsSuffix row =
     (case row of
        Inl e \<Rightarrow> Inl (ScanFailed e)
      | Inr r \<Rightarrow>
          Inr (if dnsSuffix \<noteq> '''' \<and> rep_HostName r \<noteq> ''''
               then r\<lparr>rep_HostAddr := resolveHostAddr lookup parse_ip (rep_HostName r @ ''.'' @ dnsSuffix)\<rparr>
               else r))"

definition Discover ::
    "(string \<Rightarrow> string list option) \<Rightarrow> (string \<Rightarrow> string option) \<Rightarrow> cluster_query \<Rightarrow> string \<Rightarrow>
     string list option \<Rightarrow> string \<Rightarrow> topo_error + Snapshot" where
  "Discover lookup parse_ip query clusterName allowIPs dnsSuffix =
     (if clusterName = '''' then Inl EmptyClusterName
      else if (case allowIPs of None \<Rightarrow> True | Some ips \<Rightarrow> ips = []) then Inl NoWriteIPs
      else (case query clusterName of
              Inl e \<Rightarrow> Inl (QueryFailed e)
            | Inr (rows, iter_err) \<Rightarrow>
                rbind (mapM_res (discover_row lookup parse_ip dnsSuffix) rows) (\<lambda>replicas.
                  case iter_err of
                    Some e \<Rightarrow> Inl (IterateFailed e)
                  | None \<Rightarrow> BuildSnapshot parse_ip clusterName replicas allowIPs)))"

text \<open>The discovery closure of \<open>New\<close>.\<close>

definition topo_discover ::
    "(string \<Rightarrow> string list option) \<Rightarrow> (string \<Rightarrow> string option) \<Rightarrow> cluster_query \<Rightarrow> string \<Rightarrow> string \<Rightarrow>
     string \<Rightarrow> topo_error + Snapshot" where
  "topo_discover lookup parse_ip query clusterName seedHost dnsSuffix =
     rbind (ResolveIPSet lookup parse_ip seedHost) (\<lambda>allowIPs.
       Discover lookup parse_ip query clusterName (Some allowIPs) dnsSuffix)"

text \<open>
  \<open>Topology\<close>: its only mutable state is the snapshot pointer. \<open>grow\<close> is what the \<open>onGrow\<close>
  callback returned for this refresh (\<open>None\<close> without error; a nil callback never fails).
  \<open>applyRefresh\<close> gives the live snapshot, whether it was swapped, and the new pointer.
\<close>

definition ShardCount :: "Snapshot option \<Rightarrow> int" where
  "ShardCount s = (case s of None \<Rightarrow> 0 | Some snap \<Rightarrow> snap_ShardCount snap)"

definition applyRefresh ::
    "go_error option \<Rightarrow> Snapshot \<Rightarrow> Snapshot option \<Rightarrow> Snapshot \<times> bool \<times> Snapshot option" where
  "applyRefresh grow next_snap snap =
     (case snap of
        None \<Rightarrow> (next_snap, True, Some next_snap)
      | Some cur \<Rightarrow>
          if snap_ShardCount next_snap = snap_ShardCount cur then (next_snap, True, Some next_snap)
          else if snap_ShardCount next_snap < snap_ShardCount cur then (cur, False, snap)
          else (case grow of
                  Some e \<Rightarrow> (cur, False, snap)
                | None \<Rightarrow> (next_snap, True, Some next_snap)))"

text \<open>
  The refresh loop: at every tick the discovery fails, and the layout is kept, or gives a
  snapshot that is applied; \<open>topo_step\<close> is one tick.
\<close>

inductive topo_step :: "(Snapshot \<Rightarrow> bool) \<Rightarrow> Snapshot option \<Rightarrow> Snapshot option \<Rightarrow> bool"
  for discovered :: "Snapshot \<Rightarrow> bool" where
  tick_failed: "topo_step discovered snap snap"
| tick_applied: "discovered n \<Longrightarrow> topo_step discovered snap (snd (snd (applyRefresh grow n snap)))"

inductive_cases topo_stepE: "topo_step discovered s t"

inductive topo_reach :: "(Snapshot \<Rightarrow> bool) \<Rightarrow> Snapshot \<Rightarrow> Snapshot option \<Rightarrow> bool"
  for discovered :: "Snapshot \<Rightarrow> bool" and s0 :: Snapshot where
  topo_start: "topo_reach discovered s0 (Some s0)"
| topo_next: "topo_reach discovered s0 s \<Longrightarrow> topo_step discovered s t \<Longrightarrow> topo_reach discovered s0 t"

subsection \<open>What a snapshot holds\<close>

definition eligible :: "(string \<Rightarrow> string option) \<Rightarrow> string list option \<Rightarrow> Replica \<Rightarrow> bool" where
  "eligible parse_ip allowIPs r \<longleftrightarrow>
     (case allowIPs of None \<Rightarrow> True | Some ips \<Rightarrow> replicaInWriteSet parse_ip ips r)"

abbreviation group_of :: "(int \<times> Replica list) list \<Rightarrow> int \<Rightarrow> Replica list" where
  "group_of byShard k \<equiv> (case map_of byShard k of None \<Rightarrow> [] | Some g \<Rightarrow> g)"

lemma group_replicas_spec:
  assumes "group_replicas rs bs mx = Inr (bs', mx')" "go_map bs"
  shows "go_map bs'" "fst ` set bs' = fst ` set bs \<union> rep_ShardNum ` set rs"
    "group_of bs' k = group_of bs k @ filter (\<lambda>r. rep_ShardNum r = k) rs"
    "mx' = fold max (map rep_ShardNum rs) mx" "\<forall>r\<in>set rs. 1 \<le> rep_ShardNum r"
  using assms
proof (induction rs bs mx rule: group_replicas.induct)
  case (2 r rs byShard maxShard)
  {
    case 1 with 2 show ?case by (auto split: if_splits)
  next
    case 2 with "2.IH" show ?case by (auto split: if_splits simp: keys_map_put)
  next
    case 3 with "2.IH" show ?case by (auto split: if_splits)
  next
    case 4 with "2.IH" show ?case by (auto split: if_splits simp: max_def)
  next
    case 5 with "2.IH" show ?case by (auto split: if_splits)
  }
qed auto

lemma group_replicas_Inl:
  "group_replicas rs bs mx = Inl e \<Longrightarrow> \<exists>r\<in>set rs. rep_ShardNum r < 1 \<and> e = InvalidShardNum (rep_ShardNum r)"
  by (induction rs bs mx rule: group_replicas.induct) (auto split: if_splits)

lemma fold_max_ge: "(m::int) \<le> fold max xs m" "x \<in> set xs \<Longrightarrow> x \<le> fold max xs m"
  using Max.set_eq_fold [of m xs] by (auto simp flip: Max.set_eq_fold)

lemma sort_key_Nil_iff: "sort_key f xs = [] \<longleftrightarrow> xs = []"
  by (metis set_empty set_sort)

lemma build_shard_Inr_iff:
  "build_shard p a bs k = Inr s \<longleftrightarrow>
     filter (eligible p a) (group_of bs k) \<noteq> [] \<and>
     s = \<lparr>sh_ShardNum = k, sh_Replicas = sort_key (\<lambda>r. (rep_ReplicaNum r, rep_HostAddr r))
            (filter (eligible p a) (group_of bs k))\<rparr>"
proof -
  have e: "eligible p (Some ips) = replicaInWriteSet p ips" "eligible p None = (\<lambda>r. True)" for ips
    by (auto simp: eligible_def fun_eq_iff)
  show ?thesis
    by (cases a; cases "map_of bs k") (auto simp: build_shard_def Let_def e)
qed

text \<open>The keys of the grouping are the numbers \<open>1 .. maxShard\<close> once the count matches.\<close>

lemma contiguous_keys:
  assumes "go_map bs" "fst ` set bs \<subseteq> {1..mx}" "int (length bs) = mx"
  shows "fst ` set bs = {1..mx}"
proof (rule card_subset_eq)
  have "card (fst ` set bs) = length bs"
    using assms(1) distinct_card [of "map fst bs"] by (simp add: go_map_def)
  then show "card (fst ` set bs) = card {1..mx}" using assms(3) by simp
qed (use assms in auto)

lemma BuildSnapshot_grouped:
  assumes "BuildSnapshot p c rs a = Inr snap"
  obtains bs where "rs \<noteq> []" "group_replicas rs [] 0 = Inr (bs, snap_ShardCount snap)"
    "int (length bs) = snap_ShardCount snap" "snap_ClusterName snap = c"
    "mapM_res (build_shard p a bs) [1..snap_ShardCount snap] = Inr (snap_Shards snap)"
  using assms by (auto simp: BuildSnapshot_def rbind_Inr_iff split: if_splits)

lemma grouped_keys:
  assumes "group_replicas rs [] 0 = Inr (bs, mx)"
  shows "go_map bs" "fst ` set bs = rep_ShardNum ` set rs" "rep_ShardNum ` set rs \<subseteq> {1..mx}"
    "group_of bs k = filter (\<lambda>r. rep_ShardNum r = k) rs" "0 \<le> mx" "rs \<noteq> [] \<Longrightarrow> mx \<in> rep_ShardNum ` set rs"
proof -
  note sp = group_replicas_spec [OF assms, simplified go_map_def, simplified]
  show "go_map bs" "fst ` set bs = rep_ShardNum ` set rs"
    "group_of bs k = filter (\<lambda>r. rep_ShardNum r = k) rs"
    using sp by (auto simp: go_map_def)
  show "rep_ShardNum ` set rs \<subseteq> {1..mx}" using sp(4,5) fold_max_ge(2) by fastforce
  show "0 \<le> mx" using sp(4) fold_max_ge(1) by simp
  show "mx \<in> rep_ShardNum ` set rs" if "rs \<noteq> []"
  proof -
    have "mx = Max (insert 0 (rep_ShardNum ` set rs))"
      using sp(4) Max.set_eq_fold [of 0 "map rep_ShardNum rs"] by simp
    moreover have "Max (insert 0 (rep_ShardNum ` set rs)) \<in> insert 0 (rep_ShardNum ` set rs)"
      by (rule Max_in) auto
    moreover have "Max (insert 0 (rep_ShardNum ` set rs)) \<noteq> 0"
    proof -
      have "hd rs \<in> set rs" using that by simp
      then have "1 \<le> Max (insert 0 (rep_ShardNum ` set rs))"
        using sp(5) by (intro order_trans [OF _ Max_ge [of _ "rep_ShardNum (hd rs)"]]) auto
      then show ?thesis by simp
    qed
    ultimately show ?thesis by auto
  qed
qed

lemma BuildSnapshot_facts:
  assumes "BuildSnapshot parse_ip c rs allow = Inr snap"
  shows "snap_ClusterName snap = c" "1 \<le> snap_ShardCount snap"
    "int (length (snap_Shards snap)) = snap_ShardCount snap" "snap_ShardCount snap \<le> int (length rs)"
    "i < length (snap_Shards snap) \<Longrightarrow>
      (let g = filter (\<lambda>r. rep_ShardNum r = int i + 1 \<and> eligible parse_ip allow r) rs in
       g \<noteq> [] \<and> snap_Shards snap ! i =
         \<lparr>sh_ShardNum = int i + 1, sh_Replicas = sort_key (\<lambda>r. (rep_ReplicaNum r, rep_HostAddr r)) g\<rparr>)"
proof -
  obtain bs where bs: "rs \<noteq> []" "group_replicas rs [] 0 = Inr (bs, snap_ShardCount snap)"
    "int (length bs) = snap_ShardCount snap" "snap_ClusterName snap = c"
    and m: "mapM_res (build_shard parse_ip allow bs) [1..snap_ShardCount snap] = Inr (snap_Shards snap)"
    using BuildSnapshot_grouped [OF assms] by metis
  note k = grouped_keys [OF bs(2)]
  show one: "1 \<le> snap_ShardCount snap" using k(3,6) bs(1) by auto
  show len: "int (length (snap_Shards snap)) = snap_ShardCount snap"
    using mapM_res_length [OF m] one by simp
  have "length bs = card (rep_ShardNum ` set rs)"
    using k(1,2) distinct_card [of "map fst bs"] by (simp add: go_map_def)
  also have "\<dots> \<le> length rs" by (metis card_image_le card_length finite_set le_trans)
  finally show "snap_ShardCount snap \<le> int (length rs)" using bs(3) by simp
  show "snap_ClusterName snap = c" by fact
  assume "i < length (snap_Shards snap)"
  then have "build_shard parse_ip allow bs (int i + 1) = Inr (snap_Shards snap ! i)"
    using mapM_res_nth [OF m, of i] len mapM_res_length [OF m] by (simp add: nth_upto add.commute)
  then show "let g = filter (\<lambda>r. rep_ShardNum r = int i + 1 \<and> eligible parse_ip allow r) rs in
       g \<noteq> [] \<and> snap_Shards snap ! i =
         \<lparr>sh_ShardNum = int i + 1, sh_Replicas = sort_key (\<lambda>r. (rep_ReplicaNum r, rep_HostAddr r)) g\<rparr>"
    by (auto simp: build_shard_Inr_iff Let_def k(4) filter_filter conj_commute)
qed

text \<open>
  C28: a snapshot that \<open>BuildSnapshot\<close> returns has at least one shard, its shards are numbered
  consecutively from 1 up to \<open>ShardCount\<close>, and shard \<open>i + 1\<close> lists exactly the replicas of
  the input with that number that are in the write set (at least one), ordered by
  \<open>ReplicaNum\<close> and then by \<open>HostAddr\<close>.
\<close>

theorem BuildSnapshot_spec:
  assumes "BuildSnapshot parse_ip c rs allow = Inr snap"
  shows "snap_ClusterName snap = c \<and> 1 \<le> snap_ShardCount snap \<and>
    int (length (snap_Shards snap)) = snap_ShardCount snap \<and>
    (\<forall>i < length (snap_Shards snap).
       (let sh = snap_Shards snap ! i in
        sh_ShardNum sh = int i + 1 \<and> sh_Replicas sh \<noteq> [] \<and>
        mset (sh_Replicas sh) =
          mset (filter (\<lambda>r. rep_ShardNum r = int i + 1 \<and> eligible parse_ip allow r) rs) \<and>
        sorted (map (\<lambda>r. (rep_ReplicaNum r, rep_HostAddr r)) (sh_Replicas sh))))"
  using BuildSnapshot_facts [OF assms] by (auto simp: Let_def sort_key_Nil_iff)

definition example_replicas :: "Replica list" where
  "example_replicas =
     [\<lparr>rep_ShardNum = 2, rep_ReplicaNum = 1, rep_HostName = ''ch-2'', rep_HostAddr = ''10.0.0.2'', rep_Port = 9000\<rparr>,
      \<lparr>rep_ShardNum = 1, rep_ReplicaNum = 2, rep_HostName = ''ch-1b'', rep_HostAddr = ''10.0.0.3'', rep_Port = 9000\<rparr>,
      \<lparr>rep_ShardNum = 1, rep_ReplicaNum = 1, rep_HostName = ''ch-1a'', rep_HostAddr = ''10.0.0.1'', rep_Port = 9000\<rparr>]"

definition example_snapshot :: Snapshot where
  "example_snapshot =
     \<lparr>snap_ClusterName = ''logs'', snap_ShardCount = 2,
      snap_Shards = [\<lparr>sh_ShardNum = 1, sh_Replicas = [example_replicas ! 2, example_replicas ! 1]\<rparr>,
                     \<lparr>sh_ShardNum = 2, sh_Replicas = [example_replicas ! 0]\<rparr>]\<rparr>"

lemma example_builds: "BuildSnapshot (\<lambda>s. None) ''logs'' example_replicas None = Inr example_snapshot"
  by code_simp

theorem BuildSnapshot_spec_witness:
  "snap_ClusterName example_snapshot = ''logs'' \<and>
   int (length (snap_Shards example_snapshot)) = snap_ShardCount example_snapshot"
  using BuildSnapshot_spec [OF example_builds] by blast

text \<open>
  \<open>BuildSnapshot\<close> succeeds exactly when the replica list is not empty, the shard numbers
  in it are the interval from 1 to some \<open>n\<close>, and every shard of the interval has a replica in
  the write set; the error for a shard with no candidates at all is never returned.
\<close>

theorem BuildSnapshot_succeeds_iff:
  "((\<exists>snap. BuildSnapshot parse_ip c rs allow = Inr snap) \<longleftrightarrow>
     rs \<noteq> [] \<and> (\<exists>n. rep_ShardNum ` set rs = {1..n} \<and>
        {1..n} \<subseteq> rep_ShardNum ` {r \<in> set rs. eligible parse_ip allow r})) \<and>
   (\<nexists>k. BuildSnapshot parse_ip c rs allow = Inl (MissingShard k))"
proof (cases "group_replicas rs [] 0")
  case (Inl e)
  then obtain r where "r \<in> set rs" "rep_ShardNum r < 1" "e = InvalidShardNum (rep_ShardNum r)"
    using group_replicas_Inl by blast
  moreover from this have "rep_ShardNum ` set rs \<noteq> {1..n}" for n
    by (metis atLeastAtMost_iff image_eqI not_less)
  ultimately show ?thesis using Inl by (auto simp: BuildSnapshot_def)
next
  case (Inr q)
  obtain bs mx where q: "q = (bs, mx)" by force
  note k = grouped_keys [OF Inr [unfolded q]]
  have len_card: "length bs = card (rep_ShardNum ` set rs)"
    using k(1,2) distinct_card [of "map fst bs"] by (simp add: go_map_def)
  show ?thesis
  proof (cases "rs = [] \<or> int (length bs) \<noteq> mx")
    case True
    have "int (length bs) = mx" if n: "rep_ShardNum ` set rs = {1..n}" and "rs \<noteq> []" for n
    proof -
      have "mx \<in> {1..n}" using k(6) that by blast
      moreover from this have "n \<in> rep_ShardNum ` set rs" using n by simp
      then have "n \<le> mx" using k(3) by (metis atLeastAtMost_iff subsetD)
      ultimately have "n = mx" "0 \<le> n" by auto
      then show ?thesis using len_card n by simp
    qed
    then show ?thesis using True Inr q by (auto simp: BuildSnapshot_def)
  next
    case False
    then have keys: "rep_ShardNum ` set rs = {1..mx}"
      using contiguous_keys [OF k(1)] k(2,3) by simp
    have nomiss: "build_shard parse_ip allow bs j \<noteq> Inl (MissingShard i)" if "j \<in> {1..mx}" for i j
    proof -
      have "j \<in> rep_ShardNum ` set rs" using that keys by simp
      then have "group_of bs j \<noteq> []" using k(4) [of j] by (auto simp: filter_empty_conv)
      then show ?thesis by (auto simp: build_shard_def Let_def split: option.splits)
    qed
    have ok: "(\<exists>sh. build_shard parse_ip allow bs j = Inr sh) \<longleftrightarrow>
        j \<in> rep_ShardNum ` {r \<in> set rs. eligible parse_ip allow r}" for j
      by (auto simp: build_shard_Inr_iff k(4) filter_empty_conv image_def)
    have all: "(\<exists>shs. mapM_res (build_shard parse_ip allow bs) [1..mx] = Inr shs) \<longleftrightarrow>
        (\<forall>j\<in>{1..mx}. \<exists>sh. build_shard parse_ip allow bs j = Inr sh)"
      by (rule mapM_res_succeeds_iff [of _ "[1..mx]", simplified])
    have "n = mx" if "rep_ShardNum ` set rs = {1..n}" for n
      using that keys False k(3,6) by (auto simp: Icc_eq_Icc)
    then show ?thesis
      using False Inr q keys ok all nomiss
      by (auto simp: BuildSnapshot_def rbind_Inr_iff rbind_Inl_iff dest!: mapM_res_Inl)
  qed
qed

subsection \<open>Refreshes\<close>

text \<open>
  C27: the refresh loop. From a start snapshot, whatever the outcomes of the later discoveries
  and of the growth callback, the live snapshot is the start snapshot or one that a discovery
  gave, it always exists, and its number of shards never falls below any earlier one.
\<close>

theorem refresh_never_shrinks:
  assumes "topo_reach discovered s0 s" "topo_step discovered s t"
  shows "ShardCount (Some s0) \<le> ShardCount s \<and> ShardCount s \<le> ShardCount t \<and>
    (\<exists>snap. t = Some snap \<and> (snap = s0 \<or> discovered snap))"
proof -
  have step: "ShardCount s \<le> ShardCount t \<and> (\<exists>b. t = Some b \<and> (b = a \<or> discovered b))"
    if "topo_step discovered s t" "s = Some a" for s t a
    using that
    by (auto elim!: topo_stepE simp: applyRefresh_def ShardCount_def split: option.splits if_splits)
  have "ShardCount (Some s0) \<le> ShardCount s \<and> (\<exists>b. s = Some b \<and> (b = s0 \<or> discovered b))"
    using assms(1)
  proof (induction rule: topo_reach.induct)
    case (topo_next s t)
    then show ?case using step [OF topo_next.hyps(2)] by fastforce
  qed auto
  then show ?thesis using step [OF assms(2)] by fastforce
qed

theorem refresh_never_shrinks_witness:
  "ShardCount (Some example_snapshot) \<le>
     ShardCount (snd (snd (applyRefresh None (example_snapshot\<lparr>snap_ShardCount := 1\<rparr>) (Some example_snapshot))))"
proof -
  have "topo_step (\<lambda>s. True) (Some example_snapshot)
      (snd (snd (applyRefresh None (example_snapshot\<lparr>snap_ShardCount := 1\<rparr>) (Some example_snapshot))))"
    by (rule tick_applied) simp
  from refresh_never_shrinks [OF topo_start this] show ?thesis by blast
qed

text \<open>
  a refresh that sees fewer shards, or more shards while the growth callback fails, keeps
  the live snapshot and reports that nothing was swapped; every other refresh installs the
  discovered snapshot, replicas included, and returns it.
\<close>

theorem applyRefresh_outcome:
  "applyRefresh grow n (Some cur) =
     (if snap_ShardCount n < snap_ShardCount cur \<or>
         snap_ShardCount cur < snap_ShardCount n \<and> grow \<noteq> None
      then (cur, False, Some cur) else (n, True, Some n))"
  by (auto simp: applyRefresh_def split: option.splits)

end
