(* ===== verification/Loki_Sharding.thy ===== *)
theory Loki_Sharding
  imports Shard_Topo
begin

section \<open>Fingerprint routing of log writes (writer/controller/loki\_sharding.go)\<close>

text \<open>
  With local-shard writes enabled, a batch of time series or samples is cut into one batch
  per shard by \<open>fingerprint mod N\<close> and every non-empty part is pushed to one replica of its
  shard, chosen round-robin. This theory models the partition functions, the service table
  with its counters, the two push functions, and from writer/plugin/loki\_sharding.go how
  the table is built and grown.

  A batch keeps parallel column slices. A \<open>float64\<close> value is the 64-bit word of its bits,
  since it is only copied; a \<open>time.Time\<close> is an integer; \<open>Size\<close> is an integer without
  bound (it sums the lengths of strings in memory).
\<close>

record TimeSeriesData =
  ts_MDate :: "int list"
  ts_MLabels :: "string list"
  ts_MFingerprint :: "64 word list"
  ts_MTTLDays :: "16 word list"
  ts_Size :: int
  ts_MType :: "8 word list"
  ts_MMeta :: string
  ts_MMetadata :: "string list"
  ts_MOid :: string

record TimeSamplesData =
  spl_MFingerprint :: "64 word list"
  spl_MTimestampNS :: "64 word list"
  spl_MMessage :: "string list"
  spl_MValue :: "64 word list"
  spl_MTTLDays :: "16 word list"
  spl_Size :: int
  spl_MType :: "8 word list"
  spl_MOid :: string

definition ShardIndex :: "64 word \<Rightarrow> int \<Rightarrow> nat" where
  "ShardIndex fingerprint shardCount =
     (if shardCount \<le> 1 then 0 else unat (fingerprint mod word_of_int shardCount))"

text \<open>\<open>if i < len(src) { dst = append(dst, src[i]) }\<close>\<close>

definition take_at :: "'a list \<Rightarrow> nat \<Rightarrow> 'a list" where
  "take_at src i = (if i < length src then [src ! i] else [])"

definition str_at :: "string list \<Rightarrow> nat \<Rightarrow> string" where
  "str_at src i = (if i < length src then src ! i else '''')"

definition append_series :: "TimeSeriesData \<Rightarrow> nat \<Rightarrow> TimeSeriesData \<Rightarrow> TimeSeriesData" where
  "append_series inp i b =
     b\<lparr>ts_MFingerprint := ts_MFingerprint b @ take_at (ts_MFingerprint inp) i,
       ts_MDate := ts_MDate b @ take_at (ts_MDate inp) i,
       ts_MLabels := ts_MLabels b @ take_at (ts_MLabels inp) i,
       ts_MTTLDays := ts_MTTLDays b @ take_at (ts_MTTLDays inp) i,
       ts_MType := ts_MType b @ take_at (ts_MType inp) i,
       ts_MMetadata := ts_MMetadata b @ take_at (ts_MMetadata inp) i,
       ts_Size := ts_Size b + (14 + int (length (str_at (ts_MLabels inp) i))
                                  + int (length (str_at (ts_MMetadata inp) i)))\<rparr>"

definition append_sample :: "TimeSamplesData \<Rightarrow> nat \<Rightarrow> TimeSamplesData \<Rightarrow> TimeSamplesData" where
  "append_sample inp i b =
     b\<lparr>spl_MFingerprint := spl_MFingerprint b @ take_at (spl_MFingerprint inp) i,
       spl_MTimestampNS := spl_MTimestampNS b @ take_at (spl_MTimestampNS inp) i,
       spl_MMessage := spl_MMessage b @ take_at (spl_MMessage inp) i,
       spl_MValue := spl_MValue b @ take_at (spl_MValue inp) i,
       spl_MTTLDays := spl_MTTLDays b @ take_at (spl_MTTLDays inp) i,
       spl_MType := spl_MType b @ take_at (spl_MType inp) i,
       spl_Size := spl_Size b + (int (length (str_at (spl_MMessage inp) i)) + 26)\<rparr>"

text \<open>The row loop shared by the two partition functions: row \<open>i\<close> goes to bucket \<open>key i\<close>.\<close>

fun shard_loop :: "(nat \<Rightarrow> nat) \<Rightarrow> (nat \<Rightarrow> 'b \<Rightarrow> 'b) \<Rightarrow> nat list \<Rightarrow> 'b list \<Rightarrow> 'b list" where
  "shard_loop key add [] out = out"
| "shard_loop key add (i # rows) out = shard_loop key add rows (out[key i := add i (out ! key i)])"

definition empty_series :: "string \<Rightarrow> string \<Rightarrow> TimeSeriesData" where
  "empty_series meta oid =
     \<lparr>ts_MDate = [], ts_MLabels = [], ts_MFingerprint = [], ts_MTTLDays = [], ts_Size = 0,
      ts_MType = [], ts_MMeta = meta, ts_MMetadata = [], ts_MOid = oid\<rparr>"

definition empty_samples :: "string \<Rightarrow> TimeSamplesData" where
  "empty_samples oid =
     \<lparr>spl_MFingerprint = [], spl_MTimestampNS = [], spl_MMessage = [], spl_MValue = [],
      spl_MTTLDays = [], spl_Size = 0, spl_MType = [], spl_MOid = oid\<rparr>"

definition PartitionTimeSeries :: "TimeSeriesData option \<Rightarrow> int \<Rightarrow> TimeSeriesData list" where
  "PartitionTimeSeries inp shardCount =
     (case inp of
        None \<Rightarrow> []
      | Some d \<Rightarrow>
          (let n = (if shardCount < 1 then 1 else shardCount) in
           shard_loop (\<lambda>i. ShardIndex (ts_MFingerprint d ! i) n) (append_series d)
             [0..<length (ts_MFingerprint d)]
             (replicate (nat n) (empty_series (ts_MMeta d) (ts_MOid d)))))"

definition PartitionTimeSamples :: "TimeSamplesData option \<Rightarrow> int \<Rightarrow> TimeSamplesData list" where
  "PartitionTimeSamples inp shardCount =
     (case inp of
        None \<Rightarrow> []
      | Some d \<Rightarrow>
          (let n = (if shardCount < 1 then 1 else shardCount) in
           shard_loop (\<lambda>i. ShardIndex (spl_MFingerprint d ! i) n) (append_sample d)
             [0..<length (spl_MFingerprint d)]
             (replicate (nat n) (empty_samples (spl_MOid d)))))"

subsection \<open>The service table and its round-robin counters\<close>

record 'svc LokiShardServices =
  lss_TS :: "'svc list list"
  lss_Spl :: "'svc list list"
  lss_tsRR :: "32 word list"
  lss_splRR :: "32 word list"

definition NewLokiShardServices :: "'svc list list \<Rightarrow> 'svc list list \<Rightarrow> 'svc LokiShardServices" where
  "NewLokiShardServices ts spl =
     \<lparr>lss_TS = ts, lss_Spl = spl,
      lss_tsRR = replicate (length ts) 0, lss_splRR = replicate (length spl) 0\<rparr>"

text \<open>
  The body of \<open>pickTS\<close> and \<open>pickSpl\<close> on one table and one counter slice. A shard index out of
  range, and the remainder by a zero replica count, are run-time panics.
\<close>

definition pick_replica :: "'svc list list \<Rightarrow> 32 word list \<Rightarrow> nat \<Rightarrow> ('svc \<times> 32 word list) res" where
  "pick_replica table rr shard =
     (if \<not> shard < length table then Inl (Panic ''index out of range'')
      else
        (let reps = table ! shard in
         if length reps = 1 then Inr (reps ! 0, rr)
         else if \<not> shard < length rr then Inl (Panic ''index out of range'')
         else
           (let c = rr ! shard + 1; n = c - 1; len = (of_nat (length reps) :: 32 word) in
            if len = 0 then Inl (Panic ''integer divide by zero'')
            else if \<not> unat (n mod len) < length reps then Inl (Panic ''index out of range'')
            else Inr (reps ! unat (n mod len), rr[shard := c]))))"

definition pickTS :: "'svc LokiShardServices \<Rightarrow> nat \<Rightarrow> ('svc \<times> 'svc LokiShardServices) res" where
  "pickTS s shard =
     rbind (pick_replica (lss_TS s) (lss_tsRR s) shard) (\<lambda>(svc, rr). Inr (svc, s\<lparr>lss_tsRR := rr\<rparr>))"

definition pickSpl :: "'svc LokiShardServices \<Rightarrow> nat \<Rightarrow> ('svc \<times> 'svc LokiShardServices) res" where
  "pickSpl s shard =
     rbind (pick_replica (lss_Spl s) (lss_splRR s) shard) (\<lambda>(svc, rr). Inr (svc, s\<lparr>lss_splRR := rr\<rparr>))"

text \<open>\<open>lokiShardServices\<close> reads the global pointer; the pointer is the argument.\<close>

definition lokiShardServices :: "'svc LokiShardServices option \<Rightarrow> 'svc LokiShardServices option" where
  "lokiShardServices ptr =
     (case ptr of None \<Rightarrow> None | Some s \<Rightarrow> if length (lss_TS s) = 0 then None else Some s)"

definition shardRoutingActive :: "'svc LokiShardServices option \<Rightarrow> bool option \<Rightarrow> bool" where
  "shardRoutingActive ptr marker =
     (if lokiShardServices ptr = None then False else marker = Some True)"

text \<open>
  The request interface value: nil, one of the two batch types, or a value of another type.
  A push is recorded as the payload and the service that \<open>doPush\<close> was called with.
\<close>

datatype push_req = ReqNil | ReqSeries TimeSeriesData | ReqSamples TimeSamplesData | ReqOther nat

fun push_parts ::
    "('p \<Rightarrow> 64 word list) \<Rightarrow> ('p \<Rightarrow> push_req) \<Rightarrow> ('s \<Rightarrow> nat \<Rightarrow> ('svc \<times> 's) res) \<Rightarrow> nat \<Rightarrow> 'p list \<Rightarrow> 's
     \<Rightarrow> ((push_req \<times> 'svc) list \<times> 's) res" where
  "push_parts fps req pick i [] s = Inr ([], s)"
| "push_parts fps req pick i (part # parts) s =
     (if fps part = [] then push_parts fps req pick (Suc i) parts s
      else rbind (pick s i) (\<lambda>(svc, s').
             rbind (push_parts fps req pick (Suc i) parts s') (\<lambda>(ps, s'').
               Inr ((req part, svc) # ps, s''))))"

definition pushShardedTimeSeries ::
    "'svc LokiShardServices option \<Rightarrow> push_req
     \<Rightarrow> ((push_req \<times> 'svc) list \<times> 'svc LokiShardServices option) res" where
  "pushShardedTimeSeries ptr req =
     (case lokiShardServices ptr of
        None \<Rightarrow> Inr ([], ptr)
      | Some svcs \<Rightarrow>
          (case req of
             ReqNil \<Rightarrow> Inr ([], ptr)
           | ReqSeries ts \<Rightarrow>
               rbind (push_parts ts_MFingerprint ReqSeries pickTS 0
                        (PartitionTimeSeries (Some ts) (int (length (lss_TS svcs)))) svcs)
                 (\<lambda>(ps, s). Inr (ps, Some s))
           | _ \<Rightarrow> rbind (pickTS svcs 0) (\<lambda>(svc, s). Inr ([(req, svc)], Some s))))"

definition pushShardedSamples ::
    "'svc LokiShardServices option \<Rightarrow> push_req
     \<Rightarrow> ((push_req \<times> 'svc) list \<times> 'svc LokiShardServices option) res" where
  "pushShardedSamples ptr req =
     (case lokiShardServices ptr of
        None \<Rightarrow> Inr ([], ptr)
      | Some svcs \<Rightarrow>
          (case req of
             ReqNil \<Rightarrow> Inr ([], ptr)
           | ReqSamples spl \<Rightarrow>
               rbind (push_parts spl_MFingerprint ReqSamples pickSpl 0
                        (PartitionTimeSamples (Some spl) (int (length (lss_Spl svcs)))) svcs)
                 (\<lambda>(ps, s). Inr (ps, Some s))
           | _ \<Rightarrow> rbind (pickSpl svcs 0) (\<lambda>(svc, s). Inr ([(req, svc)], Some s))))"

subsection \<open>Building and growing the table (writer/plugin/loki\_sharding.go)\<close>

definition lokiLocalShardWritesEnabled :: "string \<Rightarrow> bool" where
  "lokiLocalShardWritesEnabled env =
     (to_lower (trim_space env) \<in> {''1'', ''true'', ''on'', ''yes''})"

definition defaultShardDNSSuffix :: string where
  "defaultShardDNSSuffix = ''clickhouse-cluster.svc.cluster.local''"

text \<open>The environment variable is \<open>None\<close> when unset.\<close>

definition shardDNSSuffix :: "string option \<Rightarrow> string" where
  "shardDNSSuffix env = (case env of Some v \<Rightarrow> trim_space v | None \<Rightarrow> defaultShardDNSSuffix)"

definition shardDialHost :: "string option \<Rightarrow> Replica \<Rightarrow> string" where
  "shardDialHost env rep =
     (if shardDNSSuffix env \<noteq> '''' \<and> rep_HostName rep \<noteq> ''''
      then rep_HostName rep @ ''.'' @ shardDNSSuffix env
      else rep_HostAddr rep)"

text \<open>A service that \<open>buildReplica\<close> creates: its table, host and node name.\<close>

datatype shard_table = SeriesTable | SamplesTable

record shard_service =
  svc_Table :: shard_table
  svc_Host :: string
  svc_Node :: string

definition buildReplica ::
    "string option \<Rightarrow> nat \<Rightarrow> nat \<Rightarrow> Replica \<Rightarrow> shard_service \<times> shard_service \<times> string" where
  "buildReplica env shardIdx repIdx rep =
     (let host = shardDialHost env rep;
          node = ''qryn_shard_'' @ show_nat (shardIdx + 1) @ ''_r'' @ show_nat (repIdx + 1) in
      (\<lparr>svc_Table = SeriesTable, svc_Host = host, svc_Node = node\<rparr>,
       \<lparr>svc_Table = SamplesTable, svc_Host = host, svc_Node = node\<rparr>, node))"

definition buildShard ::
    "string option \<Rightarrow> nat \<Rightarrow> Shard \<Rightarrow> shard_service list \<times> shard_service list \<times> string list" where
  "buildShard env shardIdx sh =
     (let built = map (\<lambda>(r, rep). buildReplica env shardIdx r rep) (enumerate 0 (sh_Replicas sh)) in
      (map fst built, map (fst \<circ> snd) built, map (snd \<circ> snd) built))"

text \<open>The growth callback: keep the services of the known shards, add those of the new ones.\<close>

definition onGrow ::
    "string option \<Rightarrow> Snapshot \<Rightarrow> shard_service LokiShardServices option \<Rightarrow> shard_service LokiShardServices" where
  "onGrow env next_snap cur =
     (let curTS = (case cur of None \<Rightarrow> [] | Some c \<Rightarrow> lss_TS c);
          curSpl = (case cur of None \<Rightarrow> [] | Some c \<Rightarrow> lss_Spl c);
          built = map (\<lambda>i. buildShard env i (snap_Shards next_snap ! i))
                    [length curTS..<nat (snap_ShardCount next_snap)] in
      NewLokiShardServices (curTS @ map fst built) (curSpl @ map (fst \<circ> snd) built))"

text \<open>The table of the first snapshot, at the end of \<open>buildLokiShardServices\<close>.\<close>

definition initial_services ::
    "string option \<Rightarrow> Snapshot \<Rightarrow> shard_service LokiShardServices" where
  "initial_services env snap =
     (let built = map (\<lambda>i. buildShard env i (snap_Shards snap ! i)) [0..<nat (snap_ShardCount snap)] in
      NewLokiShardServices (map fst built) (map (fst \<circ> snd) built))"

subsection \<open>The partition loop\<close>

lemma ShardIndex_less:
  assumes "n < 2 ^ 63"
  shows "ShardIndex fp n < nat (max 1 n)"
proof (cases "n \<le> 1")
  case False
  then have "unat (word_of_int n :: 64 word) = nat n"
    using assms by (simp add: unat_eq_nat_uint unsigned_of_int take_bit_int_eq_self)
  then show ?thesis using False by (simp add: ShardIndex_def unat_mod_distrib)
qed (simp add: ShardIndex_def)

lemma ShardIndex_clamp: "ShardIndex fp (if n < 1 then 1 else n) = ShardIndex fp n"
  by (simp add: ShardIndex_def)

lemma shard_loop_length [simp]: "length (shard_loop key add rows out) = length out"
  by (induction key add rows out rule: shard_loop.induct) auto

lemma shard_loop_nth:
  "k < length out \<Longrightarrow> \<forall>i\<in>set rows. key i < length out \<Longrightarrow>
   shard_loop key add rows out ! k = fold add (filter (\<lambda>i. key i = k) rows) (out ! k)"
  by (induction key add rows out rule: shard_loop.induct) (auto simp: nth_list_update)

text \<open>
  The contract of one column: a row appends at most one cell to it, the cell of that row.
\<close>

locale sharded_column =
  fixes add :: "nat \<Rightarrow> 'b \<Rightarrow> 'b" and proj :: "'b \<Rightarrow> 'c list" and src :: "'c list"
  assumes add_proj: "proj (add i b) = proj b @ take_at src i"
begin

lemma fold_proj: "proj (fold add rows b) = proj b @ concat (map (take_at src) rows)"
  by (induction rows arbitrary: b) (simp_all add: add_proj)

lemma bucket_column:
  assumes "proj b = []" "\<forall>i\<in>set rows. i < length src"
  shows "proj (fold add rows b) = map ((!) src) rows"
proof -
  have "concat (map (take_at src) rows) = map ((!) src) rows"
    using assms(2) by (induction rows) (auto simp: take_at_def)
  then show ?thesis by (simp add: fold_proj assms(1))
qed

end

interpretation ts_fp: sharded_column "append_series d" ts_MFingerprint "ts_MFingerprint d" for d
  by unfold_locales (simp add: append_series_def)
interpretation ts_date: sharded_column "append_series d" ts_MDate "ts_MDate d" for d
  by unfold_locales (simp add: append_series_def)
interpretation ts_labels: sharded_column "append_series d" ts_MLabels "ts_MLabels d" for d
  by unfold_locales (simp add: append_series_def)
interpretation ts_ttl: sharded_column "append_series d" ts_MTTLDays "ts_MTTLDays d" for d
  by unfold_locales (simp add: append_series_def)
interpretation ts_type: sharded_column "append_series d" ts_MType "ts_MType d" for d
  by unfold_locales (simp add: append_series_def)
interpretation ts_meta: sharded_column "append_series d" ts_MMetadata "ts_MMetadata d" for d
  by unfold_locales (simp add: append_series_def)

interpretation spl_fp: sharded_column "append_sample d" spl_MFingerprint "spl_MFingerprint d" for d
  by unfold_locales (simp add: append_sample_def)
interpretation spl_time: sharded_column "append_sample d" spl_MTimestampNS "spl_MTimestampNS d" for d
  by unfold_locales (simp add: append_sample_def)
interpretation spl_msg: sharded_column "append_sample d" spl_MMessage "spl_MMessage d" for d
  by unfold_locales (simp add: append_sample_def)
interpretation spl_val: sharded_column "append_sample d" spl_MValue "spl_MValue d" for d
  by unfold_locales (simp add: append_sample_def)
interpretation spl_ttl: sharded_column "append_sample d" spl_MTTLDays "spl_MTTLDays d" for d
  by unfold_locales (simp add: append_sample_def)
interpretation spl_type: sharded_column "append_sample d" spl_MType "spl_MType d" for d
  by unfold_locales (simp add: append_sample_def)

lemma fold_append_series_const:
  "ts_MMeta (fold (append_series d) rows b) = ts_MMeta b \<and>
   ts_MOid (fold (append_series d) rows b) = ts_MOid b \<and>
   ts_Size (fold (append_series d) rows b) = ts_Size b +
     (\<Sum>i\<leftarrow>rows. 14 + int (length (str_at (ts_MLabels d) i)) + int (length (str_at (ts_MMetadata d) i)))"
  by (induction rows arbitrary: b) (simp_all add: append_series_def)

lemma fold_append_sample_const:
  "spl_MOid (fold (append_sample d) rows b) = spl_MOid b \<and>
   spl_Size (fold (append_sample d) rows b) = spl_Size b +
     (\<Sum>i\<leftarrow>rows. int (length (str_at (spl_MMessage d) i)) + 26)"
  by (induction rows arbitrary: b) (simp_all add: append_sample_def)

text \<open>A batch with columns of one length, and its rows.\<close>

definition series_wf :: "TimeSeriesData \<Rightarrow> bool" where
  "series_wf d \<longleftrightarrow>
     length (ts_MDate d) = length (ts_MFingerprint d) \<and> length (ts_MLabels d) = length (ts_MFingerprint d) \<and>
     length (ts_MTTLDays d) = length (ts_MFingerprint d) \<and> length (ts_MType d) = length (ts_MFingerprint d) \<and>
     length (ts_MMetadata d) = length (ts_MFingerprint d)"

definition series_row :: "TimeSeriesData \<Rightarrow> nat \<Rightarrow> 64 word \<times> int \<times> string \<times> 16 word \<times> 8 word \<times> string" where
  "series_row d i = (ts_MFingerprint d ! i, ts_MDate d ! i, ts_MLabels d ! i, ts_MTTLDays d ! i,
     ts_MType d ! i, ts_MMetadata d ! i)"

definition series_rows where
  "series_rows d = map (series_row d) [0..<length (ts_MFingerprint d)]"

definition series_size :: "64 word \<times> int \<times> string \<times> 16 word \<times> 8 word \<times> string \<Rightarrow> int" where
  "series_size = (\<lambda>(fp, date, labels, ttl, ty, meta). 14 + int (length labels) + int (length meta))"

definition samples_wf :: "TimeSamplesData \<Rightarrow> bool" where
  "samples_wf d \<longleftrightarrow>
     length (spl_MTimestampNS d) = length (spl_MFingerprint d) \<and>
     length (spl_MMessage d) = length (spl_MFingerprint d) \<and>
     length (spl_MValue d) = length (spl_MFingerprint d) \<and>
     length (spl_MTTLDays d) = length (spl_MFingerprint d) \<and>
     length (spl_MType d) = length (spl_MFingerprint d)"

definition samples_row :: "TimeSamplesData \<Rightarrow> nat \<Rightarrow> 64 word \<times> 64 word \<times> string \<times> 64 word \<times> 16 word \<times> 8 word" where
  "samples_row d i = (spl_MFingerprint d ! i, spl_MTimestampNS d ! i, spl_MMessage d ! i,
     spl_MValue d ! i, spl_MTTLDays d ! i, spl_MType d ! i)"

definition samples_rows where
  "samples_rows d = map (samples_row d) [0..<length (spl_MFingerprint d)]"

definition samples_size :: "64 word \<times> 64 word \<times> string \<times> 64 word \<times> 16 word \<times> 8 word \<Rightarrow> int" where
  "samples_size = (\<lambda>(fp, t, msg, v, ttl, ty). int (length msg) + 26)"

lemma series_bucket:
  assumes "series_wf d" "\<forall>i\<in>set rows. i < length (ts_MFingerprint d)"
  shows "series_wf (fold (append_series d) rows (empty_series m oid)) \<and>
    series_rows (fold (append_series d) rows (empty_series m oid)) = map (series_row d) rows \<and>
    ts_Size (fold (append_series d) rows (empty_series m oid)) = (\<Sum>i\<leftarrow>rows. series_size (series_row d i))"
proof -
  let ?b = "fold (append_series d) rows (empty_series m oid)"
  have cols: "ts_MFingerprint ?b = map ((!) (ts_MFingerprint d)) rows" "ts_MDate ?b = map ((!) (ts_MDate d)) rows"
    "ts_MLabels ?b = map ((!) (ts_MLabels d)) rows" "ts_MTTLDays ?b = map ((!) (ts_MTTLDays d)) rows"
    "ts_MType ?b = map ((!) (ts_MType d)) rows" "ts_MMetadata ?b = map ((!) (ts_MMetadata d)) rows"
    using assms
    by (auto simp: series_wf_def empty_series_def intro!: ts_fp.bucket_column ts_date.bucket_column
        ts_labels.bucket_column ts_ttl.bucket_column ts_type.bucket_column ts_meta.bucket_column)
  have "series_rows ?b = map (series_row d) rows"
    by (rule nth_equalityI) (simp_all add: series_rows_def series_row_def cols)
  moreover have "ts_Size ?b = (\<Sum>i\<leftarrow>rows. series_size (series_row d i))"
    using assms unfolding fold_append_series_const [THEN conjunct2, THEN conjunct2]
    by (auto simp: empty_series_def series_wf_def series_size_def series_row_def str_at_def
        intro!: arg_cong [where f = sum_list])
  ultimately show ?thesis by (simp add: series_wf_def cols)
qed

lemma samples_bucket:
  assumes "samples_wf d" "\<forall>i\<in>set rows. i < length (spl_MFingerprint d)"
  shows "samples_wf (fold (append_sample d) rows (empty_samples oid)) \<and>
    samples_rows (fold (append_sample d) rows (empty_samples oid)) = map (samples_row d) rows \<and>
    spl_Size (fold (append_sample d) rows (empty_samples oid)) = (\<Sum>i\<leftarrow>rows. samples_size (samples_row d i))"
proof -
  let ?b = "fold (append_sample d) rows (empty_samples oid)"
  have cols: "spl_MFingerprint ?b = map ((!) (spl_MFingerprint d)) rows"
    "spl_MTimestampNS ?b = map ((!) (spl_MTimestampNS d)) rows"
    "spl_MMessage ?b = map ((!) (spl_MMessage d)) rows" "spl_MValue ?b = map ((!) (spl_MValue d)) rows"
    "spl_MTTLDays ?b = map ((!) (spl_MTTLDays d)) rows" "spl_MType ?b = map ((!) (spl_MType d)) rows"
    using assms
    by (auto simp: samples_wf_def empty_samples_def intro!: spl_fp.bucket_column spl_time.bucket_column
        spl_msg.bucket_column spl_val.bucket_column spl_ttl.bucket_column spl_type.bucket_column)
  have "samples_rows ?b = map (samples_row d) rows"
    by (rule nth_equalityI) (simp_all add: samples_rows_def samples_row_def cols)
  moreover have "spl_Size ?b = (\<Sum>i\<leftarrow>rows. samples_size (samples_row d i))"
    using assms unfolding fold_append_sample_const [THEN conjunct2]
    by (auto simp: empty_samples_def samples_wf_def samples_size_def samples_row_def str_at_def
        intro!: arg_cong [where f = sum_list])
  ultimately show ?thesis by (simp add: samples_wf_def cols)
qed

lemma mset_buckets:
  assumes "\<forall>x\<in>set xs. f x < n"
  shows "mset (concat (map (\<lambda>k. filter (\<lambda>x. f x = k) xs) [0..<n])) = mset xs"
  using assms
proof (induction n arbitrary: xs)
  case (Suc n)
  have rest: "map (\<lambda>k. filter (\<lambda>x. f x = k) xs) [0..<n] =
      map (\<lambda>k. filter (\<lambda>x. f x = k) (filter (\<lambda>x. f x < n) xs)) [0..<n]"
    by (auto intro!: filter_cong)
  have "mset (concat (map (\<lambda>k. filter (\<lambda>x. f x = k) xs) [0..<n])) = mset (filter (\<lambda>x. f x < n) xs)"
    unfolding rest by (rule Suc.IH) simp
  moreover have "filter (\<lambda>x. f x = n) xs = filter (\<lambda>x. \<not> f x < n) xs"
    using Suc.prems by (auto intro!: filter_cong)
  ultimately show ?case
    using multiset_partition [of "mset xs" "\<lambda>x. f x < n"] by simp
qed simp

lemma PartitionTimeSeries_nth:
  assumes "series_wf d" "n < 2 ^ 63" "k < nat (max 1 n)"
  defines "p \<equiv> PartitionTimeSeries (Some d) n ! k"
  shows "series_wf p \<and> series_rows p = filter (\<lambda>r. ShardIndex (fst r) n = k) (series_rows d) \<and>
    ts_Size p = sum_list (map series_size (series_rows p)) \<and>
    ts_MMeta p = ts_MMeta d \<and> ts_MOid p = ts_MOid d"
proof -
  let ?rows = "filter (\<lambda>i. ShardIndex (ts_MFingerprint d ! i) n = k) [0..<length (ts_MFingerprint d)]"
  have m: "nat (if n < 1 then 1 else n) = nat (max 1 n)" by (simp add: max_def)
  have p: "p = fold (append_series d) ?rows (empty_series (ts_MMeta d) (ts_MOid d))"
    using assms(3) ShardIndex_less [OF assms(2)]
    by (simp add: p_def PartitionTimeSeries_def Let_def shard_loop_nth ShardIndex_clamp m)
  have rows: "filter (\<lambda>r. ShardIndex (fst r) n = k) (series_rows d) = map (series_row d) ?rows"
    by (simp add: series_rows_def filter_map comp_def) (simp add: series_row_def)
  show ?thesis
    using series_bucket [OF assms(1), of ?rows] fold_append_series_const
    by (simp add: p rows comp_def empty_series_def)
qed

lemma PartitionTimeSamples_nth:
  assumes "samples_wf d" "n < 2 ^ 63" "k < nat (max 1 n)"
  defines "p \<equiv> PartitionTimeSamples (Some d) n ! k"
  shows "samples_wf p \<and> samples_rows p = filter (\<lambda>r. ShardIndex (fst r) n = k) (samples_rows d) \<and>
    spl_Size p = sum_list (map samples_size (samples_rows p)) \<and> spl_MOid p = spl_MOid d"
proof -
  let ?rows = "filter (\<lambda>i. ShardIndex (spl_MFingerprint d ! i) n = k) [0..<length (spl_MFingerprint d)]"
  have m: "nat (if n < 1 then 1 else n) = nat (max 1 n)" by (simp add: max_def)
  have p: "p = fold (append_sample d) ?rows (empty_samples (spl_MOid d))"
    using assms(3) ShardIndex_less [OF assms(2)]
    by (simp add: p_def PartitionTimeSamples_def Let_def shard_loop_nth ShardIndex_clamp m)
  have rows: "filter (\<lambda>r. ShardIndex (fst r) n = k) (samples_rows d) = map (samples_row d) ?rows"
    by (simp add: samples_rows_def filter_map comp_def) (simp add: samples_row_def)
  show ?thesis
    using samples_bucket [OF assms(1), of ?rows] fold_append_sample_const
    by (simp add: p rows comp_def empty_samples_def)
qed

lemma Partition_lengths:
  "length (PartitionTimeSeries (Some d) n) = nat (max 1 n)"
  "length (PartitionTimeSamples (Some e) n) = nat (max 1 n)"
  by (simp_all add: PartitionTimeSeries_def PartitionTimeSamples_def Let_def max_def)

lemma map_nth_upt_eq:
  "length xs = n \<Longrightarrow> (\<And>k. k < n \<Longrightarrow> f (xs ! k) = g k) \<Longrightarrow> map f xs = map g [0..<n]"
  by (auto intro: nth_equalityI)

text \<open>
  C15: cutting a batch of time series into shards loses, duplicates and reorders nothing. For a
  batch with columns of one length and any shard count a Go \<open>int\<close> can hold, part \<open>k\<close> is
  again such a batch; its rows are, in their order, the rows of the input whose fingerprint
  is \<open>k\<close> modulo the shard count; together the parts hold every row exactly as often as the
  input; and metadata, tenant and the size accounting are those of the rows.
\<close>

theorem PartitionTimeSeries_exact:
  assumes "series_wf d" "n < 2 ^ 63"
  shows "length (PartitionTimeSeries (Some d) n) = nat (max 1 n) \<and>
    mset (concat (map series_rows (PartitionTimeSeries (Some d) n))) = mset (series_rows d) \<and>
    (\<forall>k < nat (max 1 n).
       (let p = PartitionTimeSeries (Some d) n ! k in
        series_wf p \<and> series_rows p = filter (\<lambda>r. ShardIndex (fst r) n = k) (series_rows d) \<and>
        ts_Size p = sum_list (map series_size (series_rows p)) \<and>
        ts_MMeta p = ts_MMeta d \<and> ts_MOid p = ts_MOid d))"
proof -
  have "map series_rows (PartitionTimeSeries (Some d) n) =
      map (\<lambda>k. filter (\<lambda>r. ShardIndex (fst r) n = k) (series_rows d)) [0..<nat (max 1 n)]"
    using PartitionTimeSeries_nth [OF assms] by (intro map_nth_upt_eq) (auto simp: Partition_lengths)
  then show ?thesis
    using PartitionTimeSeries_nth [OF assms] ShardIndex_less [OF assms(2)]
    by (simp add: Partition_lengths Let_def mset_buckets)
qed

definition example_series :: TimeSeriesData where
  "example_series =
     \<lparr>ts_MDate = [1, 2, 3], ts_MLabels = [''a'', ''bb'', ''c''], ts_MFingerprint = [7, 4, 9],
      ts_MTTLDays = [0, 0, 0], ts_Size = 60, ts_MType = [1, 1, 1], ts_MMeta = '''',
      ts_MMetadata = ['''', ''m'', ''''], ts_MOid = ''t''\<rparr>"

theorem PartitionTimeSeries_exact_witness:
  "length (PartitionTimeSeries (Some example_series) 3) = 3 \<and>
   ts_MLabels (PartitionTimeSeries (Some example_series) 3 ! 1) = [''a'', ''bb''] \<and>
   series_wf (PartitionTimeSeries (Some example_series) 3 ! 1)"
proof -
  have "series_wf example_series" by code_simp
  note spec = PartitionTimeSeries_exact [OF this, of 3]
  have "ts_MLabels (PartitionTimeSeries (Some example_series) 3 ! 1) = [''a'', ''bb'']" by code_simp
  then show ?thesis using spec by (simp add: Let_def)
qed

text \<open>
  the same for a batch of samples.
\<close>

theorem PartitionTimeSamples_exact:
  assumes "samples_wf d" "n < 2 ^ 63"
  shows "length (PartitionTimeSamples (Some d) n) = nat (max 1 n) \<and>
    mset (concat (map samples_rows (PartitionTimeSamples (Some d) n))) = mset (samples_rows d) \<and>
    (\<forall>k < nat (max 1 n).
       (let p = PartitionTimeSamples (Some d) n ! k in
        samples_wf p \<and> samples_rows p = filter (\<lambda>r. ShardIndex (fst r) n = k) (samples_rows d) \<and>
        spl_Size p = sum_list (map samples_size (samples_rows p)) \<and> spl_MOid p = spl_MOid d))"
proof -
  have "map samples_rows (PartitionTimeSamples (Some d) n) =
      map (\<lambda>k. filter (\<lambda>r. ShardIndex (fst r) n = k) (samples_rows d)) [0..<nat (max 1 n)]"
    using PartitionTimeSamples_nth [OF assms] by (intro map_nth_upt_eq) (auto simp: Partition_lengths)
  then show ?thesis
    using PartitionTimeSamples_nth [OF assms] ShardIndex_less [OF assms(2)]
    by (simp add: Partition_lengths Let_def mset_buckets)
qed

definition example_samples :: TimeSamplesData where
  "example_samples =
     \<lparr>spl_MFingerprint = [7, 4], spl_MTimestampNS = [100, 200], spl_MMessage = [''x'', ''yy''],
      spl_MValue = [0, 0], spl_MTTLDays = [0, 0], spl_Size = 55, spl_MType = [1, 1], spl_MOid = ''t''\<rparr>"

theorem PartitionTimeSamples_exact_witness:
  "length (PartitionTimeSamples (Some example_samples) 2) = 2 \<and>
   spl_MMessage (PartitionTimeSamples (Some example_samples) 2 ! 1) = [''x''] \<and>
   samples_wf (PartitionTimeSamples (Some example_samples) 2 ! 1)"
proof -
  have "samples_wf example_samples" by code_simp
  note spec = PartitionTimeSamples_exact [OF this, of 2]
  have "spl_MMessage (PartitionTimeSamples (Some example_samples) 2 ! 1) = [''x'']" by code_simp
  then show ?thesis using spec by (simp add: Let_def)
qed

end
