(* ===== verification/Loki_Routing.thy ===== *)
theory Loki_Routing
  imports Loki_Sharding
begin

section \<open>Routing of log writes over the life of the topology\<close>

text \<open>
  The service table of \<open>Loki_Sharding\<close> together with the topology of \<open>Shard_Topo\<close>: the
  picker of a replica as an interface (locale \<open>replica_picker\<close>), its round-robin fairness,
  and the system of refresh ticks and pushes, in every reachable state of which a push
  delivers each row of a batch to one replica of the shard of its fingerprint.
\<close>

subsection \<open>Picking a replica\<close>

definition table_ok :: "'svc list list \<Rightarrow> bool" where
  "table_ok table \<longleftrightarrow> (\<forall>reps\<in>set table. reps \<noteq> [] \<and> length reps < 2 ^ 32)"

lemma pick_replica_ok:
  assumes "table_ok table" "shard < length table" "length rr = length table"
  shows "pick_replica table rr shard =
     Inr (table ! shard ! (unat (rr ! shard) mod length (table ! shard)),
          if length (table ! shard) = 1 then rr else rr[shard := rr ! shard + 1])"
proof -
  have t: "table ! shard \<noteq> []" "length (table ! shard) < 2 ^ 32"
    using assms by (auto simp: table_ok_def)
  then have u: "unat (of_nat (length (table ! shard)) :: 32 word) = length (table ! shard)"
    by (simp add: unsigned_of_nat take_bit_nat_eq_self)
  then have nz: "(of_nat (length (table ! shard)) :: 32 word) \<noteq> 0"
    using t by (metis length_0_conv unat_0)
  show ?thesis
    using assms t nz by (auto simp: pick_replica_def Let_def unat_mod_distrib u)
qed

text \<open>
  The contract a push relies on: in a state satisfying the invariant, picking for a shard of
  the table succeeds, gives a service of that shard and keeps the invariant.
\<close>

locale replica_picker =
  fixes pick :: "'s \<Rightarrow> nat \<Rightarrow> ('svc \<times> 's) res" and inv :: "'s \<Rightarrow> bool" and table :: "'svc list list"
  assumes pick_ok: "inv s \<Longrightarrow> shard < length table \<Longrightarrow>
    \<exists>svc s'. pick s shard = Inr (svc, s') \<and> inv s' \<and> svc \<in> set (table ! shard)"
begin

lemma part_shift:
  "\<exists>k < length ps. q = req (ps ! k) \<and> v \<in> set (table ! (Suc i + k)) \<Longrightarrow>
   \<exists>k < length (p # ps). q = req ((p # ps) ! k) \<and> v \<in> set (table ! (i + k))"
  by (metis Suc_less_eq add_Suc_shift length_Cons nth_Cons_Suc)

lemma push_parts_ok:
  assumes "inv s" "i + length parts \<le> length table"
  shows "\<exists>ps s'. push_parts fps req pick i parts s = Inr (ps, s') \<and> inv s' \<and>
     map fst ps = map req (filter (\<lambda>p. fps p \<noteq> []) parts) \<and>
     (\<forall>(q, svc)\<in>set ps. \<exists>k < length parts. q = req (parts ! k) \<and> svc \<in> set (table ! (i + k)))"
  using assms
proof (induction parts arbitrary: i s)
  case (Cons part parts)
  show ?case
  proof (cases "fps part = []")
    case True
    obtain ps s' where IH: "push_parts fps req pick (Suc i) parts s = Inr (ps, s')" "inv s'"
      "map fst ps = map req (filter (\<lambda>p. fps p \<noteq> []) parts)"
      "\<forall>(q, svc)\<in>set ps. \<exists>k < length parts. q = req (parts ! k) \<and> svc \<in> set (table ! (Suc i + k))"
      using Cons.IH [of s "Suc i"] Cons.prems by auto
    have "\<exists>k < length (part # parts). q = req ((part # parts) ! k) \<and> svc \<in> set (table ! (i + k))"
      if "(q, svc) \<in> set ps" for q svc
      using IH(4) that by (intro part_shift) auto
    then show ?thesis using True IH by auto
  next
    case False
    obtain svc s1 where p: "pick s i = Inr (svc, s1)" "inv s1" "svc \<in> set (table ! i)"
      using pick_ok [of s i] Cons.prems by auto
    obtain ps s' where IH: "push_parts fps req pick (Suc i) parts s1 = Inr (ps, s')" "inv s'"
      "map fst ps = map req (filter (\<lambda>p. fps p \<noteq> []) parts)"
      "\<forall>(q, svc)\<in>set ps. \<exists>k < length parts. q = req (parts ! k) \<and> svc \<in> set (table ! (Suc i + k))"
      using Cons.IH [of s1 "Suc i"] Cons.prems p by auto
    have "\<exists>k < length (part # parts). q = req ((part # parts) ! k) \<and> v \<in> set (table ! (i + k))"
      if "(q, v) \<in> set ((req part, svc) # ps)" for q v
    proof (cases "(q, v) = (req part, svc)")
      case True
      then show ?thesis using p by (intro exI [of _ 0]) auto
    next
      case F: False
      then show ?thesis using IH(4) that by (intro part_shift) auto
    qed
    then show ?thesis using False p IH by auto
  qed
qed simp

end

definition services_ok :: "'svc list list \<Rightarrow> 'svc list list \<Rightarrow> 'svc LokiShardServices \<Rightarrow> bool" where
  "services_ok ts spl s \<longleftrightarrow>
     lss_TS s = ts \<and> lss_Spl s = spl \<and> length (lss_tsRR s) = length ts \<and>
     length (lss_splRR s) = length spl \<and> table_ok ts \<and> table_ok spl"

lemma table_pick_in:
  "table_ok table \<Longrightarrow> shard < length table \<Longrightarrow> table ! shard ! (n mod length (table ! shard)) \<in> set (table ! shard)"
  by (auto simp: table_ok_def)

interpretation ts_picker: replica_picker pickTS "services_ok ts spl" ts for ts spl
  by unfold_locales (auto simp: services_ok_def pickTS_def pick_replica_ok table_pick_in)

interpretation spl_picker: replica_picker pickSpl "services_ok ts spl" spl for ts spl
  by unfold_locales (auto simp: services_ok_def pickSpl_def pick_replica_ok table_pick_in)

subsection \<open>Round robin\<close>

text \<open>\<open>n\<close> picks in a row on one shard.\<close>

fun picks :: "('s \<Rightarrow> nat \<Rightarrow> ('svc \<times> 's) res) \<Rightarrow> nat \<Rightarrow> nat \<Rightarrow> 's \<Rightarrow> ('svc list \<times> 's) res" where
  "picks pick shard 0 s = Inr ([], s)"
| "picks pick shard (Suc n) s =
     rbind (pick s shard) (\<lambda>(svc, s'). rbind (picks pick shard n s') (\<lambda>(svcs, s''). Inr (svc # svcs, s'')))"

lemma picks_rotation:
  assumes "table_ok table" "shard < length table" "length rr = length table"
    "length (table ! shard) \<noteq> 1" "unat (rr ! shard) + n \<le> 2 ^ 32"
  shows "picks (\<lambda>rr. pick_replica table rr) shard n rr =
    Inr (map (\<lambda>j. table ! shard ! ((unat (rr ! shard) + j) mod length (table ! shard))) [0..<n],
         rr[shard := rr ! shard + of_nat n])"
  using assms
proof (induction n arbitrary: rr)
  case (Suc n)
  have next_c: "unat (rr ! shard + 1) = unat (rr ! shard) + 1" if "n \<noteq> 0"
    using Suc.prems(5) that by (simp add: unat_word_ariths)
  have IH: "picks (\<lambda>rr. pick_replica table rr) shard n (rr[shard := rr ! shard + 1]) =
    Inr (map (\<lambda>j. table ! shard ! ((unat (rr ! shard) + Suc j) mod length (table ! shard))) [0..<n],
         rr[shard := rr ! shard + 1 + of_nat n])"
  proof (cases "n = 0")
    case False
    then show ?thesis
      using Suc.IH [of "rr[shard := rr ! shard + 1]"] Suc.prems next_c by (simp add: add.assoc)
  qed simp
  show ?case
    using Suc.prems(4) pick_replica_ok [OF Suc.prems(1-3)]
    by (simp add: IH map_upt_Suc add.assoc del: upt_Suc)
qed simp

lemma mset_rotate: "mset (rotate n xs) = mset xs"
  by (metis append_take_drop_id mset_append rotate_drop_take union_commute)

lemma picks_pickTS:
  "picks pickTS shard n s =
     rbind (picks (\<lambda>rr. pick_replica (lss_TS s) rr) shard n (lss_tsRR s))
       (\<lambda>(svcs, rr). Inr (svcs, s\<lparr>lss_tsRR := rr\<rparr>))"
proof (induction n arbitrary: s)
  case (Suc n)
  show ?case
  proof (cases "pick_replica (lss_TS s) (lss_tsRR s) shard")
    case (Inr p)
    obtain svc rr where p: "p = (svc, rr)" by force
    then have "pickTS s shard = Inr (svc, s\<lparr>lss_tsRR := rr\<rparr>)" by (simp add: pickTS_def Inr)
    with Inr p show ?thesis
      by (cases "picks (\<lambda>rr. pick_replica (lss_TS s) rr) shard n rr") (auto simp: Suc)
  qed (simp add: pickTS_def)
qed simp

text \<open>
  the writes to one shard are balanced. Starting from any counter value that is at least
  one round away from the wrap-around of the 32-bit counter, as many consecutive picks as the
  shard has replicas succeed and use every replica exactly once; they only advance the
  counter of that shard.
\<close>

theorem pickTS_round_robin:
  assumes "services_ok ts spl s" "shard < length ts"
    "unat (lss_tsRR s ! shard) + length (ts ! shard) \<le> 2 ^ 32"
  shows "\<exists>svcs c. picks pickTS shard (length (ts ! shard)) s =
      Inr (svcs, s\<lparr>lss_tsRR := (lss_tsRR s)[shard := c]\<rparr>) \<and> mset svcs = mset (ts ! shard)"
proof -
  have ok: "lss_TS s = ts" "length (lss_tsRR s) = length ts" "table_ok ts"
    using assms(1) by (auto simp: services_ok_def)
  show ?thesis
  proof (cases "length (ts ! shard) = 1")
    case True
    then have "mset [ts ! shard ! 0] = mset (ts ! shard)" by (metis length_0_conv length_Suc_conv nth_Cons_0 One_nat_def)
    then show ?thesis
      using True pick_replica_ok [OF ok(3) assms(2) ok(2)]
      by (intro exI [of _ "[ts ! shard ! 0]"] exI [of _ "lss_tsRR s ! shard"]) (simp add: pickTS_def ok)
  next
    case False
    have "map (\<lambda>j. ts ! shard ! ((unat (lss_tsRR s ! shard) + j) mod length (ts ! shard))) [0..<length (ts ! shard)]
        = rotate (unat (lss_tsRR s ! shard)) (ts ! shard)"
      by (rule nth_equalityI) (simp_all add: nth_rotate)
    then show ?thesis
      using picks_rotation [OF ok(3) assms(2) ok(2) False assms(3)] by (auto simp: picks_pickTS ok mset_rotate)
  qed
qed

theorem pickTS_round_robin_witness:
  "\<exists>svcs c. picks pickTS 0 3 (NewLokiShardServices [[''r1'', ''r2'', ''r3'']] [[''r1'', ''r2'', ''r3'']]) =
      Inr (svcs, (NewLokiShardServices [[''r1'', ''r2'', ''r3'']] [[''r1'', ''r2'', ''r3'']])\<lparr>lss_tsRR := [c]\<rparr>)
      \<and> mset svcs = mset [''r1'', ''r2'', ''r3'']"
proof -
  have "services_ok [[''r1'', ''r2'', ''r3'']] [[''r1'', ''r2'', ''r3'']]
      (NewLokiShardServices [[''r1'', ''r2'', ''r3'']] [[''r1'', ''r2'', ''r3'']])"
    by (simp add: services_ok_def NewLokiShardServices_def table_ok_def)
  from pickTS_round_robin [OF this, of 0] show ?thesis
    by (simp add: NewLokiShardServices_def numeral_3_eq_3)
qed

subsection \<open>The routing system\<close>

text \<open>
  A refresh of the topology with the growth callback of the writer, which never fails. It
  acts on the live snapshot and on the pointer to the service table.
\<close>

definition refresh_tick ::
    "string option \<Rightarrow> Snapshot \<Rightarrow> Snapshot option \<times> shard_service LokiShardServices option
     \<Rightarrow> Snapshot option \<times> shard_service LokiShardServices option" where
  "refresh_tick env n st =
     (let (snap, svcs) = st in
      (snd (snd (applyRefresh None n snap)),
       case snap of
         Some cur \<Rightarrow> if snap_ShardCount cur < snap_ShardCount n then Some (onGrow env n svcs) else svcs
       | None \<Rightarrow> svcs))"

definition discovered :: "Snapshot \<Rightarrow> bool" where
  "discovered n \<longleftrightarrow> (\<exists>parse_ip c rs allow. BuildSnapshot parse_ip c rs allow = Inr n \<and> length rs < 2 ^ 32)"

inductive route_reach ::
    "string option \<Rightarrow> Snapshot option \<times> shard_service LokiShardServices option \<Rightarrow> bool"
  for env :: "string option" where
  route_start: "discovered s0 \<Longrightarrow> route_reach env (Some s0, Some (initial_services env s0))"
| route_tick: "route_reach env st \<Longrightarrow> discovered n \<Longrightarrow> route_reach env (refresh_tick env n st)"
| route_series: "route_reach env (snap, svcs) \<Longrightarrow> pushShardedTimeSeries svcs req = Inr (ps, svcs') \<Longrightarrow>
     route_reach env (snap, svcs')"
| route_samples: "route_reach env (snap, svcs) \<Longrightarrow> pushShardedSamples svcs req = Inr (ps, svcs') \<Longrightarrow>
     route_reach env (snap, svcs')"

definition snap_ok :: "Snapshot \<Rightarrow> bool" where
  "snap_ok s \<longleftrightarrow>
     1 \<le> snap_ShardCount s \<and> snap_ShardCount s < 2 ^ 32 \<and>
     int (length (snap_Shards s)) = snap_ShardCount s \<and>
     (\<forall>sh\<in>set (snap_Shards s). sh_Replicas sh \<noteq> [] \<and> length (sh_Replicas sh) < 2 ^ 32)"

definition route_inv :: "Snapshot option \<times> shard_service LokiShardServices option \<Rightarrow> bool" where
  "route_inv st \<longleftrightarrow>
     (\<exists>snap l. st = (Some snap, Some l) \<and> snap_ok snap \<and> services_ok (lss_TS l) (lss_Spl l) l \<and>
        int (length (lss_TS l)) = snap_ShardCount snap \<and> int (length (lss_Spl l)) = snap_ShardCount snap)"

lemma discovered_ok: "discovered n \<Longrightarrow> snap_ok n"
proof -
  assume "discovered n"
  then obtain p c rs a where b: "BuildSnapshot p c rs a = Inr n" "length rs < 2 ^ 32"
    unfolding discovered_def by blast
  note f = BuildSnapshot_facts [OF b(1)]
  have "sh_Replicas sh \<noteq> [] \<and> length (sh_Replicas sh) < 2 ^ 32" if sh: "sh \<in> set (snap_Shards n)" for sh
  proof -
    obtain i where i: "i < length (snap_Shards n)" "sh = snap_Shards n ! i"
      using sh by (metis in_set_conv_nth)
    have "length (filter P rs) < 2 ^ 32" for P
      using b(2) length_filter_le [of P rs] by linarith
    then show ?thesis using f(5) [OF i(1)] i(2) by (auto simp: Let_def sort_key_Nil_iff)
  qed
  then show "snap_ok n" using f b(2) by (auto simp: snap_ok_def)
qed

lemma buildShard_lengths:
  "length (fst (buildShard env i sh)) = length (sh_Replicas sh)"
  "length (fst (snd (buildShard env i sh))) = length (sh_Replicas sh)"
  by (simp_all add: buildShard_def Let_def)

lemma built_ok:
  assumes "snap_ok n"
  shows "table_ok (map (\<lambda>i. fst (buildShard env i (snap_Shards n ! i))) [a..<nat (snap_ShardCount n)])"
    "table_ok (map (\<lambda>i. fst (snd (buildShard env i (snap_Shards n ! i)))) [a..<nat (snap_ShardCount n)])"
proof -
  have "snap_Shards n ! i \<in> set (snap_Shards n)" if "i < nat (snap_ShardCount n)" for i
    using that assms by (auto simp: snap_ok_def)
  then have r: "sh_Replicas (snap_Shards n ! i) \<noteq> [] \<and> length (sh_Replicas (snap_Shards n ! i)) < 2 ^ 32"
    if "i < nat (snap_ShardCount n)" for i
    using that assms by (auto simp: snap_ok_def)
  show "table_ok (map (\<lambda>i. fst (buildShard env i (snap_Shards n ! i))) [a..<nat (snap_ShardCount n)])"
    "table_ok (map (\<lambda>i. fst (snd (buildShard env i (snap_Shards n ! i)))) [a..<nat (snap_ShardCount n)])"
    using r by (auto simp: table_ok_def buildShard_lengths simp flip: length_greater_0_conv)
qed

lemma table_ok_append: "table_ok (a @ b) \<longleftrightarrow> table_ok a \<and> table_ok b"
  by (auto simp: table_ok_def)

lemma initial_inv: "discovered s0 \<Longrightarrow> route_inv (Some s0, Some (initial_services env s0))"
  using built_ok [OF discovered_ok, of s0 env 0] discovered_ok [of s0]
  by (auto simp: route_inv_def initial_services_def NewLokiShardServices_def services_ok_def Let_def
      comp_def snap_ok_def)

lemma tick_inv:
  assumes "route_inv st" "discovered n"
  shows "route_inv (refresh_tick env n st)"
proof -
  obtain snap l where st: "st = (Some snap, Some l)" "snap_ok snap" "services_ok (lss_TS l) (lss_Spl l) l"
    "int (length (lss_TS l)) = snap_ShardCount snap" "int (length (lss_Spl l)) = snap_ShardCount snap"
    using assms(1) by (auto simp: route_inv_def)
  note n = discovered_ok [OF assms(2)]
  consider "snap_ShardCount n = snap_ShardCount snap" | "snap_ShardCount n < snap_ShardCount snap"
    | "snap_ShardCount snap < snap_ShardCount n" by linarith
  then show ?thesis
  proof cases
    case 3
    then show ?thesis
      using st n built_ok [OF n, of env "length (lss_TS l)"]
      by (auto simp: refresh_tick_def applyRefresh_def route_inv_def onGrow_def NewLokiShardServices_def
          services_ok_def Let_def comp_def table_ok_append)
  qed (use st n in \<open>auto simp: refresh_tick_def applyRefresh_def route_inv_def\<close>)
qed

subsection \<open>What a push delivers\<close>

lemma push_other_inv:
  assumes "route_inv (snap, Some l)" "pick \<in> {pickTS, pickSpl}" "pick l 0 = Inr (svc, l')"
  shows "route_inv (snap, Some l')"
proof -
  obtain s where l: "snap = Some s" "snap_ok s" "services_ok (lss_TS l) (lss_Spl l) l"
    "int (length (lss_TS l)) = snap_ShardCount s" "int (length (lss_Spl l)) = snap_ShardCount s"
    using assms(1) by (auto simp: route_inv_def)
  then have "0 < length (lss_TS l)" "0 < length (lss_Spl l)" by (auto simp: snap_ok_def)
  then have "services_ok (lss_TS l) (lss_Spl l) l'"
    using assms(2,3) ts_picker.pick_ok [OF l(3), of 0] spl_picker.pick_ok [OF l(3), of 0] by auto
  then show ?thesis using l by (auto simp: route_inv_def services_ok_def)
qed

lemma push_series_ok:
  assumes "route_inv (Some snap, Some l)"
  shows "\<exists>ps l'. pushShardedTimeSeries (Some l) (ReqSeries d) = Inr (ps, Some l') \<and>
    route_inv (Some snap, Some l') \<and>
    map fst ps = map ReqSeries (filter (\<lambda>p. ts_MFingerprint p \<noteq> [])
       (PartitionTimeSeries (Some d) (snap_ShardCount snap))) \<and>
    (\<forall>(q, svc)\<in>set ps. \<exists>k < nat (snap_ShardCount snap).
       q = ReqSeries (PartitionTimeSeries (Some d) (snap_ShardCount snap) ! k) \<and> svc \<in> set (lss_TS l ! k))"
proof -
  have l: "snap_ok snap" "services_ok (lss_TS l) (lss_Spl l) l"
    "int (length (lss_TS l)) = snap_ShardCount snap" "int (length (lss_Spl l)) = snap_ShardCount snap"
    using assms by (auto simp: route_inv_def)
  have len: "length (PartitionTimeSeries (Some d) (snap_ShardCount snap)) = length (lss_TS l)"
    using l by (auto simp: Partition_lengths snap_ok_def)
  have ptr: "lokiShardServices (Some l) = Some l"
    using l by (auto simp: lokiShardServices_def snap_ok_def)
  obtain ps l' where ps: "push_parts ts_MFingerprint ReqSeries pickTS 0
      (PartitionTimeSeries (Some d) (snap_ShardCount snap)) l = Inr (ps, l')"
    and rest: "services_ok (lss_TS l) (lss_Spl l) l'"
      "map fst ps = map ReqSeries (filter (\<lambda>p. ts_MFingerprint p \<noteq> [])
       (PartitionTimeSeries (Some d) (snap_ShardCount snap)))"
      "\<forall>(q, svc)\<in>set ps. \<exists>k < length (PartitionTimeSeries (Some d) (snap_ShardCount snap)).
       q = ReqSeries (PartitionTimeSeries (Some d) (snap_ShardCount snap) ! k) \<and> svc \<in> set (lss_TS l ! (0 + k))"
    using ts_picker.push_parts_ok [OF l(2), of 0 "PartitionTimeSeries (Some d) (snap_ShardCount snap)"
        ts_MFingerprint ReqSeries] len by auto
  have "route_inv (Some snap, Some l')"
    using rest(1) l by (auto simp: route_inv_def services_ok_def)
  moreover have "nat (snap_ShardCount snap) = length (lss_TS l)" using l(3) by simp
  ultimately show ?thesis
    using ps rest len l(3) by (auto simp: pushShardedTimeSeries_def ptr)
qed

lemma push_samples_ok:
  assumes "route_inv (Some snap, Some l)"
  shows "\<exists>ps l'. pushShardedSamples (Some l) (ReqSamples d) = Inr (ps, Some l') \<and>
    route_inv (Some snap, Some l') \<and>
    map fst ps = map ReqSamples (filter (\<lambda>p. spl_MFingerprint p \<noteq> [])
       (PartitionTimeSamples (Some d) (snap_ShardCount snap))) \<and>
    (\<forall>(q, svc)\<in>set ps. \<exists>k < nat (snap_ShardCount snap).
       q = ReqSamples (PartitionTimeSamples (Some d) (snap_ShardCount snap) ! k) \<and> svc \<in> set (lss_Spl l ! k))"
proof -
  have l: "snap_ok snap" "services_ok (lss_TS l) (lss_Spl l) l"
    "int (length (lss_TS l)) = snap_ShardCount snap" "int (length (lss_Spl l)) = snap_ShardCount snap"
    using assms by (auto simp: route_inv_def)
  have len: "length (PartitionTimeSamples (Some d) (snap_ShardCount snap)) = length (lss_Spl l)"
    using l by (auto simp: Partition_lengths snap_ok_def)
  have ptr: "lokiShardServices (Some l) = Some l"
    using l by (auto simp: lokiShardServices_def snap_ok_def)
  obtain ps l' where ps: "push_parts spl_MFingerprint ReqSamples pickSpl 0
      (PartitionTimeSamples (Some d) (snap_ShardCount snap)) l = Inr (ps, l')"
    and rest: "services_ok (lss_TS l) (lss_Spl l) l'"
      "map fst ps = map ReqSamples (filter (\<lambda>p. spl_MFingerprint p \<noteq> [])
       (PartitionTimeSamples (Some d) (snap_ShardCount snap)))"
      "\<forall>(q, svc)\<in>set ps. \<exists>k < length (PartitionTimeSamples (Some d) (snap_ShardCount snap)).
       q = ReqSamples (PartitionTimeSamples (Some d) (snap_ShardCount snap) ! k) \<and> svc \<in> set (lss_Spl l ! (0 + k))"
    using spl_picker.push_parts_ok [OF l(2), of 0 "PartitionTimeSamples (Some d) (snap_ShardCount snap)"
        spl_MFingerprint ReqSamples] len by auto
  have "route_inv (Some snap, Some l')"
    using rest(1) l by (auto simp: route_inv_def services_ok_def)
  moreover have "nat (snap_ShardCount snap) = length (lss_Spl l)" using l(4) by simp
  ultimately show ?thesis
    using ps rest len l(4) by (auto simp: pushShardedSamples_def ptr)
qed

lemma route_inv_pair: "route_inv (snap, svcs) \<Longrightarrow> \<exists>s l. snap = Some s \<and> svcs = Some l"
  by (auto simp: route_inv_def)

lemma push_keeps_inv:
  assumes "route_inv (snap, svcs)"
  shows "pushShardedTimeSeries svcs req = Inr (ps, svcs') \<Longrightarrow> route_inv (snap, svcs')"
    "pushShardedSamples svcs req = Inr (ps, svcs') \<Longrightarrow> route_inv (snap, svcs')"
proof -
  obtain s l where l: "snap = Some s" "svcs = Some l" using route_inv_pair [OF assms] by blast
  have ptr: "lokiShardServices (Some l) = Some l"
    using assms l by (auto simp: lokiShardServices_def route_inv_def snap_ok_def)
  note other = push_other_inv [OF assms [unfolded l]]
  show "route_inv (snap, svcs')" if "pushShardedTimeSeries svcs req = Inr (ps, svcs')"
  proof (cases req)
    case (ReqSeries d)
    then show ?thesis using that push_series_ok [OF assms [unfolded l], of d] l by auto
  qed (use that assms l other [of pickTS] in \<open>auto simp: pushShardedTimeSeries_def ptr rbind_Inr_iff\<close>)
  show "route_inv (snap, svcs')" if "pushShardedSamples svcs req = Inr (ps, svcs')"
  proof (cases req)
    case (ReqSamples d)
    then show ?thesis using that push_samples_ok [OF assms [unfolded l], of d] l by auto
  qed (use that assms l other [of pickSpl] in \<open>auto simp: pushShardedSamples_def ptr rbind_Inr_iff\<close>)
qed

lemma route_reach_inv: "route_reach env st \<Longrightarrow> route_inv st"
proof (induction rule: route_reach.induct)
  case (route_start s0)
  then show ?case by (rule initial_inv)
next
  case (route_tick st n)
  then show ?case by (blast intro: tick_inv)
next
  case (route_series snap svcs req ps svcs')
  then show ?case by (blast intro: push_keeps_inv)
next
  case (route_samples snap svcs req ps svcs')
  then show ?case by (blast intro: push_keeps_inv)
qed

fun payload_series where
  "payload_series (ReqSeries p) = series_rows p"
| "payload_series _ = []"

fun payload_samples where
  "payload_samples (ReqSamples p) = samples_rows p"
| "payload_samples _ = []"

lemma concat_filter_Nil: "(\<And>x. x \<in> set xs \<Longrightarrow> \<not> P x \<Longrightarrow> f x = []) \<Longrightarrow> concat (map f (filter P xs)) = concat (map f xs)"
  by (induction xs) auto

lemma nonempty_parts:
  "concat (map series_rows (filter (\<lambda>p. ts_MFingerprint p \<noteq> []) ps)) = concat (map series_rows ps)"
  "concat (map samples_rows (filter (\<lambda>p. spl_MFingerprint p \<noteq> []) qs)) = concat (map samples_rows qs)"
  by (auto intro!: concat_filter_Nil simp: series_rows_def samples_rows_def)

lemma snap_count: "route_inv (Some s, svcs) \<Longrightarrow> snap_ShardCount s < 2 ^ 63 \<and> max 1 (snap_ShardCount s) = snap_ShardCount s"
  by (auto simp: route_inv_def snap_ok_def)

text \<open>
  C10: end to end routing of time series. Start from any discovered layout and let refreshes and
  pushes happen in any order: pushing a batch of time series does not fail, the pushed parts
  hold exactly the rows of the batch, and every row is pushed to a replica of the shard that
  its fingerprint has under the shard count of the live topology.
\<close>

theorem push_series_delivers:
  assumes "route_reach env (snap, svcs)" "series_wf d"
  shows "\<exists>s l ps svcs'. snap = Some s \<and> svcs = Some l \<and>
    pushShardedTimeSeries svcs (ReqSeries d) = Inr (ps, svcs') \<and>
    mset (concat (map payload_series (map fst ps))) = mset (series_rows d) \<and>
    (\<forall>(q, svc)\<in>set ps. \<forall>r\<in>set (payload_series q).
       svc \<in> set (lss_TS l ! ShardIndex (fst r) (snap_ShardCount s)))"
proof -
  note inv = route_reach_inv [OF assms(1)]
  obtain s l where l: "snap = Some s" "svcs = Some l" using route_inv_pair [OF inv] by blast
  let ?parts = "PartitionTimeSeries (Some d) (snap_ShardCount s)"
  note n = snap_count [OF inv [unfolded l]]
  note part = PartitionTimeSeries_nth [OF assms(2) n [THEN conjunct1]]
  obtain ps l' where ps: "pushShardedTimeSeries (Some l) (ReqSeries d) = Inr (ps, Some l')"
    "map fst ps = map ReqSeries (filter (\<lambda>p. ts_MFingerprint p \<noteq> []) ?parts)"
    "\<forall>(q, svc)\<in>set ps. \<exists>k < nat (snap_ShardCount s). q = ReqSeries (?parts ! k) \<and> svc \<in> set (lss_TS l ! k)"
    using push_series_ok [OF inv [unfolded l], of d] by (elim exE conjE) (rule that)
  have "map series_rows ?parts =
      map (\<lambda>k. filter (\<lambda>r. ShardIndex (fst r) (snap_ShardCount s) = k) (series_rows d)) [0..<nat (snap_ShardCount s)]"
    using part n by (intro map_nth_upt_eq) (auto simp: Partition_lengths)
  then have "mset (concat (map payload_series (map fst ps))) = mset (series_rows d)"
    using ShardIndex_less [OF n [THEN conjunct1]] n
    by (simp add: ps(2) comp_def nonempty_parts mset_buckets)
  moreover have "\<forall>(q, svc)\<in>set ps. \<forall>r\<in>set (payload_series q).
       svc \<in> set (lss_TS l ! ShardIndex (fst r) (snap_ShardCount s))"
  proof (intro ballI, clarify)
    fix q svc r assume row: "(q, svc) \<in> set ps" "r \<in> set (payload_series q)"
    obtain k where k: "k < nat (snap_ShardCount s)" "q = ReqSeries (?parts ! k)" "svc \<in> set (lss_TS l ! k)"
      using ps(3) row(1) by blast
    have "k < nat (max 1 (snap_ShardCount s))" using k(1) n by simp
    from part [OF this] have "series_rows (?parts ! k) =
        filter (\<lambda>r. ShardIndex (fst r) (snap_ShardCount s) = k) (series_rows d)" by blast
    moreover have "r \<in> set (series_rows (?parts ! k))" using row(2) k(2) by simp
    ultimately have "ShardIndex (fst r) (snap_ShardCount s) = k" by simp
    then show "svc \<in> set (lss_TS l ! ShardIndex (fst r) (snap_ShardCount s))" using k(3) by simp
  qed
  ultimately show ?thesis
    using ps(1) l by (intro exI [of _ s] exI [of _ l] exI [of _ ps] exI [of _ "Some l'"] conjI) simp_all
qed

lemma example_discovered: "discovered example_snapshot"
  using example_builds unfolding discovered_def
  by (intro exI [of _ "\<lambda>s. None"] exI [of _ "''logs''"] exI [of _ example_replicas] exI [of _ None])
    (simp add: example_replicas_def)

theorem push_series_delivers_witness:
  "\<exists>ps svcs'. pushShardedTimeSeries (Some (initial_services None example_snapshot)) (ReqSeries example_series)
      = Inr (ps, svcs') \<and>
    mset (concat (map payload_series (map fst ps))) = mset (series_rows example_series)"
proof -
  have "series_wf example_series" by code_simp
  from push_series_delivers [OF route_start [OF example_discovered] this, of None] show ?thesis by blast
qed

text \<open>
  the same for a batch of samples, so that a series row and the samples of its fingerprint
  land on the same shard number.
\<close>

theorem push_samples_delivers:
  assumes "route_reach env (snap, svcs)" "samples_wf d"
  shows "\<exists>s l ps svcs'. snap = Some s \<and> svcs = Some l \<and>
    pushShardedSamples svcs (ReqSamples d) = Inr (ps, svcs') \<and>
    mset (concat (map payload_samples (map fst ps))) = mset (samples_rows d) \<and>
    (\<forall>(q, svc)\<in>set ps. \<forall>r\<in>set (payload_samples q).
       svc \<in> set (lss_Spl l ! ShardIndex (fst r) (snap_ShardCount s)))"
proof -
  note inv = route_reach_inv [OF assms(1)]
  obtain s l where l: "snap = Some s" "svcs = Some l" using route_inv_pair [OF inv] by blast
  let ?parts = "PartitionTimeSamples (Some d) (snap_ShardCount s)"
  note n = snap_count [OF inv [unfolded l]]
  note part = PartitionTimeSamples_nth [OF assms(2) n [THEN conjunct1]]
  obtain ps l' where ps: "pushShardedSamples (Some l) (ReqSamples d) = Inr (ps, Some l')"
    "map fst ps = map ReqSamples (filter (\<lambda>p. spl_MFingerprint p \<noteq> []) ?parts)"
    "\<forall>(q, svc)\<in>set ps. \<exists>k < nat (snap_ShardCount s). q = ReqSamples (?parts ! k) \<and> svc \<in> set (lss_Spl l ! k)"
    using push_samples_ok [OF inv [unfolded l], of d] by (elim exE conjE) (rule that)
  have "map samples_rows ?parts =
      map (\<lambda>k. filter (\<lambda>r. ShardIndex (fst r) (snap_ShardCount s) = k) (samples_rows d)) [0..<nat (snap_ShardCount s)]"
    using part n by (intro map_nth_upt_eq) (auto simp: Partition_lengths)
  then have "mset (concat (map payload_samples (map fst ps))) = mset (samples_rows d)"
    using ShardIndex_less [OF n [THEN conjunct1]] n
    by (simp add: ps(2) comp_def nonempty_parts mset_buckets)
  moreover have "\<forall>(q, svc)\<in>set ps. \<forall>r\<in>set (payload_samples q).
       svc \<in> set (lss_Spl l ! ShardIndex (fst r) (snap_ShardCount s))"
  proof (intro ballI, clarify)
    fix q svc r assume row: "(q, svc) \<in> set ps" "r \<in> set (payload_samples q)"
    obtain k where k: "k < nat (snap_ShardCount s)" "q = ReqSamples (?parts ! k)" "svc \<in> set (lss_Spl l ! k)"
      using ps(3) row(1) by blast
    have "k < nat (max 1 (snap_ShardCount s))" using k(1) n by simp
    from part [OF this] have "samples_rows (?parts ! k) =
        filter (\<lambda>r. ShardIndex (fst r) (snap_ShardCount s) = k) (samples_rows d)" by blast
    moreover have "r \<in> set (samples_rows (?parts ! k))" using row(2) k(2) by simp
    ultimately have "ShardIndex (fst r) (snap_ShardCount s) = k" by simp
    then show "svc \<in> set (lss_Spl l ! ShardIndex (fst r) (snap_ShardCount s))" using k(3) by simp
  qed
  ultimately show ?thesis
    using ps(1) l by (intro exI [of _ s] exI [of _ l] exI [of _ ps] exI [of _ "Some l'"] conjI) simp_all
qed

theorem push_samples_delivers_witness:
  "\<exists>ps svcs'. pushShardedSamples (Some (initial_services None example_snapshot)) (ReqSamples example_samples)
      = Inr (ps, svcs') \<and>
    mset (concat (map payload_samples (map fst ps))) = mset (samples_rows example_samples)"
proof -
  have "samples_wf example_samples" by code_simp
  from push_samples_delivers [OF route_start [OF example_discovered] this, of None] show ?thesis by blast
qed

end
