(* ===== verification/Ram_Base.thy ===== *)
theory Ram_Base
  imports Gp_Prelude
begin

section \<open>Log entries, streams and the libraries of the in-process LogQL pipeline\<close>

text \<open>
  The record \<open>LogEntry\<close> of logql\_transpiler/shared/types.go, the stream of batches a
  processor sends on its channel, and the record \<open>lib\<close> of what the pipeline takes from
  outside the repository.

  A channel of slices is the list of the batches sent until it is closed. Times are integers
  (nanoseconds since the epoch). A label map is an association list, \<open>None\<close> the nil map. The
  type \<open>'v\<close> stands for \<open>float64\<close>; its operations are fields of \<open>lib\<close>, so that no law of
  exact arithmetic is used where the floating point of the program does not have it.
\<close>

record 'v LogEntry =
  TimestampNS :: int
  Fingerprint :: "64 word"
  Labels :: "(string \<times> string) list option"
  Message :: string
  Value :: 'v
  Err :: "go_error option"

type_synonym 'v batch = "'v LogEntry list"
type_synonym 'v stream = "'v batch list"

text \<open>
  A document as the JSON decoder reports it: values are visited in order, and an object or
  array ends either normally or with the error met there.
\<close>

datatype jx =
    JxString string
  | JxRaw string               \<comment> \<open>a number or a boolean, in its raw text\<close>
  | JxObject "(string \<times> jx) list" "go_error option"
  | JxArray "jx list" "go_error option"
  | JxSkip                     \<comment> \<open>null\<close>
  | JxFail go_error            \<comment> \<open>a value that does not decode\<close>

record jsonPathPart =
  jp_Ident :: string
  jp_Field :: string
  jp_Idx :: string

record 'v lib =
  f_zero :: 'v
  f_one :: 'v
  f_add :: "'v \<Rightarrow> 'v \<Rightarrow> 'v"
  f_sub :: "'v \<Rightarrow> 'v \<Rightarrow> 'v"
  f_mul :: "'v \<Rightarrow> 'v \<Rightarrow> 'v"
  f_div :: "'v \<Rightarrow> 'v \<Rightarrow> 'v"
  f_mod :: "'v \<Rightarrow> 'v \<Rightarrow> 'v"
  f_lt :: "'v \<Rightarrow> 'v \<Rightarrow> bool"
  f_le :: "'v \<Rightarrow> 'v \<Rightarrow> bool"
  f_eq :: "'v \<Rightarrow> 'v \<Rightarrow> bool"
  f_of_int :: "int \<Rightarrow> 'v"
  parse_float :: "string \<Rightarrow> 'v res"
  parse_duration :: "string \<Rightarrow> int res"
  json_string :: "string \<Rightarrow> string res"
  go_unquote :: "string \<Rightarrow> string res"
  regexp_compile :: "string \<Rightarrow> (string \<Rightarrow> bool) res"
  ch64 :: "string \<Rightarrow> 64 word"
  template_parse :: "string \<Rightarrow> (string \<Rightarrow> int \<Rightarrow> (string \<times> string) list \<Rightarrow> string res) res"
  json_path_parse :: "string \<Rightarrow> jsonPathPart list res"
  jx_decode :: "string \<Rightarrow> jx"
  logfmt_pairs :: "string \<Rightarrow> (string \<times> string) list \<times> go_error option"

text \<open>Reading a label: a missing key, and the nil map, give the empty string.\<close>

definition label_get :: "(string \<times> string) list option \<Rightarrow> string \<Rightarrow> string" where
  "label_get m k =
     (case m of None \<Rightarrow> '''' | Some kv \<Rightarrow> (case map_of kv k of None \<Rightarrow> '''' | Some v \<Rightarrow> v))"

text \<open>Writing a label: assignment to an entry of a nil map is a run-time panic.\<close>

definition label_put :: "string \<Rightarrow> string \<Rightarrow> (string \<times> string) list option \<Rightarrow> (string \<times> string) list option res" where
  "label_put k v m =
     (case m of None \<Rightarrow> Inl (Panic ''assignment to entry in nil map'') | Some kv \<Rightarrow> Inr (Some (map_put k v kv)))"

definition label_list :: "(string \<times> string) list option \<Rightarrow> (string \<times> string) list" where
  "label_list m = (case m of None \<Rightarrow> [] | Some kv \<Rightarrow> kv)"

text \<open>\<open>fingerprint\<close> of internal/planner/hash.go.\<close>

definition fingerprint :: "'v lib \<Rightarrow> (string \<times> string) list option \<Rightarrow> 64 word" where
  "fingerprint L labels =
     ch64 L (go_join '',''
       (map (\<lambda>k. k @ ''='' @ label_get labels k) (sort (map fst (label_list labels)))))"

text \<open>Two iteration orders of one map have one fingerprint.\<close>

lemma fingerprint_order:
  assumes "go_map m" "mset m = mset m'"
  shows "fingerprint L (Some m) = fingerprint L (Some m')"
proof -
  have keys: "mset (map fst m) = mset (map fst m')" using assms(2) by (simp add: mset_map)
  then have "sort (map fst m) = sort (map fst m')"
    by (metis properties_for_sort sorted_sort mset_sort)
  moreover have "map_of m = map_of m'"
  proof (rule map_of_inject_set [THEN iffD2])
    show "distinct (map fst m)" using assms(1) by (simp add: go_map_def)
    then show "distinct (map fst m')" using keys by (metis mset_eq_imp_distinct_iff)
    show "set m = set m'" using assms(2) by (metis set_mset_mset)
  qed
  ultimately show ?thesis by (simp add: fingerprint_def label_get_def label_list_def)
qed

text \<open>The error entry that a failing stage sends.\<close>

definition err_entry :: "'v lib \<Rightarrow> go_error \<Rightarrow> 'v LogEntry" where
  "err_entry L e = \<lparr>TimestampNS = 0, Fingerprint = 0, Labels = None, Message = '''', Value = f_zero L, Err = Some e\<rparr>"

text \<open>Go's integer division truncates towards zero; a zero divisor is a run-time panic.\<close>

definition go_div :: "int \<Rightarrow> int \<Rightarrow> int" where
  "go_div a b = sgn a * sgn b * (\<bar>a\<bar> div \<bar>b\<bar>)"

lemma go_div_nonneg: "0 \<le> a \<Longrightarrow> 0 < b \<Longrightarrow> go_div a b = a div b"
  by (cases "a = 0") (auto simp: go_div_def)

lemma go_div_neg: "a < 0 \<Longrightarrow> 0 < b \<Longrightarrow> go_div a b = - ((- a) div b)"
  by (simp add: go_div_def)

text \<open>The copy built-in on two overlapping slices of one array, from \<open>hi\<close> down to \<open>lo\<close>.\<close>

definition copy_down :: "'a list \<Rightarrow> nat \<Rightarrow> nat \<Rightarrow> 'a list" where
  "copy_down arr lo hi = take lo arr @ drop hi arr @ drop (lo + (length arr - hi)) arr"

text \<open>
  An instance of the libraries on integers, used by the concrete examples: decimal numbers,
  no regular expression, and a constant for what an example does not reach.
\<close>

definition int_lib :: "int lib" where
  "int_lib =
     \<lparr>f_zero = 0, f_one = 1, f_add = (+), f_sub = (-), f_mul = (*), f_div = (div), f_mod = (mod),
      f_lt = (<), f_le = (\<le>), f_eq = (=), f_of_int = id,
      parse_float = (\<lambda>s. if s \<noteq> [] \<and> list_all (\<lambda>c. CHR ''0'' \<le> c \<and> c \<le> CHR ''9'') s
                         then Inr (int (digits_val s)) else Inl (ErrMsg ''invalid syntax'')),
      parse_duration = (\<lambda>s. if s \<noteq> [] \<and> list_all (\<lambda>c. CHR ''0'' \<le> c \<and> c \<le> CHR ''9'') (butlast s) \<and> last s = CHR ''s''
                         then Inr (int (digits_val (butlast s)) * 1000000000) else Inl (ErrMsg ''invalid duration'')),
      json_string = (\<lambda>s. if 2 \<le> length s then Inr (butlast (tl s)) else Inl (ErrMsg ''unexpected end of JSON input'')),
      go_unquote = (\<lambda>s. if 2 \<le> length s then Inr (butlast (tl s)) else Inl (ErrMsg ''invalid syntax'')),
      regexp_compile = (\<lambda>s. Inl (ErrMsg ''no regular expressions'')),
      ch64 = (\<lambda>s. of_nat (foldl (\<lambda>a c. 31 * a + of_char c) 7 s)),
      template_parse = (\<lambda>s. Inr (\<lambda>line ts labels. Inr s)),
      json_path_parse = (\<lambda>s. Inr [\<lparr>jp_Ident = s, jp_Field = '''', jp_Idx = ''''\<rparr>]),
      jx_decode = (\<lambda>s. JxFail (ErrMsg ''no json'')),
      logfmt_pairs = (\<lambda>s. ([], None))\<rparr>"

end
