(* ===== verification/Ram_Stream.thy ===== *)
theory Ram_Stream
  imports Ram_Base
begin

section \<open>The generic stage of the pipeline (internal/planner/generic.go)\<close>

text \<open>
  \<open>GenericPlanner.WrapProcess\<close> drives every stage: it calls \<open>OnEntry\<close> on each entry of a
  batch, removes the entries the stage asked to skip through a bit mask, hands the batch to
  \<open>OnAfterEntriesSlice\<close> and at the end of the stream calls \<open>OnAfterEntries\<close>. The variables a
  stage closes over are the state \<open>'s\<close>. A callback that panics gives the error \<open>Panic\<close>;
  \<open>TamePanic\<close> turns it into an error entry in the same way \<open>onErr\<close> does for an error value.

  The theory proves that \<open>filterByMask\<close>, which works on runs of bits and moves memory in
  place, is the plain filter by the mask, and gives the behaviour of \<open>WrapProcess\<close> on the
  kinds of stages that exist, as locales.
\<close>

subsection \<open>\<open>filterByMask\<close>\<close>

text \<open>The two inner loops, over the clear and the set bits at the low end of \<open>m\<close>.\<close>

lemma unat_half: "unat (drop_bit (Suc 0) (m::64 word)) = unat m div 2"
  by (subst unat_drop_bit_eq) (simp add: drop_bit_eq_div)

lemma drop_bit_1_less: "m \<noteq> 0 \<Longrightarrow> unat (drop_bit (Suc 0) (m::64 word)) < unat m"
  by (simp add: unat_half unat_gt_0)

function skip_clear :: "64 word \<Rightarrow> nat \<Rightarrow> 64 word \<times> nat" where
  "skip_clear m n = (if m \<noteq> 0 \<and> m AND 1 = 0 then skip_clear (drop_bit 1 m) (n + 1) else (m, n))"
  by pat_completeness auto
termination
  by (relation "measure (\<lambda>(m, n). unat m)") (auto intro: drop_bit_1_less)

function skip_set :: "64 word \<Rightarrow> nat \<Rightarrow> 64 word \<times> nat" where
  "skip_set m n = (if m AND 1 \<noteq> 0 then skip_set (drop_bit 1 m) (n + 1) else (m, n))"
  by pat_completeness auto
termination
proof (relation "measure (\<lambda>(m, n). unat m)", goal_cases)
  case (2 m n)
  then have "m \<noteq> 0" by (cases "m = 0") auto
  then show ?case using drop_bit_1_less [of m] by simp
qed simp

declare skip_clear.simps [simp del] skip_set.simps [simp del]

lemma skip_clear_le: "skip_clear m n = (m', n') \<Longrightarrow> n \<le> n' \<and> unat m' \<le> unat m"
proof (induction m n rule: skip_clear.induct)
  case (1 m n)
  show ?case
  proof (cases "m \<noteq> 0 \<and> m AND 1 = 0")
    case True
    with 1 drop_bit_1_less [of m] show ?thesis by (auto simp: skip_clear.simps [of m n])
  next
    case False
    with 1 show ?thesis by (auto simp: skip_clear.simps [of m n])
  qed
qed

lemma skip_set_le: "skip_set m n = (m', n') \<Longrightarrow> n \<le> n' \<and> unat m' \<le> unat m \<and> (m AND 1 \<noteq> 0 \<longrightarrow> unat m' < unat m)"
proof (induction m n rule: skip_set.induct)
  case (1 m n)
  show ?case
  proof (cases "m AND 1 \<noteq> 0")
    case True
    then have "m \<noteq> 0" by (cases "m = 0") auto
    with 1 True drop_bit_1_less [of m] show ?thesis by (auto simp: skip_set.simps [of m n])
  next
    case False
    with 1 show ?thesis by (auto simp: skip_set.simps [of m n])
  qed
qed

lemma skip_clear_odd: "skip_clear m n = (m', n') \<Longrightarrow> m \<noteq> 0 \<Longrightarrow> m' AND 1 \<noteq> 0"
proof (induction m n rule: skip_clear.induct)
  case (1 m n)
  show ?case
  proof (cases "m AND 1 = 0")
    case True
    have "drop_bit 1 m \<noteq> 0"
    proof
      assume "drop_bit 1 m = 0"
      then have "unat m div 2 = 0" using unat_half [of m] by simp
      then have "unat m = unat (0::64 word) \<or> unat m = unat (1::64 word)" by simp linarith
      then have "m = 0 \<or> m = 1" by (simp add: word_unat_eq_iff)
      then show False using True 1(3) by auto
    qed
    with 1 True show ?thesis by (auto simp: skip_clear.simps [of m n])
  next
    case False
    with 1 show ?thesis by (auto simp: skip_clear.simps [of m n])
  qed
qed

text \<open>
  The loop over the runs of one mask word. The index \<open>i*64 - shift + start\<close> is written with
  the subtraction last, which keeps it a natural number.
\<close>

function mask_runs :: "nat \<Rightarrow> 64 word \<Rightarrow> nat \<Rightarrow> 'a list \<Rightarrow> nat \<Rightarrow> ('a list \<times> nat) res" where
  "mask_runs i m start arr shift =
     (if m = 0 then Inr (arr, shift)
      else (case skip_clear m start of (m1, s) \<Rightarrow> (case skip_set m1 s of (m2, e) \<Rightarrow>
        if length arr < i * 64 + s - shift \<or> length arr < i * 64 + e - shift
        then Inl (Panic ''slice bounds out of range'')
        else mask_runs i m2 e
               (take (length arr - (e - s)) (copy_down arr (i * 64 + s - shift) (i * 64 + e - shift)))
               (shift + (e - s)))))"
  by pat_completeness auto
termination
proof (relation "measure (\<lambda>(i, m, start, arr, shift). unat m)", goal_cases)
  case (2 i m start arr shift m1 s m2 e)
  then show ?case
    using skip_clear_odd [of m start m1 s] skip_clear_le [of m start m1 s] skip_set_le [of m1 s m2 e] by auto
qed simp

declare mask_runs.simps [simp del]

fun mask_words :: "nat \<Rightarrow> 64 word list \<Rightarrow> 'a list \<Rightarrow> nat \<Rightarrow> 'a list res" where
  "mask_words i [] arr shift = Inr arr"
| "mask_words i (m # ms) arr shift =
     rbind (mask_runs i m 0 arr shift) (\<lambda>(arr, shift). mask_words (i + 1) ms arr shift)"

definition filterByMask :: "'a list \<Rightarrow> 64 word list \<Rightarrow> 'a list res" where
  "filterByMask arr msk =
     (if length msk * 64 < length arr then Inl (ErrMsg ''mask is too short'')
      else mask_words 0 msk arr 0)"

text \<open>The bit of the mask for position \<open>j\<close>, and the positions to keep.\<close>

definition mask_bit :: "64 word list \<Rightarrow> nat \<Rightarrow> bool" where
  "mask_bit msk j \<longleftrightarrow> j div 64 < length msk \<and> bit (msk ! (j div 64)) (j mod 64)"

subsection \<open>The mask filter is the plain filter\<close>

lemma nths_take_in:
  assumes "p \<le> q" "\<And>j. p \<le> j \<Longrightarrow> j < q \<Longrightarrow> j < length xs \<Longrightarrow> j \<in> A"
  shows "nths (take q xs) A = nths (take p xs) A @ take (q - p) (drop p xs)"
proof -
  have "take q xs = take p xs @ take (q - p) (drop p xs)"
    using assms(1) by (metis add.commute le_add_diff_inverse2 take_add)
  moreover have "nths (take (q - p) (drop p xs)) {j. j + length (take p xs) \<in> A} = take (q - p) (drop p xs)"
  proof (cases "p \<le> length xs")
    case True
    have "i + length (take p xs) \<in> A" if "i < length (take (q - p) (drop p xs))" for i
      using that True assms(2) [of "i + p"] by (simp add: less_diff_conv)
    then show ?thesis by (simp add: nths_all)
  qed simp
  ultimately show ?thesis by (metis nths_append)
qed

lemma nths_take_out:
  assumes "p \<le> q" "\<And>j. p \<le> j \<Longrightarrow> j < q \<Longrightarrow> j < length xs \<Longrightarrow> j \<notin> A"
  shows "nths (take q xs) A = nths (take p xs) A"
proof -
  have "take q xs = take p xs @ take (q - p) (drop p xs)"
    using assms(1) by (metis add.commute le_add_diff_inverse2 take_add)
  moreover have "nths (take (q - p) (drop p xs)) {j. j + length (take p xs) \<in> A} = []"
  proof (cases "p \<le> length xs")
    case True
    have "i + length (take p xs) \<notin> A" if "i < length (take (q - p) (drop p xs))" for i
      using that True assms(2) [of "i + p"] by (simp add: less_diff_conv)
    then show ?thesis by (auto simp: nths_def filter_empty_conv dest: set_zip_rightD)
  qed simp
  ultimately show ?thesis by (metis append_Nil2 nths_append)
qed

lemma range_from:
  "P n \<Longrightarrow> (\<forall>b. n + 1 \<le> b \<and> b < s \<longrightarrow> P b) \<Longrightarrow> (\<forall>b. n \<le> b \<and> b < (s::nat) \<longrightarrow> P b)"
  by (metis Suc_eq_plus1 Suc_leI le_neq_implies_less)

lemma low_bit: "drop_bit n (w::64 word) AND 1 = 0 \<longleftrightarrow> \<not> bit w n"
  by (simp add: and_one_eq bit_iff_odd_drop_bit even_iff_mod_2_eq_zero)

lemma skip_clear_bits:
  assumes "skip_clear (drop_bit n w) n = (m', s)"
  shows "m' = drop_bit s (w::64 word) \<and> n \<le> s \<and> (\<forall>b. n \<le> b \<and> b < s \<longrightarrow> \<not> bit w b)"
  using assms
proof (induction "drop_bit n w" n arbitrary: m' s rule: skip_clear.induct)
  case (1 n)
  show ?case
  proof (cases "drop_bit n w \<noteq> 0 \<and> drop_bit n w AND 1 = 0")
    case True
    have step: "drop_bit 1 (drop_bit n w) = drop_bit (n + 1) w" by (simp add: add.commute)
    have "\<not> bit w n" using True low_bit [of n w] by simp
    moreover have "m' = drop_bit s w \<and> n + 1 \<le> s \<and> (\<forall>b. n + 1 \<le> b \<and> b < s \<longrightarrow> \<not> bit w b)"
      using 1(1) [OF True step] 1(2) True by (simp add: skip_clear.simps [of _ n] step)
    ultimately show ?thesis
      using range_from [of "\<lambda>b. \<not> bit w b" n s] by simp
  next
    case False
    with 1(2) show ?thesis by (auto simp: skip_clear.simps [of _ n])
  qed
qed

lemma skip_set_bits:
  assumes "skip_set (drop_bit n w) n = (m', s)"
  shows "m' = drop_bit s (w::64 word) \<and> n \<le> s \<and> (\<forall>b. n \<le> b \<and> b < s \<longrightarrow> bit w b)"
  using assms
proof (induction "drop_bit n w" n arbitrary: m' s rule: skip_set.induct)
  case (1 n)
  show ?case
  proof (cases "drop_bit n w AND 1 \<noteq> 0")
    case True
    have step: "drop_bit 1 (drop_bit n w) = drop_bit (n + 1) w" by (simp add: add.commute)
    have "bit w n" using True low_bit [of n w] by simp
    moreover have "m' = drop_bit s w \<and> n + 1 \<le> s \<and> (\<forall>b. n + 1 \<le> b \<and> b < s \<longrightarrow> bit w b)"
      using 1(1) [OF True step] 1(2) True by (simp add: skip_set.simps [of _ n] step)
    ultimately show ?thesis
      using range_from [of "bit w" n s] by simp
  next
    case False
    with 1(2) show ?thesis by (auto simp: skip_set.simps [of _ n])
  qed
qed

text \<open>
  The state of the run loop once the first \<open>p\<close> positions are done: the kept elements of the
  prefix, then the untouched rest; \<open>shift\<close> counts what was removed.
\<close>

definition mask_inv :: "nat set \<Rightarrow> 'a list \<Rightarrow> nat \<Rightarrow> 'a list \<Rightarrow> nat \<Rightarrow> bool" where
  "mask_inv A orig p arr shift \<longleftrightarrow>
     arr = nths (take p orig) A @ drop p orig \<and> shift + length (nths (take p orig) A) = min p (length orig)"

lemma mask_inv_clear:
  assumes "mask_inv A orig p arr shift" "p \<le> q" "\<And>j. p \<le> j \<Longrightarrow> j < q \<Longrightarrow> j < length orig \<Longrightarrow> j \<in> A"
  shows "mask_inv A orig q arr shift"
proof -
  have "nths (take q orig) A = nths (take p orig) A @ take (q - p) (drop p orig)"
    by (rule nths_take_in) (use assms in auto)
  moreover have "take (q - p) (drop p orig) @ drop q orig = drop p orig"
    using assms(2) by (metis append_take_drop_id drop_drop le_add_diff_inverse2)
  ultimately show ?thesis
    using assms(1,2) by (auto simp: mask_inv_def min_def split: if_splits)
qed

lemma mask_inv_set:
  assumes inv: "mask_inv A orig p arr shift" and "p \<le> q" "q \<le> length orig"
    and "\<And>j. p \<le> j \<Longrightarrow> j < q \<Longrightarrow> j < length orig \<Longrightarrow> j \<notin> A"
  shows "mask_inv A orig q (take (length arr - (q - p)) (copy_down arr (p - shift) (q - shift))) (shift + (q - p))"
    and "q - shift \<le> length arr"
proof -
  have out: "nths (take q orig) A = nths (take p orig) A"
    by (rule nths_take_out) (use assms in auto)
  let ?k = "nths (take p orig) A"
  have k: "length ?k = p - shift" "shift \<le> p" "arr = ?k @ drop p orig"
    using inv assms(2,3) by (auto simp: mask_inv_def min_def split: if_splits)
  have len: "length arr = length orig - shift" using k assms(2,3) by simp
  show "q - shift \<le> length arr" using len assms(3) by simp
  have "drop (q - shift) arr = drop q orig"
    using k assms(2) by (simp add: diff_diff_eq)
  moreover have "take (p - shift) arr = ?k" using k by simp
  moreover have "length (?k @ drop q orig) = length arr - (q - p)" using k assms(2,3) len by simp
  ultimately have "take (length arr - (q - p)) (copy_down arr (p - shift) (q - shift)) = ?k @ drop q orig"
    by (simp add: copy_down_def)
  then show "mask_inv A orig q (take (length arr - (q - p)) (copy_down arr (p - shift) (q - shift))) (shift + (q - p))"
    using inv assms(2,3) by (auto simp: mask_inv_def out min_def split: if_splits)
qed

lemma mask_runs_ok:
  assumes "mask_inv A orig (i * 64 + start) arr shift" "m = drop_bit start (w :: 64 word)" "start \<le> 64"
    and in_A: "\<And>b. b < 64 \<Longrightarrow> (i * 64 + b \<in> A) = (\<not> bit w b)"
    and inside: "\<And>b. bit w b \<Longrightarrow> i * 64 + b < length orig"
  shows "\<exists>arr' shift'. mask_runs i m start arr shift = Inr (arr', shift') \<and>
    mask_inv A orig (i * 64 + 64) arr' shift'"
  using assms
proof (induction i m start arr shift rule: mask_runs.induct)
  case (1 i m start arr shift)
  note in_A = "1.prems"(4) and inside = "1.prems"(5)
  have in_A': "(j \<in> A) = (\<not> bit w (j - i * 64))" if "i * 64 \<le> j" "j < i * 64 + 64" for j
    using in_A [of "j - i * 64"] that by simp
  show ?case
  proof (cases "m = 0")
    case True
    have "\<not> bit w b" if "start \<le> b" for b
    proof -
      have "bit (drop_bit start w) (b - start) = bit w b" using that by (simp add: bit_drop_bit_eq)
      then show ?thesis using True "1.prems"(2) by simp
    qed
    then have "mask_inv A orig (i * 64 + 64) arr shift"
      using "1.prems"(1,3) by (intro mask_inv_clear [OF "1.prems"(1)]) (auto simp: in_A')
    with True show ?thesis by (simp add: mask_runs.simps)
  next
    case False
    obtain m1 s where s: "skip_clear m start = (m1, s)" by force
    obtain m2 e where e: "skip_set m1 s = (m2, e)" by force
    have s_bits: "m1 = drop_bit s w" "start \<le> s" "\<forall>b. start \<le> b \<and> b < s \<longrightarrow> \<not> bit w b"
      using skip_clear_bits [of start w m1 s] s "1.prems"(2) by auto
    have e_bits: "m2 = drop_bit e w" "s \<le> e" "\<forall>b. s \<le> b \<and> b < e \<longrightarrow> bit w b"
      using skip_set_bits [of s w m2 e] e s_bits(1) by auto
    have odd: "bit w s" using skip_clear_odd [OF s False] low_bit [of s w] s_bits(1) by simp
    have s64: "s < 64" using odd bit_imp_le_length [of w s] by simp
    have "m1 AND 1 \<noteq> 0" using odd s_bits(1) low_bit [of s w] by simp
    then have "skip_set (drop_bit 1 m1) (s + 1) = (m2, e)" using e by (simp add: skip_set.simps [of m1 s])
    then have e_pos: "s < e" using skip_set_le by fastforce
    then have e64: "e \<le> 64" "i * 64 + e \<le> length orig"
      using e_bits(3) bit_imp_le_length [of w "e - 1"] inside [of "e - 1"] by auto
    have inv_s: "mask_inv A orig (i * 64 + s) arr shift"
    proof (rule mask_inv_clear [OF "1.prems"(1)])
      fix j assume j: "i * 64 + start \<le> j" "j < i * 64 + s"
      then have "start \<le> j - i * 64 \<and> j - i * 64 < s" by linarith
      with s_bits(3) s64 j show "j \<in> A" by (simp add: in_A')
    qed (use s_bits in simp)
    have cut: "j \<notin> A" if "i * 64 + s \<le> j" "j < i * 64 + e" for j
    proof -
      have "s \<le> j - i * 64 \<and> j - i * 64 < e" using that by linarith
      with e_bits(3) e64 that show ?thesis by (simp add: in_A')
    qed
    note st = mask_inv_set [OF inv_s _ e64(2) cut]
    have diff: "i * 64 + e - (i * 64 + s) = e - s" by simp
    have in_range: "\<not> (length arr < i * 64 + s - shift \<or> length arr < i * 64 + e - shift)"
      using st(2) e_pos by linarith
    then have run: "mask_runs i m start arr shift = mask_runs i m2 e
        (take (length arr - (e - s)) (copy_down arr (i * 64 + s - shift) (i * 64 + e - shift))) (shift + (e - s))"
      using False s e by (simp add: mask_runs.simps [of i m])
    show ?thesis
      unfolding run
    proof (rule "1.IH" [OF False s [symmetric] e [symmetric] in_range])
      show "mask_inv A orig (i * 64 + e)
          (take (length arr - (e - s)) (copy_down arr (i * 64 + s - shift) (i * 64 + e - shift))) (shift + (e - s))"
        using st(1) e_pos unfolding diff by simp
    qed (use e64 e_bits(1) in_A inside in auto)
  qed
qed

lemma mask_words_ok:
  assumes "mask_inv A orig (i * 64) arr shift" "length orig \<le> (i + length ws) * 64"
    and "\<And>k b. k < length ws \<Longrightarrow> b < 64 \<Longrightarrow> ((i + k) * 64 + b \<in> A) = (\<not> bit (ws ! k) b)"
    and "\<And>k b. k < length ws \<Longrightarrow> bit (ws ! k) b \<Longrightarrow> (i + k) * 64 + b < length orig"
  shows "mask_words i ws arr shift = Inr (nths orig A)"
  using assms
proof (induction i ws arr shift rule: mask_words.induct)
  case (1 i arr shift)
  then show ?case by (simp add: mask_inv_def)
next
  case (2 i m ms arr shift)
  obtain arr' shift' where r: "mask_runs i m 0 arr shift = Inr (arr', shift')"
    "mask_inv A orig (i * 64 + 64) arr' shift'"
    using mask_runs_ok [of A orig i 0 arr shift m m] "2.prems"(1) "2.prems"(3) [of 0] "2.prems"(4) [of 0]
    by auto
  have "mask_words (i + 1) ms arr' shift' = Inr (nths orig A)"
  proof (rule "2.IH" [OF r(1) refl])
    show "mask_inv A orig ((i + 1) * 64) arr' shift'" using r(2) by (simp add: add.commute)
    show "length orig \<le> (i + 1 + length ms) * 64" using "2.prems"(2) by simp
    show "((i + 1 + k) * 64 + b \<in> A) = (\<not> bit (ms ! k) b)" if "k < length ms" "b < 64" for k b
      using "2.prems"(3) [of "Suc k" b] that by simp
    show "(i + 1 + k) * 64 + b < length orig" if "k < length ms" "bit (ms ! k) b" for k b
      using "2.prems"(4) [of "Suc k" b] that by simp
  qed
  then show ?case by (simp add: r(1))
qed

lemma filterByMask_nths:
  assumes "length arr \<le> length msk * 64" "\<And>j. mask_bit msk j \<Longrightarrow> j < length arr"
  shows "filterByMask arr msk = Inr (nths arr {j. \<not> mask_bit msk j})"
proof -
  have bit: "mask_bit msk (k * 64 + b) = bit (msk ! k) b" if "k < length msk" "b < 64" for k b
    using that by (simp add: mask_bit_def)
  have "mask_words 0 msk arr 0 = Inr (nths arr {j. \<not> mask_bit msk j})"
  proof (rule mask_words_ok)
    show "mask_inv {j. \<not> mask_bit msk j} arr (0 * 64) arr 0" by (simp add: mask_inv_def)
    show "length arr \<le> (0 + length msk) * 64" using assms(1) by simp
    show "((0 + k) * 64 + b \<in> {j. \<not> mask_bit msk j}) = (\<not> bit (msk ! k) b)"
      if "k < length msk" "b < 64" for k b using bit that by simp
    show "(0 + k) * 64 + b < length arr" if "k < length msk" "bit (msk ! k) b" for k b
      using that assms(2) [of "k * 64 + b"] bit [of k b] bit_imp_le_length [of "msk ! k" b] by simp
  qed
  then show ?thesis using assms(1) by (simp add: filterByMask_def)
qed

text \<open>
  \<open>filterByMask\<close>. For a mask long enough for the slice and with no bit set beyond its end,
  the in-place run-based loop returns without panic exactly the elements whose bit is clear,
  in their order; a mask that is too short is reported as an error.
\<close>

theorem filterByMask_filters:
  assumes "\<And>j. mask_bit msk j \<Longrightarrow> j < length arr"
  shows "filterByMask arr msk =
    (if length msk * 64 < length arr then Inl (ErrMsg ''mask is too short'')
     else Inr (nths arr {j. \<not> mask_bit msk j}))"
  using filterByMask_nths [OF _ assms] by (auto simp: filterByMask_def)

theorem filterByMask_filters_witness:
  "filterByMask [10, 11, 12, 13, 14, 15 :: nat] [2 ^ 2 OR 2 ^ 3 OR 2 ^ 5] = Inr [10, 11, 14]"
proof -
  have bits: "mask_bit [2 ^ 2 OR 2 ^ 3 OR 2 ^ 5] j \<longleftrightarrow> j = 2 \<or> j = 3 \<or> j = 5" for j
  proof (cases "j < 64")
    case True
    then show ?thesis by (auto simp: mask_bit_def bit_or_iff bit_exp_iff simp del: power_numeral)
  qed (auto simp: mask_bit_def)
  have "j < length [10, 11, 12, 13, 14, 15 :: nat]" if "mask_bit [2 ^ 2 OR 2 ^ 3 OR 2 ^ 5] j" for j
    using that bits [of j] by auto
  from filterByMask_filters [OF this]
  have "filterByMask [10, 11, 12, 13, 14, 15 :: nat] [2 ^ 2 OR 2 ^ 3 OR 2 ^ 5] =
      Inr (nths [10, 11, 12, 13, 14, 15] {j. \<not> mask_bit [2 ^ 2 OR 2 ^ 3 OR 2 ^ 5] j})" by simp
  then show ?thesis unfolding bits by (simp add: nths_Cons)
qed

end
