(* ===== verification/Ram_Wrap.thy ===== *)
theory Ram_Wrap
  imports Ram_Stream
begin

section \<open>\<open>WrapProcess\<close>\<close>

text \<open>
  The loop of \<open>GenericPlanner.WrapProcess\<close> over the callbacks of a stage, the refinement of
  its mask-based batch step by a plain one, and the two kinds of callbacks the stages have,
  as locales: \<open>pass_through\<close> changes or skips entries and sends the batch on, \<open>collecting\<close>
  gathers the entries it wants and sends those.
\<close>

record ('s, 'v) GenericPlannerOps =
  OnEntry :: "'s \<Rightarrow> 'v LogEntry \<Rightarrow> go_error option \<times> 'v LogEntry \<times> 's"
  OnAfterEntriesSlice :: "'s \<Rightarrow> 'v batch \<Rightarrow> 'v stream \<times> go_error option \<times> 's"
  OnAfterEntries :: "'s \<Rightarrow> 'v stream \<times> go_error option"

text \<open>An error other than none and \<open>io.EOF\<close>.\<close>

definition fatal :: "go_error option \<Rightarrow> bool" where
  "fatal e \<longleftrightarrow> e \<noteq> None \<and> e \<noteq> Some EOF"

lemma fatal_simps [simp]: "\<not> fatal None" "\<not> fatal (Some EOF)"
  by (simp_all add: fatal_def)

definition mask_set :: "nat \<Rightarrow> 64 word list \<Rightarrow> 64 word list" where
  "mask_set i msk = msk[i div 64 := msk ! (i div 64) OR push_bit (i mod 64) 1]"

fun wrap_entries ::
    "('s, 'v) GenericPlannerOps \<Rightarrow> nat \<Rightarrow> 'v batch \<Rightarrow> 64 word list \<Rightarrow> 's \<Rightarrow> ('v batch \<times> 64 word list \<times> 's) res" where
  "wrap_entries ops i [] msk s = Inr ([], msk, s)"
| "wrap_entries ops i (e # es) msk s =
     (case OnEntry ops s e of (err, e', s') \<Rightarrow>
        (if err = Some SkipEntry then
           rbind (wrap_entries ops (i + 1) es (mask_set i msk) s') (\<lambda>(es', m, t). Inr (e' # es', m, t))
         else if fatal err then Inl (the err)
         else rbind (wrap_entries ops (i + 1) es msk s') (\<lambda>(es', m, t). Inr (e' # es', m, t))))"

definition wrap_batch :: "('s, 'v) GenericPlannerOps \<Rightarrow> 'v batch \<Rightarrow> 's \<Rightarrow> ('v batch \<times> 's) res" where
  "wrap_batch ops b s =
     rbind (wrap_entries ops 0 b (replicate ((length b + 63) div 64) 0) s) (\<lambda>(b', msk, s').
       rbind (filterByMask b' msk) (\<lambda>b''. Inr (b'', s')))"

fun wrap_loop :: "'v lib \<Rightarrow> ('s, 'v) GenericPlannerOps \<Rightarrow> 'v stream \<Rightarrow> 's \<Rightarrow> 'v stream" where
  "wrap_loop L ops [] s =
     (case OnAfterEntries ops s of (out, err) \<Rightarrow> out @ (if fatal err then [[err_entry L (the err)]] else []))"
| "wrap_loop L ops (b # bs) s =
     (case wrap_batch ops b s of
        Inl err \<Rightarrow> [[err_entry L err]]
      | Inr (b', s') \<Rightarrow>
          (case OnAfterEntriesSlice ops s' b' of (out, err, s'') \<Rightarrow>
             if fatal err then out @ [[err_entry L (the err)]]
             else out @ wrap_loop L ops bs s''))"

definition WrapProcess :: "'v lib \<Rightarrow> ('s, 'v) GenericPlannerOps \<Rightarrow> 's \<Rightarrow> 'v stream res \<Rightarrow> 'v stream res" where
  "WrapProcess L ops s inp = rbind inp (\<lambda>bs. Inr (wrap_loop L ops bs s))"

subsection \<open>The batch step without a mask\<close>

fun plain_batch :: "('s, 'v) GenericPlannerOps \<Rightarrow> 'v batch \<Rightarrow> 's \<Rightarrow> ('v batch \<times> 's) res" where
  "plain_batch ops [] s = Inr ([], s)"
| "plain_batch ops (e # es) s =
     (case OnEntry ops s e of (err, e', s') \<Rightarrow>
        (if err = Some SkipEntry then plain_batch ops es s'
         else if fatal err then Inl (the err)
         else rbind (plain_batch ops es s') (\<lambda>(es', t). Inr (e' # es', t))))"

lemma mask_bit_set:
  "i div 64 < length msk \<Longrightarrow> mask_bit (mask_set i msk) j \<longleftrightarrow> j = i \<or> mask_bit msk j"
proof -
  assume i: "i div 64 < length msk"
  have "bit (push_bit (i mod 64) 1 :: 64 word) (j mod 64) \<longleftrightarrow> j mod 64 = i mod 64"
    by (auto simp: bit_exp_iff)
  moreover have "j = i \<longleftrightarrow> j div 64 = i div 64 \<and> j mod 64 = i mod 64"
    by (metis div_mod_decomp)
  ultimately show ?thesis
    using i by (auto simp: mask_bit_def mask_set_def nth_list_update bit_or_iff)
qed

lemma wrap_entries_plain:
  assumes "i + length es \<le> length msk * 64" "\<And>j. mask_bit msk j \<Longrightarrow> j < i"
  shows "(\<exists>e. wrap_entries ops i es msk s = Inl e \<and> plain_batch ops es s = Inl e) \<or>
    (\<exists>es' msk' t. wrap_entries ops i es msk s = Inr (es', msk', t) \<and>
       length es' = length es \<and> length msk' = length msk \<and>
       (\<forall>j < i. mask_bit msk' j = mask_bit msk j) \<and> (\<forall>j. mask_bit msk' j \<longrightarrow> j < i + length es) \<and>
       plain_batch ops es s = Inr (nths es' {k. \<not> mask_bit msk' (i + k)}, t))"
  using assms
proof (induction ops i es msk s rule: wrap_entries.induct)
  case (1 ops i msk s)
  then show ?case by simp
next
  case (2 ops i e es msk s)
  obtain err e' s' where o': "OnEntry ops s e = (err, e', s')" by (metis prod_cases3)
  have i_in: "i div 64 < length msk" using "2.prems"(1) by (simp add: div_less_iff_less_mult)
  let ?m = "if err = Some SkipEntry then mask_set i msk else msk"
  show ?case
  proof (cases "err \<noteq> Some SkipEntry \<and> fatal err")
    case True
    then show ?thesis by (simp add: o')
  next
    case False
    have bits: "mask_bit ?m j \<longleftrightarrow> (j = i \<and> err = Some SkipEntry) \<or> mask_bit msk j" for j
      by (simp add: mask_bit_set [OF i_in])
    have len: "length ?m = length msk" by (simp add: mask_set_def)
    have prems: "i + 1 + length es \<le> length ?m * 64" "\<And>j. mask_bit ?m j \<Longrightarrow> j < i + 1"
      using "2.prems" bits len by (auto simp: less_Suc_eq)
    have IH: "(\<exists>x. wrap_entries ops (i + 1) es ?m s' = Inl x \<and> plain_batch ops es s' = Inl x) \<or>
      (\<exists>es' msk' t. wrap_entries ops (i + 1) es ?m s' = Inr (es', msk', t) \<and>
         length es' = length es \<and> length msk' = length msk \<and>
         (\<forall>j < i + 1. mask_bit msk' j = mask_bit ?m j) \<and> (\<forall>j. mask_bit msk' j \<longrightarrow> j < i + 1 + length es) \<and>
         plain_batch ops es s' = Inr (nths es' {k. \<not> mask_bit msk' (i + 1 + k)}, t))"
      using "2.IH"(1) [OF o' [symmetric] refl] "2.IH"(2) [OF o' [symmetric] refl] False prems len
      by (cases "err = Some SkipEntry") auto
    then show ?thesis
    proof (elim disjE exE conjE)
      fix x assume "wrap_entries ops (i + 1) es ?m s' = Inl x" "plain_batch ops es s' = Inl x"
      then show ?thesis using False by (auto simp: o' split: if_splits)
    next
      fix es' msk' t
      assume a: "wrap_entries ops (i + 1) es ?m s' = Inr (es', msk', t)" "length es' = length es"
        "length msk' = length msk" "\<forall>j < i + 1. mask_bit msk' j = mask_bit ?m j"
        "\<forall>j. mask_bit msk' j \<longrightarrow> j < i + 1 + length es"
        "plain_batch ops es s' = Inr (nths es' {k. \<not> mask_bit msk' (i + 1 + k)}, t)"
      have at_i: "mask_bit msk' i \<longleftrightarrow> err = Some SkipEntry"
        using a(4) bits [of i] "2.prems"(2) [of i] by auto
      have w: "wrap_entries ops i (e # es) msk s = Inr (e' # es', msk', t)"
        using a(1) False by (auto simp: o' split: if_splits)
      have p: "plain_batch ops (e # es) s = Inr (nths (e' # es') {k. \<not> mask_bit msk' (i + k)}, t)"
        using a(6) False at_i by (auto simp: o' nths_Cons)
      have "\<forall>j < i. mask_bit msk' j = mask_bit msk j" using a(4) bits by auto
      then show ?thesis using w p a by auto
    qed
  qed
qed

text \<open>The mask-based batch step refines the plain one.\<close>

lemma wrap_batch_plain: "wrap_batch ops b s = plain_batch ops b s"
proof -
  let ?m = "replicate ((length b + 63) div 64) (0 :: 64 word)"
  have len: "0 + length b \<le> length ?m * 64" by simp
  have none: "mask_bit ?m j \<Longrightarrow> j < 0" for j by (auto simp: mask_bit_def)
  consider (bad) e where "wrap_entries ops 0 b ?m s = Inl e" "plain_batch ops b s = Inl e"
    | (ok) es' msk' t where "wrap_entries ops 0 b ?m s = Inr (es', msk', t)" "length es' = length b"
      "length msk' = length ?m" "\<forall>j. mask_bit msk' j \<longrightarrow> j < 0 + length b"
      "plain_batch ops b s = Inr (nths es' {k. \<not> mask_bit msk' (0 + k)}, t)"
    using wrap_entries_plain [OF len none, where ops = ops and s = s] by blast
  then show ?thesis
  proof cases
    case ok
    have "filterByMask es' msk' = Inr (nths es' {k. \<not> mask_bit msk' k})"
      using ok len by (intro filterByMask_nths) auto
    then show ?thesis using ok by (simp add: wrap_batch_def)
  qed (simp add: wrap_batch_def)
qed

text \<open>
  C13: the batch step of every stage. Going through the bit mask and the in-place compaction is
  the same as processing the entries in order, leaving out those the stage skips and stopping
  at the first error: the mask never makes the step panic or lose another entry.
\<close>

theorem wrap_batch_refines: "wrap_batch ops b s = plain_batch ops b s"
  by (rule wrap_batch_plain)

subsection \<open>Stages that pass their batch on\<close>

locale pass_through =
  fixes L :: "'v lib" and ops :: "('s, 'v) GenericPlannerOps"
    and err_of :: "'v LogEntry \<Rightarrow> go_error option" and new :: "'v LogEntry \<Rightarrow> 'v LogEntry"
  assumes on_entry: "OnEntry ops s e = (err_of e, new e, s)"
    and on_slice: "OnAfterEntriesSlice ops s b = ([b], None, s)"
    and on_after: "OnAfterEntries ops s = ([], None)"
begin

definition bad :: "'v LogEntry \<Rightarrow> bool" where
  "bad e \<longleftrightarrow> err_of e \<noteq> Some SkipEntry \<and> fatal (err_of e)"

definition out_batch :: "'v batch \<Rightarrow> 'v batch" where
  "out_batch b = map new (filter (\<lambda>e. err_of e \<noteq> Some SkipEntry) b)"

lemma plain_ok: "\<forall>e\<in>set b. \<not> bad e \<Longrightarrow> plain_batch ops b s = Inr (out_batch b, s)"
  by (induction b) (auto simp: on_entry bad_def out_batch_def)

lemma plain_bad:
  assumes "find bad b = Some e"
  shows "plain_batch ops b s = Inl (the (err_of e))"
  using assms by (induction b) (auto simp: on_entry bad_def split: if_splits)

lemma stream_ok:
  "\<forall>b\<in>set bs. \<forall>e\<in>set b. \<not> bad e \<Longrightarrow> wrap_loop L ops bs s = map out_batch bs"
  by (induction bs) (simp_all add: on_after wrap_batch_plain plain_ok on_slice)

lemma stream_bad:
  assumes "\<forall>b\<in>set bs. \<forall>e\<in>set b. \<not> bad e" "find bad b = Some e"
  shows "wrap_loop L ops (bs @ b # rest) s = map out_batch bs @ [[err_entry L (the (err_of e))]]"
  using assms(1) by (induction bs) (simp_all add: wrap_batch_plain plain_ok on_slice plain_bad [OF assms(2)])

end

subsection \<open>Stages that collect entries\<close>

locale collecting =
  fixes L :: "'v lib" and ops :: "('v batch, 'v) GenericPlannerOps" and keep :: "'v LogEntry \<Rightarrow> bool"
  assumes on_entry: "OnEntry ops acc e = (None, e, if keep e then acc @ [e] else acc)"
    and on_slice: "OnAfterEntriesSlice ops acc b = ([acc], None, [])"
    and on_after: "OnAfterEntries ops acc = ([], None)"
begin

lemma plain_collect: "plain_batch ops b acc = Inr (b, acc @ filter keep b)"
  by (induction b arbitrary: acc) (simp_all add: on_entry)

lemma stream: "wrap_loop L ops bs [] = map (filter keep) bs"
  by (induction bs) (simp_all add: on_after wrap_batch_plain plain_collect on_slice)

end

end
