(* ===== verification/Logql_Model.thy ===== *)
theory Logql_Model
  imports Gp_Prelude
begin

section \<open>The LogQL syntax tree (reader/logql/logql\_parser/model.go)\<close>

text \<open>
  The tree the parser builds, one type per struct: a pointer field is an \<open>option\<close>, a slice a
  list. \<open>LabelName\<close> and \<open>QuotedString\<close> are structs with one string field and are strings
  here; a quoted string keeps its quotes. The \<open>String\<close> methods are functions \<open>str_*\<close>; calling
  one through a nil pointer, which a tree from the grammar never does, prints nothing here.
  The grammar tags belong to the parser generator and are not modelled; \<open>FindFirst\<close> is
  modelled at the four node types the planners look for.
\<close>

type_synonym LabelName = string
type_synonym QuotedString = string

record StrSelCmd =
  cmd_Label :: LabelName
  cmd_Op :: string
  cmd_Val :: QuotedString

datatype LineFilterExp =
    LineFilterExp (lfe_Head: LineFilterHead) (lfe_Op: string) (lfe_Tail: "LineFilterExp option")
and LineFilterHead =
    LineFilterHead (lfh_Complex: "LineFilterExp option") (lfh_Simple: "QuotedString option")

record LineFilter =
  lf_Fn :: string
  lf_Exp :: LineFilterExp

record SimpleLabelFilter =
  slf_Label :: LabelName
  slf_Fn :: string
  slf_StrVal :: "QuotedString option"
  slf_NumVal :: string

datatype LabelFilter =
    LabelFilter (lab_Head: Head) (lab_Op: string) (lab_Tail: "LabelFilter option")
and Head =
    Head (hd_ComplexHead: "LabelFilter option") (hd_SimpleHead: "SimpleLabelFilter option")

record ParserParam =
  pp_Label :: "LabelName option"
  pp_Val :: QuotedString

record Parser =
  par_Fn :: string
  par_ParserParams :: "ParserParam list"

record LabelFormatOp =
  lfo_Label :: LabelName
  lfo_LabelVal :: "LabelName option"
  lfo_ConstVal :: "QuotedString option"

record Unwrap =
  unw_Fn :: string
  unw_Label :: LabelName

record DropParam =
  dp_Label :: LabelName
  dp_Val :: "QuotedString option"

record Drop =
  drop_Fn :: string
  drop_Params :: "DropParam list"

record KeepParam =
  kp_Label :: LabelName
  kp_Val :: "QuotedString option"

record Keep =
  keep_Fn :: string
  keep_Params :: "KeepParam list"

record StrSelectorPipeline =
  ppl_LineFilter :: "LineFilter option"
  ppl_LabelFilter :: "LabelFilter option"
  ppl_Parser :: "Parser option"
  ppl_LineFormat :: "QuotedString option"
  ppl_LabelFormat :: "LabelFormatOp list option"
  ppl_Unwrap :: "Unwrap option"
  ppl_Drop :: "Drop option"
  ppl_Keep :: "Keep option"

record StrSelector =
  sel_StrSelCmds :: "StrSelCmd list"
  sel_Pipelines :: "StrSelectorPipeline list"

record ByOrWithout =
  bow_Fn :: string
  bow_Labels :: "LabelName list"

record Comparison =
  cmp_Fn :: string
  cmp_Val :: string

record Offset =
  off_Time :: string
  off_TimeUnit :: string

record LRAOrUnwrap =
  lra_Fn :: string
  lra_ByOrWithoutPrefix :: "ByOrWithout option"
  lra_StrSel :: StrSelector
  lra_Time :: string
  lra_TimeUnit :: string
  lra_Offset :: "Offset option"
  lra_ByOrWithoutSuffix :: "ByOrWithout option"
  lra_Comparison :: "Comparison option"

record AggOperator =
  agg_Fn :: string
  agg_ByOrWithoutPrefix :: "ByOrWithout option"
  agg_LRAOrUnwrap :: LRAOrUnwrap
  agg_ByOrWithoutSuffix :: "ByOrWithout option"
  agg_Comparison :: "Comparison option"

record MacrosOp =
  mac_Name :: string
  mac_Params :: "QuotedString list"

record QuantileOverTime =
  qot_Fn :: string
  qot_ByOrWithoutPrefix :: "ByOrWithout option"
  qot_Param :: string
  qot_StrSel :: StrSelector
  qot_Time :: string
  qot_TimeUnit :: string
  qot_ByOrWithoutSuffix :: "ByOrWithout option"
  qot_Comparison :: "Comparison option"

record TopK =
  topk_Fn :: string
  topk_Param :: string
  topk_LRAOrUnwrap :: "LRAOrUnwrap option"
  topk_AggOperator :: "AggOperator option"
  topk_QuantileOverTime :: "QuantileOverTime option"
  topk_Comparison :: "Comparison option"

datatype LogQLScript =
    LogQLScript (ql_Head: AtomExpr) (ql_BinOps: "BinOpPart list")
and AtomExpr =
    AtomExpr (at_Paren: "LogQLScript option") (at_StrSelector: "StrSelector option")
      (at_LRAOrUnwrap: "LRAOrUnwrap option") (at_AggOperator: "AggOperator option")
      (at_Macros: "MacrosOp option") (at_TopK: "TopK option")
      (at_QuantileOverTime: "QuantileOverTime option") (at_Scalar: string)
and BinOpPart =
    BinOpPart (bin_Op: string) (bin_Right: AtomExpr)

definition IsBinary :: "LogQLScript \<Rightarrow> bool" where
  "IsBinary l \<longleftrightarrow> 0 < length (ql_BinOps l)"

subsection \<open>Printing\<close>

abbreviation opt_str :: "('a \<Rightarrow> string) \<Rightarrow> 'a option \<Rightarrow> string" where
  "opt_str f x \<equiv> (case x of None \<Rightarrow> '''' | Some v \<Rightarrow> f v)"

fun str_LineFilterExp :: "LineFilterExp \<Rightarrow> string" and str_LineFilterHead :: "LineFilterHead \<Rightarrow> string" where
  "str_LineFilterExp (LineFilterExp h op tl') =
     str_LineFilterHead h @ (if op \<noteq> '''' then '' '' @ op else '''') @
     (case tl' of None \<Rightarrow> '''' | Some t \<Rightarrow> '' '' @ str_LineFilterExp t)"
| "str_LineFilterHead (LineFilterHead complex simple) =
     (case complex of Some e \<Rightarrow> ''('' @ str_LineFilterExp e @ '')'' | None \<Rightarrow> opt_str id simple)"

definition str_LineFilter :: "LineFilter \<Rightarrow> string" where
  "str_LineFilter l = lf_Fn l @ '' '' @ str_LineFilterExp (lf_Exp l)"

definition str_SimpleLabelFilter :: "SimpleLabelFilter \<Rightarrow> string" where
  "str_SimpleLabelFilter s =
     slf_Label s @ '' '' @ slf_Fn s @ '' '' @
     (case slf_StrVal s of Some v \<Rightarrow> v | None \<Rightarrow> slf_NumVal s)"

fun str_LabelFilter :: "LabelFilter \<Rightarrow> string" and str_Head :: "Head \<Rightarrow> string" where
  "str_LabelFilter (LabelFilter h op tl') =
     str_Head h @
     (if op = '''' then ''''
      else '' '' @ op @ '' '' @ (case tl' of None \<Rightarrow> '''' | Some t \<Rightarrow> str_LabelFilter t))"
| "str_Head (Head complex simple) =
     (case complex of Some e \<Rightarrow> ''('' @ str_LabelFilter e @ '')''
      | None \<Rightarrow> opt_str str_SimpleLabelFilter simple)"

definition str_ParserParam :: "ParserParam \<Rightarrow> string" where
  "str_ParserParam p = (case pp_Label p of None \<Rightarrow> pp_Val p | Some l \<Rightarrow> l @ '' = '' @ pp_Val p)"

definition str_Parser :: "Parser \<Rightarrow> string" where
  "str_Parser p =
     (if par_ParserParams p = [] then ''| '' @ par_Fn p
      else ''| '' @ par_Fn p @ '' '' @ go_join '', '' (map str_ParserParam (par_ParserParams p)))"

definition str_LineFormat :: "QuotedString \<Rightarrow> string" where
  "str_LineFormat v = ''| line_format '' @ v"

definition str_LabelFormatOp :: "LabelFormatOp \<Rightarrow> string" where
  "str_LabelFormatOp l =
     lfo_Label l @ '' = '' @
     (case lfo_LabelVal l of Some v \<Rightarrow> v | None \<Rightarrow> opt_str id (lfo_ConstVal l))"

definition str_LabelFormat :: "LabelFormatOp list \<Rightarrow> string" where
  "str_LabelFormat ops = ''| label_format '' @ go_join '', '' (map str_LabelFormatOp ops)"

definition str_Unwrap :: "Unwrap \<Rightarrow> string" where
  "str_Unwrap u = ''| '' @ unw_Fn u @ '' '' @ unw_Label u"

definition str_DropParam :: "DropParam \<Rightarrow> string" where
  "str_DropParam d = dp_Label d @ (case dp_Val d of None \<Rightarrow> '''' | Some v \<Rightarrow> ''='' @ v)"

definition str_Drop :: "Drop \<Rightarrow> string" where
  "str_Drop d = ''| '' @ drop_Fn d @ '' '' @ go_join '','' (map str_DropParam (drop_Params d))"

definition str_KeepParam :: "KeepParam \<Rightarrow> string" where
  "str_KeepParam k = kp_Label k @ (case kp_Val k of None \<Rightarrow> '''' | Some v \<Rightarrow> ''='' @ v)"

definition str_Keep :: "Keep \<Rightarrow> string" where
  "str_Keep k = ''| '' @ keep_Fn k @ '' '' @ go_join '','' (map str_KeepParam (keep_Params k))"

definition str_StrSelectorPipeline :: "StrSelectorPipeline \<Rightarrow> string" where
  "str_StrSelectorPipeline s =
     (case ppl_LineFilter s of Some f \<Rightarrow> str_LineFilter f | None \<Rightarrow>
     (case ppl_LabelFilter s of Some f \<Rightarrow> ''| '' @ str_LabelFilter f | None \<Rightarrow>
     (case ppl_Parser s of Some p \<Rightarrow> str_Parser p | None \<Rightarrow>
     (case ppl_LineFormat s of Some v \<Rightarrow> str_LineFormat v | None \<Rightarrow>
     (case ppl_LabelFormat s of Some ops \<Rightarrow> str_LabelFormat ops | None \<Rightarrow>
     (case ppl_Unwrap s of Some u \<Rightarrow> str_Unwrap u | None \<Rightarrow>
     (case ppl_Drop s of Some d \<Rightarrow> str_Drop d | None \<Rightarrow> opt_str str_Keep (ppl_Keep s))))))))"

definition str_StrSelector :: "StrSelector \<Rightarrow> string" where
  "str_StrSelector l =
     ''{'' @ go_join '','' (map (\<lambda>c. cmd_Label c @ cmd_Op c @ cmd_Val c) (sel_StrSelCmds l)) @ ''}'' @
     go_join '' '' (map str_StrSelectorPipeline (sel_Pipelines l))"

definition str_ByOrWithout :: "ByOrWithout \<Rightarrow> string" where
  "str_ByOrWithout l = bow_Fn l @ '' ('' @ go_join '','' (bow_Labels l) @ '')''"

definition LabelNames :: "ByOrWithout \<Rightarrow> string list" where
  "LabelNames l = bow_Labels l"

definition str_Comparison :: "Comparison \<Rightarrow> string" where
  "str_Comparison l = cmp_Fn l @ '' '' @ cmp_Val l"

definition str_Offset :: "Offset \<Rightarrow> string" where
  "str_Offset l = ''offset '' @ off_Time l @ off_TimeUnit l"

text \<open>The clause between function and argument, and the one after the argument.\<close>

definition bow_prefix :: "ByOrWithout option \<Rightarrow> string" where
  "bow_prefix p = (case p of None \<Rightarrow> '''' | Some b \<Rightarrow> '' '' @ str_ByOrWithout b)"

definition bow_suffix :: "ByOrWithout option \<Rightarrow> ByOrWithout option \<Rightarrow> string" where
  "bow_suffix p s = (if p = None then opt_str str_ByOrWithout s else '''')"

definition str_LRAOrUnwrap :: "LRAOrUnwrap \<Rightarrow> string" where
  "str_LRAOrUnwrap l =
     lra_Fn l @ bow_prefix (lra_ByOrWithoutPrefix l) @
     '' ('' @ str_StrSelector (lra_StrSel l) @ ''['' @ lra_Time l @ lra_TimeUnit l @ '']'' @
     (case lra_Offset l of None \<Rightarrow> '''' | Some o' \<Rightarrow> '' '' @ str_Offset o') @ '')'' @
     bow_suffix (lra_ByOrWithoutPrefix l) (lra_ByOrWithoutSuffix l) @
     opt_str str_Comparison (lra_Comparison l)"

definition str_AggOperator :: "AggOperator \<Rightarrow> string" where
  "str_AggOperator l =
     agg_Fn l @ bow_prefix (agg_ByOrWithoutPrefix l) @
     '' ('' @ str_LRAOrUnwrap (agg_LRAOrUnwrap l) @ '')'' @
     bow_suffix (agg_ByOrWithoutPrefix l) (agg_ByOrWithoutSuffix l) @
     opt_str str_Comparison (agg_Comparison l)"

definition str_MacrosOp :: "MacrosOp \<Rightarrow> string" where
  "str_MacrosOp l = mac_Name l @ ''('' @ go_join '','' (mac_Params l) @ '')''"

definition str_QuantileOverTime :: "QuantileOverTime \<Rightarrow> string" where
  "str_QuantileOverTime l =
     qot_Fn l @ bow_prefix (qot_ByOrWithoutPrefix l) @
     '' ('' @ qot_Param l @ '', '' @ str_StrSelector (qot_StrSel l) @ ''['' @ qot_Time l @ qot_TimeUnit l @ ''])'' @
     bow_suffix (qot_ByOrWithoutPrefix l) (qot_ByOrWithoutSuffix l) @
     opt_str str_Comparison (qot_Comparison l)"

text \<open>\<open>TopK.String\<close> prints a range or an aggregation operand, never a quantile one.\<close>

definition str_TopK :: "TopK \<Rightarrow> string" where
  "str_TopK l =
     (let fn = opt_str str_LRAOrUnwrap (topk_LRAOrUnwrap l);
          fn = (case topk_AggOperator l of None \<Rightarrow> fn | Some a \<Rightarrow> str_AggOperator a) in
      topk_Fn l @ ''('' @ topk_Param l @ '', '' @ fn @ '')'' @ opt_str str_Comparison (topk_Comparison l))"

fun str_LogQLScript :: "LogQLScript \<Rightarrow> string"
and str_AtomExpr :: "AtomExpr \<Rightarrow> string"
and str_BinOpPart :: "BinOpPart \<Rightarrow> string list" where
  "str_LogQLScript (LogQLScript h ops) =
     (if ops = [] then str_AtomExpr h
      else go_join '' '' (str_AtomExpr h # concat (map str_BinOpPart ops)))"
| "str_AtomExpr (AtomExpr paren sel lra agg mac topk qot scalar) =
     (case paren of Some s \<Rightarrow> ''('' @ str_LogQLScript s @ '')'' | None \<Rightarrow>
     (case sel of Some s \<Rightarrow> str_StrSelector s | None \<Rightarrow>
     (case lra of Some l \<Rightarrow> str_LRAOrUnwrap l | None \<Rightarrow>
     (case agg of Some a \<Rightarrow> str_AggOperator a | None \<Rightarrow>
     (case mac of Some m \<Rightarrow> str_MacrosOp m | None \<Rightarrow>
     (case topk of Some t \<Rightarrow> str_TopK t | None \<Rightarrow>
     (case qot of Some q \<Rightarrow> str_QuantileOverTime q | None \<Rightarrow> scalar)))))))"
| "str_BinOpPart (BinOpPart op right) = [op, str_AtomExpr right]"

subsection \<open>\<open>FindFirst\<close> (parser.go)\<close>

definition opt_or :: "'a option \<Rightarrow> 'a option \<Rightarrow> 'a option" where
  "opt_or x y = (case x of Some _ \<Rightarrow> x | None \<Rightarrow> y)"

definition topk_LRA :: "TopK \<Rightarrow> LRAOrUnwrap option" where
  "topk_LRA t = opt_or (map_option agg_LRAOrUnwrap (topk_AggOperator t)) (topk_LRAOrUnwrap t)"

text \<open>
  The search goes depth first through the head and then the operands; \<open>at\<close> gives what an atom
  holds besides a parenthesised script.
\<close>

fun find_in :: "(AtomExpr \<Rightarrow> 'a option) \<Rightarrow> LogQLScript \<Rightarrow> 'a option"
and find_atom :: "(AtomExpr \<Rightarrow> 'a option) \<Rightarrow> AtomExpr \<Rightarrow> 'a option"
and find_bin :: "(AtomExpr \<Rightarrow> 'a option) \<Rightarrow> BinOpPart \<Rightarrow> 'a option" where
  "find_in at (LogQLScript h ops) =
     fold (\<lambda>b acc. opt_or acc b) (map (find_bin at) ops) (find_atom at h)"
| "find_atom at (AtomExpr paren sel lra agg mac topk qot scalar) =
     opt_or (case paren of None \<Rightarrow> None | Some s \<Rightarrow> find_in at s)
       (at (AtomExpr paren sel lra agg mac topk qot scalar))"
| "find_bin at (BinOpPart op right) = find_atom at right"

definition FindFirst_LRAOrUnwrap :: "LogQLScript \<Rightarrow> LRAOrUnwrap option" where
  "FindFirst_LRAOrUnwrap = find_in (\<lambda>a.
     opt_or (at_LRAOrUnwrap a) (opt_or (map_option agg_LRAOrUnwrap (at_AggOperator a))
       (Option.bind (at_TopK a) topk_LRA)))"

definition FindFirst_AggOperator :: "LogQLScript \<Rightarrow> AggOperator option" where
  "FindFirst_AggOperator = find_in (\<lambda>a.
     opt_or (at_AggOperator a) (Option.bind (at_TopK a) topk_AggOperator))"

definition FindFirst_TopK :: "LogQLScript \<Rightarrow> TopK option" where
  "FindFirst_TopK = find_in at_TopK"

definition FindFirst_QuantileOverTime :: "LogQLScript \<Rightarrow> QuantileOverTime option" where
  "FindFirst_QuantileOverTime = find_in (\<lambda>a.
     opt_or (Option.bind (at_TopK a) topk_QuantileOverTime) (at_QuantileOverTime a))"

end
