(* ===== verification/Ram_Stages.thy ===== *)
theory Ram_Stages
  imports Ram_Wrap Logql_Model
begin

section \<open>The stages of the in-process pipeline (internal/planner)\<close>

text \<open>
  One definition per planner: \<open>*_ops\<close> gives the callbacks it hands to \<open>WrapProcess\<close>, \<open>*_Process\<close>
  its \<open>Process\<close> method on the stream its input produces. What \<open>Process\<close> computes before it
  asks its input to run comes first here too, so that its errors have precedence.

  Reading through a nil pointer is \<open>nil_deref\<close>. Slices that the planner builds with equal
  lengths, as \<open>Labels\<close> and \<open>Values\<close>, are one list of pairs.
\<close>

abbreviation nil_deref :: "'a res" where
  "nil_deref \<equiv> Inl (Panic ''invalid memory address or nil pointer dereference'')"

record ram_ctx =
  ctx_From :: int
  ctx_To :: int
  ctx_Step :: int
  ctx_Limit :: int
  ctx_Now :: "nat \<Rightarrow> int"        \<comment> \<open>what \<open>time.Now\<close> gives for the bin with this number\<close>

text \<open>\<open>QuotedString.Unquote\<close>: \<open>strings.ReplaceAll\<close> of an escaped tick, then of single bytes.\<close>

fun replace_tick :: "string \<Rightarrow> string" where
  "replace_tick (a # b # s) =
     (if a = CHR 0x5C \<and> b = CHR 0x60 then CHR 0x60 # replace_tick s else a # replace_tick (b # s))"
| "replace_tick s = s"

definition Unquote :: "'v lib \<Rightarrow> QuotedString \<Rightarrow> string res" where
  "Unquote L q =
     (case q of
        [] \<Rightarrow> Inl (Panic ''index out of range'')
      | c # rest \<Rightarrow>
          if c = CHR 0x60 then
            (if rest = [] then Inl (Panic ''slice bounds out of range'')
             else
               (let str = replace_tick (butlast rest);
                    str = replace_byte (CHR 0x5C) [CHR 0x5C, CHR 0x5C] str;
                    str = replace_byte (CHR 0x22) [CHR 0x5C, CHR 0x22] str in
                json_string L (CHR 0x22 # str @ [CHR 0x22])))
          else json_string L q)"

text \<open>Callbacks shared by the stages that send the batch they got.\<close>

definition send_batch :: "'s \<Rightarrow> 'v batch \<Rightarrow> 'v stream \<times> go_error option \<times> 's" where
  "send_batch s b = ([b], None, s)"

definition after_nothing :: "'s \<Rightarrow> 'v stream \<times> go_error option" where
  "after_nothing s = ([], None)"

text \<open>Callbacks shared by the stages that collect entries in \<open>_entries\<close>.\<close>

definition send_collected :: "'v batch \<Rightarrow> 'v batch \<Rightarrow> 'v stream \<times> go_error option \<times> 'v batch" where
  "send_collected acc b = ([acc], None, [])"

definition collect_if :: "('v LogEntry \<Rightarrow> bool) \<Rightarrow> 'v batch \<Rightarrow> 'v LogEntry \<Rightarrow> go_error option \<times> 'v LogEntry \<times> 'v batch" where
  "collect_if keep acc e = (None, e, if keep e then acc @ [e] else acc)"

subsection \<open>Line filter (ine\_filter.go)\<close>

definition buildSimpleEval :: "'v lib \<Rightarrow> string \<Rightarrow> QuotedString \<Rightarrow> (string \<Rightarrow> bool) res" where
  "buildSimpleEval L fn s =
     rbind (Unquote L s) (\<lambda>val.
       if fn = ''|='' then Inr (\<lambda>msg. go_contains val msg)
       else if fn = ''!='' then Inr (\<lambda>msg. \<not> go_contains val msg)
       else if fn = ''|~'' then regexp_compile L val
       else if fn = ''!~'' then rbind (regexp_compile L val) (\<lambda>re. Inr (\<lambda>msg. \<not> re msg))
       else Inl (ErrMsg (''unsupported line filter op: '' @ fn)))"

fun buildExpEval :: "'v lib \<Rightarrow> string \<Rightarrow> LineFilterExp \<Rightarrow> (string \<Rightarrow> bool) res"
and buildHeadEval :: "'v lib \<Rightarrow> string \<Rightarrow> LineFilterHead \<Rightarrow> (string \<Rightarrow> bool) res" where
  "buildExpEval L fn (LineFilterExp h op tl') =
     rbind (buildHeadEval L fn h) (\<lambda>hd'.
       if op = '''' then Inr hd'
       else (case tl' of
               None \<Rightarrow> nil_deref
             | Some t \<Rightarrow>
                 rbind (buildExpEval L fn t) (\<lambda>tail'.
                   if op = ''or'' then Inr (\<lambda>msg. hd' msg \<or> tail' msg)
                   else Inr (\<lambda>msg. hd' msg \<and> tail' msg))))"
| "buildHeadEval L fn (LineFilterHead complex simple) =
     (case complex of
        Some e \<Rightarrow> buildExpEval L fn e
      | None \<Rightarrow> (case simple of None \<Rightarrow> nil_deref | Some s \<Rightarrow> buildSimpleEval L fn s))"

definition buildLineFilterEval :: "'v lib \<Rightarrow> LineFilter \<Rightarrow> (string \<Rightarrow> bool) res" where
  "buildLineFilterEval L lf = buildExpEval L (lf_Fn lf) (lf_Exp lf)"

definition line_filter_ops :: "(string \<Rightarrow> bool) \<Rightarrow> ('v batch, 'v) GenericPlannerOps" where
  "line_filter_ops eval =
     \<lparr>OnEntry = collect_if (\<lambda>e. Err e \<noteq> None \<or> eval (Message e)),
      OnAfterEntriesSlice = send_collected, OnAfterEntries = after_nothing\<rparr>"

definition LineFilter_Process :: "'v lib \<Rightarrow> LineFilter \<Rightarrow> 'v stream res \<Rightarrow> 'v stream res" where
  "LineFilter_Process L f inp =
     rbind (buildLineFilterEval L f) (\<lambda>eval. WrapProcess L (line_filter_ops eval) [] inp)"

subsection \<open>Label filter (label\_filter.go)\<close>

type_synonym label_pred = "(string \<times> string) list option \<Rightarrow> bool"

definition stringSimpleFilter :: "'v lib \<Rightarrow> SimpleLabelFilter \<Rightarrow> label_pred res" where
  "stringSimpleFilter L f =
     (case slf_StrVal f of
        None \<Rightarrow> nil_deref
      | Some q \<Rightarrow>
          rbind (Unquote L q) (\<lambda>strVal.
            if slf_Fn f = ''='' then Inr (\<lambda>m. strVal = label_get m (slf_Label f))
            else if slf_Fn f = ''!='' then Inr (\<lambda>m. strVal \<noteq> label_get m (slf_Label f))
            else if slf_Fn f = ''=~'' then rbind (regexp_compile L strVal) (\<lambda>re. Inr (\<lambda>m. re (label_get m (slf_Label f))))
            else if slf_Fn f = ''!~'' then rbind (regexp_compile L strVal) (\<lambda>re. Inr (\<lambda>m. \<not> re (label_get m (slf_Label f))))
            else Inl (ErrMsg ''invalid simple label filter'')))"

text \<open>
  The comparison of \<open>numberSimpleFilter\<close>. For an operator outside the grammar the source keeps
  a nil function, which panics when it is called; here the filter is refused when it is built.
\<close>

definition number_cmp :: "'v lib \<Rightarrow> string \<Rightarrow> 'v \<Rightarrow> ('v \<Rightarrow> bool) res" where
  "number_cmp L fn iVal =
     (if fn = ''>'' then Inr (\<lambda>val. f_lt L iVal val)
      else if fn = ''>='' then Inr (\<lambda>val. f_le L iVal val)
      else if fn = ''<'' then Inr (\<lambda>val. f_lt L val iVal)
      else if fn = ''<='' then Inr (\<lambda>val. f_le L val iVal)
      else if fn = ''=='' then Inr (\<lambda>val. f_eq L iVal val)
      else if fn = ''!='' then Inr (\<lambda>val. \<not> f_eq L iVal val)
      else nil_deref)"

definition numberSimpleFilter :: "'v lib \<Rightarrow> SimpleLabelFilter \<Rightarrow> label_pred res" where
  "numberSimpleFilter L f =
     rbind (parse_float L (slf_NumVal f)) (\<lambda>iVal.
       rbind (number_cmp L (slf_Fn f) iVal) (\<lambda>cmp.
         Inr (\<lambda>m. (let strVal = label_get m (slf_Label f) in
                    if strVal = '''' then False
                    else (case parse_float L strVal of Inl _ \<Rightarrow> False | Inr v \<Rightarrow> cmp v)))))"

fun makeFilter :: "'v lib \<Rightarrow> LabelFilter \<Rightarrow> label_pred res"
and makeHead :: "'v lib \<Rightarrow> Head \<Rightarrow> label_pred res" where
  "makeFilter L (LabelFilter h op tl') =
     rbind (makeHead L h) (\<lambda>p.
       (case tl' of
          None \<Rightarrow> Inr p
        | Some t \<Rightarrow>
            if to_lower op = ''and'' then rbind (makeFilter L t) (\<lambda>q. Inr (\<lambda>m. p m \<and> q m))
            else if to_lower op = ''or'' then rbind (makeFilter L t) (\<lambda>q. Inr (\<lambda>m. p m \<or> q m))
            else Inr p))"
| "makeHead L (Head complex simple) =
     (case simple of
        Some s \<Rightarrow>
          if slf_Fn s \<in> {''='', ''=~'', ''!~''} \<or> slf_Fn s = ''!='' \<and> slf_StrVal s \<noteq> None
          then stringSimpleFilter L s else numberSimpleFilter L s
      | None \<Rightarrow> (case complex of None \<Rightarrow> nil_deref | Some f \<Rightarrow> makeFilter L f))"

definition label_filter_ops :: "label_pred \<Rightarrow> ('v batch, 'v) GenericPlannerOps" where
  "label_filter_ops fn =
     \<lparr>OnEntry = collect_if (\<lambda>e. fn (Labels e)),
      OnAfterEntriesSlice = send_collected, OnAfterEntries = after_nothing\<rparr>"

definition LabelFilter_Process :: "'v lib \<Rightarrow> LabelFilter \<Rightarrow> 'v stream res \<Rightarrow> 'v stream res" where
  "LabelFilter_Process L f inp =
     rbind (makeFilter L f) (\<lambda>fn. WrapProcess L (label_filter_ops fn) [] inp)"

subsection \<open>Comparison and zero filter (comparison.go, planner\_zero\_eater.go)\<close>

definition comparison_holds :: "'v lib \<Rightarrow> string \<Rightarrow> 'v \<Rightarrow> 'v LogEntry \<Rightarrow> bool" where
  "comparison_holds L op val e =
     (if op = ''>'' then f_lt L val (Value e)
      else if op = ''>='' then f_le L val (Value e)
      else if op = ''<'' then f_lt L (Value e) val
      else if op = ''<='' then f_le L (Value e) val
      else if op = ''=='' then f_eq L (Value e) val
      else if op = ''!='' then \<not> f_eq L (Value e) val
      else False)"

definition comparison_ops :: "'v lib \<Rightarrow> string \<Rightarrow> 'v \<Rightarrow> ('v batch, 'v) GenericPlannerOps" where
  "comparison_ops L op val =
     \<lparr>OnEntry = collect_if (comparison_holds L op val),
      OnAfterEntriesSlice = send_collected, OnAfterEntries = after_nothing\<rparr>"

definition Comparison_Process :: "'v lib \<Rightarrow> string \<Rightarrow> 'v \<Rightarrow> 'v stream res \<Rightarrow> 'v stream res" where
  "Comparison_Process L op val inp = WrapProcess L (comparison_ops L op val) [] inp"

definition zero_eater_ops :: "'v lib \<Rightarrow> ('v batch, 'v) GenericPlannerOps" where
  "zero_eater_ops L =
     \<lparr>OnEntry = collect_if (\<lambda>e. \<not> f_eq L (Value e) (f_zero L)),
      OnAfterEntriesSlice = (\<lambda>acc b. if acc = [] then ([], None, acc) else ([acc], None, [])),
      OnAfterEntries = after_nothing\<rparr>"

definition ZeroEater_Process :: "'v lib \<Rightarrow> 'v stream res \<Rightarrow> 'v stream res" where
  "ZeroEater_Process L inp = WrapProcess L (zero_eater_ops L) [] inp"

subsection \<open>Label sets (by\_without.go, drop.go, keep.go, label\_format.go)\<close>

definition by_cutLabels :: "'v lib \<Rightarrow> bool \<Rightarrow> string list \<Rightarrow> 'v LogEntry \<Rightarrow> 'v LogEntry" where
  "by_cutLabels L by labels e =
     (case Labels e of
        None \<Rightarrow> e
      | Some m \<Rightarrow>
          (let m' = filter (\<lambda>(k, v). \<not> (by \<and> k \<notin> set labels \<or> \<not> by \<and> k \<in> set labels)) m in
           e\<lparr>Labels := Some m', Fingerprint := fingerprint L (Some m')\<rparr>))"

definition by_without_ops :: "'v lib \<Rightarrow> bool \<Rightarrow> string list \<Rightarrow> (unit, 'v) GenericPlannerOps" where
  "by_without_ops L by labels =
     \<lparr>OnEntry = (\<lambda>s e. (None, by_cutLabels L by labels e, s)),
      OnAfterEntriesSlice = send_batch, OnAfterEntries = after_nothing\<rparr>"

definition ByWithout_Process :: "'v lib \<Rightarrow> bool \<Rightarrow> string list \<Rightarrow> 'v stream res \<Rightarrow> 'v stream res" where
  "ByWithout_Process L by labels inp = WrapProcess L (by_without_ops L by labels) () inp"

definition relabel :: "'v lib \<Rightarrow> (string \<times> string) list \<Rightarrow> (string \<times> string) list \<Rightarrow> 'v LogEntry \<Rightarrow> 'v LogEntry" where
  "relabel L m m' e =
     (if length m' < length m then e\<lparr>Labels := Some m', Fingerprint := fingerprint L (Some m')\<rparr>
      else e\<lparr>Labels := Some m'\<rparr>)"

definition drop_matches :: "(string \<times> string) list \<Rightarrow> string \<times> string \<Rightarrow> bool" where
  "drop_matches params kv = list_ex (\<lambda>(l, w). fst kv = l \<and> (w = '''' \<or> snd kv = w)) params"

definition drop_cutLabels :: "'v lib \<Rightarrow> (string \<times> string) list \<Rightarrow> 'v LogEntry \<Rightarrow> 'v LogEntry" where
  "drop_cutLabels L params e =
     (case Labels e of
        None \<Rightarrow> e
      | Some m \<Rightarrow> relabel L m (filter (\<lambda>kv. \<not> drop_matches params kv) m) e)"

definition drop_ops :: "'v lib \<Rightarrow> (string \<times> string) list \<Rightarrow> (unit, 'v) GenericPlannerOps" where
  "drop_ops L params =
     \<lparr>OnEntry = (\<lambda>s e. (None, drop_cutLabels L params e, s)),
      OnAfterEntriesSlice = send_batch, OnAfterEntries = after_nothing\<rparr>"

definition Drop_Process :: "'v lib \<Rightarrow> (string \<times> string) list \<Rightarrow> 'v stream res \<Rightarrow> 'v stream res" where
  "Drop_Process L params inp = WrapProcess L (drop_ops L params) () inp"

definition ErrorLabel :: string where "ErrorLabel = ''__error__''"
definition ErrorDetailsLabel :: string where "ErrorDetailsLabel = ''__error_details__''"

definition isSpecialKeepLabel :: "string \<Rightarrow> bool" where
  "isSpecialKeepLabel name \<longleftrightarrow> name = ErrorLabel \<or> name = ErrorDetailsLabel"

definition shouldKeepLabel :: "(string \<times> string) list \<Rightarrow> string \<Rightarrow> string \<Rightarrow> bool" where
  "shouldKeepLabel params k v = list_ex (\<lambda>(l, w). k = l \<and> (w = '''' \<or> w = v)) params"

definition keep_filterLabels :: "'v lib \<Rightarrow> (string \<times> string) list \<Rightarrow> 'v LogEntry \<Rightarrow> 'v LogEntry" where
  "keep_filterLabels L params e =
     (case Labels e of
        None \<Rightarrow> e
      | Some m \<Rightarrow>
          relabel L m (filter (\<lambda>(k, v). isSpecialKeepLabel k \<or> shouldKeepLabel params k v) m) e)"

definition keep_ops :: "'v lib \<Rightarrow> (string \<times> string) list \<Rightarrow> (unit, 'v) GenericPlannerOps" where
  "keep_ops L params =
     \<lparr>OnEntry = (\<lambda>s e. (None, keep_filterLabels L params e, s)),
      OnAfterEntriesSlice = send_batch, OnAfterEntries = after_nothing\<rparr>"

definition Keep_Process :: "'v lib \<Rightarrow> (string \<times> string) list \<Rightarrow> 'v stream res \<Rightarrow> 'v stream res" where
  "Keep_Process L params inp = WrapProcess L (keep_ops L params) () inp"

text \<open>The label functions of \<open>label_format\<close>: a constant, or a copy of a non-empty label.\<close>

datatype label_fn = SetConst string string | CopyLabel string string

definition label_fn_of :: "'v lib \<Rightarrow> LabelFormatOp \<Rightarrow> label_fn res" where
  "label_fn_of L op =
     (case lfo_ConstVal op of
        Some q \<Rightarrow> rbind (Unquote L q) (\<lambda>str. Inr (SetConst (lfo_Label op) str))
      | None \<Rightarrow> (case lfo_LabelVal op of None \<Rightarrow> nil_deref | Some c \<Rightarrow> Inr (CopyLabel (lfo_Label op) c)))"

fun apply_label_fn :: "label_fn \<Rightarrow> (string \<times> string) list option \<Rightarrow> (string \<times> string) list option res" where
  "apply_label_fn (SetConst label str) m = label_put label str m"
| "apply_label_fn (CopyLabel label change) m =
     (let val = label_get m change in if val = '''' then Inr m else label_put label val m)"

fun apply_label_fns :: "label_fn list \<Rightarrow> (string \<times> string) list option \<Rightarrow> (string \<times> string) list option res" where
  "apply_label_fns [] m = Inr m"
| "apply_label_fns (f # fs) m = rbind (apply_label_fn f m) (apply_label_fns fs)"

definition label_format_ops :: "label_fn list \<Rightarrow> (unit, 'v) GenericPlannerOps" where
  "label_format_ops fns =
     \<lparr>OnEntry = (\<lambda>s e. case apply_label_fns fns (Labels e) of
                        Inl err \<Rightarrow> (Some err, e, s) | Inr m \<Rightarrow> (None, e\<lparr>Labels := m\<rparr>, s)),
      OnAfterEntriesSlice = send_batch, OnAfterEntries = after_nothing\<rparr>"

definition LabelFormat_Process :: "'v lib \<Rightarrow> LabelFormatOp list \<Rightarrow> 'v stream res \<Rightarrow> 'v stream res" where
  "LabelFormat_Process L ops inp =
     rbind (mapM_res (label_fn_of L) ops) (\<lambda>fns. WrapProcess L (label_format_ops fns) () inp)"

subsection \<open>Line format and unwrap (line\_format.go, unwrap.go)\<close>

definition EntryTemplateLabels :: "'v LogEntry \<Rightarrow> (string \<times> string) list" where
  "EntryTemplateLabels e =
     map_put ''__line__'' (Message e) (map_put ''_entry'' (Message e) (label_list (Labels e)))"

definition line_format_ops ::
    "(string \<Rightarrow> int \<Rightarrow> (string \<times> string) list \<Rightarrow> string res) \<Rightarrow> ('v batch, 'v) GenericPlannerOps" where
  "line_format_ops tpl =
     \<lparr>OnEntry = (\<lambda>acc e. case tpl (Message e) (TimestampNS e) (EntryTemplateLabels e) of
                          Inl err \<Rightarrow> (Some err, e, acc)
                        | Inr msg \<Rightarrow> (None, e\<lparr>Message := msg\<rparr>, acc @ [e\<lparr>Message := msg\<rparr>])),
      OnAfterEntriesSlice = send_collected, OnAfterEntries = after_nothing\<rparr>"

definition LineFormatter_Process :: "'v lib \<Rightarrow> string \<Rightarrow> 'v stream res \<Rightarrow> 'v stream res" where
  "LineFormatter_Process L template inp =
     rbind (template_parse L template) (\<lambda>tpl. WrapProcess L (line_format_ops tpl) [] inp)"

definition unwrap_entry :: "'v lib \<Rightarrow> string \<Rightarrow> 'v LogEntry \<Rightarrow> go_error option \<times> 'v LogEntry" where
  "unwrap_entry L label e =
     (if Err e \<noteq> None then (None, e)
      else
        (let val = (if label = ''_entry'' then Message e else label_get (Labels e) label) in
         if val = '''' then (Some SkipEntry, e)
         else (case parse_float L val of
                 Inl _ \<Rightarrow> (Some SkipEntry, e)
               | Inr v \<Rightarrow> (None, e\<lparr>Value := v\<rparr>))))"

definition unwrap_ops :: "'v lib \<Rightarrow> string \<Rightarrow> (unit, 'v) GenericPlannerOps" where
  "unwrap_ops L label =
     \<lparr>OnEntry = (\<lambda>s e. (fst (unwrap_entry L label e), snd (unwrap_entry L label e), s)),
      OnAfterEntriesSlice = send_batch, OnAfterEntries = after_nothing\<rparr>"

definition Unwrap_Process :: "'v lib \<Rightarrow> string \<Rightarrow> 'v stream res \<Rightarrow> 'v stream res" where
  "Unwrap_Process L label inp = WrapProcess L (unwrap_ops L label) () inp"

subsection \<open>Limit and regrouping of the response (limit.go, optimizer.go)\<close>

definition limit_ops :: "int \<Rightarrow> (int, 'v) GenericPlannerOps" where
  "limit_ops limit =
     \<lparr>OnEntry = (\<lambda>sent e. (None, e, sent)),
      OnAfterEntriesSlice = (\<lambda>sent b.
        if 0 < limit \<and> limit \<le> sent then ([], None, sent)
        else if limit = 0 \<or> sent + int (length b) < limit then ([b], None, sent + int (length b))
        else if limit - sent < 0 then ([], Some (Panic ''slice bounds out of range''), sent)
        else ([take (nat (limit - sent)) b], None, limit)),
      OnAfterEntries = after_nothing\<rparr>"

definition Limit_Process :: "'v lib \<Rightarrow> ram_ctx \<Rightarrow> 'v stream res \<Rightarrow> 'v stream res" where
  "Limit_Process L ctx inp = WrapProcess L (limit_ops (ctx_Limit ctx)) 0 inp"

type_synonym 'v fp_map = "(64 word \<times> 'v LogEntry list) list"

definition fp_add :: "'v LogEntry \<Rightarrow> 'v fp_map \<Rightarrow> 'v fp_map" where
  "fp_add e m =
     map_put (Fingerprint e) ((case map_of m (Fingerprint e) of None \<Rightarrow> [] | Some es \<Rightarrow> es) @ [e]) m"

definition optimizer_ops :: "('v fp_map \<times> nat, 'v) GenericPlannerOps" where
  "optimizer_ops =
     \<lparr>OnEntry = (\<lambda>(m, size) e. (None, e, (fp_add e m, size + 1))),
      OnAfterEntriesSlice = (\<lambda>(m, size) b.
        if size < 3000 then ([], None, (m, size)) else (map snd m, None, ([], 0))),
      OnAfterEntries = (\<lambda>(m, size). if size = 0 then ([], None) else (map snd m, None))\<rparr>"

definition ResponseOptimizer_Process :: "'v lib \<Rightarrow> 'v stream res \<Rightarrow> 'v stream res" where
  "ResponseOptimizer_Process L inp = WrapProcess L optimizer_ops ([], 0) inp"

end
