(* ===== verification/Ram_Aggregate.thy ===== *)
theory Ram_Aggregate
  imports Ram_Stages
begin

section \<open>The range and vector aggregations in process (internal/planner)\<close>

text \<open>
  \<open>AggregatorPlanner.process\<close> keeps one array per fingerprint with two cells per time bin: the
  value and a flag or counter. \<open>AggOpPlanner\<close>, \<open>LRAPlanner\<close>, \<open>UnwrapAggPlanner\<close> and
  \<open>AbsentOverTimePlanner\<close> supply the update of one bin and the final pass; those are the record
  \<open>agg_ops\<close>. The order in which a Go map is iterated is the order of the association list.
\<close>

record 'v agg_ops =
  ag_addValue :: "'v LogEntry \<Rightarrow> 'v list \<Rightarrow> 'v list res"
  ag_finalize :: "'v list \<Rightarrow> 'v list"
  ag_initStream :: "'v list \<Rightarrow> 'v list res"

type_synonym 'v agg_state = "(64 word \<times> (string \<times> string) list option \<times> 'v list) list"

definition agg_OnEntry ::
    "'v lib \<Rightarrow> 'v agg_ops \<Rightarrow> int \<Rightarrow> 'v agg_state \<Rightarrow> 'v LogEntry \<Rightarrow> go_error option \<times> 'v LogEntry \<times> 'v agg_state" where
  "agg_OnEntry L ops streamLen res e =
     (if Err e \<noteq> None then (Err e, e, res)
      else
        (let opened =
           (case map_of res (Fingerprint e) of
              Some st \<Rightarrow> Inr st
            | None \<Rightarrow>
                if 2000 \<le> length res
                then Inl (ErrMsg ''Too many time-series. Please try changing `by / without` clause.'')
                else if streamLen < 0 then Inl (Panic ''makeslice: len out of range'')
                else rbind (ag_initStream ops (replicate (nat streamLen * 2) (f_zero L))) (\<lambda>vs. Inr (Labels e, vs)))
         in
         case rbind opened (\<lambda>(lbls, vs). rbind (ag_addValue ops e vs) (\<lambda>vs'. Inr (lbls, vs'))) of
           Inl err \<Rightarrow> (Some err, e, res)
         | Inr st \<Rightarrow> (None, e, map_put (Fingerprint e) st res)))"

text \<open>The entries of one stream: the bins whose flag is positive.\<close>

fun bin_entries ::
    "'v lib \<Rightarrow> int \<Rightarrow> int \<Rightarrow> 64 word \<Rightarrow> (string \<times> string) list option \<Rightarrow> nat \<Rightarrow> 'v list \<Rightarrow> 'v batch" where
  "bin_entries L t0 d k lbls i (v # c # vs) =
     (if f_lt L (f_zero L) c
      then [\<lparr>TimestampNS = t0 + int i * d, Fingerprint = k, Labels = lbls, Message = '''', Value = v, Err = None\<rparr>]
      else []) @ bin_entries L t0 d k lbls (i + 1) vs"
| "bin_entries L t0 d k lbls i vs = []"

definition agg_OnAfterEntries :: "'v lib \<Rightarrow> 'v agg_ops \<Rightarrow> int \<Rightarrow> int \<Rightarrow> 'v agg_state \<Rightarrow> 'v stream" where
  "agg_OnAfterEntries L ops t0 d res =
     filter (\<lambda>b. b \<noteq> []) (map (\<lambda>(k, lbls, vs). bin_entries L t0 d k lbls 0 (ag_finalize ops vs)) res)"

definition aggregator_ops :: "'v lib \<Rightarrow> 'v agg_ops \<Rightarrow> int \<Rightarrow> int \<Rightarrow> int \<Rightarrow> ('v agg_state, 'v) GenericPlannerOps" where
  "aggregator_ops L ops streamLen t0 d =
     \<lparr>OnEntry = agg_OnEntry L ops streamLen,
      OnAfterEntriesSlice = (\<lambda>res b. ([], None, res)),
      OnAfterEntries = (\<lambda>res. (agg_OnAfterEntries L ops t0 d res, None))\<rparr>"

definition Aggregator_process :: "'v lib \<Rightarrow> ram_ctx \<Rightarrow> int \<Rightarrow> 'v agg_ops \<Rightarrow> 'v stream res \<Rightarrow> 'v stream res" where
  "Aggregator_process L ctx d ops inp =
     (if d = 0 then Inl (Panic ''integer divide by zero'')
      else
        (let streamLen = go_div (ctx_To ctx - ctx_From ctx) d in
         if 4000000000 < streamLen
         then Inl (ErrMsg ''stream length is too large. Please try increasing duration.'')
         else WrapProcess L (aggregator_ops L ops streamLen (ctx_From ctx) d) [] inp))"

text \<open>Update of the two cells at index \<open>i\<close>; an index out of range is a run-time panic.\<close>

definition bin_update :: "int \<Rightarrow> ('v \<Rightarrow> 'v \<Rightarrow> 'v \<times> 'v) \<Rightarrow> 'v list \<Rightarrow> 'v list res" where
  "bin_update i f vs =
     (if 0 \<le> i \<and> nat i + 1 < length vs
      then (case f (vs ! nat i) (vs ! (nat i + 1)) of (v, c) \<Rightarrow> Inr (vs[nat i := v, nat i + 1 := c]))
      else Inl (Panic ''index out of range''))"

text \<open>A pass over the bins of a stream; \<open>i\<close> is the index of the bin.\<close>

fun map_bins :: "(nat \<Rightarrow> 'v \<Rightarrow> 'v \<Rightarrow> 'v) \<Rightarrow> nat \<Rightarrow> 'v list \<Rightarrow> 'v list" where
  "map_bins f i (v # c # vs) = f i v c # c # map_bins f (i + 1) vs"
| "map_bins f i vs = vs"

subsection \<open>\<open>AggOpPlanner\<close> (agg\_op.go)\<close>

definition aggop_addValue :: "'v lib \<Rightarrow> ram_ctx \<Rightarrow> int \<Rightarrow> string \<Rightarrow> 'v LogEntry \<Rightarrow> 'v list \<Rightarrow> 'v list res" where
  "aggop_addValue L ctx d fn e vs =
     (let idx = go_div (TimestampNS e - ctx_From ctx) d in
      if idx < 0 \<or> int (length vs) < idx * 2 then Inr vs
      else if fn = ''sum'' then bin_update (idx * 2) (\<lambda>v c. (f_add L v (Value e), f_one L)) vs
      else if fn = ''min'' then
        bin_update (idx * 2) (\<lambda>v c. if f_lt L (Value e) v \<or> f_eq L c (f_zero L) then (Value e, f_one L) else (v, c)) vs
      else if fn = ''max'' then
        bin_update (idx * 2) (\<lambda>v c. if f_lt L v (Value e) \<or> f_eq L c (f_zero L) then (Value e, f_one L) else (v, c)) vs
      else if fn = ''avg'' then bin_update (idx * 2) (\<lambda>v c. (f_add L v (Value e), f_add L c (f_one L))) vs
      else if fn = ''count'' then bin_update (idx * 2) (\<lambda>v c. (f_add L v (f_one L), f_one L)) vs
      else Inr vs)"

definition aggop_finalize :: "'v lib \<Rightarrow> string \<Rightarrow> 'v list \<Rightarrow> 'v list" where
  "aggop_finalize L fn vs =
     (if fn = ''avg'' then map_bins (\<lambda>i v c. if f_lt L (f_zero L) c then f_div L v c else v) 0 vs else vs)"

definition aggop_ops :: "'v lib \<Rightarrow> ram_ctx \<Rightarrow> int \<Rightarrow> string \<Rightarrow> 'v agg_ops" where
  "aggop_ops L ctx d fn =
     \<lparr>ag_addValue = aggop_addValue L ctx d fn, ag_finalize = aggop_finalize L fn, ag_initStream = Inr\<rparr>"

definition AggOp_Process :: "'v lib \<Rightarrow> ram_ctx \<Rightarrow> int \<Rightarrow> string \<Rightarrow> 'v stream res \<Rightarrow> 'v stream res" where
  "AggOp_Process L ctx d fn inp =
     (if fn = ''stddev'' then Inl (ErrMsg ''stddev is not supported yet.'')
      else if fn = ''stdvar'' then Inl (ErrMsg ''stdvar is not supported yet.'')
      else Aggregator_process L ctx d (aggop_ops L ctx d fn) inp)"

subsection \<open>Coverage of a bin (coverage.go)\<close>

text \<open>
  The clock is read for every bin anew: \<open>ctx_Now ctx i\<close> is the reading for bin \<open>i\<close>. The readings
  for the same bin of different series count as one.
\<close>

definition coveredNs :: "ram_ctx \<Rightarrow> nat \<Rightarrow> int \<Rightarrow> int" where
  "coveredNs ctx bucketIndex d =
     (let bucketStart = ctx_From ctx + int bucketIndex * d;
          toNs = (if ctx_Now ctx bucketIndex < ctx_To ctx then ctx_Now ctx bucketIndex else ctx_To ctx);
          covered = min (bucketStart + d) toNs - max bucketStart (ctx_From ctx) in
      if covered \<le> 0 then 1 else covered)"

definition per_second :: "'v lib \<Rightarrow> ram_ctx \<Rightarrow> int \<Rightarrow> nat \<Rightarrow> 'v \<Rightarrow> 'v \<Rightarrow> 'v" where
  "per_second L ctx d i v c = f_div L v (f_div L (f_of_int L (coveredNs ctx i d)) (f_of_int L 1000000000))"

definition extrapolate :: "'v lib \<Rightarrow> ram_ctx \<Rightarrow> int \<Rightarrow> nat \<Rightarrow> 'v \<Rightarrow> 'v \<Rightarrow> 'v" where
  "extrapolate L ctx d i v c = f_mul L v (f_div L (f_of_int L d) (f_of_int L (coveredNs ctx i d)))"

subsection \<open>\<open>AbsentOverTimePlanner\<close> and the doubling fill (absent\_over\_time.go, \<open>fastFill\<close>)\<close>

text \<open>\<open>copy(v[l:], v[:l])\<close> for growing \<open>l\<close>.\<close>

function fill_loop :: "nat \<Rightarrow> 'v list \<Rightarrow> 'v list" where
  "fill_loop l v =
     (if 0 < l \<and> l < length v
      then fill_loop (l * 2) (take l v @ take (length v - l) (take l v) @ drop (l + min l (length v - l)) v)
      else v)"
  by pat_completeness auto
termination
  by (relation "measure (\<lambda>(l, v). length v - l)") auto

declare fill_loop.simps [simp del]

definition fastFill :: "'v list \<Rightarrow> 'v \<Rightarrow> 'v list res" where
  "fastFill v val =
     (if v = [] then Inl (Panic ''index out of range'') else Inr (fill_loop 1 (v[0 := val])))"

definition absent_addValue :: "'v lib \<Rightarrow> ram_ctx \<Rightarrow> int \<Rightarrow> 'v LogEntry \<Rightarrow> 'v list \<Rightarrow> 'v list res" where
  "absent_addValue L ctx d e vs =
     (let idx = go_div (TimestampNS e - ctx_From ctx) d * 2 in
      if 0 < idx \<and> idx < int (length vs) then bin_update idx (\<lambda>v c. (f_zero L, f_zero L)) vs else Inr vs)"

definition absent_ops :: "'v lib \<Rightarrow> ram_ctx \<Rightarrow> int \<Rightarrow> 'v agg_ops" where
  "absent_ops L ctx d =
     \<lparr>ag_addValue = absent_addValue L ctx d, ag_finalize = id, ag_initStream = (\<lambda>vs. fastFill vs (f_one L))\<rparr>"

subsection \<open>\<open>LRAPlanner\<close> (lra.go)\<close>

definition lra_addValue :: "'v lib \<Rightarrow> ram_ctx \<Rightarrow> int \<Rightarrow> string \<Rightarrow> 'v LogEntry \<Rightarrow> 'v list \<Rightarrow> 'v list res" where
  "lra_addValue L ctx d fn e vs =
     (let idx = go_div (TimestampNS e - ctx_From ctx) d * 2 in
      if fn = ''rate'' \<or> fn = ''count_over_time'' then bin_update idx (\<lambda>v c. (f_add L v (f_one L), f_one L)) vs
      else if fn = ''bytes_rate'' \<or> fn = ''bytes_over_time'' then
        bin_update idx (\<lambda>v c. (f_add L v (f_of_int L (int (length (Message e)))), f_one L)) vs
      else Inr vs)"

definition lra_finalize :: "'v lib \<Rightarrow> ram_ctx \<Rightarrow> int \<Rightarrow> string \<Rightarrow> 'v list \<Rightarrow> 'v list" where
  "lra_finalize L ctx d fn vs =
     (if fn = ''rate'' \<or> fn = ''bytes_rate'' then map_bins (per_second L ctx d) 0 vs
      else if fn = ''count_over_time'' \<or> fn = ''bytes_over_time'' then map_bins (extrapolate L ctx d) 0 vs
      else vs)"

definition lra_ops :: "'v lib \<Rightarrow> ram_ctx \<Rightarrow> int \<Rightarrow> string \<Rightarrow> 'v agg_ops" where
  "lra_ops L ctx d fn =
     \<lparr>ag_addValue = lra_addValue L ctx d fn, ag_finalize = lra_finalize L ctx d fn, ag_initStream = Inr\<rparr>"

definition LRA_Process :: "'v lib \<Rightarrow> ram_ctx \<Rightarrow> int \<Rightarrow> string \<Rightarrow> 'v stream res \<Rightarrow> 'v stream res" where
  "LRA_Process L ctx d fn inp =
     (if fn = ''absent_over_time'' then Aggregator_process L ctx d (absent_ops L ctx d) inp
      else Aggregator_process L ctx d (lra_ops L ctx d fn) inp)"

subsection \<open>\<open>UnwrapAggPlanner\<close> (unwrap\_agg.go)\<close>

definition unwrap_addValue :: "'v lib \<Rightarrow> ram_ctx \<Rightarrow> int \<Rightarrow> string \<Rightarrow> 'v LogEntry \<Rightarrow> 'v list \<Rightarrow> 'v list res" where
  "unwrap_addValue L ctx d fn e vs =
     (let idx = go_div (TimestampNS e - ctx_From ctx) d * 2 in
      if fn = ''rate'' \<or> fn = ''sum_over_time'' then bin_update idx (\<lambda>v c. (f_add L v (Value e), f_one L)) vs
      else if fn = ''avg_over_time'' then bin_update idx (\<lambda>v c. (f_add L v (Value e), f_add L c (f_one L))) vs
      else if fn = ''max_over_time'' \<or> fn = ''min_over_time'' then
        bin_update idx (\<lambda>v c. if f_lt L v (Value e) \<or> f_eq L c (f_zero L) then (Value e, f_one L) else (v, c)) vs
      else if fn = ''first_over_time'' then
        bin_update idx (\<lambda>v c. if f_eq L v (f_zero L) then (Value e, f_one L) else (v, c)) vs
      else if fn = ''last_over_time'' then bin_update idx (\<lambda>v c. (Value e, f_one L)) vs
      else Inr vs)"

definition unwrap_finalize :: "'v lib \<Rightarrow> ram_ctx \<Rightarrow> int \<Rightarrow> string \<Rightarrow> 'v list \<Rightarrow> 'v list" where
  "unwrap_finalize L ctx d fn vs =
     (if fn = ''rate'' then map_bins (per_second L ctx d) 0 vs
      else if fn = ''sum_over_time'' then map_bins (extrapolate L ctx d) 0 vs
      else if fn = ''avg_over_time'' then
        map_bins (\<lambda>i v c. if \<not> f_eq L c (f_zero L) then f_div L v c else v) 0 vs
      else vs)"

definition unwrap_agg_ops :: "'v lib \<Rightarrow> ram_ctx \<Rightarrow> int \<Rightarrow> string \<Rightarrow> 'v agg_ops" where
  "unwrap_agg_ops L ctx d fn =
     \<lparr>ag_addValue = unwrap_addValue L ctx d fn, ag_finalize = unwrap_finalize L ctx d fn, ag_initStream = Inr\<rparr>"

definition UnwrapAgg_Process :: "'v lib \<Rightarrow> ram_ctx \<Rightarrow> int \<Rightarrow> string \<Rightarrow> 'v stream res \<Rightarrow> 'v stream res" where
  "UnwrapAgg_Process L ctx d fn inp = Aggregator_process L ctx d (unwrap_agg_ops L ctx d fn) inp"

end
