(* ===== verification/Matrix_Post.thy ===== *)
theory Matrix_Post
  imports Ram_Aggregate "HOL-Library.Product_Lexorder"
begin

section \<open>Post-processing of matrices and binary expressions\<close>

text \<open>
  planner\_from\_fix.go, which re-samples a matrix on the steps of the request, and
  planner\_binary\_ram.go, which joins two matrices on fingerprint and time.

  \<open>FixPeriodPlanner\<close> replaces \<open>From\<close> and \<open>To\<close> of the shared context before it runs its input;
  the context it leaves is therefore part of the model. Its goroutine has no recovery: a panic
  there is the outcome \<open>Panic\<close> of the whole computation.
\<close>

text \<open>
  \<open>Time.Truncate\<close> rounds down to a multiple of \<open>d\<close> since the zero time, 1 January of year 1,
  which lies \<open>62135596800\<close> seconds before the epoch.
\<close>

definition truncate_time :: "int \<Rightarrow> int \<Rightarrow> int" where
  "truncate_time t d = (if d \<le> 0 then t else t - (t + 62135596800000000000) mod d)"

definition fix_ctx :: "int \<Rightarrow> ram_ctx \<Rightarrow> ram_ctx" where
  "fix_ctx d ctx =
     ctx\<lparr>ctx_From := truncate_time (ctx_From ctx) d, ctx_To := truncate_time (ctx_To ctx) d + d\<rparr>"

record 'v fix_state =
  fs_values :: "'v list"
  fs_fingerprint :: "64 word"
  fs_labels :: "(string \<times> string) list option"

definition exportEntries :: "'v lib \<Rightarrow> int \<Rightarrow> int \<Rightarrow> 'v fix_state \<Rightarrow> 'v stream" where
  "exportEntries L lo step st =
     (let entries =
        map (\<lambda>(i, v). \<lparr>TimestampNS = lo + int i * step, Fingerprint = fs_fingerprint st, Labels = fs_labels st,
                       Message = '''', Value = v, Err = None\<rparr>)
          (filter (\<lambda>(i, v). \<not> f_eq L v (f_zero L)) (enumerate 0 (fs_values st))) in
      if entries = [] then [] else [entries])"

text \<open>The bounds of the steps an entry covers, and the assignment to the slice between them.\<close>

definition fix_idx :: "int \<Rightarrow> int \<Rightarrow> int \<Rightarrow> int \<Rightarrow> int \<times> int" where
  "fix_idx lo step d ts =
     (go_div (go_div ts d * d - lo) step, go_div ((go_div ts d + 1) * d - lo) step)"

definition fill_slice :: "'v list \<Rightarrow> nat \<Rightarrow> nat \<Rightarrow> 'v \<Rightarrow> 'v list res" where
  "fill_slice vs i j v =
     rbind (fastFill (take (j - i) (drop i vs)) v) (\<lambda>mid. Inr (take i vs @ mid @ drop j vs))"

definition fix_switch ::
    "'v lib \<Rightarrow> int \<Rightarrow> int \<Rightarrow> int \<Rightarrow> 'v LogEntry \<Rightarrow> 'v fix_state \<Rightarrow> ('v stream \<times> 'v fix_state) res" where
  "fix_switch L lo hi step e st =
     (if Fingerprint e = fs_fingerprint st then Inr ([], st)
      else if go_div (hi - lo) step + 1 < 0 then Inl (Panic ''makeslice: len out of range'')
      else Inr (exportEntries L lo step st,
                \<lparr>fs_values = replicate (nat (go_div (hi - lo) step + 1)) (f_zero L),
                 fs_fingerprint = Fingerprint e, fs_labels = Labels e\<rparr>))"

definition fix_fill :: "int \<Rightarrow> int \<Rightarrow> int \<Rightarrow> 'v LogEntry \<Rightarrow> 'v list \<Rightarrow> 'v list res" where
  "fix_fill lo step d e vs =
     (let (idxFrom, idxTo) = fix_idx lo step d (TimestampNS e); len = int (length vs) in
      if idxTo < 0 \<or> len \<le> idxFrom then Inr vs
      else
        (let idxFrom = max idxFrom 0; idxTo = max (min idxTo len) (idxFrom + 1) in
         fill_slice vs (nat idxFrom) (nat idxTo) (Value e)))"

definition fix_entry ::
    "'v lib \<Rightarrow> int \<Rightarrow> int \<Rightarrow> int \<Rightarrow> int \<Rightarrow> 'v LogEntry \<Rightarrow> 'v fix_state \<Rightarrow> ('v stream \<times> 'v fix_state) res" where
  "fix_entry L lo hi step d e st =
     (if step = 0 \<or> d = 0 then Inl (Panic ''integer divide by zero'')
      else rbind (fix_switch L lo hi step e st) (\<lambda>(out, st).
        rbind (fix_fill lo step d e (fs_values st)) (\<lambda>vs. Inr (out, st\<lparr>fs_values := vs\<rparr>))))"

fun fix_entries ::
    "'v lib \<Rightarrow> int \<Rightarrow> int \<Rightarrow> int \<Rightarrow> int \<Rightarrow> 'v batch \<Rightarrow> 'v fix_state \<Rightarrow> 'v stream res" where
  "fix_entries L lo hi step d [] st = Inr (exportEntries L lo step st)"
| "fix_entries L lo hi step d (e # es) st =
     rbind (fix_entry L lo hi step d e st) (\<lambda>(out, st).
       rbind (fix_entries L lo hi step d es st) (\<lambda>rest. Inr (out @ rest)))"

definition FixPeriod_Process :: "'v lib \<Rightarrow> ram_ctx \<Rightarrow> int \<Rightarrow> 'v stream res \<Rightarrow> 'v stream res" where
  "FixPeriod_Process L ctx d inp =
     rbind inp (\<lambda>bs.
       fix_entries L (ctx_From ctx) (ctx_To ctx) (ctx_Step ctx) d (concat bs)
         \<lparr>fs_values = [], fs_fingerprint = 0, fs_labels = None\<rparr>)"

subsection \<open>Binary expressions (planner\_binary\_ram.go)\<close>

definition applyBinaryOp :: "'v lib \<Rightarrow> 'v \<Rightarrow> string \<Rightarrow> 'v \<Rightarrow> 'v" where
  "applyBinaryOp L l op r =
     (if op = ''/'' then (if f_eq L r (f_zero L) then f_zero L else f_div L l r)
      else if op = ''*'' then f_mul L l r
      else if op = ''+'' then f_add L l r
      else if op = ''-'' then f_sub L l r
      else if op = ''%'' then (if f_eq L r (f_zero L) then f_zero L else f_mod L l r)
      else f_zero L)"

type_synonym sampleKey = "64 word \<times> int"
type_synonym 'v sample_map = "(sampleKey \<times> 'v LogEntry) list"

text \<open>
  \<open>drainMatrix\<close> reads entries until an \<open>io.EOF\<close> entry, which ends it at once, or the end of
  the stream.
\<close>

fun drain_entries :: "'v batch \<Rightarrow> 'v sample_map \<Rightarrow> 'v sample_map res" where
  "drain_entries [] m = Inr m"
| "drain_entries (e # es) m =
     (case Err e of
        Some EOF \<Rightarrow> Inr m
      | Some err \<Rightarrow> Inl err
      | None \<Rightarrow> drain_entries es (map_put (Fingerprint e, TimestampNS e) e m))"

definition drainMatrix :: "'v stream \<Rightarrow> 'v sample_map res" where
  "drainMatrix bs = drain_entries (concat bs) []"

text \<open>The entries in batches of one hundred, the last one closed by the \<open>io.EOF\<close> entry.\<close>

function chunk100 :: "'v lib \<Rightarrow> 'v batch \<Rightarrow> 'v stream" where
  "chunk100 L es =
     (if length es < 100 then [es @ [err_entry L EOF]] else take 100 es # chunk100 L (drop 100 es))"
  by pat_completeness auto
termination
  by (relation "measure (\<lambda>(L, es). length es)") auto

declare chunk100.simps [simp del]

definition sortedSampleKeys :: "'v sample_map \<Rightarrow> sampleKey list" where
  "sortedSampleKeys m = sort (map fst m)"

definition emitScalar :: "'v lib \<Rightarrow> 'v sample_map \<Rightarrow> string \<Rightarrow> 'v \<Rightarrow> 'v stream" where
  "emitScalar L left op scalar =
     chunk100 L (map (\<lambda>k. let e = the (map_of left k) in e\<lparr>Value := applyBinaryOp L (Value e) op scalar\<rparr>)
       (sortedSampleKeys left))"

definition emitBinary :: "'v lib \<Rightarrow> 'v sample_map \<Rightarrow> 'v sample_map \<Rightarrow> string \<Rightarrow> 'v stream" where
  "emitBinary L left right op =
     chunk100 L (map (\<lambda>k. let e = the (map_of left k) in
                          e\<lparr>Value := applyBinaryOp L (Value e) op (Value (the (map_of right k)))\<rparr>)
       (sort (filter (\<lambda>k. map_of right k \<noteq> None) (map fst left))))"

definition BinaryScalar_Process :: "'v lib \<Rightarrow> string \<Rightarrow> 'v \<Rightarrow> 'v stream res \<Rightarrow> 'v stream res" where
  "BinaryScalar_Process L op scalar left =
     rbind left (\<lambda>l. rbind (drainMatrix l) (\<lambda>lm. Inr (emitScalar L lm op scalar)))"

definition BinaryExpr_Process :: "'v lib \<Rightarrow> string \<Rightarrow> 'v stream res \<Rightarrow> 'v stream res \<Rightarrow> 'v stream res" where
  "BinaryExpr_Process L op left right =
     rbind left (\<lambda>l. rbind (drainMatrix l) (\<lambda>lm.
       rbind right (\<lambda>r. rbind (drainMatrix r) (\<lambda>rm. Inr (emitBinary L lm rm op)))))"

end
