(* ===== verification/Ram_Parser.thy ===== *)
theory Ram_Parser
  imports Ram_Stages
begin

section \<open>The parser stage (parser.go, parser\_helpers.go, shared/path\_parser.go)\<close>

text \<open>
  \<open>json\<close> and \<open>logfmt\<close>, with and without parameters. The JSON decoder and the logfmt scanner
  are libraries; what they report for a line is \<open>jx_decode\<close> and \<open>logfmt_pairs\<close> of \<open>lib\<close>, the
  parse of a JSON path \<open>json_path_parse\<close>. The label map is written while the line is decoded,
  so a failure keeps what came before it.
\<close>

subsection \<open>Label names\<close>

text \<open>
  \<open>sanitizeLabel\<close> replaces every character outside \<open>[a-zA-Z0-9_]\<close>. The expression works on
  code points: a well-formed UTF-8 sequence is replaced by one underscore, and so is every
  byte that does not belong to one. \<open>rune_width\<close> is the width of the first code point.
\<close>

definition in_bytes :: "nat \<Rightarrow> nat \<Rightarrow> char \<Rightarrow> bool" where
  "in_bytes lo hi c \<longleftrightarrow> lo \<le> of_char c \<and> of_char c \<le> hi"

fun rune_width :: "string \<Rightarrow> nat" where
  "rune_width (a # b # c # d # s) =
     (if in_bytes 0xC2 0xDF a \<and> in_bytes 0x80 0xBF b then 2
      else if (in_bytes 0xE0 0xE0 a \<and> in_bytes 0xA0 0xBF b \<or> in_bytes 0xED 0xED a \<and> in_bytes 0x80 0x9F b \<or>
               (in_bytes 0xE1 0xEC a \<or> in_bytes 0xEE 0xEF a) \<and> in_bytes 0x80 0xBF b) \<and> in_bytes 0x80 0xBF c then 3
      else if (in_bytes 0xF0 0xF0 a \<and> in_bytes 0x90 0xBF b \<or> in_bytes 0xF4 0xF4 a \<and> in_bytes 0x80 0x8F b \<or>
               in_bytes 0xF1 0xF3 a \<and> in_bytes 0x80 0xBF b) \<and> in_bytes 0x80 0xBF c \<and> in_bytes 0x80 0xBF d then 4
      else 1)"
| "rune_width [a, b, c] =
     (if in_bytes 0xC2 0xDF a \<and> in_bytes 0x80 0xBF b then 2
      else if (in_bytes 0xE0 0xE0 a \<and> in_bytes 0xA0 0xBF b \<or> in_bytes 0xED 0xED a \<and> in_bytes 0x80 0x9F b \<or>
               (in_bytes 0xE1 0xEC a \<or> in_bytes 0xEE 0xEF a) \<and> in_bytes 0x80 0xBF b) \<and> in_bytes 0x80 0xBF c then 3
      else 1)"
| "rune_width [a, b] = (if in_bytes 0xC2 0xDF a \<and> in_bytes 0x80 0xBF b then 2 else 1)"
| "rune_width s = 1"

lemma rune_width_pos: "0 < rune_width s"
  by (induction s rule: rune_width.induct) auto

definition label_char :: "char \<Rightarrow> bool" where
  "label_char c \<longleftrightarrow>
     CHR ''a'' \<le> c \<and> c \<le> CHR ''z'' \<or> CHR ''A'' \<le> c \<and> c \<le> CHR ''Z'' \<or>
     CHR ''0'' \<le> c \<and> c \<le> CHR ''9'' \<or> c = CHR ''_''"

function sanitizeLabel :: "string \<Rightarrow> string" where
  "sanitizeLabel [] = []"
| "sanitizeLabel (c # s) =
     (if label_char c then c # sanitizeLabel s
      else CHR ''_'' # sanitizeLabel (drop (rune_width (c # s)) (c # s)))"
  by pat_completeness auto
termination
  by (relation "measure length") (use rune_width_pos in \<open>auto simp: diff_less\<close>)

subsection \<open>JSON\<close>

type_synonym label_state = "(string \<times> string) list option"

text \<open>Skipping a value meets its first error.\<close>

fun jx_skip :: "jx \<Rightarrow> go_error option" where
  "jx_skip (JxObject kvs err) =
     fold (\<lambda>e acc. case acc of Some _ \<Rightarrow> acc | None \<Rightarrow> e) (map (\<lambda>kv. jx_skip (snd kv)) kvs @ [err]) None"
| "jx_skip (JxArray xs err) =
     fold (\<lambda>e acc. case acc of Some _ \<Rightarrow> acc | None \<Rightarrow> e) (map jx_skip xs @ [err]) None"
| "jx_skip (JxFail e) = Some e"
| "jx_skip _ = None"

text \<open>One write of a label by a parser; the nil map panics.\<close>

definition put_label :: "string \<Rightarrow> string \<Rightarrow> label_state \<Rightarrow> label_state \<times> go_error option" where
  "put_label k v m = (case label_put k v m of Inl e \<Rightarrow> (m, Some e) | Inr m' \<Rightarrow> (m', None))"

text \<open>A loop that threads the labels and stops at the first error.\<close>

fun thread_labels :: "(label_state \<Rightarrow> label_state \<times> go_error option) list \<Rightarrow> label_state \<Rightarrow> label_state \<times> go_error option" where
  "thread_labels [] m = (m, None)"
| "thread_labels (f # fs) m =
     (case f m of (m', Some e) \<Rightarrow> (m', Some e) | (m', None) \<Rightarrow> thread_labels fs m')"

definition fail_with :: "go_error option \<Rightarrow> label_state \<Rightarrow> label_state \<times> go_error option" where
  "fail_with err m = (m, err)"

fun plain_dec :: "string \<Rightarrow> jx \<Rightarrow> label_state \<Rightarrow> label_state \<times> go_error option" where
  "plain_dec key (JxString v) m = (if v = '''' then (m, None) else put_label (sanitizeLabel key) v m)"
| "plain_dec key (JxRaw v) m = (if v = '''' then (m, None) else put_label (sanitizeLabel key) v m)"
| "plain_dec key (JxObject kvs err) m =
     thread_labels (map (\<lambda>kv. plain_dec (key @ ''_'' @ fst kv) (snd kv)) kvs @ [fail_with err]) m"
| "plain_dec key v m = (m, jx_skip v)"

definition errNotJSONObject :: go_error where
  "errNotJSONObject = ErrMsg ''expecting json object''"

definition plain_json_parse :: "'v lib \<Rightarrow> string \<Rightarrow> label_state \<Rightarrow> label_state \<times> go_error option" where
  "plain_json_parse L line m =
     (case jx_decode L line of
        JxObject kvs err \<Rightarrow> thread_labels (map (\<lambda>kv. plain_dec (fst kv) (snd kv)) kvs @ [fail_with err]) m
      | _ \<Rightarrow> (m, Some errNotJSONObject))"

definition pathIdxs :: "string list list \<Rightarrow> string list \<Rightarrow> bool \<Rightarrow> nat list" where
  "pathIdxs paths path fullMatch =
     filter (\<lambda>i. length path \<le> length (paths ! i) \<and> take (length path) (paths ! i) = path \<and>
                 (\<not> fullMatch \<or> length (paths ! i) = length path)) [0..<length paths]"

definition put_all :: "string list \<Rightarrow> nat list \<Rightarrow> string \<Rightarrow> label_state \<Rightarrow> label_state \<times> go_error option" where
  "put_all keys idxs v m = thread_labels (map (\<lambda>i. put_label (keys ! i) v) idxs) m"

function (sequential) param_dec ::
    "string list list \<Rightarrow> string list \<Rightarrow> string list \<Rightarrow> jx \<Rightarrow> label_state \<Rightarrow> label_state \<times> go_error option" where
  "param_dec paths keys path (JxObject kvs err) m =
     (if pathIdxs paths path False = [] then (m, jx_skip (JxObject kvs err))
      else thread_labels (map (\<lambda>kv. param_dec paths keys (path @ [fst kv]) (snd kv)) kvs @ [fail_with err]) m)"
| "param_dec paths keys path (JxArray xs err) m =
     (if pathIdxs paths path False = [] then (m, jx_skip (JxArray xs err))
      else thread_labels (map (\<lambda>(i, x). param_dec paths keys (path @ [show_nat i]) x) (zip [0..<length xs] xs)
             @ [fail_with err]) m)"
| "param_dec paths keys path (JxString v) m = put_all keys (pathIdxs paths path True) v m"
| "param_dec paths keys path (JxRaw v) m = put_all keys (pathIdxs paths path True) v m"
| "param_dec paths keys path v m = (m, jx_skip v)"
  by pat_completeness auto
termination
proof (relation "measure (\<lambda>(paths, keys, path, v, m). size v)", goal_cases)
  case (2 paths keys path kvs err m kv r)
  have "size (snd kv) \<le> size_prod (\<lambda>x. 0) size kv" by (cases kv) simp
  then have "size (snd kv) \<le> size_list (size_prod (\<lambda>x. 0) size) kvs"
    using 2 by (intro size_list_estimation' [of kv]) auto
  then show ?case by (simp add: less_Suc_eq_le)
next
  case (3 paths keys path xs err m ix i x r)
  then have "x \<in> set xs" by (metis set_zip_rightD)
  then show ?case by (simp add: less_Suc_eq_le size_list_estimation')
qed simp

definition param_json_parse ::
    "'v lib \<Rightarrow> string list list \<Rightarrow> string list \<Rightarrow> string \<Rightarrow> label_state \<Rightarrow> label_state \<times> go_error option" where
  "param_json_parse L paths keys line m =
     (case jx_decode L line of
        JxObject kvs err \<Rightarrow>
          thread_labels (map (\<lambda>kv. param_dec paths keys [fst kv] (snd kv)) kvs @ [fail_with err]) m
      | _ \<Rightarrow> (m, Some errNotJSONObject))"

subsection \<open>logfmt\<close>

definition plain_logfmt_parse :: "'v lib \<Rightarrow> string \<Rightarrow> label_state \<Rightarrow> label_state \<times> go_error option" where
  "plain_logfmt_parse L line m =
     (let (pairs, err) = logfmt_pairs L line in
      thread_labels (map (\<lambda>(k, v). put_label (sanitizeLabel k) v) pairs @ [fail_with err]) m)"

text \<open>With parameters the pair is stored under its own key, not under the parameter's name.\<close>

definition param_logfmt_parse :: "'v lib \<Rightarrow> string list \<Rightarrow> string \<Rightarrow> label_state \<Rightarrow> label_state \<times> go_error option" where
  "param_logfmt_parse L paths line m =
     (let (pairs, err) = logfmt_pairs L line in
      thread_labels (map (\<lambda>(k, v). if k \<in> set paths then put_label (sanitizeLabel k) v else fail_with None) pairs
        @ [fail_with err]) m)"

subsection \<open>The stage\<close>

definition ToPathPart :: "'v lib \<Rightarrow> jsonPathPart \<Rightarrow> string res" where
  "ToPathPart L j =
     (if jp_Ident j \<noteq> '''' then Inr (jp_Ident j)
      else (case jp_Field j of
              [] \<Rightarrow> Inr (jp_Idx j)
            | c # rest \<Rightarrow>
                if c = CHR 0x22 then go_unquote L (jp_Field j)
                else if rest = [] then Inl (Panic ''slice bounds out of range'') else Inr (butlast rest)))"

definition JsonPathParamToTypedArray :: "'v lib \<Rightarrow> string \<Rightarrow> string list res" where
  "JsonPathParamToTypedArray L param = rbind (json_path_parse L param) (mapM_res (ToPathPart L))"

fun error_text :: "go_error \<Rightarrow> string" where
  "error_text (ErrMsg m) = m"
| "error_text EOF = ''EOF''"
| "error_text SkipEntry = ''skip entry''"
| "error_text BufferFull = ''buffer is full''"
| "error_text (Panic m) = m"

definition ParserErrorType :: "string \<Rightarrow> string" where
  "ParserErrorType op =
     (if op = ''json'' then ''JSONParserErr'' else if op = ''logfmt'' then ''LogfmtParserErr'' else '''')"

type_synonym line_parser = "string \<Rightarrow> label_state \<Rightarrow> label_state \<times> go_error option"

definition parser_of :: "'v lib \<Rightarrow> string \<Rightarrow> string list \<Rightarrow> string list \<Rightarrow> string list list \<Rightarrow> line_parser res" where
  "parser_of L op names vals typed =
     (if op = ''json'' then
        Inr (if names \<noteq> [] then param_json_parse L typed names else plain_json_parse L)
      else if op = ''logfmt'' then
        Inr (if names \<noteq> [] then param_logfmt_parse L vals else plain_logfmt_parse L)
      else Inl (ErrMsg (op @ '' not supported'')))"

text \<open>
  \<open>OnEntry\<close>: an error of the line is turned into labels of the entry; a panic leaves the stage.
\<close>

definition parse_entry :: "'v lib \<Rightarrow> string \<Rightarrow> line_parser \<Rightarrow> 'v LogEntry \<Rightarrow> go_error option \<times> 'v LogEntry" where
  "parse_entry L op parser e =
     (if Err e \<noteq> None then (None, e)
      else
        (case parser (Message e) (Labels e) of
           (m, Some (Panic msg)) \<Rightarrow> (Some (Panic msg), e\<lparr>Labels := m\<rparr>)
         | (m, Some err) \<Rightarrow>
             (let m' = map_put ErrorDetailsLabel (error_text err)
                         (map_put ErrorLabel (ParserErrorType op) (label_list m)) in
              (None, e\<lparr>Labels := Some m', Fingerprint := fingerprint L (Some m')\<rparr>))
         | (m, None) \<Rightarrow> (None, e\<lparr>Labels := m, Fingerprint := fingerprint L m\<rparr>)))"

definition parser_ops :: "'v lib \<Rightarrow> string \<Rightarrow> line_parser \<Rightarrow> (unit, 'v) GenericPlannerOps" where
  "parser_ops L op parser =
     \<lparr>OnEntry = (\<lambda>s e. (fst (parse_entry L op parser e), snd (parse_entry L op parser e), s)),
      OnAfterEntriesSlice = send_batch, OnAfterEntries = after_nothing\<rparr>"

definition Parser_Process :: "'v lib \<Rightarrow> string \<Rightarrow> string list \<Rightarrow> string list \<Rightarrow> 'v stream res \<Rightarrow> 'v stream res" where
  "Parser_Process L op names vals inp =
     rbind (mapM_res (JsonPathParamToTypedArray L) vals) (\<lambda>typed.
       rbind (parser_of L op names vals typed) (\<lambda>parser.
         WrapProcess L (parser_ops L op parser) () inp))"

end
