(* ===== verification/Logql_Plan.thy ===== *)
theory Logql_Plan
  imports Matrix_Post Ram_Parser
begin

section \<open>Planning a LogQL query (logql\_transpiler/planner.go, internal/planner/planner.go)\<close>

text \<open>
  A planned query is a tree of request processors; \<open>proc\<close> has one constructor per processor
  type, with its input as the first argument. \<open>Plan\<close> chooses between evaluation in ClickHouse
  and in process, cuts the script at the break point, and stacks the processors. The SQL text
  of a script is made by the clickhouse\_planner package, which is not part of this model: the
  processor \<open>ClickhouseGetter\<close> names the script it fetches, \<open>run\<close> takes the data it delivers
  as an argument. Planner plug-ins are taken to be absent.
\<close>

datatype 'v proc =
    ClickhouseGetter LogQLScript bool bool   \<comment> \<open>script, finalize, Matrix\<close>
  | ClickhouseBinary LogQLScript
  | LineFilterPlanner "'v proc" LineFilter
  | LabelFormatPlanner "'v proc" "LabelFormatOp list"
  | LabelFilterPlanner "'v proc" LabelFilter
  | LineFormatterPlanner "'v proc" string
  | UnwrapPlanner "'v proc" string
  | ParserPlanner "'v proc" string "string list" "string list"
  | DropPlanner "'v proc" "(string \<times> string) list"
  | KeepPlanner "'v proc" "(string \<times> string) list"
  | ByWithoutPlanner "'v proc" bool "string list"
  | LRAPlanner "'v proc" int string
  | UnwrapAggPlanner "'v proc" int string
  | AggOpPlanner "'v proc" int string
  | ComparisonPlanner "'v proc" string 'v
  | LimitPlanner "'v proc"
  | ResponseOptimizerPlanner "'v proc"
  | ZeroEaterPlanner "'v proc"
  | FixPeriodPlanner "'v proc" int
  | BinaryScalar "'v proc" string 'v
  | BinaryExpr "'v proc" string "'v proc"

text \<open>\<open>IsMatrix\<close>: the embedded \<open>GenericPlanner\<close> says false, the aggregators and what follows them true.\<close>

fun IsMatrix :: "'v proc \<Rightarrow> bool" where
  "IsMatrix (ClickhouseGetter s fin matrix) = matrix"
| "IsMatrix (ClickhouseBinary s) = True"
| "IsMatrix (LRAPlanner p d fn) = True"
| "IsMatrix (UnwrapAggPlanner p d fn) = True"
| "IsMatrix (AggOpPlanner p d fn) = True"
| "IsMatrix (ComparisonPlanner p op v) = True"
| "IsMatrix (ZeroEaterPlanner p) = True"
| "IsMatrix (FixPeriodPlanner p d) = True"
| "IsMatrix (BinaryScalar p op v) = True"
| "IsMatrix (BinaryExpr p op q) = True"
| "IsMatrix _ = False"

subsection \<open>Looking into a script (shared/funcs.go)\<close>

text \<open>The first non-nil child.\<close>

fun first_some :: "'a option list \<Rightarrow> 'a option" where
  "first_some [] = None"
| "first_some (Some x # xs) = Some x"
| "first_some (None # xs) = first_some xs"

definition topk_StrSel :: "TopK \<Rightarrow> StrSelector option" where
  "topk_StrSel t =
     first_some [map_option qot_StrSel (topk_QuantileOverTime t), map_option lra_StrSel (topk_LRAOrUnwrap t),
                 map_option (\<lambda>a. lra_StrSel (agg_LRAOrUnwrap a)) (topk_AggOperator t)]"

text \<open>\<open>GetStrSelector\<close>: a \<open>topk\<close> without an operand ends the search.\<close>

definition GetStrSelector :: "LogQLScript \<Rightarrow> StrSelector option" where
  "GetStrSelector s =
     (let a = ql_Head s in
      case at_StrSelector a of Some x \<Rightarrow> Some x | None \<Rightarrow>
      (case at_TopK a of Some t \<Rightarrow> topk_StrSel t | None \<Rightarrow>
      (case at_AggOperator a of Some g \<Rightarrow> Some (lra_StrSel (agg_LRAOrUnwrap g)) | None \<Rightarrow>
      (case at_LRAOrUnwrap a of Some l \<Rightarrow> Some (lra_StrSel l) | None \<Rightarrow>
       map_option qot_StrSel (at_QuantileOverTime a)))))"

text \<open>The first non-zero duration; an error ends the search.\<close>

fun dur_first :: "int res list \<Rightarrow> int res" where
  "dur_first [] = Inr 0"
| "dur_first (r # rs) = rbind r (\<lambda>d. if d \<noteq> 0 then Inr d else dur_first rs)"

definition lra_duration :: "'v lib \<Rightarrow> LRAOrUnwrap \<Rightarrow> int res" where
  "lra_duration L l = parse_duration L (lra_Time l @ lra_TimeUnit l)"

definition qot_duration :: "'v lib \<Rightarrow> QuantileOverTime \<Rightarrow> int res" where
  "qot_duration L q = parse_duration L (qot_Time q @ qot_TimeUnit q)"

abbreviation opt_dur :: "('a \<Rightarrow> int res) \<Rightarrow> 'a option \<Rightarrow> int res" where
  "opt_dur f x \<equiv> (case x of None \<Rightarrow> Inr 0 | Some v \<Rightarrow> f v)"

definition topk_duration :: "'v lib \<Rightarrow> TopK \<Rightarrow> int res" where
  "topk_duration L t =
     dur_first [opt_dur (lra_duration L) (topk_LRAOrUnwrap t), opt_dur (qot_duration L) (topk_QuantileOverTime t),
                opt_dur (\<lambda>a. lra_duration L (agg_LRAOrUnwrap a)) (topk_AggOperator t)]"

fun GetDuration :: "'v lib \<Rightarrow> LogQLScript \<Rightarrow> int res"
and atom_duration :: "'v lib \<Rightarrow> AtomExpr \<Rightarrow> int res"
and bin_duration :: "'v lib \<Rightarrow> BinOpPart \<Rightarrow> int res" where
  "GetDuration L (LogQLScript h ops) = dur_first (atom_duration L h # map (bin_duration L) ops)"
| "atom_duration L (AtomExpr paren sel lra agg mac topk qot scalar) =
     dur_first [(case paren of None \<Rightarrow> Inr 0 | Some s \<Rightarrow> GetDuration L s),
                opt_dur (\<lambda>a. lra_duration L (agg_LRAOrUnwrap a)) agg, opt_dur (lra_duration L) lra,
                opt_dur (topk_duration L) topk, opt_dur (qot_duration L) qot]"
| "bin_duration L (BinOpPart op right) = atom_duration L right"

subsection \<open>Parentheses and the validation of binary expressions (planner.go)\<close>

lemma paren_smaller: "at_Paren a = Some s \<Longrightarrow> size s < size a"
  by (cases a) auto

function unwrapParens :: "LogQLScript \<Rightarrow> LogQLScript" where
  "unwrapParens s =
     (if IsBinary s then s
      else (case at_Paren (ql_Head s) of None \<Rightarrow> s | Some inner \<Rightarrow> unwrapParens inner))"
  by pat_completeness auto
termination
proof (relation "measure size", goal_cases)
  case (2 s inner)
  then show ?case using paren_smaller [of "ql_Head s" inner] by (cases s) auto
qed simp

declare unwrapParens.simps [simp del]

lemma unwrapParens_size: "size (unwrapParens s) \<le> size s"
proof (induction s rule: unwrapParens.induct)
  case (1 s)
  show ?case
  proof (cases "IsBinary s \<or> at_Paren (ql_Head s) = None")
    case True
    then show ?thesis by (auto simp: unwrapParens.simps [of s])
  next
    case False
    then obtain inner where i: "at_Paren (ql_Head s) = Some inner" by auto
    then have "size inner < size s" using paren_smaller [OF i] by (cases s) auto
    with 1 i False show ?thesis by (auto simp: unwrapParens.simps [of s])
  qed
qed

definition all_atoms :: "LogQLScript \<Rightarrow> AtomExpr list" where
  "all_atoms s = ql_Head s # map bin_Right (ql_BinOps s)"

lemma atom_size: "a \<in> set (all_atoms s) \<Longrightarrow> size a < size s"
proof (cases s)
  case (LogQLScript h ops)
  assume a: "a \<in> set (all_atoms s)"
  from a LogQLScript consider "a = h" | b where "b \<in> set ops" "a = bin_Right b"
    by (auto simp: all_atoms_def)
  then show ?thesis
  proof cases
    case 2
    have "size (bin_Right b) < size b" by (cases b) simp
    moreover have "size b \<le> size_list size ops" using 2(1) by (simp add: size_list_estimation')
    ultimately show ?thesis using 2(2) LogQLScript by simp
  qed (simp add: LogQLScript)
qed

definition binary_error :: go_error where
  "binary_error = ErrMsg (''syntax error: binary arithmetic cannot be applied to a log stream selector; '' @
     ''wrap it in a range aggregation such as rate() or count_over_time() first'')"

function validateBinaryOps :: "LogQLScript \<Rightarrow> unit res"
and validateAtomForBinaryOp :: "AtomExpr \<Rightarrow> unit res" where
  "validateBinaryOps s =
     (if \<not> IsBinary s then Inr ()
      else rbind (mapM_res validateAtomForBinaryOp (all_atoms s)) (\<lambda>_. Inr ()))"
| "validateAtomForBinaryOp a =
     (case at_Paren a of
        Some p \<Rightarrow>
          (let inner = unwrapParens p in
           rbind (validateBinaryOps inner) (\<lambda>_.
             if \<not> IsBinary inner then validateAtomForBinaryOp (ql_Head inner) else Inr ()))
      | None \<Rightarrow> if at_StrSelector a \<noteq> None then Inl binary_error else Inr ())"
  by pat_completeness auto
termination
proof (relation "measure (\<lambda>x. case x of Inl s \<Rightarrow> size s | Inr a \<Rightarrow> size a)", goal_cases)
  case (2 s a)
  then show ?case using atom_size by auto
next
  case (3 a p inner)
  then show ?case using paren_smaller [of a p] unwrapParens_size [of p] by auto
next
  case (4 a p inner u)
  have "size (ql_Head inner) < size inner" by (cases inner) auto
  then show ?case using 4 paren_smaller [of a p] unwrapParens_size [of p] by auto
qed simp

declare validateBinaryOps.simps [simp del] validateAtomForBinaryOp.simps [simp del]

subsection \<open>The break point and the execution mode\<close>

definition BreakpointNo :: int where "BreakpointNo = -1"
definition BreakpointLra :: int where "BreakpointLra = -2"

text \<open>The stages that ClickHouse cannot evaluate.\<close>

definition needs_internal :: "StrSelectorPipeline \<Rightarrow> bool" where
  "needs_internal p \<longleftrightarrow>
     (case ppl_Parser p of
        None \<Rightarrow> False
      | Some q \<Rightarrow> par_Fn q = ''json'' \<and> length (par_ParserParams q) = 0 \<or> par_Fn q = ''logfmt'') \<or>
     ppl_LineFormat p \<noteq> None"

fun breakpoint_from :: "int \<Rightarrow> StrSelectorPipeline list \<Rightarrow> int" where
  "breakpoint_from i [] = BreakpointNo"
| "breakpoint_from i (p # ps) = (if needs_internal p then i else breakpoint_from (i + 1) ps)"

definition sel_breakpoint :: "StrSelector \<Rightarrow> int" where
  "sel_breakpoint s = breakpoint_from 0 (sel_Pipelines s)"

definition lra_breakpoint :: "LRAOrUnwrap \<Rightarrow> int" where
  "lra_breakpoint l =
     (let bp = sel_breakpoint (lra_StrSel l) in
      if lra_Fn l = ''absent_over_time'' \<and> bp < 0 then BreakpointLra else bp)"

definition topk_breakpoint :: "TopK \<Rightarrow> int" where
  "topk_breakpoint t =
     (case topk_QuantileOverTime t of Some q \<Rightarrow> sel_breakpoint (qot_StrSel q) | None \<Rightarrow>
     (case topk_AggOperator t of Some a \<Rightarrow> lra_breakpoint (agg_LRAOrUnwrap a) | None \<Rightarrow>
     (case topk_LRAOrUnwrap t of Some l \<Rightarrow> lra_breakpoint l | None \<Rightarrow> BreakpointNo)))"

definition GetBreakpoint :: "LogQLScript \<Rightarrow> int" where
  "GetBreakpoint s =
     (let a = ql_Head s in
      case at_TopK a of Some t \<Rightarrow> topk_breakpoint t | None \<Rightarrow>
      (case at_QuantileOverTime a of Some q \<Rightarrow> sel_breakpoint (qot_StrSel q) | None \<Rightarrow>
      (case at_AggOperator a of Some g \<Rightarrow> lra_breakpoint (agg_LRAOrUnwrap g) | None \<Rightarrow>
      (case at_LRAOrUnwrap a of Some l \<Rightarrow> lra_breakpoint l | None \<Rightarrow>
      (case at_StrSelector a of Some x \<Rightarrow> sel_breakpoint x | None \<Rightarrow> BreakpointNo)))))"

text \<open>
  \<open>AnalyzeMetrics15sShortcut\<close> (clickhouse\_planner/analyze.go). Its \<open>findFirst\<close> looks at the head
  only, at a range aggregation before an aggregation before \<open>topk\<close>, then into parentheses.
\<close>

fun lineFilterExpHasContent :: "'v lib \<Rightarrow> LineFilterExp \<Rightarrow> bool"
and lineFilterHeadHasContent :: "'v lib \<Rightarrow> LineFilterHead \<Rightarrow> bool" where
  "lineFilterExpHasContent L (LineFilterExp h op tl') =
     (lineFilterHeadHasContent L h \<or> (case tl' of None \<Rightarrow> False | Some t \<Rightarrow> lineFilterExpHasContent L t))"
| "lineFilterHeadHasContent L (LineFilterHead complex simple) =
     ((case simple of None \<Rightarrow> False
       | Some q \<Rightarrow> (case Unquote L q of Inl _ \<Rightarrow> True | Inr v \<Rightarrow> v \<noteq> '''')) \<or>
      (case complex of None \<Rightarrow> False | Some e \<Rightarrow> lineFilterExpHasContent L e))"

definition ch_topk_LRA :: "TopK \<Rightarrow> LRAOrUnwrap option" where
  "ch_topk_LRA t = opt_or (topk_LRAOrUnwrap t) (map_option agg_LRAOrUnwrap (topk_AggOperator t))"

fun ch_find_LRA :: "LogQLScript \<Rightarrow> LRAOrUnwrap option" where
  "ch_find_LRA (LogQLScript (AtomExpr paren sel lra agg mac topk qot scalar) ops) =
     opt_or lra (opt_or (map_option agg_LRAOrUnwrap agg) (opt_or (Option.bind topk ch_topk_LRA)
       (case paren of None \<Rightarrow> None | Some s \<Rightarrow> ch_find_LRA s)))"

definition AnalyzeMetrics15sShortcut :: "'v lib \<Rightarrow> LogQLScript \<Rightarrow> bool" where
  "AnalyzeMetrics15sShortcut L s =
     (case ch_find_LRA s of
        None \<Rightarrow> False
      | Some l \<Rightarrow>
          (lra_Fn l = ''rate'' \<or> lra_Fn l = ''count_over_time'') \<and>
          (case lra_duration L l of Inl _ \<Rightarrow> False | Inr d \<Rightarrow> 15000000000 \<le> d) \<and>
          \<not> (sel_Pipelines (lra_StrSel l) \<noteq> [] \<and> ppl_Unwrap (last (sel_Pipelines (lra_StrSel l))) \<noteq> None) \<and>
          list_all (\<lambda>p. ppl_Parser p = None \<and>
             (case ppl_LineFilter p of None \<Rightarrow> True | Some f \<Rightarrow> \<not> lineFilterExpHasContent L (lf_Exp f)))
           (sel_Pipelines (lra_StrSel l)))"

datatype plan_mode = PlanClickhouse | PlanInternal

definition single_mode :: "'v lib \<Rightarrow> LogQLScript \<Rightarrow> plan_mode" where
  "single_mode L s =
     (if GetBreakpoint s = BreakpointNo \<or> AnalyzeMetrics15sShortcut L s then PlanClickhouse else PlanInternal)"

lemma atom_script_size:
  assumes "IsBinary s" "a \<in> set (all_atoms s)"
  shows "size (LogQLScript a []) < size s"
proof (cases s)
  case (LogQLScript h ops)
  from assms(1) LogQLScript obtain b0 ops' where ne: "ops = b0 # ops'" by (cases ops) (auto simp: IsBinary_def)
  from assms(2) LogQLScript consider "a = h" | b where "b \<in> set ops" "a = bin_Right b"
    by (auto simp: all_atoms_def)
  then show ?thesis
  proof cases
    case 1
    then show ?thesis using LogQLScript ne by simp
  next
    case 2
    have "size (bin_Right b) < size b" by (cases b) simp
    moreover have "size b \<le> size_list size ops" using 2(1) by (simp add: size_list_estimation')
    moreover have "0 < size h" by (cases h) simp
    ultimately show ?thesis using 2(2) LogQLScript by simp
  qed
qed

function decidePlanMode :: "'v lib \<Rightarrow> LogQLScript \<Rightarrow> plan_mode" where
  "decidePlanMode L s =
     (let s' = unwrapParens s in
      if IsBinary s' then
        (if list_ex (\<lambda>a. (if at_Scalar a \<noteq> '''' then PlanClickhouse
                          else (case at_Paren a of Some p \<Rightarrow> decidePlanMode L p
                                | None \<Rightarrow> decidePlanMode L (LogQLScript a []))) = PlanInternal) (all_atoms s')
         then PlanInternal else PlanClickhouse)
      else single_mode L s')"
  by pat_completeness auto
termination
proof (relation "measure (\<lambda>(L, s). size s)", goal_cases)
  case (2 L s s' a)
  then show ?case using atom_script_size [of s' a] unwrapParens_size [of s] by auto
next
  case (3 L s s' a p)
  then show ?case
    using paren_smaller [of a p] atom_size [of a s'] unwrapParens_size [of s] by auto
qed simp

declare decidePlanMode.simps [simp del]

subsection \<open>Rewriting the selector of a script\<close>

text \<open>
  The source mutates the selector that \<open>GetStrSelector\<close> points into; here the script is
  rebuilt with the new selector in the same place.
\<close>

definition lra_with_sel :: "StrSelector \<Rightarrow> LRAOrUnwrap \<Rightarrow> LRAOrUnwrap" where
  "lra_with_sel x l = l\<lparr>lra_StrSel := x\<rparr>"

definition agg_with_sel :: "StrSelector \<Rightarrow> AggOperator \<Rightarrow> AggOperator" where
  "agg_with_sel x g = g\<lparr>agg_LRAOrUnwrap := lra_with_sel x (agg_LRAOrUnwrap g)\<rparr>"

definition topk_with_sel :: "StrSelector \<Rightarrow> TopK \<Rightarrow> TopK" where
  "topk_with_sel x t =
     (case topk_QuantileOverTime t of Some q \<Rightarrow> t\<lparr>topk_QuantileOverTime := Some (q\<lparr>qot_StrSel := x\<rparr>)\<rparr> | None \<Rightarrow>
     (case topk_LRAOrUnwrap t of Some l \<Rightarrow> t\<lparr>topk_LRAOrUnwrap := Some (lra_with_sel x l)\<rparr> | None \<Rightarrow>
      t\<lparr>topk_AggOperator := map_option (agg_with_sel x) (topk_AggOperator t)\<rparr>))"

definition map_head :: "(AtomExpr \<Rightarrow> AtomExpr) \<Rightarrow> LogQLScript \<Rightarrow> LogQLScript" where
  "map_head f s = LogQLScript (f (ql_Head s)) (ql_BinOps s)"

fun put_sel :: "StrSelector \<Rightarrow> AtomExpr \<Rightarrow> AtomExpr" where
  "put_sel x (AtomExpr paren sel lra agg mac topk qot scalar) =
     AtomExpr paren (Some x) lra agg mac topk qot scalar"

fun put_lra_sel :: "StrSelector \<Rightarrow> AtomExpr \<Rightarrow> AtomExpr" where
  "put_lra_sel x (AtomExpr paren sel lra agg mac topk qot scalar) =
     AtomExpr paren sel (map_option (lra_with_sel x) lra) agg mac topk qot scalar"

fun put_agg_sel :: "StrSelector \<Rightarrow> AtomExpr \<Rightarrow> AtomExpr" where
  "put_agg_sel x (AtomExpr paren sel lra agg mac topk qot scalar) =
     AtomExpr paren sel lra (map_option (agg_with_sel x) agg) mac topk qot scalar"

fun put_topk_sel :: "StrSelector \<Rightarrow> AtomExpr \<Rightarrow> AtomExpr" where
  "put_topk_sel x (AtomExpr paren sel lra agg mac topk qot scalar) =
     AtomExpr paren sel lra agg mac (map_option (topk_with_sel x) topk) qot scalar"

fun put_qot_sel :: "StrSelector \<Rightarrow> AtomExpr \<Rightarrow> AtomExpr" where
  "put_qot_sel x (AtomExpr paren sel lra agg mac topk qot scalar) =
     AtomExpr paren sel lra agg mac topk (map_option (\<lambda>q. q\<lparr>qot_StrSel := x\<rparr>) qot) scalar"

definition with_sel :: "StrSelector \<Rightarrow> LogQLScript \<Rightarrow> LogQLScript" where
  "with_sel x s =
     (let a = ql_Head s in
      map_head (if at_StrSelector a \<noteq> None then put_sel x
                else if at_TopK a \<noteq> None then put_topk_sel x
                else if at_AggOperator a \<noteq> None then put_agg_sel x
                else if at_LRAOrUnwrap a \<noteq> None then put_lra_sel x
                else put_qot_sel x) s)"

text \<open>
  \<open>cancelJsonAndLogFmt\<close>: from the last pair down, a \<open>json\<close> stage directly before a \<open>logfmt\<close>
  stage goes away with it. The loop variable is not adapted to the shortened slice, so that an
  access may be out of range. The first argument is the number of positions left.
\<close>

fun cancel_loop :: "nat \<Rightarrow> StrSelectorPipeline list \<Rightarrow> StrSelectorPipeline list res" where
  "cancel_loop 0 ps = Inr ps"
| "cancel_loop (Suc i) ps =
     (if \<not> i < length ps then Inl (Panic ''index out of range'')
      else (case ppl_Parser (ps ! i) of
              None \<Rightarrow> cancel_loop i ps
            | Some a \<Rightarrow>
                if \<not> i + 1 < length ps then Inl (Panic ''index out of range'')
                else (case ppl_Parser (ps ! (i + 1)) of
                        None \<Rightarrow> cancel_loop i ps
                      | Some b \<Rightarrow>
                          if par_Fn a = ''json'' \<and> par_Fn b = ''logfmt''
                          then cancel_loop i (take i ps @ drop (i + 2) ps)
                          else cancel_loop i ps)))"

definition cancelJsonAndLogFmt :: "LogQLScript \<Rightarrow> LogQLScript res" where
  "cancelJsonAndLogFmt s =
     (case GetStrSelector s of
        None \<Rightarrow> nil_deref
      | Some sel \<Rightarrow>
          rbind (cancel_loop (length (sel_Pipelines sel) - 1) (sel_Pipelines sel)) (\<lambda>ps.
            Inr (with_sel (sel\<lparr>sel_Pipelines := ps\<rparr>) s)))"

definition selector_script :: "StrSelector \<Rightarrow> LogQLScript" where
  "selector_script x = LogQLScript (AtomExpr None (Some x) None None None None None '''') []"

text \<open>\<open>breakScript\<close>: what ClickHouse evaluates, and the script left for the internal planner.\<close>

definition break_sel ::
    "int \<Rightarrow> LogQLScript \<Rightarrow> (StrSelector \<Rightarrow> AtomExpr \<Rightarrow> AtomExpr) \<Rightarrow> StrSelector \<Rightarrow> (LogQLScript \<times> LogQLScript option) res" where
  "break_sel bp script put x =
     (if bp < 0 then Inr (script, None)
      else if length (sel_Pipelines x) < nat bp then Inl (Panic ''slice bounds out of range'')
      else Inr (selector_script \<lparr>sel_StrSelCmds = sel_StrSelCmds x, sel_Pipelines = take (nat bp) (sel_Pipelines x)\<rparr>,
                Some (map_head (put (x\<lparr>sel_Pipelines := drop (nat bp) (sel_Pipelines x)\<rparr>)) script)))"

definition break_lra ::
    "int \<Rightarrow> LogQLScript \<Rightarrow> (StrSelector \<Rightarrow> AtomExpr \<Rightarrow> AtomExpr) \<Rightarrow> LRAOrUnwrap \<Rightarrow> (LogQLScript \<times> LogQLScript option) res" where
  "break_lra bp script put l =
     (if bp \<noteq> BreakpointLra then break_sel bp script put (lra_StrSel l)
      else Inr (selector_script \<lparr>sel_StrSelCmds = sel_StrSelCmds (lra_StrSel l), sel_Pipelines = sel_Pipelines (lra_StrSel l)\<rparr>,
                Some (map_head (put \<lparr>sel_StrSelCmds = [], sel_Pipelines = []\<rparr>) script)))"

definition breakScript :: "int \<Rightarrow> LogQLScript \<Rightarrow> (LogQLScript \<times> LogQLScript option) res" where
  "breakScript bp script =
     (let a = ql_Head script in
      case at_TopK a of Some _ \<Rightarrow> Inl (ErrMsg ''TopK is not supported for this query'') | None \<Rightarrow>
      (case at_AggOperator a of Some g \<Rightarrow> break_lra bp script put_agg_sel (agg_LRAOrUnwrap g) | None \<Rightarrow>
      (case at_StrSelector a of Some x \<Rightarrow> break_sel bp script put_sel x | None \<Rightarrow>
      (case at_LRAOrUnwrap a of Some l \<Rightarrow> break_lra bp script put_lra_sel l | None \<Rightarrow>
      (case at_QuantileOverTime a of
         Some _ \<Rightarrow> Inl (ErrMsg ''QuantileOverTime is not supported for this query'')
       | None \<Rightarrow> Inr (script, None))))))"

subsection \<open>Stacking the internal processors (internal/planner/planner.go)\<close>

definition opt_unquote :: "'v lib \<Rightarrow> QuotedString option \<Rightarrow> string res" where
  "opt_unquote L v = (case v of None \<Rightarrow> Inr '''' | Some q \<Rightarrow> Unquote L q)"

definition parser_param :: "'v lib \<Rightarrow> ParserParam \<Rightarrow> (string \<times> string) res" where
  "parser_param L p =
     (case pp_Label p of None \<Rightarrow> nil_deref | Some n \<Rightarrow> rbind (Unquote L (pp_Val p)) (\<lambda>v. Inr (n, v)))"

text \<open>One pipeline stage on top of \<open>inp\<close>; a stage of no known kind is passed over.\<close>

definition plan_stage :: "'v lib \<Rightarrow> StrSelectorPipeline \<Rightarrow> 'v proc \<Rightarrow> 'v proc res" where
  "plan_stage L ppl inp =
     (case ppl_LineFilter ppl of Some f \<Rightarrow> Inr (LineFilterPlanner inp f) | None \<Rightarrow>
     (case ppl_LabelFormat ppl of Some f \<Rightarrow> Inr (LabelFormatPlanner inp f) | None \<Rightarrow>
     (case ppl_LabelFilter ppl of Some f \<Rightarrow> Inr (LabelFilterPlanner inp f) | None \<Rightarrow>
     (case ppl_LineFormat ppl of Some q \<Rightarrow> rbind (Unquote L q) (\<lambda>str. Inr (LineFormatterPlanner inp str)) | None \<Rightarrow>
     (case ppl_Unwrap ppl of Some u \<Rightarrow> Inr (UnwrapPlanner inp (unw_Label u)) | None \<Rightarrow>
     (case ppl_Parser ppl of
        Some p \<Rightarrow> rbind (mapM_res (parser_param L) (par_ParserParams p)) (\<lambda>nv.
                    Inr (ParserPlanner inp (par_Fn p) (map fst nv) (map snd nv))) | None \<Rightarrow>
     (case ppl_Drop ppl of
        Some d \<Rightarrow> rbind (mapM_res (\<lambda>p. rbind (opt_unquote L (dp_Val p)) (\<lambda>v. Inr (dp_Label p, v))) (drop_Params d)) (\<lambda>nv.
                    Inr (DropPlanner inp nv)) | None \<Rightarrow>
     (case ppl_Keep ppl of
        Some k \<Rightarrow> rbind (mapM_res (\<lambda>p. rbind (opt_unquote L (kp_Val p)) (\<lambda>v. Inr (kp_Label p, v))) (keep_Params k)) (\<lambda>nv.
                    Inr (KeepPlanner inp nv))
      | None \<Rightarrow> Inr inp))))))))"

fun plan_stages :: "'v lib \<Rightarrow> StrSelectorPipeline list \<Rightarrow> 'v proc \<Rightarrow> 'v proc res" where
  "plan_stages L [] inp = Inr inp"
| "plan_stages L (p # ps) inp = rbind (plan_stage L p inp) (plan_stages L ps)"

definition planByWithout :: "'v proc \<Rightarrow> ByOrWithout option list \<Rightarrow> 'v proc" where
  "planByWithout init byWithout =
     (case first_some (rev byWithout) of
        None \<Rightarrow> init
      | Some b \<Rightarrow> ByWithoutPlanner init (to_lower (bow_Fn b) = ''by'') (bow_Labels b))"

definition canSwapByWithout :: "string \<Rightarrow> string \<Rightarrow> bool" where
  "canSwapByWithout outerFn innerFn =
     (if outerFn = ''sum'' then
        innerFn \<in> {''count_over_time'', ''rate'', ''bytes_over_time'', ''bytes_rate'', ''sum_over_time''}
      else if outerFn = ''max'' then innerFn = ''max_over_time''
      else if outerFn = ''min'' then innerFn = ''min_over_time''
      else False)"

definition maybeComparison :: "'v lib \<Rightarrow> 'v proc \<Rightarrow> Comparison option \<Rightarrow> 'v proc res" where
  "maybeComparison L p cmp =
     (case cmp of
        None \<Rightarrow> Inr p
      | Some c \<Rightarrow> rbind (parse_float L (cmp_Val c)) (\<lambda>v. Inr (ComparisonPlanner p (cmp_Fn c) v)))"

definition has_unwrap :: "LRAOrUnwrap \<Rightarrow> bool" where
  "has_unwrap l \<longleftrightarrow>
     sel_Pipelines (lra_StrSel l) \<noteq> [] \<and> ppl_Unwrap (last (sel_Pipelines (lra_StrSel l))) \<noteq> None"

definition plan_agg_by :: "'v proc \<Rightarrow> AggOperator \<Rightarrow> 'v proc" where
  "plan_agg_by p g =
     (if agg_ByOrWithoutPrefix g = None \<and> agg_ByOrWithoutSuffix g = None
      then planByWithout p [Some \<lparr>bow_Fn = ''by'', bow_Labels = []\<rparr>]
      else planByWithout p [agg_ByOrWithoutPrefix g, agg_ByOrWithoutSuffix g])"

definition plan_range :: "'v proc \<Rightarrow> LRAOrUnwrap \<Rightarrow> int \<Rightarrow> 'v proc" where
  "plan_range p l d =
     (if has_unwrap l
      then UnwrapAggPlanner (planByWithout p [lra_ByOrWithoutPrefix l, lra_ByOrWithoutSuffix l]) d (lra_Fn l)
      else LRAPlanner p d (lra_Fn l))"

definition planAggregators :: "'v lib \<Rightarrow> LogQLScript \<Rightarrow> 'v proc \<Rightarrow> 'v proc res" where
  "planAggregators L script init =
     (if FindFirst_TopK script \<noteq> None then Inl (ErrMsg ''topk is not supported'')
      else if FindFirst_QuantileOverTime script \<noteq> None then Inl (ErrMsg ''quantile_over_time is not supported'')
      else
        (case FindFirst_LRAOrUnwrap script of
           None \<Rightarrow> if FindFirst_AggOperator script = None then Inr init else nil_deref
         | Some l \<Rightarrow>
             rbind (lra_duration L l) (\<lambda>d.
               case FindFirst_AggOperator script of
                 Some g \<Rightarrow>
                   if \<not> has_unwrap l \<and> canSwapByWithout (agg_Fn g) (lra_Fn l) \<and> lra_Comparison l = None
                   then maybeComparison L (LRAPlanner (plan_agg_by init g) d (lra_Fn l)) (agg_Comparison g)
                   else rbind (maybeComparison L (plan_range init l d) (lra_Comparison l)) (\<lambda>p.
                          maybeComparison L (AggOpPlanner (plan_agg_by p g) d (agg_Fn g)) (agg_Comparison g))
               | None \<Rightarrow> maybeComparison L (plan_range init l d) (lra_Comparison l))))"

definition ram_Plan :: "'v lib \<Rightarrow> LogQLScript \<Rightarrow> 'v proc \<Rightarrow> 'v proc res" where
  "ram_Plan L script inp =
     (case GetStrSelector script of
        None \<Rightarrow> nil_deref
      | Some sel \<Rightarrow>
          rbind (plan_stages L (sel_Pipelines sel) inp) (\<lambda>p.
            rbind (planAggregators L script p) (\<lambda>p.
              Inr (if IsMatrix p then p else ResponseOptimizerPlanner (LimitPlanner p)))))"

subsection \<open>\<open>Plan\<close> (planner.go, planner\_binary\_ram.go)\<close>

definition MatrixPostProcessors :: "'v lib \<Rightarrow> LogQLScript \<Rightarrow> 'v proc \<Rightarrow> 'v proc res" where
  "MatrixPostProcessors L script p =
     (if \<not> IsMatrix p then Inr p
      else rbind (GetDuration L script) (\<lambda>d. Inr (FixPeriodPlanner (ZeroEaterPlanner p) d)))"

definition plan_single :: "'v lib \<Rightarrow> LogQLScript \<Rightarrow> 'v proc res" where
  "plan_single L script =
     rbind (cancelJsonAndLogFmt script) (\<lambda>script.
       rbind (case decidePlanMode L script of
                PlanClickhouse \<Rightarrow> Inr (ClickhouseGetter script True (at_StrSelector (ql_Head script) = None))
              | PlanInternal \<Rightarrow>
                  rbind (breakScript (GetBreakpoint script) script) (\<lambda>(ch, internal).
                    case internal of
                      None \<Rightarrow> nil_deref
                    | Some i \<Rightarrow> ram_Plan L i (ClickhouseGetter ch False (at_StrSelector (ql_Head ch) = None))))
         (MatrixPostProcessors L script))"

fun apply_binops :: "'v proc \<Rightarrow> (string \<times> ('v + 'v proc)) list \<Rightarrow> 'v proc" where
  "apply_binops p [] = p"
| "apply_binops p ((op, Inl v) # bs) = apply_binops (BinaryScalar p op v) bs"
| "apply_binops p ((op, Inr q) # bs) = apply_binops (BinaryExpr p op q) bs"

text \<open>An atom on its own: the script in its parentheses, or the script that is the atom.\<close>

definition atom_script :: "AtomExpr \<Rightarrow> LogQLScript" where
  "atom_script a = (case at_Paren a of Some p \<Rightarrow> p | None \<Rightarrow> LogQLScript a [])"

lemma atom_script_smaller: "IsBinary s \<Longrightarrow> a \<in> set (all_atoms s) \<Longrightarrow> size (atom_script a) < size s"
  using atom_script_size [of s a] paren_smaller [of a] atom_size [of a s]
  by (auto simp: atom_script_def split: option.splits)

function Plan :: "'v lib \<Rightarrow> LogQLScript \<Rightarrow> 'v proc res" where
  "Plan L s =
     (let s' = unwrapParens s in
      rbind (validateBinaryOps s') (\<lambda>_.
        if \<not> IsBinary s' then plan_single L s'
        else if decidePlanMode L s' = PlanClickhouse then MatrixPostProcessors L s' (ClickhouseBinary s')
        else
          rbind (Plan L (atom_script (ql_Head s'))) (\<lambda>current.
          rbind (mapM_res (\<lambda>b.
              if at_Scalar (bin_Right b) \<noteq> '''' then
                rbind (parse_float L (at_Scalar (bin_Right b))) (\<lambda>v. Inr (bin_Op b, Inl v))
              else rbind (Plan L (atom_script (bin_Right b))) (\<lambda>p. Inr (bin_Op b, Inr p)))
            (ql_BinOps s')) (\<lambda>ops.
          Inr (ZeroEaterPlanner (apply_binops current ops))))))"
  by pat_completeness auto
termination
proof (relation "measure (\<lambda>(L, s). size s)", goal_cases)
  case (2 L s s' u)
  then show ?case
    using atom_script_smaller [of s' "ql_Head s'"] unwrapParens_size [of s] by (auto simp: all_atoms_def)
next
  case (3 L s s' u current b)
  then show ?case
    using atom_script_smaller [of s' "bin_Right b"] unwrapParens_size [of s] by (auto simp: all_atoms_def)
qed simp

declare Plan.simps [simp del]

end
