(* ===== verification/Ram_Run.thy ===== *)
theory Ram_Run
  imports Logql_Plan
begin

section \<open>Running a planned query\<close>

text \<open>
  \<open>run\<close> gives the stream that the processor tree produces: the \<open>Process\<close> method of every
  processor, on the stream of its input. What ClickHouse delivers is the argument \<open>src\<close>. The
  planner context is shared and \<open>FixPeriodPlanner\<close> assigns to it, so \<open>run\<close> returns the context
  it leaves behind.
\<close>

type_synonym 'v source = "ram_ctx \<Rightarrow> LogQLScript \<Rightarrow> bool \<Rightarrow> 'v stream res"

fun run :: "'v lib \<Rightarrow> 'v source \<Rightarrow> 'v proc \<Rightarrow> ram_ctx \<Rightarrow> 'v stream res \<times> ram_ctx" where
  "run L src (ClickhouseGetter s fin matrix) ctx = (src ctx s fin, ctx)"
| "run L src (ClickhouseBinary s) ctx = (src ctx s True, ctx)"
| "run L src (LineFilterPlanner p f) ctx = apfst (LineFilter_Process L f) (run L src p ctx)"
| "run L src (LabelFormatPlanner p f) ctx = apfst (LabelFormat_Process L f) (run L src p ctx)"
| "run L src (LabelFilterPlanner p f) ctx = apfst (LabelFilter_Process L f) (run L src p ctx)"
| "run L src (LineFormatterPlanner p t) ctx = apfst (LineFormatter_Process L t) (run L src p ctx)"
| "run L src (UnwrapPlanner p l) ctx = apfst (Unwrap_Process L l) (run L src p ctx)"
| "run L src (ParserPlanner p op names vals) ctx = apfst (Parser_Process L op names vals) (run L src p ctx)"
| "run L src (DropPlanner p ps) ctx = apfst (Drop_Process L ps) (run L src p ctx)"
| "run L src (KeepPlanner p ps) ctx = apfst (Keep_Process L ps) (run L src p ctx)"
| "run L src (ByWithoutPlanner p by ls) ctx = apfst (ByWithout_Process L by ls) (run L src p ctx)"
| "run L src (LRAPlanner p d fn) ctx = apfst (LRA_Process L ctx d fn) (run L src p ctx)"
| "run L src (UnwrapAggPlanner p d fn) ctx = apfst (UnwrapAgg_Process L ctx d fn) (run L src p ctx)"
| "run L src (AggOpPlanner p d fn) ctx = apfst (AggOp_Process L ctx d fn) (run L src p ctx)"
| "run L src (ComparisonPlanner p op v) ctx = apfst (Comparison_Process L op v) (run L src p ctx)"
| "run L src (LimitPlanner p) ctx = apfst (Limit_Process L ctx) (run L src p ctx)"
| "run L src (ResponseOptimizerPlanner p) ctx = apfst (ResponseOptimizer_Process L) (run L src p ctx)"
| "run L src (ZeroEaterPlanner p) ctx = apfst (ZeroEater_Process L) (run L src p ctx)"
| "run L src (FixPeriodPlanner p d) ctx = apfst (FixPeriod_Process L ctx d) (run L src p (fix_ctx d ctx))"
| "run L src (BinaryScalar p op v) ctx = apfst (BinaryScalar_Process L op v) (run L src p ctx)"
| "run L src (BinaryExpr p op q) ctx =
     (case run L src p ctx of (l, ctx1) \<Rightarrow> apfst (BinaryExpr_Process L op l) (run L src q ctx1))"

subsection \<open>The stages as stream functions\<close>

interpretation line_filter: collecting L "line_filter_ops eval" "\<lambda>e. Err e \<noteq> None \<or> eval (Message e)" for L eval
  by unfold_locales (simp_all add: line_filter_ops_def collect_if_def send_collected_def after_nothing_def)

interpretation label_filter: collecting L "label_filter_ops fn" "\<lambda>e. fn (Labels e)" for L fn
  by unfold_locales (simp_all add: label_filter_ops_def collect_if_def send_collected_def after_nothing_def)

interpretation comparison: collecting L "comparison_ops L op v" "comparison_holds L op v" for L op v
  by unfold_locales (simp_all add: comparison_ops_def collect_if_def send_collected_def after_nothing_def)

interpretation by_without: pass_through L "by_without_ops L by ls" "\<lambda>e. None" "by_cutLabels L by ls" for L "by" ls
  by unfold_locales (simp_all add: by_without_ops_def send_batch_def after_nothing_def)

interpretation drop_stage: pass_through L "drop_ops L ps" "\<lambda>e. None" "drop_cutLabels L ps" for L ps
  by unfold_locales (simp_all add: drop_ops_def send_batch_def after_nothing_def)

interpretation keep_stage: pass_through L "keep_ops L ps" "\<lambda>e. None" "keep_filterLabels L ps" for L ps
  by unfold_locales (simp_all add: keep_ops_def send_batch_def after_nothing_def)

interpretation unwrap_stage: pass_through L "unwrap_ops L l" "\<lambda>e. fst (unwrap_entry L l e)" "\<lambda>e. snd (unwrap_entry L l e)" for L l
  by unfold_locales (simp_all add: unwrap_ops_def send_batch_def after_nothing_def)

interpretation parser_stage: pass_through L "parser_ops L op p" "\<lambda>e. fst (parse_entry L op p e)" "\<lambda>e. snd (parse_entry L op p e)" for L op p
  by unfold_locales (simp_all add: parser_ops_def send_batch_def after_nothing_def)

definition label_format_err :: "label_fn list \<Rightarrow> 'v LogEntry \<Rightarrow> go_error option" where
  "label_format_err fns e = (case apply_label_fns fns (Labels e) of Inl err \<Rightarrow> Some err | Inr m \<Rightarrow> None)"

definition label_format_new :: "label_fn list \<Rightarrow> 'v LogEntry \<Rightarrow> 'v LogEntry" where
  "label_format_new fns e = (case apply_label_fns fns (Labels e) of Inl err \<Rightarrow> e | Inr m \<Rightarrow> e\<lparr>Labels := m\<rparr>)"

interpretation label_format: pass_through L "label_format_ops fns" "label_format_err fns" "label_format_new fns" for L fns
  by unfold_locales (simp_all add: label_format_ops_def send_batch_def after_nothing_def
      label_format_err_def label_format_new_def split: sum.splits)

text \<open>
  the line filter. When the filter expression compiles to a predicate on messages, the stage
  delivers, batch by batch and in order, the entries whose message satisfies it; an entry that
  carries an error passes whatever its message.
\<close>

theorem LineFilter_stage:
  assumes "buildLineFilterEval L f = Inr eval"
  shows "LineFilter_Process L f (Inr bs) =
    Inr (map (filter (\<lambda>e. Err e \<noteq> None \<or> eval (Message e))) bs)"
  by (simp add: LineFilter_Process_def assms WrapProcess_def line_filter.stream)

definition example_line_filter :: LineFilter where
  "example_line_filter =
     \<lparr>lf_Fn = ''|='', lf_Exp = LineFilterExp (LineFilterHead None (Some (CHR 0x22 # ''err'' @ [CHR 0x22]))) '''' None\<rparr>"

definition entry_at :: "int \<Rightarrow> 64 word \<Rightarrow> (string \<times> string) list \<Rightarrow> string \<Rightarrow> int \<Rightarrow> int LogEntry" where
  "entry_at t fp labels msg v =
     \<lparr>TimestampNS = t, Fingerprint = fp, Labels = Some labels, Message = msg, Value = v, Err = None\<rparr>"

theorem LineFilter_stage_witness:
  "LineFilter_Process int_lib example_line_filter (Inr [[entry_at 1 7 [] ''an error'' 0, entry_at 2 7 [] ''fine'' 0]]) =
    Inr [[entry_at 1 7 [] ''an error'' 0]]"
proof -
  have "buildLineFilterEval int_lib example_line_filter = Inr (\<lambda>msg. go_contains ''err'' msg)"
    by (simp add: buildLineFilterEval_def example_line_filter_def buildSimpleEval_def Unquote_def int_lib_def)
  from LineFilter_stage [OF this] show ?thesis by (simp add: entry_at_def)
qed

text \<open>The entries of a stream in order; those of a request that failed are none.\<close>

definition entries_of :: "'v stream res \<Rightarrow> 'v LogEntry list" where
  "entries_of r = (case r of Inl e \<Rightarrow> [] | Inr bs \<Rightarrow> concat bs)"

text \<open>
  the matrix stages lose errors. The entry by which a failing stage reports its error has the
  value zero and no labels, so the zero filter that follows every in-process matrix drops it,
  and the request ends as if the stream had simply stopped. The same holds for a comparison
  that zero does not satisfy and for a label filter that the empty label set does not satisfy.
\<close>

theorem errors_are_dropped:
  assumes "f_eq L (f_zero L) (f_zero L)" "\<not> comparison_holds L op v (err_entry L x)"
    "makeFilter L f = Inr fn" "\<not> fn None"
  shows "ZeroEater_Process L (Inr (bs @ [[err_entry L x]])) = ZeroEater_Process L (Inr bs) \<and>
    entries_of (Comparison_Process L op v (Inr (bs @ [[err_entry L x]]))) =
      entries_of (Comparison_Process L op v (Inr bs)) \<and>
    entries_of (LabelFilter_Process L f (Inr (bs @ [[err_entry L x]]))) =
      entries_of (LabelFilter_Process L f (Inr bs))"
proof -
  have "wrap_loop L (zero_eater_ops L) (bs @ [[err_entry L x]]) [] = wrap_loop L (zero_eater_ops L) bs []"
    using assms(1)
  proof (induction bs)
    case Nil
    then show ?case
      by (simp add: zero_eater_ops_def wrap_batch_plain collect_if_def after_nothing_def err_entry_def)
  next
    case (Cons b bs)
    have "plain_batch (zero_eater_ops L) b acc = Inr (b, acc @ filter (\<lambda>e. \<not> f_eq L (Value e) (f_zero L)) b)" for acc
      by (induction b arbitrary: acc) (simp_all add: zero_eater_ops_def collect_if_def)
    with Cons show ?case by (simp add: wrap_batch_plain) (simp add: zero_eater_ops_def)
  qed
  moreover have "\<not> fn (Labels (err_entry L x))" using assms(4) by (simp add: err_entry_def)
  ultimately show ?thesis
    using assms(2,3)
    by (simp add: ZeroEater_Process_def Comparison_Process_def LabelFilter_Process_def WrapProcess_def
        entries_of_def comparison.stream label_filter.stream)
qed

definition example_label_filter :: LabelFilter where
  "example_label_filter =
     LabelFilter (Head None (Some \<lparr>slf_Label = ''level'', slf_Fn = ''='',
       slf_StrVal = Some (CHR 0x22 # ''warn'' @ [CHR 0x22]), slf_NumVal = ''''\<rparr>)) '''' None"

theorem errors_are_dropped_witness:
  "ZeroEater_Process int_lib (Inr ([[entry_at 1 7 [] '''' 5]] @ [[err_entry int_lib (ErrMsg ''Too many time-series'')]])) =
   ZeroEater_Process int_lib (Inr [[entry_at 1 7 [] '''' 5]])"
proof -
  have "makeFilter int_lib example_label_filter = Inr (\<lambda>m. ''warn'' = label_get m ''level'')"
    by (simp add: example_label_filter_def stringSimpleFilter_def Unquote_def int_lib_def)
  moreover have "f_eq int_lib (f_zero int_lib) (f_zero int_lib)"
    "\<not> comparison_holds int_lib ''>'' 3 (err_entry int_lib (ErrMsg ''Too many time-series''))"
    by (simp_all add: int_lib_def comparison_holds_def err_entry_def)
  ultimately show ?thesis
    using errors_are_dropped [of int_lib "''>''" 3 "ErrMsg ''Too many time-series''" example_label_filter
        "\<lambda>m. ''warn'' = label_get m ''level''" "[[entry_at 1 7 [] '''' 5]]"]
    by (simp add: label_get_def)
qed

text \<open>
  \<open>label_format\<close> with a constant fails on every complete result of ClickHouse. The last batch
  the getter sends ends with the \<open>io.EOF\<close> entry, whose label map is nil; assigning the constant
  to it panics, the batch is lost and an error entry takes its place.
\<close>

theorem label_format_fails_at_eof:
  assumes "\<forall>b\<in>set bs. \<forall>e\<in>set b. Labels e \<noteq> None" "\<forall>e\<in>set b. Labels e \<noteq> None" "0 < length fns"
    "\<forall>f\<in>set fns. \<exists>l c. f = SetConst l c"
  shows "wrap_loop L (label_format_ops fns) (bs @ [b @ [err_entry L EOF]]) () =
    map (map (label_format_new fns)) bs @ [[err_entry L (Panic ''assignment to entry in nil map'')]]"
proof -
  have good: "label_format_err fns e = None" if lab: "Labels e \<noteq> None" for e :: "'a LogEntry"
  proof -
    have "\<exists>m'. apply_label_fns fns (Some m) = Inr (Some m')" for m
      using assms(4) by (induction fns arbitrary: m) (fastforce simp: label_put_def)+
    moreover obtain m where "Labels e = Some m" using lab by blast
    ultimately show ?thesis by (metis label_format_err_def sum.case(2))
  qed
  obtain f fs where fs: "fns = f # fs" using assms(3) by (cases fns) auto
  obtain l c where f: "f = SetConst l c" using assms(4) fs by auto
  have eof: "label_format_err fns (err_entry L EOF) = Some (Panic ''assignment to entry in nil map'')"
    by (simp add: label_format_err_def fs f label_put_def err_entry_def)
  have nb: "\<not> label_format.bad fns e" if "Labels e \<noteq> None" for e :: "'a LogEntry"
    using good [OF that] by (simp add: label_format.bad_def)
  have "label_format.bad fns (err_entry L EOF)" by (simp add: label_format.bad_def eof fatal_def)
  then have "find (label_format.bad fns) (b @ [err_entry L EOF]) = Some (err_entry L EOF)"
    using assms(2) nb by (induction b) simp_all
  moreover have "label_format.out_batch fns b' = map (label_format_new fns) b'" if "b' \<in> set bs" for b'
    using assms(1) that good by (auto simp: label_format.out_batch_def filter_id_conv intro!: arg_cong [of _ _ "map _"])
  ultimately show ?thesis
    using label_format.stream_bad [of bs fns "b @ [err_entry L EOF]" "err_entry L EOF" L "[]" "()"] assms(1) nb eof
    by simp
qed

theorem label_format_fails_at_eof_witness:
  "wrap_loop int_lib (label_format_ops [SetConst ''env'' ''prod''])
      ([[entry_at 1 7 [] ''a'' 0]] @ [[entry_at 2 7 [] ''b'' 0] @ [err_entry int_lib EOF]]) () =
    map (map (label_format_new [SetConst ''env'' ''prod''])) [[entry_at 1 7 [] ''a'' 0]] @
    [[err_entry int_lib (Panic ''assignment to entry in nil map'')]]"
  by (rule label_format_fails_at_eof) (simp_all add: entry_at_def)

subsection \<open>Limit and regrouping\<close>

lemma limit_plain: "plain_batch (limit_ops n) b s = Inr (b, s)"
  by (induction b) (simp_all add: limit_ops_def)

lemma limit_zero: "wrap_loop L (limit_ops 0) bs s = bs"
  by (induction bs arbitrary: s) (simp_all add: wrap_batch_plain limit_plain, simp_all add: limit_ops_def after_nothing_def)

lemma limit_loop:
  assumes "0 < n" "0 \<le> sent" "sent \<le> n"
  shows "concat (wrap_loop L (limit_ops n) bs sent) = take (nat (n - sent)) (concat bs)"
  using assms
proof (induction bs arbitrary: sent)
  case Nil
  then show ?case by (simp add: limit_ops_def after_nothing_def)
next
  case (Cons b bs)
  let ?slice = "OnAfterEntriesSlice (limit_ops n) sent b"
  have loop: "concat (wrap_loop L (limit_ops n) (b # bs) sent) =
      (case ?slice of (out, err, s) \<Rightarrow>
        if fatal err then concat (out @ [[err_entry L (the err)]]) else concat (out @ wrap_loop L (limit_ops n) bs s))"
    by (simp add: wrap_batch_plain limit_plain split: prod.splits)
  consider "sent = n" | "sent < n" "sent + int (length b) < n" | "sent < n" "n \<le> sent + int (length b)"
    using Cons.prems by linarith
  then show ?case
  proof cases
    case 1
    then have "?slice = ([], None, sent)" using Cons.prems by (simp add: limit_ops_def)
    then show ?thesis using loop Cons.IH [of sent] Cons.prems 1 by simp
  next
    case 2
    then have "?slice = ([b], None, sent + int (length b))" using Cons.prems by (simp add: limit_ops_def)
    moreover have "nat (n - sent) = length b + nat (n - (sent + int (length b)))" using 2 by simp
    ultimately show ?thesis using loop Cons.IH [of "sent + int (length b)"] Cons.prems 2 by simp
  next
    case 3
    then have "?slice = ([take (nat (n - sent)) b], None, n)" using Cons.prems by (simp add: limit_ops_def)
    moreover have "nat (n - sent) \<le> length b" using 3 by simp
    ultimately show ?thesis using loop Cons.IH [of n] Cons.prems 3 by simp
  qed
qed

text \<open>
  the limit. A positive limit delivers exactly the first \<open>limit\<close> entries of the stream, over
  all batches; limit zero delivers everything unchanged.
\<close>

theorem Limit_stage:
  "0 \<le> ctx_Limit ctx \<Longrightarrow>
   entries_of (Limit_Process L ctx (Inr bs)) =
     (if ctx_Limit ctx = 0 then concat bs else take (nat (ctx_Limit ctx)) (concat bs))"
  using limit_loop [of "ctx_Limit ctx" 0 L bs]
  by (auto simp: Limit_Process_def WrapProcess_def entries_of_def limit_zero)

definition example_ctx :: ram_ctx where
  "example_ctx = \<lparr>ctx_From = 1000, ctx_To = 1060, ctx_Step = 10, ctx_Limit = 3, ctx_Now = \<lambda>i. 5000\<rparr>"

theorem Limit_stage_witness:
  "entries_of (Limit_Process int_lib example_ctx
     (Inr [[entry_at 1 7 [] ''a'' 0, entry_at 2 7 [] ''b'' 0], [entry_at 3 7 [] ''c'' 0, entry_at 4 7 [] ''d'' 0]])) =
   [entry_at 1 7 [] ''a'' 0, entry_at 2 7 [] ''b'' 0, entry_at 3 7 [] ''c'' 0]"
proof -
  have "0 \<le> ctx_Limit example_ctx" by (simp add: example_ctx_def)
  then show ?thesis
    by (subst Limit_stage) (simp_all add: example_ctx_def numeral_3_eq_3)
qed

text \<open>The regrouping keeps, per fingerprint, the entries in their order.\<close>

definition with_fp :: "64 word \<Rightarrow> 'v LogEntry list \<Rightarrow> 'v LogEntry list" where
  "with_fp k es = filter (\<lambda>e. Fingerprint e = k) es"

definition fp_map_ok :: "'v fp_map \<Rightarrow> bool" where
  "fp_map_ok m \<longleftrightarrow> go_map m \<and> (\<forall>(k, es)\<in>set m. es \<noteq> [] \<and> (\<forall>e\<in>set es. Fingerprint e = k))"

abbreviation fp_get :: "'v fp_map \<Rightarrow> 64 word \<Rightarrow> 'v LogEntry list" where
  "fp_get m k \<equiv> (case map_of m k of None \<Rightarrow> [] | Some es \<Rightarrow> es)"

lemma set_map_put: "set (map_put k v m) \<subseteq> insert (k, v) (set m)"
  by (induction k v m rule: map_put.induct) auto

lemma fp_add_ok: "fp_map_ok m \<Longrightarrow> fp_map_ok (fp_add e m)"
proof -
  assume m: "fp_map_ok m"
  let ?k = "Fingerprint e" and ?es = "fp_get m (Fingerprint e) @ [e]"
  have g: "go_map m" and all: "\<And>k es. (k, es) \<in> set m \<Longrightarrow> es \<noteq> [] \<and> (\<forall>x\<in>set es. Fingerprint x = k)"
    using m unfolding fp_map_ok_def by blast+
  have old: "\<forall>x\<in>set (fp_get m ?k). Fingerprint x = ?k"
  proof (cases "map_of m ?k")
    case (Some es)
    then show ?thesis using all [OF map_of_SomeD [OF Some]] by simp
  qed simp
  have eq: "fp_add e m = map_put ?k ?es m" by (simp add: fp_add_def)
  have "es \<noteq> [] \<and> (\<forall>x\<in>set es. Fingerprint x = k)" if kes: "(k, es) \<in> set (map_put ?k ?es m)" for k es
  proof -
    have "(k, es) = (?k, ?es) \<or> (k, es) \<in> set m" using kes set_map_put [of ?k ?es m] by blast
    then show ?thesis
    proof
      assume "(k, es) = (?k, ?es)"
      then have "k = ?k" and "es = ?es" by (simp_all only: prod.inject)
      with old show ?thesis by (simp only: set_append list.set ball_Un) simp
    qed (rule all)
  qed
  then show ?thesis unfolding eq fp_map_ok_def using go_map_put [OF g] by blast
qed

lemma fp_add_get: "fp_get (fp_add e m) k = (if k = Fingerprint e then fp_get m k @ [e] else fp_get m k)"
  by (simp add: fp_add_def)

lemma with_fp_concat:
  assumes "fp_map_ok m"
  shows "with_fp k (concat (map snd m)) = fp_get m k"
  using assms
proof (induction m)
  case Nil
  then show ?case by (simp add: with_fp_def)
next
  case (Cons p m)
  obtain k' es where p: "p = (k', es)" by force
  have ok: "fp_map_ok m" and es: "\<forall>e\<in>set es. Fingerprint e = k'" and no: "map_of m k' = None"
    using Cons.prems p by (auto simp: fp_map_ok_def go_map_def map_of_eq_None_iff)
  have "with_fp k es = (if k = k' then es else [])"
    using es by (auto simp: with_fp_def filter_id_conv filter_empty_conv)
  with Cons.IH [OF ok] p no show ?case by (auto simp: with_fp_def)
qed

lemma optimizer_batch:
  "plain_batch optimizer_ops b (m, n) = Inr (b, (fold fp_add b m, n + length b))"
  by (induction b arbitrary: m n) (simp_all add: optimizer_ops_def)

lemma fold_fp_add:
  "fp_map_ok m \<Longrightarrow> fp_map_ok (fold fp_add b m) \<and> fp_get (fold fp_add b m) k = fp_get m k @ with_fp k b"
  by (induction b arbitrary: m) (auto simp: fp_add_ok fp_add_get with_fp_def)

lemma with_fp_append: "with_fp k (xs @ ys) = with_fp k xs @ with_fp k ys"
  by (simp add: with_fp_def)

lemma optimizer_loop:
  assumes "fp_map_ok m" "n = 0 \<longrightarrow> m = []"
  shows "with_fp k (concat (wrap_loop L optimizer_ops bs (m, n))) = fp_get m k @ with_fp k (concat bs) \<and>
    (\<forall>b\<in>set (wrap_loop L optimizer_ops bs (m, n)). b \<noteq> [] \<and> (\<exists>k. \<forall>e\<in>set b. Fingerprint e = k))"
  using assms
proof (induction bs arbitrary: m n)
  case Nil
  then show ?case
    by (auto simp: optimizer_ops_def with_fp_concat fp_map_ok_def) (auto simp: with_fp_def)
next
  case (Cons b bs)
  note f = fold_fp_add [OF Cons.prems(1), of b k]
  let ?m = "fold fp_add b m"
  have loop: "wrap_loop L optimizer_ops (b # bs) (m, n) =
      (if n + length b < 3000 then wrap_loop L optimizer_ops bs (?m, n + length b)
       else map snd ?m @ wrap_loop L optimizer_ops bs ([], 0))"
    by (simp add: wrap_batch_plain optimizer_batch) (simp add: optimizer_ops_def)
  have nil_ok: "fp_map_ok ([] :: 'a fp_map)" by (simp add: fp_map_ok_def go_map_def)
  have empty: "n + length b = 0 \<longrightarrow> ?m = []" using Cons.prems(2) by auto
  show ?case
  proof (cases "n + length b < 3000")
    case True
    then show ?thesis
      using Cons.IH [OF f [THEN conjunct1] empty] f loop by (simp add: with_fp_append)
  next
    case False
    have "\<forall>b\<in>set (map snd ?m). b \<noteq> [] \<and> (\<exists>k. \<forall>e\<in>set b. Fingerprint e = k)"
      using f by (fastforce simp: fp_map_ok_def)
    then show ?thesis
      using Cons.IH [OF nil_ok, of 0] f loop False with_fp_concat [of ?m k]
      by (auto simp: with_fp_append simp del: fold_simps)
  qed
qed

text \<open>
  regrouping of the response. For every fingerprint the delivered entries are those of the
  input in the same order, none lost and none added, and each delivered batch is non-empty and
  belongs to one fingerprint.
\<close>

theorem ResponseOptimizer_stage:
  "with_fp k (entries_of (ResponseOptimizer_Process L (Inr bs))) = with_fp k (concat bs) \<and>
   (\<exists>out. ResponseOptimizer_Process L (Inr bs) = Inr out \<and>
     list_all (\<lambda>b. b \<noteq> [] \<and> (\<exists>fp. list_all (\<lambda>e. Fingerprint e = fp) b)) out)"
proof -
  have "fp_map_ok ([] :: 'a fp_map)" by (simp add: fp_map_ok_def go_map_def)
  from optimizer_loop [OF this, of 0 k L bs] show ?thesis
    by (simp add: ResponseOptimizer_Process_def WrapProcess_def entries_of_def list_all_iff)
qed

end
