(* ===== verification/Ram_Aggregate_Correct.thy ===== *)
theory Ram_Aggregate_Correct
  imports Ram_Run
begin

section \<open>Correctness of the aggregations in process\<close>

text \<open>
  The locale \<open>bin_aggregator\<close> is the contract between the loop of \<open>AggregatorPlanner\<close> and the
  planners that use it: adding an entry updates the two cells of its bin, and the final pass
  works bin by bin. Under it the loop delivers, per series and bin, the fold of the entries of
  that series in that bin. The range aggregations, the vector aggregations and the aggregations
  of unwrapped values are interpretations.
\<close>

subsection \<open>Arrays of cells\<close>

definition cells :: "(nat \<Rightarrow> 'v \<times> 'v) \<Rightarrow> nat \<Rightarrow> nat \<Rightarrow> 'v list" where
  "cells p a b = concat (map (\<lambda>i. [fst (p i), snd (p i)]) [a..<b])"

lemma cells_empty [simp]: "b \<le> a \<Longrightarrow> cells p a b = []"
  by (simp add: cells_def)

lemma cells_Cons: "a < b \<Longrightarrow> cells p a b = fst (p a) # snd (p a) # cells p (Suc a) b"
  by (simp add: cells_def upt_conv_Cons)

lemma length_cells [simp]: "length (cells p a b) = 2 * (b - a)"
  by (simp add: cells_def length_concat o_def sum_list_triv)

lemma cells_nth:
  assumes "i < n"
  shows "cells p 0 n ! (2 * i) = fst (p i)" "cells p 0 n ! (2 * i + 1) = snd (p i)"
proof -
  have "cells p a n ! (2 * (i - a)) = fst (p i) \<and> cells p a n ! (2 * (i - a) + 1) = snd (p i)" if "a \<le> i" for a
    using that
  proof (induction "i - a" arbitrary: a)
    case 0
    then show ?case using assms by (simp add: cells_Cons)
  next
    case (Suc k)
    then have "i - a = Suc (i - Suc a)" by simp
    then show ?case using Suc.hyps(1) [of "Suc a"] Suc.hyps(2) Suc.prems assms by (simp add: cells_Cons)
  qed
  from this [of 0] show "cells p 0 n ! (2 * i) = fst (p i)" "cells p 0 n ! (2 * i + 1) = snd (p i)" by simp_all
qed

lemma cells_update:
  assumes "i < n"
  shows "(cells p 0 n)[2 * i := v, 2 * i + 1 := c] = cells (p(i := (v, c))) 0 n"
proof (rule nth_equalityI)
  fix k assume "k < length ((cells p 0 n)[2 * i := v, 2 * i + 1 := c])"
  then have k: "k < 2 * n" by simp
  obtain j where j: "k = 2 * j \<or> k = 2 * j + 1" by (metis oddE evenE)
  then have "j < n" using k by auto
  then show "(cells p 0 n)[2 * i := v, 2 * i + 1 := c] ! k = cells (p(i := (v, c))) 0 n ! k"
    using j assms cells_nth [of j n p] cells_nth [of j n "p(i := (v, c))"]
    by (elim disjE) (auto simp: nth_list_update)
qed simp

lemma cells_bin_update:
  assumes "i < n"
  shows "bin_update (int i * 2) f (cells p 0 n) = Inr (cells (p(i := f (fst (p i)) (snd (p i)))) 0 n)"
proof -
  obtain v c where vc: "f (fst (p i)) (snd (p i)) = (v, c)" by force
  have i: "nat (int i * 2) = 2 * i" by simp
  show ?thesis using assms cells_nth [OF assms, of p] cells_update [OF assms, of p v c]
    by (simp add: bin_update_def i vc)
qed

lemma cells_map_bins: "map_bins f a (cells p a b) = cells (\<lambda>i. (f i (fst (p i)) (snd (p i)), snd (p i))) a b"
proof (induction "b - a" arbitrary: a)
  case (Suc k)
  then show ?case using Suc.hyps(1) [of "Suc a"] by (simp add: cells_Cons)
qed simp

lemma cells_bin_entries:
  "bin_entries L t0 d k l a (cells p a b) =
     map (\<lambda>i. \<lparr>TimestampNS = t0 + int i * d, Fingerprint = k, Labels = l, Message = '''', Value = fst (p i), Err = None\<rparr>)
       (filter (\<lambda>i. f_lt L (f_zero L) (snd (p i))) [a..<b])"
proof (induction "b - a" arbitrary: a)
  case (Suc k)
  then have "a < b" by simp
  then show ?case using Suc.hyps(1) [of "Suc a"] Suc.hyps(2) by (simp add: cells_Cons upt_conv_Cons)
qed simp

lemma replicate_cells: "replicate (n * 2) z = cells (\<lambda>i. (z, z)) 0 n"
proof -
  have "cells (\<lambda>i. (z, z)) a b = replicate ((b - a) * 2) z" for a b
  proof (induction "b - a" arbitrary: a)
    case (Suc k)
    then have e: "b - a = Suc (b - Suc a)" by simp
    show ?case using Suc.hyps(1) [of "Suc a"] Suc.hyps(2) e by (simp add: cells_Cons)
  qed simp
  then show ?thesis by simp
qed

subsection \<open>What an aggregation delivers\<close>

definition in_bin :: "int \<Rightarrow> int \<Rightarrow> 64 word \<Rightarrow> nat \<Rightarrow> 'v LogEntry \<Rightarrow> bool" where
  "in_bin lo d k i e \<longleftrightarrow> Fingerprint e = k \<and> (TimestampNS e - lo) div d = int i"

definition in_window :: "int \<Rightarrow> int \<Rightarrow> nat \<Rightarrow> 'v LogEntry \<Rightarrow> bool" where
  "in_window lo d n e \<longleftrightarrow> lo \<le> TimestampNS e \<and> (TimestampNS e - lo) div d < int n"

text \<open>The two cells of a bin after the entries \<open>es\<close>.\<close>

definition cell :: "'v lib \<Rightarrow> ('v LogEntry \<Rightarrow> 'v \<Rightarrow> 'v \<Rightarrow> 'v \<times> 'v) \<Rightarrow> int \<Rightarrow> int \<Rightarrow> 'v batch \<Rightarrow> 64 word \<Rightarrow> nat \<Rightarrow> 'v \<times> 'v" where
  "cell L upd lo d es k i = foldl (\<lambda>(v, c) e. upd e v c) (f_zero L, f_zero L) (filter (in_bin lo d k i) es)"

definition series_labels :: "'v batch \<Rightarrow> 64 word \<Rightarrow> (string \<times> string) list option" where
  "series_labels es k = Labels (hd (filter (\<lambda>e. Fingerprint e = k) es))"

text \<open>The entries of series \<open>k\<close> for given cells.\<close>

definition series_out ::
    "'v lib \<Rightarrow> (nat \<Rightarrow> 'v \<Rightarrow> 'v \<Rightarrow> 'v) \<Rightarrow> int \<Rightarrow> int \<Rightarrow> nat \<Rightarrow> 64 word \<Rightarrow> (string \<times> string) list option \<Rightarrow> (nat \<Rightarrow> 'v \<times> 'v) \<Rightarrow> 'v batch" where
  "series_out L fin lo d n k l p =
     map (\<lambda>i. \<lparr>TimestampNS = lo + int i * d, Fingerprint = k, Labels = l, Message = '''',
               Value = fin i (fst (p i)) (snd (p i)), Err = None\<rparr>)
       (filter (\<lambda>i. f_lt L (f_zero L) (snd (p i))) [0..<n])"

definition agg_inv ::
    "'v lib \<Rightarrow> ('v LogEntry \<Rightarrow> 'v \<Rightarrow> 'v \<Rightarrow> 'v \<times> 'v) \<Rightarrow> int \<Rightarrow> int \<Rightarrow> nat \<Rightarrow> 'v batch \<Rightarrow> 'v agg_state \<Rightarrow> bool" where
  "agg_inv L upd lo d n es res \<longleftrightarrow> go_map res \<and>
     (\<forall>k. map_of res k = (if k \<in> Fingerprint ` set es then Some (series_labels es k, cells (cell L upd lo d es k) 0 n) else None))"

lemma agg_inv_length: "agg_inv L upd lo d n es res \<Longrightarrow> length res = card (Fingerprint ` set es)"
proof -
  assume inv: "agg_inv L upd lo d n es res"
  have keys: "k \<in> fst ` set res \<longleftrightarrow> k \<in> Fingerprint ` set es" for k
  proof -
    have "map_of res k = None \<longleftrightarrow> k \<notin> Fingerprint ` set es" using inv by (simp add: agg_inv_def)
    then show ?thesis by (simp add: map_of_eq_None_iff)
  qed
  then have "fst ` set res = Fingerprint ` set es" by blast
  then show ?thesis using inv by (metis agg_inv_def go_map_def distinct_card length_map set_map)
qed

lemma cell_snoc:
  "cell L upd lo d (es @ [e]) k =
     (if Fingerprint e = k \<and> 0 \<le> (TimestampNS e - lo) div d
      then (cell L upd lo d es k)(nat ((TimestampNS e - lo) div d) :=
        upd e (fst (cell L upd lo d es k (nat ((TimestampNS e - lo) div d)))) (snd (cell L upd lo d es k (nat ((TimestampNS e - lo) div d)))))
      else cell L upd lo d es k)"
  by (auto simp: cell_def in_bin_def fun_eq_iff split: prod.split)

lemma series_labels_snoc:
  "series_labels (es @ [e]) k =
     (if k \<in> Fingerprint ` set es then series_labels es k else if k = Fingerprint e then Labels e else series_labels es k)"
proof -
  have "filter (\<lambda>e. Fingerprint e = k) es = [] \<longleftrightarrow> k \<notin> Fingerprint ` set es" by (auto simp: filter_empty_conv)
  then show ?thesis by (auto simp: series_labels_def hd_append)
qed

lemma no_series: "k \<notin> Fingerprint ` set es \<Longrightarrow> filter (in_bin lo d k i) es = []"
  by (induction es) (auto simp: in_bin_def)

lemma concat_filter_nonempty: "concat (filter (\<lambda>b. b \<noteq> []) bs) = concat bs"
  by (induction bs) auto

lemma concat_series:
  assumes "go_map res" "\<And>k l vs. list_all (\<lambda>e. Fingerprint e = k) (B k l vs)"
  shows "filter (\<lambda>e. Fingerprint e = k) (concat (map (\<lambda>(k, l, vs). B k l vs) res)) =
    (case map_of res k of None \<Rightarrow> [] | Some (l, vs) \<Rightarrow> B k l vs)"
  using assms(1)
proof (induction res)
  case (Cons x res)
  obtain k' l vs where x: "x = (k', l, vs)" by (cases x)
  have ok: "go_map res" and no: "map_of res k' = None"
    using Cons.prems x by (auto simp: go_map_def map_of_eq_None_iff)
  have "filter (\<lambda>e. Fingerprint e = k) (B k' l vs) = (if k = k' then B k' l vs else [])"
    using assms(2) [of k' l vs] by (auto simp: list_all_iff filter_id_conv filter_empty_conv)
  with Cons.IH [OF ok] x no show ?case by auto
qed simp

locale bin_aggregator =
  fixes L :: "'v lib" and ops :: "'v agg_ops" and lo d :: int and n :: nat
    and upd :: "'v LogEntry \<Rightarrow> 'v \<Rightarrow> 'v \<Rightarrow> 'v \<times> 'v" and fin :: "nat \<Rightarrow> 'v \<Rightarrow> 'v \<Rightarrow> 'v"
  assumes add_bin: "0 < d \<Longrightarrow> in_window lo d n e \<Longrightarrow> length vs = 2 * n \<Longrightarrow>
      ag_addValue ops e vs = bin_update ((TimestampNS e - lo) div d * 2) (upd e) vs"
    and init_id: "ag_initStream ops vs = Inr vs"
    and final: "ag_finalize ops vs = map_bins fin 0 vs"
begin

lemma entry_step:
  assumes d_pos: "0 < d" and inv: "agg_inv L upd lo d n es res" and e: "in_window lo d n e" "Err e = None"
    and card: "card (Fingerprint ` set (es @ [e])) \<le> 2000"
  shows "\<exists>res'. agg_OnEntry L ops (int n) res e = (None, e, res') \<and> agg_inv L upd lo d n (es @ [e]) res'"
proof -
  let ?k = "Fingerprint e" and ?i = "nat ((TimestampNS e - lo) div d)"
  let ?p = "cell L upd lo d es ?k" and ?l = "series_labels (es @ [e]) ?k"
  let ?st = "(?l, cells (cell L upd lo d (es @ [e]) ?k) 0 n)"
  have i: "int ?i = (TimestampNS e - lo) div d" "?i < n" "0 \<le> (TimestampNS e - lo) div d"
    using e(1) d_pos by (auto simp: in_window_def pos_imp_zdiv_nonneg_iff nat_less_iff)
  have add: "ag_addValue ops e (cells ?p 0 n) = Inr (snd ?st)"
    using add_bin [OF d_pos e(1), of "cells ?p 0 n"] cells_bin_update [OF i(2), of "upd e" ?p] i by (simp add: cell_snoc)
  have fresh: "?k \<notin> Fingerprint ` set es \<Longrightarrow> ?p = (\<lambda>i. (f_zero L, f_zero L)) \<and> length res < 2000"
  proof -
    assume new: "?k \<notin> Fingerprint ` set es"
    then have "filter (in_bin lo d ?k i) es = []" for i by (rule no_series)
    moreover have "card (Fingerprint ` set (es @ [e])) = Suc (length res)" using agg_inv_length [OF inv] new by simp
    ultimately show ?thesis using card by (simp add: cell_def [abs_def])
  qed
  have "agg_OnEntry L ops (int n) res e = (None, e, map_put ?k ?st res)"
  proof (cases "?k \<in> Fingerprint ` set es")
    case True
    then have "map_of res ?k = Some (series_labels es ?k, cells ?p 0 n)" using inv by (simp add: agg_inv_def)
    then show ?thesis using True e(2) add by (simp add: agg_OnEntry_def series_labels_snoc)
  next
    case False
    then have "map_of res ?k = None" using inv by (simp add: agg_inv_def)
    then show ?thesis using False fresh [OF False] e(2) add by (simp add: agg_OnEntry_def init_id replicate_cells series_labels_snoc)
  qed
  moreover have "agg_inv L upd lo d n (es @ [e]) (map_put ?k ?st res)"
    using inv by (auto simp: agg_inv_def series_labels_snoc cell_snoc)
  ultimately show ?thesis by blast
qed

lemma batch_step:
  assumes "0 < d" "agg_inv L upd lo d n es res" "list_all (\<lambda>e. Err e = Some EOF \<or> Err e = None \<and> in_window lo d n e) b"
    "card (Fingerprint ` set (es @ filter (\<lambda>e. Err e = None) b)) \<le> 2000"
  shows "\<exists>res'. plain_batch (aggregator_ops L ops (int n) lo d) b res = Inr (b, res') \<and>
    agg_inv L upd lo d n (es @ filter (\<lambda>e. Err e = None) b) res'"
  using assms(2-)
proof (induction b arbitrary: es res)
  case (Cons e b)
  show ?case
  proof (cases "Err e = None")
    case False
    then have "agg_OnEntry L ops (int n) res e = (Some EOF, e, res)" using Cons.prems(2) by (auto simp: agg_OnEntry_def)
    then show ?thesis using Cons.IH [of es res] Cons.prems False by (auto simp: aggregator_ops_def)
  next
    case True
    have "card (Fingerprint ` set (es @ [e])) \<le> card (Fingerprint ` set (es @ filter (\<lambda>e. Err e = None) (e # b)))"
      using True by (intro card_mono) auto
    then obtain res1 where r: "agg_OnEntry L ops (int n) res e = (None, e, res1)" "agg_inv L upd lo d n (es @ [e]) res1"
      using entry_step [OF assms(1) Cons.prems(1) _ True] Cons.prems(2,3) True by force
    have "card (Fingerprint ` set ((es @ [e]) @ filter (\<lambda>e. Err e = None) b)) \<le> 2000" using Cons.prems(3) True by simp
    with Cons.IH [OF r(2)] Cons.prems(2) True r(1) show ?thesis by (auto simp: aggregator_ops_def)
  qed
qed simp

lemma delivers:
  assumes d_pos: "0 < d" and "list_all (\<lambda>e. Err e = Some EOF \<or> Err e = None \<and> in_window lo d n e) (concat bs)"
    "card (Fingerprint ` set (filter (\<lambda>e. Err e = None) (concat bs))) \<le> 2000"
    "\<not> f_lt L (f_zero L) (f_zero L)" "es = filter (\<lambda>e. Err e = None) (concat bs)"
  shows "filter (\<lambda>e. Fingerprint e = k) (concat (wrap_loop L (aggregator_ops L ops (int n) lo d) bs [])) =
    series_out L fin lo d n k (series_labels es k) (cell L upd lo d es k)"
proof -
  let ?ops = "aggregator_ops L ops (int n) lo d" and ?good = "filter (\<lambda>e. Err e = None)"
  have loop: "\<exists>res'. wrap_loop L ?ops bs res = agg_OnAfterEntries L ops lo d res' \<and> agg_inv L upd lo d n (es0 @ ?good (concat bs)) res'"
    if "agg_inv L upd lo d n es0 res" "list_all (\<lambda>e. Err e = Some EOF \<or> Err e = None \<and> in_window lo d n e) (concat bs)"
      "card (Fingerprint ` set (es0 @ ?good (concat bs))) \<le> 2000" for es0 res
    using that
  proof (induction bs arbitrary: es0 res)
    case Nil
    then show ?case by (auto simp: aggregator_ops_def)
  next
    case (Cons b bs)
    have "card (Fingerprint ` set (es0 @ ?good b)) \<le> card (Fingerprint ` set (es0 @ ?good (concat (b # bs))))"
      by (intro card_mono) auto
    then obtain res1 where r: "plain_batch ?ops b res = Inr (b, res1)" "agg_inv L upd lo d n (es0 @ ?good b) res1"
      using batch_step [OF d_pos Cons.prems(1), of b] Cons.prems(2,3) by auto
    have "wrap_loop L ?ops (b # bs) res = wrap_loop L ?ops bs res1"
      by (simp add: wrap_batch_plain r(1)) (simp add: aggregator_ops_def)
    then show ?case using Cons.IH [OF r(2)] Cons.prems(2,3) by simp
  qed
  have "agg_inv L upd lo d n [] []" by (simp add: agg_inv_def go_map_def)
  from loop [OF this] assms(2,3) obtain res where res: "wrap_loop L ?ops bs [] = agg_OnAfterEntries L ops lo d res"
      "agg_inv L upd lo d n es res"
    using assms(5) by auto
  let ?B = "\<lambda>k l vs. bin_entries L lo d k l 0 (ag_finalize ops vs)"
  have fp: "list_all (\<lambda>e. Fingerprint e = k) (bin_entries L lo d k l i vs)" for k l i vs
    by (induction L lo d k l i vs rule: bin_entries.induct) auto
  have "concat (agg_OnAfterEntries L ops lo d res) = concat (map (\<lambda>(k, l, vs). ?B k l vs) res)"
    by (simp add: agg_OnAfterEntries_def concat_filter_nonempty)
  then have "filter (\<lambda>e. Fingerprint e = k) (concat (wrap_loop L ?ops bs [])) =
      (case map_of res k of None \<Rightarrow> [] | Some (l, vs) \<Rightarrow> ?B k l vs)"
    using concat_series [of res ?B k] fp res by (simp add: agg_inv_def)
  also have "\<dots> = series_out L fin lo d n k (series_labels es k) (cell L upd lo d es k)"
  proof (cases "k \<in> Fingerprint ` set es")
    case True
    then have "map_of res k = Some (series_labels es k, cells (cell L upd lo d es k) 0 n)" using res(2) by (simp add: agg_inv_def)
    then show ?thesis by (simp add: final cells_map_bins cells_bin_entries series_out_def)
  next
    case False
    then have "map_of res k = None" using res(2) by (simp add: agg_inv_def)
    moreover have "filter (in_bin lo d k i) es = []" for i using False by (rule no_series)
    ultimately show ?thesis using assms(4) by (simp add: series_out_def cell_def)
  qed
  finally show ?thesis .
qed

end

subsection \<open>The planners as bin aggregators\<close>

text \<open>
  What the theorems below use of \<open>float64\<close>: zero is not positive and equals itself, one is
  neither, and a count that started at zero is positive and not zero.
\<close>

definition float_laws :: "'v lib \<Rightarrow> bool" where
  "float_laws L \<longleftrightarrow> \<not> f_lt L (f_zero L) (f_zero L) \<and> f_eq L (f_zero L) (f_zero L) \<and>
     f_lt L (f_zero L) (f_one L) \<and> \<not> f_eq L (f_one L) (f_zero L) \<and>
     (\<forall>m. f_lt L (f_zero L) (((\<lambda>c. f_add L c (f_one L)) ^^ Suc m) (f_zero L)) \<and>
          \<not> f_eq L (((\<lambda>c. f_add L c (f_one L)) ^^ Suc m) (f_zero L)) (f_zero L))"

lemma int_float_laws: "float_laws int_lib"
proof -
  have "((\<lambda>c. c + 1) ^^ m) (0 :: int) = int m" for m by (induction m) auto
  then show ?thesis by (simp add: float_laws_def int_lib_def)
qed

lemma map_bins_id: "map_bins (\<lambda>i v c. v) j vs = vs"
  by (induction vs arbitrary: j rule: induct_list012) simp_all

lemma bin_update_id: "0 \<le> i \<Longrightarrow> nat i + 1 < length vs \<Longrightarrow> bin_update i (\<lambda>v c. (v, c)) vs = Inr vs"
  by (simp add: bin_update_def)

lemma window_idx:
  assumes "0 < d" "in_window lo d n e" "length vs = 2 * n"
  shows "go_div (TimestampNS e - lo) d = (TimestampNS e - lo) div d" "0 \<le> (TimestampNS e - lo) div d"
    "(TimestampNS e - lo) div d * 2 \<le> int (length vs)" "nat ((TimestampNS e - lo) div d * 2) + 1 < length vs"
proof -
  show g: "go_div (TimestampNS e - lo) d = (TimestampNS e - lo) div d" using assms by (simp add: in_window_def go_div_nonneg)
  show q: "0 \<le> (TimestampNS e - lo) div d" using assms by (simp add: in_window_def pos_imp_zdiv_nonneg_iff)
  have "(TimestampNS e - lo) div d < int n" using assms by (simp add: in_window_def)
  then show "(TimestampNS e - lo) div d * 2 \<le> int (length vs)" "nat ((TimestampNS e - lo) div d * 2) + 1 < length vs"
    using q assms(3) by linarith+
qed

definition lra_upd :: "'v lib \<Rightarrow> string \<Rightarrow> 'v LogEntry \<Rightarrow> 'v \<Rightarrow> 'v \<Rightarrow> 'v \<times> 'v" where
  "lra_upd L fn e v c =
     (if fn = ''rate'' \<or> fn = ''count_over_time'' then (f_add L v (f_one L), f_one L)
      else if fn = ''bytes_rate'' \<or> fn = ''bytes_over_time'' then (f_add L v (f_of_int L (int (length (Message e)))), f_one L)
      else (v, c))"

definition lra_fin :: "'v lib \<Rightarrow> ram_ctx \<Rightarrow> int \<Rightarrow> string \<Rightarrow> nat \<Rightarrow> 'v \<Rightarrow> 'v \<Rightarrow> 'v" where
  "lra_fin L ctx d fn i v c =
     (if fn = ''rate'' \<or> fn = ''bytes_rate'' then per_second L ctx d i v c
      else if fn = ''count_over_time'' \<or> fn = ''bytes_over_time'' then extrapolate L ctx d i v c
      else v)"

interpretation lra: bin_aggregator L "lra_ops L ctx d fn" "ctx_From ctx" d n "lra_upd L fn" "lra_fin L ctx d fn" for L ctx d fn n
proof
  fix e :: "'a LogEntry" and vs :: "'a list"
  assume a: "0 < d" "in_window (ctx_From ctx) d n e" "length vs = 2 * n"
  show "ag_addValue (lra_ops L ctx d fn) e vs =
      bin_update ((TimestampNS e - ctx_From ctx) div d * 2) (lra_upd L fn e) vs"
    using window_idx [OF a] by (simp add: lra_ops_def lra_addValue_def lra_upd_def [abs_def] bin_update_id Let_def)
next
  fix vs :: "'a list"
  have "ag_finalize (lra_ops L ctx d fn) vs = lra_finalize L ctx d fn vs" by (simp add: lra_ops_def)
  also have "\<dots> = map_bins (lra_fin L ctx d fn) 0 vs"
  proof -
    consider "fn = ''rate'' \<or> fn = ''bytes_rate''" | "fn = ''count_over_time'' \<or> fn = ''bytes_over_time''"
      | "\<not> (fn = ''rate'' \<or> fn = ''bytes_rate'' \<or> fn = ''count_over_time'' \<or> fn = ''bytes_over_time'')" by blast
    then show ?thesis
      by cases (auto simp: lra_finalize_def lra_fin_def [abs_def] map_bins_id)
  qed
  finally show "ag_finalize (lra_ops L ctx d fn) vs = map_bins (lra_fin L ctx d fn) 0 vs" .
qed (simp add: lra_ops_def)

definition aggop_upd :: "'v lib \<Rightarrow> string \<Rightarrow> 'v LogEntry \<Rightarrow> 'v \<Rightarrow> 'v \<Rightarrow> 'v \<times> 'v" where
  "aggop_upd L fn e v c =
     (if fn = ''sum'' then (f_add L v (Value e), f_one L)
      else if fn = ''min'' then (if f_lt L (Value e) v \<or> f_eq L c (f_zero L) then (Value e, f_one L) else (v, c))
      else if fn = ''max'' then (if f_lt L v (Value e) \<or> f_eq L c (f_zero L) then (Value e, f_one L) else (v, c))
      else if fn = ''avg'' then (f_add L v (Value e), f_add L c (f_one L))
      else if fn = ''count'' then (f_add L v (f_one L), f_one L)
      else (v, c))"

definition aggop_fin :: "'v lib \<Rightarrow> string \<Rightarrow> nat \<Rightarrow> 'v \<Rightarrow> 'v \<Rightarrow> 'v" where
  "aggop_fin L fn i v c = (if fn = ''avg'' \<and> f_lt L (f_zero L) c then f_div L v c else v)"

interpretation aggop: bin_aggregator L "aggop_ops L ctx d fn" "ctx_From ctx" d n "aggop_upd L fn" "aggop_fin L fn" for L ctx d fn n
proof
  fix e :: "'a LogEntry" and vs :: "'a list"
  assume a: "0 < d" "in_window (ctx_From ctx) d n e" "length vs = 2 * n"
  note idx = window_idx [OF a]
  have "\<not> ((TimestampNS e - ctx_From ctx) div d < 0 \<or> int (length vs) < (TimestampNS e - ctx_From ctx) div d * 2)"
    using idx by linarith
  then show "ag_addValue (aggop_ops L ctx d fn) e vs =
      bin_update ((TimestampNS e - ctx_From ctx) div d * 2) (aggop_upd L fn e) vs"
    using idx by (simp add: aggop_ops_def aggop_addValue_def aggop_upd_def [abs_def] bin_update_id Let_def)
next
  fix vs :: "'a list"
  show "ag_finalize (aggop_ops L ctx d fn) vs = map_bins (aggop_fin L fn) 0 vs"
    by (cases "fn = ''avg''") (simp_all add: aggop_ops_def aggop_finalize_def aggop_fin_def [abs_def] map_bins_id)
qed (simp add: aggop_ops_def)

definition unwrap_upd :: "'v lib \<Rightarrow> string \<Rightarrow> 'v LogEntry \<Rightarrow> 'v \<Rightarrow> 'v \<Rightarrow> 'v \<times> 'v" where
  "unwrap_upd L fn e v c =
     (if fn = ''rate'' \<or> fn = ''sum_over_time'' then (f_add L v (Value e), f_one L)
      else if fn = ''avg_over_time'' then (f_add L v (Value e), f_add L c (f_one L))
      else if fn = ''max_over_time'' \<or> fn = ''min_over_time'' then
        (if f_lt L v (Value e) \<or> f_eq L c (f_zero L) then (Value e, f_one L) else (v, c))
      else if fn = ''first_over_time'' then (if f_eq L v (f_zero L) then (Value e, f_one L) else (v, c))
      else if fn = ''last_over_time'' then (Value e, f_one L)
      else (v, c))"

definition unwrap_fin :: "'v lib \<Rightarrow> ram_ctx \<Rightarrow> int \<Rightarrow> string \<Rightarrow> nat \<Rightarrow> 'v \<Rightarrow> 'v \<Rightarrow> 'v" where
  "unwrap_fin L ctx d fn i v c =
     (if fn = ''rate'' then per_second L ctx d i v c
      else if fn = ''sum_over_time'' then extrapolate L ctx d i v c
      else if fn = ''avg_over_time'' \<and> \<not> f_eq L c (f_zero L) then f_div L v c
      else v)"

interpretation unwrap: bin_aggregator L "unwrap_agg_ops L ctx d fn" "ctx_From ctx" d n "unwrap_upd L fn" "unwrap_fin L ctx d fn"
  for L ctx d fn n
proof
  fix e :: "'a LogEntry" and vs :: "'a list"
  assume a: "0 < d" "in_window (ctx_From ctx) d n e" "length vs = 2 * n"
  show "ag_addValue (unwrap_agg_ops L ctx d fn) e vs =
      bin_update ((TimestampNS e - ctx_From ctx) div d * 2) (unwrap_upd L fn e) vs"
    using window_idx [OF a] by (simp add: unwrap_agg_ops_def unwrap_addValue_def unwrap_upd_def [abs_def] bin_update_id Let_def)
next
  fix vs :: "'a list"
  consider "fn = ''rate''" | "fn = ''sum_over_time''" | "fn = ''avg_over_time''"
    | "fn \<noteq> ''rate'' \<and> fn \<noteq> ''sum_over_time'' \<and> fn \<noteq> ''avg_over_time''" by blast
  then show "ag_finalize (unwrap_agg_ops L ctx d fn) vs = map_bins (unwrap_fin L ctx d fn) 0 vs"
    by cases (simp_all add: unwrap_agg_ops_def unwrap_finalize_def unwrap_fin_def [abs_def] map_bins_id)
qed (simp add: unwrap_agg_ops_def)

subsection \<open>The results per series and bin\<close>

text \<open>
  The result of an aggregation for the series \<open>k\<close>: one entry per bin that has an entry of the
  series, in the order of time, with the value that \<open>val\<close> gives for the entries of the bin.
\<close>

definition agg_result ::
    "int \<Rightarrow> int \<Rightarrow> nat \<Rightarrow> (nat \<Rightarrow> 'v batch \<Rightarrow> 'v) \<Rightarrow> 'v batch \<Rightarrow> 64 word \<Rightarrow> 'v batch" where
  "agg_result lo d n val es k =
     map (\<lambda>i. \<lparr>TimestampNS = lo + int i * d, Fingerprint = k, Labels = series_labels es k, Message = '''',
               Value = val i (filter (in_bin lo d k i) es), Err = None\<rparr>)
       (filter (\<lambda>i. filter (in_bin lo d k i) es \<noteq> []) [0..<n])"

abbreviation fold_cell :: "'v lib \<Rightarrow> ('v LogEntry \<Rightarrow> 'v \<Rightarrow> 'v \<Rightarrow> 'v \<times> 'v) \<Rightarrow> 'v batch \<Rightarrow> 'v \<times> 'v" where
  "fold_cell L upd xs \<equiv> foldl (\<lambda>(v, c) e. upd e v c) (f_zero L, f_zero L) xs"

lemma series_out_result:
  assumes "float_laws L" "\<And>xs i. xs \<noteq> [] \<Longrightarrow> f_lt L (f_zero L) (snd (fold_cell L upd xs)) \<and>
      fin i (fst (fold_cell L upd xs)) (snd (fold_cell L upd xs)) = val i xs"
  shows "series_out L fin lo d n k (series_labels es k) (cell L upd lo d es k) = agg_result lo d n val es k"
proof -
  have flag: "f_lt L (f_zero L) (snd (cell L upd lo d es k i)) \<longleftrightarrow> filter (in_bin lo d k i) es \<noteq> []" for i
    using assms by (cases "filter (in_bin lo d k i) es = []") (simp_all add: cell_def float_laws_def)
  show ?thesis unfolding series_out_def agg_result_def flag
    by (rule map_cong) (use assms(2) in \<open>auto simp: cell_def\<close>)
qed

text \<open>The common part: a planner whose cells have the value \<open>val\<close> delivers \<open>agg_result\<close>.\<close>

definition agg_input :: "ram_ctx \<Rightarrow> int \<Rightarrow> 'v stream \<Rightarrow> bool" where
  "agg_input ctx d bs \<longleftrightarrow> 0 < d \<and> ctx_From ctx \<le> ctx_To ctx \<and> (ctx_To ctx - ctx_From ctx) div d \<le> 4000000000 \<and>
     list_all (\<lambda>e. Err e = Some EOF \<or> Err e = None \<and> in_window (ctx_From ctx) d (nat ((ctx_To ctx - ctx_From ctx) div d)) e) (concat bs) \<and>
     card (Fingerprint ` set (filter (\<lambda>e. Err e = None) (concat bs))) \<le> 2000"

lemma Aggregator_delivers:
  assumes "agg_input ctx d bs" "float_laws L" "bin_aggregator ops (ctx_From ctx) d (nat ((ctx_To ctx - ctx_From ctx) div d)) upd fin"
    "\<And>xs i. xs \<noteq> [] \<Longrightarrow> f_lt L (f_zero L) (snd (fold_cell L upd xs)) \<and>
      fin i (fst (fold_cell L upd xs)) (snd (fold_cell L upd xs)) = val i xs"
  shows "\<exists>out. Aggregator_process L ctx d ops (Inr bs) = Inr out \<and>
    (\<forall>k. filter (\<lambda>e. Fingerprint e = k) (concat out) =
       agg_result (ctx_From ctx) d (nat ((ctx_To ctx - ctx_From ctx) div d)) val (filter (\<lambda>e. Err e = None) (concat bs)) k)"
proof -
  let ?n = "nat ((ctx_To ctx - ctx_From ctx) div d)"
  have d: "0 < d" "0 \<le> (ctx_To ctx - ctx_From ctx) div d" "go_div (ctx_To ctx - ctx_From ctx) d = (ctx_To ctx - ctx_From ctx) div d"
    using assms(1) by (simp_all add: agg_input_def pos_imp_zdiv_nonneg_iff go_div_nonneg)
  have n: "go_div (ctx_To ctx - ctx_From ctx) d = int ?n" using d by simp
  let ?out = "wrap_loop L (aggregator_ops L ops (int ?n) (ctx_From ctx) d) bs []"
  have "Aggregator_process L ctx d ops (Inr bs) = Inr ?out"
    using assms(1) d n by (simp add: Aggregator_process_def agg_input_def WrapProcess_def Let_def)
  moreover have "filter (\<lambda>e. Fingerprint e = k) (concat ?out) =
      agg_result (ctx_From ctx) d ?n val (filter (\<lambda>e. Err e = None) (concat bs)) k" for k
    using bin_aggregator.delivers [OF assms(3) d(1), of bs L "filter (\<lambda>e. Err e = None) (concat bs)" k]
      series_out_result [OF assms(2,4)] assms(1,2)
    by (simp add: agg_input_def float_laws_def)
  ultimately show ?thesis by blast
qed

definition sum_of :: "'v lib \<Rightarrow> ('v LogEntry \<Rightarrow> 'v) \<Rightarrow> 'v batch \<Rightarrow> 'v" where
  "sum_of L w xs = foldl (\<lambda>v e. f_add L v (w e)) (f_zero L) xs"

text \<open>The best value with respect to a strict order; of equal values the first.\<close>

definition best_of :: "('v \<Rightarrow> 'v \<Rightarrow> bool) \<Rightarrow> 'v batch \<Rightarrow> 'v" where
  "best_of better xs = foldl (\<lambda>v e. if better (Value e) v then Value e else v) (Value (hd xs)) (tl xs)"

lemma sum_of_Nil [simp]: "sum_of L w [] = f_zero L"
  by (simp add: sum_of_def)

lemma sum_of_snoc: "sum_of L w (xs @ [x]) = f_add L (sum_of L w xs) (w x)"
  by (simp add: sum_of_def)

lemma best_of_snoc:
  "xs \<noteq> [] \<Longrightarrow> best_of r (xs @ [x]) = (if r (Value x) (best_of r xs) then Value x else best_of r xs)"
  by (simp add: best_of_def)

lemma best_of_single: "best_of r [x] = Value x"
  by (simp add: best_of_def)

lemma count_pos:
  assumes "float_laws L" "xs \<noteq> []"
  shows "f_lt L (f_zero L) (sum_of L (\<lambda>e. f_one L) xs)" "\<not> f_eq L (sum_of L (\<lambda>e. f_one L) xs) (f_zero L)"
proof -
  have "sum_of L (\<lambda>e. f_one L) xs = ((\<lambda>c. f_add L c (f_one L)) ^^ length xs) (f_zero L)"
    by (induction xs rule: rev_induct) (simp_all add: sum_of_snoc)
  moreover obtain m where "length xs = Suc m" using assms(2) by (cases xs) auto
  ultimately show "f_lt L (f_zero L) (sum_of L (\<lambda>e. f_one L) xs)" "\<not> f_eq L (sum_of L (\<lambda>e. f_one L) xs) (f_zero L)"
    using assms(1) unfolding float_laws_def by metis+
qed

text \<open>Cells that hold a sum, a sum with a counter, and an extreme value.\<close>

lemma fold_cell_snoc: "fold_cell L upd (xs @ [x]) = upd x (fst (fold_cell L upd xs)) (snd (fold_cell L upd xs))"
  by (simp add: case_prod_beta)

lemma fold_sum:
  assumes "\<And>e v c. upd e v c = (f_add L v (w e), f_one L)"
  shows "fold_cell L upd xs = (sum_of L w xs, if xs = [] then f_zero L else f_one L)"
  by (induction xs rule: rev_induct) (simp_all add: assms sum_of_snoc case_prod_beta)

lemma fold_avg:
  assumes "\<And>e v c. upd e v c = (f_add L v (w e), f_add L c (f_one L))"
  shows "fold_cell L upd xs = (sum_of L w xs, sum_of L (\<lambda>e. f_one L) xs)"
  by (induction xs rule: rev_induct) (simp_all add: assms sum_of_snoc case_prod_beta)

lemma fold_best:
  assumes "float_laws L" "\<And>e v c. upd e v c = (if r (Value e) v \<or> f_eq L c (f_zero L) then (Value e, f_one L) else (v, c))"
  shows "xs \<noteq> [] \<Longrightarrow> fold_cell L upd xs = (best_of r xs, f_one L)"
proof (induction xs rule: rev_induct)
  case (snoc x xs)
  then show ?case
    using assms(1) by (cases "xs = []") (simp_all add: assms(2) best_of_snoc best_of_single float_laws_def case_prod_beta)
qed simp

definition lra_value :: "'v lib \<Rightarrow> ram_ctx \<Rightarrow> int \<Rightarrow> string \<Rightarrow> nat \<Rightarrow> 'v batch \<Rightarrow> 'v" where
  "lra_value L ctx d fn i xs =
     (let v = sum_of L (\<lambda>e. if fn = ''rate'' \<or> fn = ''count_over_time'' then f_one L else f_of_int L (int (length (Message e)))) xs in
      if fn = ''rate'' \<or> fn = ''bytes_rate''
      then f_div L v (f_div L (f_of_int L (coveredNs ctx i d)) (f_of_int L 1000000000))
      else f_mul L v (f_div L (f_of_int L d) (f_of_int L (coveredNs ctx i d))))"

text \<open>
  C21: the range aggregations of log lines. For entries of the request window, with at most two
  thousand series, \<open>rate\<close>, \<open>count_over_time\<close>, \<open>bytes_rate\<close> and \<open>bytes_over_time\<close> deliver for
  every series and every bin in which it has an entry exactly one entry, at the start of the
  bin and in the order of time: the number of lines or of bytes, per second of the covered part
  of the bin or extrapolated to the whole bin.
\<close>

theorem LRA_aggregates:
  assumes "agg_input ctx d bs" "float_laws L" "fn \<in> {''rate'', ''count_over_time'', ''bytes_rate'', ''bytes_over_time''}"
  shows "\<exists>out. LRA_Process L ctx d fn (Inr bs) = Inr out \<and>
    (\<forall>k. filter (\<lambda>e. Fingerprint e = k) (concat out) =
       agg_result (ctx_From ctx) d (nat ((ctx_To ctx - ctx_From ctx) div d)) (lra_value L ctx d fn)
         (filter (\<lambda>e. Err e = None) (concat bs)) k)"
proof -
  let ?w = "\<lambda>e. if fn = ''rate'' \<or> fn = ''count_over_time'' then f_one L else f_of_int L (int (length (Message e)))"
  have upd: "lra_upd L fn e v c = (f_add L v (?w e), f_one L)" for e v c using assms(3) by (auto simp: lra_upd_def)
  have "\<exists>out. Aggregator_process L ctx d (lra_ops L ctx d fn) (Inr bs) = Inr out \<and>
    (\<forall>k. filter (\<lambda>e. Fingerprint e = k) (concat out) =
       agg_result (ctx_From ctx) d (nat ((ctx_To ctx - ctx_From ctx) div d)) (lra_value L ctx d fn)
         (filter (\<lambda>e. Err e = None) (concat bs)) k)"
    by (rule Aggregator_delivers [OF assms(1,2) lra.bin_aggregator_axioms])
      (use assms(2,3) in \<open>auto simp: fold_sum [OF upd] lra_fin_def lra_value_def per_second_def extrapolate_def float_laws_def Let_def\<close>)
  then show ?thesis using assms(3) by (auto simp: LRA_Process_def)
qed

definition agg_value :: "'v lib \<Rightarrow> string \<Rightarrow> nat \<Rightarrow> 'v batch \<Rightarrow> 'v" where
  "agg_value L fn i xs =
     (if fn = ''sum'' then sum_of L Value xs
      else if fn = ''min'' then best_of (\<lambda>x y. f_lt L x y) xs
      else if fn = ''max'' then best_of (\<lambda>x y. f_lt L y x) xs
      else if fn = ''avg'' then f_div L (sum_of L Value xs) (sum_of L (\<lambda>e. f_one L) xs)
      else sum_of L (\<lambda>e. f_one L) xs)"

text \<open>
  the vector aggregations. Under the same conditions \<open>sum\<close>, \<open>min\<close>, \<open>max\<close>, \<open>avg\<close> and \<open>count\<close>
  deliver for every series and bin with an entry the sum, the least, the greatest, the mean and
  the number of the values.
\<close>

theorem AggOp_aggregates:
  assumes "agg_input ctx d bs" "float_laws L" "fn \<in> {''sum'', ''min'', ''max'', ''avg'', ''count''}"
  shows "\<exists>out. AggOp_Process L ctx d fn (Inr bs) = Inr out \<and>
    (\<forall>k. filter (\<lambda>e. Fingerprint e = k) (concat out) =
       agg_result (ctx_From ctx) d (nat ((ctx_To ctx - ctx_From ctx) div d)) (agg_value L fn)
         (filter (\<lambda>e. Err e = None) (concat bs)) k)"
proof -
  have one: "f_lt L (f_zero L) (f_one L)" using assms(2) by (simp add: float_laws_def)
  have "f_lt L (f_zero L) (snd (fold_cell L (aggop_upd L fn) xs)) \<and>
      aggop_fin L fn i (fst (fold_cell L (aggop_upd L fn) xs)) (snd (fold_cell L (aggop_upd L fn) xs)) = agg_value L fn i xs"
    if ne: "xs \<noteq> []" for xs i
  proof -
    consider "fn = ''sum''" | "fn = ''min''" | "fn = ''max''" | "fn = ''avg''" | "fn = ''count''" using assms(3) unfolding insert_iff empty_iff by satx
    then show ?thesis
    proof cases
      case 1
      show ?thesis using ne one by (simp add: fold_sum [where w = Value] aggop_upd_def aggop_fin_def agg_value_def 1)
    next
      case 2
      have "fold_cell L (aggop_upd L fn) xs = (best_of (\<lambda>x y. f_lt L x y) xs, f_one L)"
        by (rule fold_best [OF assms(2) _ ne]) (simp add: aggop_upd_def 2)
      then show ?thesis using one by (simp add: aggop_fin_def agg_value_def 2)
    next
      case 3
      have "fold_cell L (aggop_upd L fn) xs = (best_of (\<lambda>x y. f_lt L y x) xs, f_one L)"
        by (rule fold_best [OF assms(2) _ ne]) (simp add: aggop_upd_def 3)
      then show ?thesis using one by (simp add: aggop_fin_def agg_value_def 3)
    next
      case 4
      have "fold_cell L (aggop_upd L fn) xs = (sum_of L Value xs, sum_of L (\<lambda>e. f_one L) xs)"
        by (rule fold_avg) (simp add: aggop_upd_def 4)
      then show ?thesis using count_pos [OF assms(2) ne] by (simp add: aggop_fin_def agg_value_def 4)
    next
      case 5
      show ?thesis using ne one by (simp add: fold_sum [where w = "\<lambda>e. f_one L"] aggop_upd_def aggop_fin_def agg_value_def 5)
    qed
  qed
  from Aggregator_delivers [OF assms(1,2) aggop.bin_aggregator_axioms this] show ?thesis
    using assms(3) by (auto simp: AggOp_Process_def)
qed

definition unwrap_value :: "'v lib \<Rightarrow> ram_ctx \<Rightarrow> int \<Rightarrow> string \<Rightarrow> nat \<Rightarrow> 'v batch \<Rightarrow> 'v" where
  "unwrap_value L ctx d fn i xs =
     (if fn = ''rate'' then f_div L (sum_of L Value xs) (f_div L (f_of_int L (coveredNs ctx i d)) (f_of_int L 1000000000))
      else if fn = ''sum_over_time'' then f_mul L (sum_of L Value xs) (f_div L (f_of_int L d) (f_of_int L (coveredNs ctx i d)))
      else if fn = ''avg_over_time'' then f_div L (sum_of L Value xs) (sum_of L (\<lambda>e. f_one L) xs)
      else if fn = ''max_over_time'' \<or> fn = ''min_over_time'' then best_of (\<lambda>x y. f_lt L y x) xs
      else if fn = ''first_over_time'' then
        (case find (\<lambda>e. \<not> f_eq L (Value e) (f_zero L)) xs of Some e \<Rightarrow> Value e | None \<Rightarrow> Value (last xs))
      else Value (last xs))"

lemma fold_first:
  assumes "float_laws L" "\<And>e v c. upd e v c = (if f_eq L v (f_zero L) then (Value e, f_one L) else (v, c))"
  shows "xs \<noteq> [] \<Longrightarrow> fold_cell L upd xs =
    (case find (\<lambda>e. \<not> f_eq L (Value e) (f_zero L)) xs of Some e \<Rightarrow> Value e | None \<Rightarrow> Value (last xs), f_one L)"
proof (induction xs rule: rev_induct)
  case (snoc x xs)
  show ?case
  proof (cases "xs = []")
    case True
    then show ?thesis using assms by (simp add: float_laws_def)
  next
    case False
    have fa: "find P (xs @ [x]) = (case find P xs of None \<Rightarrow> find P [x] | Some y \<Rightarrow> Some y)" for P
      by (induction xs) auto
    show ?thesis
    proof (cases "find (\<lambda>e. \<not> f_eq L (Value e) (f_zero L)) xs")
      case None
      then have "f_eq L (Value (last xs)) (f_zero L)" using False by (auto simp: find_None_iff)
      then show ?thesis using snoc.IH [OF False] None by (simp add: assms(2) case_prod_beta fa)
    next
      case (Some e)
      then have "\<not> f_eq L (Value e) (f_zero L)" by (auto simp: find_Some_iff)
      then show ?thesis using snoc.IH [OF False] Some by (simp add: assms(2) case_prod_beta fa)
    qed
  qed
qed simp

lemma fold_last:
  assumes "\<And>e v c. upd e v c = (Value e, f_one L)"
  shows "xs \<noteq> [] \<Longrightarrow> fold_cell L upd xs = (Value (last xs), f_one L)"
  by (induction xs rule: rev_induct) (simp_all add: assms case_prod_beta)

text \<open>
  C22: the aggregations of unwrapped values. Under the same conditions the functions deliver per
  series and bin the sum per second, the extrapolated sum, the mean, the greatest and the last
  value. Two names do not mean what they say: \<open>min_over_time\<close> delivers the greatest value, and
  \<open>first_over_time\<close> the first value that is not zero.
\<close>

theorem UnwrapAgg_aggregates:
  assumes "agg_input ctx d bs" "float_laws L"
    "fn \<in> {''rate'', ''sum_over_time'', ''avg_over_time'', ''max_over_time'', ''min_over_time'', ''first_over_time'', ''last_over_time''}"
  shows "\<exists>out. UnwrapAgg_Process L ctx d fn (Inr bs) = Inr out \<and>
    (\<forall>k. filter (\<lambda>e. Fingerprint e = k) (concat out) =
       agg_result (ctx_From ctx) d (nat ((ctx_To ctx - ctx_From ctx) div d)) (unwrap_value L ctx d fn)
         (filter (\<lambda>e. Err e = None) (concat bs)) k)"
proof -
  have one: "f_lt L (f_zero L) (f_one L)" using assms(2) by (simp add: float_laws_def)
  have "f_lt L (f_zero L) (snd (fold_cell L (unwrap_upd L fn) xs)) \<and>
      unwrap_fin L ctx d fn i (fst (fold_cell L (unwrap_upd L fn) xs)) (snd (fold_cell L (unwrap_upd L fn) xs)) =
      unwrap_value L ctx d fn i xs"
    if ne: "xs \<noteq> []" for xs i
  proof -
    note defs = unwrap_fin_def unwrap_value_def per_second_def extrapolate_def
    consider (sum) "fn = ''rate'' \<or> fn = ''sum_over_time''" | (avg) "fn = ''avg_over_time''"
      | (best) "fn = ''max_over_time'' \<or> fn = ''min_over_time''" | (first) "fn = ''first_over_time''" | (last) "fn = ''last_over_time''"
      using assms(3) unfolding insert_iff empty_iff by satx
    then show ?thesis
    proof cases
      case sum
      have "fold_cell L (unwrap_upd L fn) xs = (sum_of L Value xs, if xs = [] then f_zero L else f_one L)"
        by (rule fold_sum) (use sum in \<open>auto simp: unwrap_upd_def\<close>)
      then show ?thesis using sum ne one by (auto simp: defs)
    next
      case avg
      have "fold_cell L (unwrap_upd L fn) xs = (sum_of L Value xs, sum_of L (\<lambda>e. f_one L) xs)"
        by (rule fold_avg) (simp add: unwrap_upd_def avg)
      then show ?thesis using count_pos [OF assms(2) ne] by (simp add: defs avg)
    next
      case best
      have "fold_cell L (unwrap_upd L fn) xs = (best_of (\<lambda>x y. f_lt L y x) xs, f_one L)"
        by (rule fold_best [OF assms(2) _ ne]) (use best in \<open>auto simp: unwrap_upd_def\<close>)
      then show ?thesis using best one by (auto simp: defs)
    next
      case first
      show ?thesis using fold_first [OF assms(2), of "unwrap_upd L fn", OF _ ne] one first
        by (simp add: defs unwrap_upd_def)
    next
      case last
      show ?thesis using fold_last [of "unwrap_upd L fn" L, OF _ ne] one last by (simp add: defs unwrap_upd_def)
    qed
  qed
  from Aggregator_delivers [OF assms(1,2) unwrap.bin_aggregator_axioms this] show ?thesis
    by (simp add: UnwrapAgg_Process_def)
qed

subsection \<open>Examples\<close>

definition agg_example_ctx :: ram_ctx where
  "agg_example_ctx = example_ctx\<lparr>ctx_From := 0, ctx_To := 20, ctx_Now := \<lambda>i. 100\<rparr>"

definition agg_example_input :: "int stream" where
  "agg_example_input = [[entry_at 1 7 [] ''a'' 5, entry_at 2 7 [] ''b'' 3], [entry_at 11 7 [] ''c'' 4, err_entry int_lib EOF]]"

lemma agg_example_ok: "agg_input agg_example_ctx 10 agg_example_input"
  by (simp add: agg_input_def agg_example_ctx_def agg_example_input_def in_window_def entry_at_def err_entry_def)

lemmas agg_example_eval = agg_example_ctx_def agg_example_input_def agg_result_def in_bin_def entry_at_def err_entry_def
  series_labels_def sum_of_def best_of_def int_lib_def coveredNs_def

lemma agg_example_bins: "[0..<nat ((ctx_To agg_example_ctx - ctx_From agg_example_ctx) div 10)] = [0, 1]"
  by (simp add: agg_example_ctx_def numeral_2_eq_2)

theorem LRA_aggregates_witness:
  "\<exists>out. LRA_Process int_lib agg_example_ctx 10 ''count_over_time'' (Inr agg_example_input) = Inr out \<and>
     filter (\<lambda>e. Fingerprint e = 7) (concat out) = [entry_at 0 7 [] '''' 2, entry_at 10 7 [] '''' 1]"
proof -
  have "''count_over_time'' \<in> {''rate'', ''count_over_time'', ''bytes_rate'', ''bytes_over_time''}" by simp
  from LRA_aggregates [OF agg_example_ok int_float_laws this] obtain out where
    "LRA_Process int_lib agg_example_ctx 10 ''count_over_time'' (Inr agg_example_input) = Inr out"
    and out: "\<forall>k. filter (\<lambda>e. Fingerprint e = k) (concat out) =
       agg_result (ctx_From agg_example_ctx) 10 (nat ((ctx_To agg_example_ctx - ctx_From agg_example_ctx) div 10))
         (lra_value int_lib agg_example_ctx 10 ''count_over_time'') (filter (\<lambda>e. Err e = None) (concat agg_example_input)) k"
    by blast
  moreover have "filter (\<lambda>e. Fingerprint e = 7) (concat out) = [entry_at 0 7 [] '''' 2, entry_at 10 7 [] '''' 1]"
    unfolding out [rule_format] agg_result_def agg_example_bins by (simp add: agg_example_eval lra_value_def)
  ultimately show ?thesis by blast
qed

theorem AggOp_aggregates_witness:
  "\<exists>out. AggOp_Process int_lib agg_example_ctx 10 ''min'' (Inr agg_example_input) = Inr out \<and>
     filter (\<lambda>e. Fingerprint e = 7) (concat out) = [entry_at 0 7 [] '''' 3, entry_at 10 7 [] '''' 4]"
proof -
  have "''min'' \<in> {''sum'', ''min'', ''max'', ''avg'', ''count''}" by simp
  from AggOp_aggregates [OF agg_example_ok int_float_laws this] obtain out where
    "AggOp_Process int_lib agg_example_ctx 10 ''min'' (Inr agg_example_input) = Inr out"
    and out: "\<forall>k. filter (\<lambda>e. Fingerprint e = k) (concat out) =
       agg_result (ctx_From agg_example_ctx) 10 (nat ((ctx_To agg_example_ctx - ctx_From agg_example_ctx) div 10))
         (agg_value int_lib ''min'') (filter (\<lambda>e. Err e = None) (concat agg_example_input)) k"
    by blast
  moreover have "filter (\<lambda>e. Fingerprint e = 7) (concat out) = [entry_at 0 7 [] '''' 3, entry_at 10 7 [] '''' 4]"
    unfolding out [rule_format] agg_result_def agg_example_bins by (simp add: agg_example_eval agg_value_def)
  ultimately show ?thesis by blast
qed

text \<open>The least value of the first bin is three; the stage delivers five.\<close>

theorem UnwrapAgg_aggregates_witness:
  "\<exists>out. UnwrapAgg_Process int_lib agg_example_ctx 10 ''min_over_time'' (Inr agg_example_input) = Inr out \<and>
     filter (\<lambda>e. Fingerprint e = 7) (concat out) = [entry_at 0 7 [] '''' 5, entry_at 10 7 [] '''' 4]"
proof -
  have "''min_over_time'' \<in> {''rate'', ''sum_over_time'', ''avg_over_time'', ''max_over_time'', ''min_over_time'',
    ''first_over_time'', ''last_over_time''}" by simp
  from UnwrapAgg_aggregates [OF agg_example_ok int_float_laws this] obtain out where
    "UnwrapAgg_Process int_lib agg_example_ctx 10 ''min_over_time'' (Inr agg_example_input) = Inr out"
    and out: "\<forall>k. filter (\<lambda>e. Fingerprint e = k) (concat out) =
       agg_result (ctx_From agg_example_ctx) 10 (nat ((ctx_To agg_example_ctx - ctx_From agg_example_ctx) div 10))
         (unwrap_value int_lib agg_example_ctx 10 ''min_over_time'') (filter (\<lambda>e. Err e = None) (concat agg_example_input)) k"
    by blast
  moreover have "filter (\<lambda>e. Fingerprint e = 7) (concat out) = [entry_at 0 7 [] '''' 5, entry_at 10 7 [] '''' 4]"
    unfolding out [rule_format] agg_result_def agg_example_bins by (simp add: agg_example_eval unwrap_value_def)
  ultimately show ?thesis by blast
qed

end
