(* ===== verification/Ch_Base.thy ===== *)
theory Ch_Base
  imports Federation Logql_Plan
begin

section \<open>The ground of the SQL planners (clickhouse\_planner/sql\_misc.go, coverage.go)\<close>

text \<open>
  The package clickhouse\_planner turns the part of a LogQL query that ClickHouse evaluates into
  one SQL query. This theory holds what its planners share: the planner context, the state a
  planner runs in, the SQL objects the package adds to the builder, and the expressions for
  the covered part of a time bin.

  Times and durations are integers (nanoseconds). \<open>Process\<close> of a planner is a step on \<open>ch_state\<close>:
  the counter behind \<open>PlannerContext.Id\<close> and the two \<open>With\<close> objects that the planners of one
  query share through \<open>fpCache\<close> and \<open>labelsCache\<close>. A query under construction is passed on by
  value: every planner hands on the query it got or a new one around it and keeps no other
  reference that is changed later. Planner plug-ins are taken to be absent.

  \<open>ch_env\<close> collects what comes from outside the repository: the library functions of \<open>lib\<close> with
  \<open>float64\<close> as its 64 bits, the clock, the settings, the date of an instant in the local time
  zone, number parsing and printing, and the parsers of regular expressions and templates.
\<close>

record re_syntax =
  re_OpLiteral :: bool
  re_Flags :: "32 word"
  re_Rune :: string

datatype tpl_node =
    TextNode string
  | ActionNode "tpl_node list list"     \<comment> \<open>\<open>Pipe.Cmds\<close>, each with its \<open>Args\<close>\<close>
  | FieldNode "string list"
  | IdentifierNode string
  | ListNode "tpl_node list"
  | OtherNode

text \<open>The grammar of planner\_parser\_regexp.go.\<close>

datatype regexAST = RegexAST "regexPart list"
and regexPart = RegexPart string "brackPart option" "regexAST option"
and brackPart = BrackPart string "regexAST option"

record ch_env =
  env_lib :: "64 word lib"
  env_now :: int
  env_clock :: "nat \<Rightarrow> int"   \<comment> \<open>the clock during the run, for bin number so and so\<close>
  env_OmitEmptyValues :: bool
  env_dist_suffix :: string
  env_local_date :: "int \<Rightarrow> string"
  env_atoi :: "string \<Rightarrow> int res"
  env_fmt_f :: "64 word \<Rightarrow> string"
  env_re_parse :: "string \<Rightarrow> re_syntax option"
  env_tpl_parse :: "string \<Rightarrow> tpl_node res"
  env_regex_parse :: "string \<Rightarrow> regexAST res"

text \<open>\<open>PlannerContext\<close>, the fields these planners read.\<close>

record planner_ctx =
  pc_IsCluster :: bool
  pc_From :: int
  pc_To :: int
  pc_OrderASC :: bool
  pc_Limit :: int
  pc_Offset :: int
  pc_TimeSeriesGinTableName :: string
  pc_TimeSeriesGinDistTableName :: string
  pc_SamplesTableName :: string
  pc_SamplesDistTableName :: string
  pc_TimeSeriesTableName :: string
  pc_TimeSeriesDistTableName :: string
  pc_Metrics15sTableName :: string
  pc_Metrics15sDistTableName :: string
  pc_PatternsTable :: string
  pc_PatternsDistTable :: string
  pc_CHFinalize :: bool
  pc_Step :: int
  pc_Type :: int
  pc_Federated :: bool
  pc_OidFilter :: OidFilter

definition SAMPLES_TYPE_LOGS :: int where "SAMPLES_TYPE_LOGS = 1"
definition SAMPLES_TYPE_METRICS :: int where "SAMPLES_TYPE_METRICS = 2"
definition SAMPLES_TYPE_BOTH :: int where "SAMPLES_TYPE_BOTH = 0"

subsection \<open>Steps of a planner\<close>

record ch_state =
  st_id :: int
  st_fpCache :: "with_q option"
  st_labelsCache :: "with_q option"

definition init_state :: ch_state where
  "init_state = \<lparr>st_id = 0, st_fpCache = None, st_labelsCache = None\<rparr>"

type_synonym 'a ch = "ch_state \<Rightarrow> ('a \<times> ch_state) res"

named_theorems ch_simps \<open>running planner steps\<close>

definition cret :: "'a \<Rightarrow> 'a ch" where
  "cret v = (\<lambda>st. Inr (v, st))"

definition clift :: "'a res \<Rightarrow> 'a ch" where
  "clift r = (\<lambda>st. rbind r (\<lambda>v. Inr (v, st)))"

definition cbind :: "'a ch \<Rightarrow> ('a \<Rightarrow> 'b ch) \<Rightarrow> 'b ch" where
  "cbind m f = (\<lambda>st. rbind (m st) (\<lambda>(v, st'). f v st'))"

text \<open>\<open>PlannerContext.Id\<close>, and reading and writing the caches.\<close>

definition pc_Id :: "int ch" where
  "pc_Id = (\<lambda>st. Inr (st_id st + 1, st\<lparr>st_id := st_id st + 1\<rparr>))"

definition get_fpCache :: "with_q option ch" where
  "get_fpCache = (\<lambda>st. Inr (st_fpCache st, st))"

definition set_fpCache :: "with_q \<Rightarrow> unit ch" where
  "set_fpCache w = (\<lambda>st. Inr ((), st\<lparr>st_fpCache := Some w\<rparr>))"

definition get_labelsCache :: "with_q option ch" where
  "get_labelsCache = (\<lambda>st. Inr (st_labelsCache st, st))"

definition set_labelsCache :: "with_q \<Rightarrow> unit ch" where
  "set_labelsCache w = (\<lambda>st. Inr ((), st\<lparr>st_labelsCache := Some w\<rparr>))"

lemma cret_run [ch_simps]: "cret v st = Inr (v, st)"
  by (simp add: cret_def)

lemma clift_run [ch_simps]: "clift (Inr v) st = Inr (v, st)" "clift (Inl e) st = Inl e"
  by (simp_all add: clift_def)

lemma cbind_run [ch_simps]:
  "m st = Inr (v, st') \<Longrightarrow> cbind m f st = f v st'"
  "m st = Inl e \<Longrightarrow> cbind m f st = Inl e"
  by (simp_all add: cbind_def)

lemma cbind_Inr_iff:
  "cbind m f st = Inr (w, st'') \<longleftrightarrow> (\<exists>v st'. m st = Inr (v, st') \<and> f v st' = Inr (w, st''))"
  by (auto simp: cbind_def rbind_Inr_iff)

lemma cbind_simps [simp]:
  "cbind (cret v) f = f v"
  "cbind (clift (Inr v)) f = f v"
  "cbind (clift (Inl e)) f = clift (Inl e)"
  "cbind (cbind m f) g = cbind m (\<lambda>x. cbind (f x) g)"
  by (auto simp: cbind_def cret_def clift_def rbind_def fun_eq_iff split: sum.splits prod.splits)

lemma clift_Inr: "clift (Inr v) = cret v"
  by (simp add: clift_def cret_def)

lemmas ch_run_defs = pc_Id_def get_fpCache_def set_fpCache_def get_labelsCache_def set_labelsCache_def

text \<open>
  A step keeps an invariant \<open>I\<close> of the state and gives values in \<open>P\<close>, whenever it succeeds. The
  rules follow the way steps are put together.
\<close>

definition gives :: "(ch_state \<Rightarrow> bool) \<Rightarrow> ('a \<Rightarrow> bool) \<Rightarrow> 'a ch \<Rightarrow> bool" where
  "gives I P m \<longleftrightarrow> (\<forall>st v st'. I st \<longrightarrow> m st = Inr (v, st') \<longrightarrow> P v \<and> I st')"

named_theorems gives_intros \<open>rules for \<open>gives\<close>\<close>

lemma gives_cret [gives_intros]: "P v \<Longrightarrow> gives I P (cret v)"
  by (simp add: gives_def cret_def)

lemma gives_clift [gives_intros]: "(\<And>v. r = Inr v \<Longrightarrow> P v) \<Longrightarrow> gives I P (clift r)"
  by (auto simp: gives_def clift_def rbind_Inr_iff)

lemma gives_cbind:
  "gives I Q m \<Longrightarrow> (\<And>v. Q v \<Longrightarrow> gives I P (f v)) \<Longrightarrow> gives I P (cbind m f)"
  unfolding gives_def cbind_Inr_iff by blast

lemma gives_True_cbind:
  "gives I (\<lambda>_. True) m \<Longrightarrow> (\<And>v. gives I P (f v)) \<Longrightarrow> gives I P (cbind m f)"
  unfolding gives_def cbind_Inr_iff by blast

lemma gives_clift_bind [gives_intros]:
  "(\<And>v. r = Inr v \<Longrightarrow> gives I P (f v)) \<Longrightarrow> gives I P (cbind (clift r) f)"
  by (cases r) (auto simp: gives_def clift_def cbind_def)

lemma gives_weaken: "gives I P m \<Longrightarrow> (\<And>v. P v \<Longrightarrow> Q v) \<Longrightarrow> gives I Q m"
  unfolding gives_def by blast


subsection \<open>Dates and common conditions\<close>

text \<open>The civil date of a day counted from 1 January 1970, and the layout \<open>2006-01-02\<close>.\<close>

definition civil_from_days :: "int \<Rightarrow> int \<times> int \<times> int" where
  "civil_from_days days =
     (let z = days + 719468;
          era = z div 146097;
          doe = z - era * 146097;
          yoe = (doe - doe div 1460 + doe div 36524 - doe div 146096) div 365;
          doy = doe - (365 * yoe + yoe div 4 - yoe div 100);
          mp = (5 * doy + 2) div 153;
          d = doy - (153 * mp + 2) div 5 + 1;
          m = (if mp < 10 then mp + 3 else mp - 9)
      in (yoe + era * 400 + (if m \<le> 2 then 1 else 0), m, d))"

definition pad_int :: "nat \<Rightarrow> int \<Rightarrow> string" where
  "pad_int w i =
     (let s = show_int \<bar>i\<bar> in (if i < 0 then ''-'' else '''') @ replicate (w - length s) CHR ''0'' @ s)"

definition utc_date :: "int \<Rightarrow> string" where
  "utc_date ns =
     (case civil_from_days (ns div 86400000000000) of (y, m, d) \<Rightarrow>
        pad_int 4 y @ ''-'' @ pad_int 2 m @ ''-'' @ pad_int 2 d)"

definition FormatFromDate :: "int \<Rightarrow> string" where
  "FormatFromDate from = utc_date (from - 30 * 60000000000)"

definition GetTypes :: "planner_ctx \<Rightarrow> sqlobj" where
  "GetTypes ctx =
     (let tp = (if pc_Type ctx = SAMPLES_TYPE_BOTH then SAMPLES_TYPE_LOGS else pc_Type ctx) in
      NewIn (NewRawObject ''type'') [IntVal tp, IntVal SAMPLES_TYPE_BOTH])"

definition GetOidFilter :: "planner_ctx \<Rightarrow> string \<Rightarrow> sqlobj option" where
  "GetOidFilter ctx tableAlias =
     (if \<not> pc_Federated ctx then None
      else Some (BuildOidCondition
        (if tableAlias \<noteq> '''' then tableAlias @ ''.oid'' else ''oid'') (pc_OidFilter ctx)))"

text \<open>\<open>if f := GetOidFilter(ctx, alias); f != nil { q.AndWhere(f) }\<close>, and with \<open>AndPreWhere\<close>.\<close>

definition oid_AndWhere :: "planner_ctx \<Rightarrow> string \<Rightarrow> sel \<Rightarrow> sel" where
  "oid_AndWhere ctx al q = (case GetOidFilter ctx al of None \<Rightarrow> q | Some f \<Rightarrow> sel_AndWhere [f] q)"

definition oid_AndPreWhere :: "planner_ctx \<Rightarrow> string \<Rightarrow> sel \<Rightarrow> sel res" where
  "oid_AndPreWhere ctx al q = (case GetOidFilter ctx al of None \<Rightarrow> Inr q | Some f \<Rightarrow> sel_AndPreWhere [f] q)"

subsection \<open>The SQL objects of the package\<close>

text \<open>An object whose \<open>String\<close> prints \<open>args\<close> in order with the options it got.\<close>

definition ext_obj :: "string \<Rightarrow> sqlobj list \<Rightarrow> (string list \<Rightarrow> string) \<Rightarrow> sqlobj" where
  "ext_obj fn args f = SqlExt fn False (\<lambda>opts. opts) args (\<lambda>_. f)"

definition SqlMatch :: "sqlobj \<Rightarrow> sqlobj \<Rightarrow> sqlobj" where
  "SqlMatch col pattern = ext_obj ''match'' [col, pattern] (\<lambda>s. ''match('' @ s ! 0 @ '', '' @ s ! 1 @ '')'')"

definition SqlLike :: "string \<Rightarrow> sqlobj \<Rightarrow> string \<Rightarrow> sqlobj" where
  "SqlLike op col pattern =
     ext_obj op [col] (\<lambda>s. op @ ''('' @ s ! 0 @ '', '' @ [CHR 0x27] @ pattern @ [CHR 0x27] @ '')'')"

definition SqlHasPhrase :: "sqlobj \<Rightarrow> string \<Rightarrow> sqlobj" where
  "SqlHasPhrase col phrase =
     ext_obj ''hasPhrase'' [col, StringVal phrase] (\<lambda>s. ''hasPhrase('' @ s ! 0 @ '', '' @ s ! 1 @ '')'')"

definition sqlMapUpdate :: "sqlobj \<Rightarrow> sqlobj \<Rightarrow> sqlobj" where
  "sqlMapUpdate m1 m2 = ext_obj '''' [m1, m2] (\<lambda>s. ''mapUpdate('' @ s ! 0 @ '', '' @ s ! 1 @ '')'')"

definition sqlParserError :: "sqlobj \<Rightarrow> sqlobj \<Rightarrow> string \<Rightarrow> string \<Rightarrow> sqlobj" where
  "sqlParserError col success errType detail =
     ext_obj '''' (col # success # map StringVal [ErrorLabel, errType, ErrorDetailsLabel, detail])
       (\<lambda>s. ''if(JSONType('' @ s ! 0 @ '') = '' @ [CHR 0x27] @ ''Object'' @ [CHR 0x27] @ '', '' @ s ! 1 @
            '', map('' @ go_join '', '' (drop 2 s) @ ''))'')"

definition sqlMapInit :: "string \<Rightarrow> sqlobj list \<Rightarrow> sqlobj list \<Rightarrow> sqlobj" where
  "sqlMapInit tp keys values =
     ext_obj '''' (keys @ values)
       (\<lambda>s. ''(['' @ go_join '','' (take (length keys) s) @ ''],['' @ go_join '','' (drop (length keys) s) @ ''])::'' @ tp)"

definition sqlFormat :: "string \<Rightarrow> sqlobj list \<Rightarrow> sqlobj" where
  "sqlFormat format args =
     ext_obj '''' (args @ [StringVal format])
       (\<lambda>s. ''format('' @ last s @ '', '' @ go_join '', '' (butlast s) @ '')'')"

definition globalInCondition :: "sqlobj \<Rightarrow> sel \<Rightarrow> sqlobj" where
  "globalInCondition left right =
     ext_obj ''GLOBAL IN'' [left, SelectObj right] (\<lambda>s. s ! 0 @ '' GLOBAL IN ('' @ s ! 1 @ '')'')"

definition set_anothers :: "sel list \<Rightarrow> sel \<Rightarrow> sel" where
  "set_anothers x s =
     Select (s_distinct s) (s_columns s) (s_from s) (s_where s) (s_preWhere s) (s_having s) (s_groupBy s)
     (s_orderBy s) (s_limit s) (s_offset s) (s_withs s) (s_joins s) (s_windows s) (s_settings s) x"

definition UnionAll :: "sel \<Rightarrow> sel list \<Rightarrow> sel" where
  "UnionAll q anothers = set_anothers (s_anothers q @ anothers) q"

text \<open>The columns of a query by alias; only a \<open>Col\<close> is \<open>Aliased\<close>.\<close>

fun patchCol :: "sqlobj list \<Rightarrow> string \<Rightarrow> (sqlobj \<Rightarrow> sqlobj res) \<Rightarrow> sqlobj list res" where
  "patchCol [] name patch = Inr []"
| "patchCol (c # cols) name patch =
     rbind (case c of
              Col e al \<Rightarrow> if al \<noteq> name then Inr c else rbind (patch e) (\<lambda>e'. Inr (NewCol e' name))
            | _ \<Rightarrow> Inr c) (\<lambda>c'. rbind (patchCol cols name patch) (\<lambda>cs. Inr (c' # cs)))"

definition has_alias :: "string \<Rightarrow> sqlobj \<Rightarrow> bool" where
  "has_alias name c = (case c of Col e al \<Rightarrow> al = name | _ \<Rightarrow> False)"

definition hasColumn :: "sqlobj list \<Rightarrow> string \<Rightarrow> bool" where
  "hasColumn cols name = list_ex (has_alias name) cols"

definition getCol :: "sel \<Rightarrow> string \<Rightarrow> sqlobj option" where
  "getCol req al =
     (case filter (has_alias al) (s_columns req) of Col e _ # _ \<Rightarrow> Some e | _ \<Rightarrow> None)"

definition boundTimeSeriesToWindow :: "planner_ctx \<Rightarrow> sel \<Rightarrow> with_q \<Rightarrow> sel" where
  "boundTimeSeriesToWindow ctx tsReq windowMain =
     (let fpSub = sel_From (NewWithRef windowMain) (sel_Select [NewSimpleCol ''fingerprint'' ''''] NewSelect);
          col = NewRawObject ''time_series.fingerprint'' in
      if pc_IsCluster ctx then sel_AndWhere [globalInCondition col fpSub] tsReq
      else sel_AndWhere [NewIn col [SelectObj fpSub]] tsReq)"

subsection \<open>The covered part of a bin (coverage.go)\<close>

definition coveredNsExprBounds :: "ch_env \<Rightarrow> string \<Rightarrow> int \<Rightarrow> int \<Rightarrow> int \<Rightarrow> string" where
  "coveredNsExprBounds E bucketStart d fromNs toNs =
     (let toNs = (if toNs > env_now E then env_now E else toNs) in
      ''greatest(least('' @ bucketStart @ '' + '' @ show_int d @ '', '' @ show_int toNs @ '') - greatest('' @
      bucketStart @ '', '' @ show_int fromNs @ ''), 1)'')"

definition coveredNsExpr :: "ch_env \<Rightarrow> planner_ctx \<Rightarrow> string \<Rightarrow> int \<Rightarrow> int option \<Rightarrow> string" where
  "coveredNsExpr E ctx bucketStart d off =
     (let delta = (case off of Some x \<Rightarrow> x | None \<Rightarrow> pc_Offset ctx) in
      coveredNsExprBounds E bucketStart d (pc_From ctx + delta) (pc_To ctx + delta))"

definition rateValueExpr :: "string \<Rightarrow> string \<Rightarrow> string" where
  "rateValueExpr numerator covered = numerator @ '' / ('' @ covered @ '' / 1e9)''"

definition totalValueExpr :: "string \<Rightarrow> string \<Rightarrow> int \<Rightarrow> string" where
  "totalValueExpr tot covered d = tot @ '' * ('' @ show_int d @ '' / '' @ covered @ '')''"

end
