(* ===== verification/Ch_Leaf.thy ===== *)
theory Ch_Leaf
  imports Ch_Base
begin

section \<open>The reads of a planned query\<close>

text \<open>
  The planners that read a table: planner\_stream\_select.go, planner\_main\_init.go,
  planner\_time\_series\_init.go, planner\_metrics15s\_shortcut.go and
  planner\_simple\_label\_filter.go with the conditions of planner\_label\_filter.go. The three
  parallel slices of \<open>StreamSelectPlanner\<close> are one list of triples (label, operator, value).
\<close>

type_synonym matcher = "string \<times> string \<times> string"

subsection \<open>Stream selection\<close>

definition slice_at :: "'a list \<Rightarrow> nat \<Rightarrow> 'a res" where
  "slice_at xs i = (if i < length xs then Inr (xs ! i) else Inl (Panic ''index out of range''))"

text \<open>\<open>append(s[:i], s[i+1:]...)\<close>.\<close>

definition slice_remove :: "'a list \<Rightarrow> nat \<Rightarrow> 'a list" where
  "slice_remove xs i = take i xs @ drop (i + 1) xs"

text \<open>The loop of \<open>StreamSelectPlanner.Process\<close> from index \<open>i - 1\<close> down to 0.\<close>

fun strip_matchers :: "nat \<Rightarrow> matcher list \<Rightarrow> string list \<Rightarrow> (matcher list \<times> string list) res" where
  "strip_matchers 0 ms emptyLabels = Inr (ms, emptyLabels)"
| "strip_matchers (Suc i) ms emptyLabels =
     rbind (slice_at ms i) (\<lambda>(name, op, val).
       let isEmpty = ((op = ''='' \<or> op = ''=~'') \<and> val = '''');
           emptyLabels' = (if isEmpty then emptyLabels @ [name] else emptyLabels);
           ms' = (if isEmpty then slice_remove ms i else ms) in
       rbind (slice_at ms' i) (\<lambda>(name', op', val').
         strip_matchers i (if op' = ''=~'' \<and> val' = ''.*'' then slice_remove ms' i else ms') emptyLabels'))"

definition val_clause :: "string \<Rightarrow> string \<Rightarrow> sqlobj res" where
  "val_clause op v =
     (if op = ''='' then Inr (sql_Eq (NewRawObject ''val'') (StringVal v))
      else if op = ''!='' then Inr (sql_Neq (NewRawObject ''val'') (StringVal v))
      else if op = ''=~'' then Inr (sql_Eq (SqlMatch (NewRawObject ''val'') (StringVal v)) (IntVal 1))
      else if op = ''!~'' then Inr (sql_Eq (SqlMatch (NewRawObject ''val'') (StringVal v)) (IntVal 0))
      else Inl (ErrMsg (op @ '' op not supported'')))"

definition matcher_clause :: "matcher \<Rightarrow> sqlobj res" where
  "matcher_clause m =
     (case m of (name, op, v) \<Rightarrow>
        rbind (val_clause op v) (\<lambda>valClause.
          Inr (sql_And [sql_Eq (NewRawObject ''key'') (StringVal name), valClause])))"

definition SqlBitSetAnd :: "sqlobj list \<Rightarrow> sqlobj" where
  "SqlBitSetAnd clauses =
     ext_obj ''groupBitOr'' clauses
       (\<lambda>ss. ''groupBitOr('' @
          go_join '' + '' (map (\<lambda>(i, s). ''bitShiftLeft('' @ s @ '', '' @ show_int (int i) @ '')'') (enumerate 0 ss)) @ '')'')"

text \<open>\<open>(1 << n) - 1\<close> at \<open>int64\<close>.\<close>

definition all_bits :: "nat \<Rightarrow> int" where
  "all_bits n = sint (push_bit n (1 :: 64 word) - 1)"

definition fp_request :: "planner_ctx \<Rightarrow> int \<Rightarrow> sqlobj list \<Rightarrow> sel" where
  "fp_request ctx from clauses =
     oid_AndWhere ctx ''''
       (sel_AndHaving [sql_Eq (SqlBitSetAnd clauses) (IntVal (all_bits (length clauses)))]
       (sel_GroupBy [NewRawObject ''fingerprint'']
       (sel_AndWhere [sql_Ge (NewRawObject ''date'') (StringVal (FormatFromDate from)), GetTypes ctx, sql_Or clauses]
       (sel_From (NewRawObject (pc_TimeSeriesGinTableName ctx))
       (sel_Select [NewRawObject ''fingerprint''] NewSelect)))))"

definition empty_clause :: "string \<Rightarrow> sqlobj" where
  "empty_clause label =
     sql_Eq (ext_obj '''' [StringVal label] (\<lambda>s. ''simpleJSONHas(labels, '' @ s ! 0 @ '')'')) (IntVal 0)"

definition processEmptyLabels :: "planner_ctx \<Rightarrow> matcher list \<Rightarrow> sel \<Rightarrow> string list \<Rightarrow> sel" where
  "processEmptyLabels ctx ms req emptyLabels =
     (if emptyLabels = [] then req
      else
        (let withFpPreRequest = NewWith req ''fp_pre_req'';
             res = oid_AndWhere ctx ''''
               (sel_AndWhere [sql_Ge (NewRawObject ''date'') (StringVal (FormatFromDate (pc_From ctx))),
                              sql_And (map empty_clause emptyLabels)]
               (sel_From (NewRawObject (pc_TimeSeriesTableName ctx))
               (sel_Select [NewSimpleCol ''fingerprint'' ''fingerprint''] NewSelect))) in
         if ms \<noteq> [] then
           sel_AndWhere [NewIn (NewRawObject ''fingerprint'') [NewWithRef withFpPreRequest]]
             (sel_With [withFpPreRequest] res)
         else res))"

text \<open>\<open>StreamSelectPlanner.Process\<close>; \<open>None\<close> is the nil query.\<close>

definition StreamSelect_Process ::
    "ch_env \<Rightarrow> planner_ctx \<Rightarrow> bool \<Rightarrow> matcher list \<Rightarrow> int option \<Rightarrow> sel option res" where
  "StreamSelect_Process E ctx noStreamSelect ms offset =
     (if noStreamSelect then Inr None
      else
        (let from = pc_From ctx + (case offset of Some x \<Rightarrow> x | None \<Rightarrow> pc_Offset ctx) in
         rbind (if env_OmitEmptyValues E then Inr (ms, []) else strip_matchers (length ms) ms [])
           (\<lambda>(ms', emptyLabels). rbind (mapM_res matcher_clause ms') (\<lambda>clauses.
             Inr (Some (processEmptyLabels ctx ms' (fp_request ctx from clauses) emptyLabels))))))"

subsection \<open>The initial queries\<close>

definition SqlMainInit_Process :: "planner_ctx \<Rightarrow> int option \<Rightarrow> sel res" where
  "SqlMainInit_Process ctx offset =
     (let from = pc_From ctx + (case offset of Some x \<Rightarrow> x | None \<Rightarrow> 0);
          till = pc_To ctx + (case offset of Some x \<Rightarrow> x | None \<Rightarrow> 0);
          offsetNsStr = (case offset of Some x \<Rightarrow> '' + '' @ show_int x | None \<Rightarrow> '''') in
      rbind (sel_AndPreWhere
          [sql_Ge (NewRawObject ''samples.timestamp_ns'') (IntVal from),
           sql_Lt (NewRawObject ''samples.timestamp_ns'') (IntVal till), GetTypes ctx]
          (sel_From (NewSimpleCol (pc_SamplesDistTableName ctx) ''samples'')
          (sel_Select
            [NewSimpleCol (''samples.timestamp_ns'' @ offsetNsStr) ''timestamp_ns'',
             NewSimpleCol ''samples.fingerprint'' ''fingerprint'',
             NewSimpleCol ''samples.string'' ''string'',
             NewSimpleCol ''toFloat64(0)'' ''value''] NewSelect)))
        (oid_AndPreWhere ctx ''samples''))"

definition TimeSeriesInit_Process :: "planner_ctx \<Rightarrow> int option \<Rightarrow> sel res" where
  "TimeSeriesInit_Process ctx offset =
     (let from = pc_From ctx + (case offset of Some x \<Rightarrow> x | None \<Rightarrow> 0) in
      rbind (sel_AndPreWhere
          [sql_Ge (NewRawObject ''time_series.date'') (StringVal (FormatFromDate from)), GetTypes ctx]
          (sel_From (NewSimpleCol (pc_TimeSeriesDistTableName ctx) ''time_series'')
          (sel_Select
            [NewSimpleCol ''time_series.fingerprint'' ''fingerprint'',
             NewSimpleCol (''mapFromArrays('' @
               ''arrayMap(x -> x.1, JSONExtractKeysAndValues(time_series.labels, '' @ [CHR 0x27] @ ''String'' @
               [CHR 0x27] @ '') as rawlbls), '' @ ''arrayMap(x -> x.2, rawlbls))'') ''labels''] NewSelect)))
        (oid_AndPreWhere ctx ''time_series''))"

definition bucket_15s :: "int \<Rightarrow> int" where
  "bucket_15s ns = go_div ns 15000000000 * 15000000000"

definition Metrics15_GetQuery :: "planner_ctx \<Rightarrow> int \<Rightarrow> int option \<Rightarrow> sqlobj \<Rightarrow> string \<Rightarrow> sel" where
  "Metrics15_GetQuery ctx d offset col table =
     (let from = pc_From ctx + (case offset of Some x \<Rightarrow> x | None \<Rightarrow> 0);
          till = pc_To ctx + (case offset of Some x \<Rightarrow> x | None \<Rightarrow> 0);
          offsetNsStr = (case offset of Some x \<Rightarrow> '' + '' @ show_int x | None \<Rightarrow> '''') in
      oid_AndWhere ctx ''samples''
        (sel_GroupBy [NewRawObject ''fingerprint'', NewRawObject ''timestamp_ns'']
        (sel_AndWhere
          [sql_Ge (NewRawObject ''samples.timestamp_ns'') (IntVal (bucket_15s from)),
           sql_Lt (NewRawObject ''samples.timestamp_ns'') (IntVal (bucket_15s till)), GetTypes ctx]
        (sel_From (NewSimpleCol table ''samples'')
        (sel_Select
          [NewSimpleCol (''intDiv(samples.timestamp_ns'' @ offsetNsStr @ '', '' @ show_int d @ '') * '' @ show_int d)
             ''timestamp_ns'',
           NewSimpleCol ''fingerprint'' ''fingerprint'',
           NewSimpleCol [CHR 0x27, CHR 0x27] ''string'',
           NewCol col ''value''] NewSelect)))))"

text \<open>An unknown function leaves the column nil, which printing then dereferences.\<close>

definition nil_obj :: sqlobj where
  "nil_obj = CustomCol (\<lambda>opts. perr (Panic ''nil pointer dereference''))"

definition Metrics15_Process :: "ch_env \<Rightarrow> planner_ctx \<Rightarrow> string \<Rightarrow> int \<Rightarrow> int option \<Rightarrow> sel" where
  "Metrics15_Process E ctx fn d offset =
     (let off = (case offset of Some x \<Rightarrow> x | None \<Rightarrow> 0);
          offsetNsStr = (case offset of Some x \<Rightarrow> '' + '' @ show_int x | None \<Rightarrow> '''');
          bucketStart = ''intDiv(samples.timestamp_ns'' @ offsetNsStr @ '', '' @ show_int d @ '') * '' @ show_int d;
          fromNs = bucket_15s (pc_From ctx + off) + off;
          toNs = bucket_15s (pc_To ctx + off) + off;
          covered = coveredNsExprBounds E bucketStart d fromNs toNs;
          col = (if fn = ''rate'' then NewRawObject (rateValueExpr ''toFloat64(countMerge(count))'' covered)
                 else if fn = ''count_over_time''
                 then NewRawObject (totalValueExpr ''toFloat64(countMerge(count))'' covered d)
                 else nil_obj) in
      Metrics15_GetQuery ctx d offset col (pc_Metrics15sDistTableName ctx))"

definition labelsFromScratch :: "planner_ctx \<Rightarrow> with_q option \<Rightarrow> with_q option \<Rightarrow> sel res" where
  "labelsFromScratch ctx fpCache windowMain =
     rbind (TimeSeriesInit_Process ctx None) (\<lambda>from.
       rbind (case fpCache of None \<Rightarrow> Inr from
              | Some w \<Rightarrow> sel_AndPreWhere [NewIn (NewRawObject ''time_series.fingerprint'') [NewWithRef w]] from) (\<lambda>from.
         Inr (case windowMain of None \<Rightarrow> from | Some w \<Rightarrow> boundTimeSeriesToWindow ctx from w)))"

end
