(* ===== verification/Ch_Filter.thy ===== *)
theory Ch_Filter
  imports Ch_Leaf
begin

section \<open>Filters, parsers and formats as SQL\<close>

text \<open>
  The stages of a log pipeline that become conditions or columns of the query:
  planner\_label\_filter.go, planner\_line\_filter.go, planner\_line\_format.go,
  planner\_parser*.go, planner\_drop.go, planner\_keep.go and planner\_unwrap.go. A \<open>*_Process\<close> takes
  the step of its input (\<open>Main.Process\<close>) as an argument.
\<close>

subsection \<open>Label filters\<close>

definition notNull :: "sqlobj \<Rightarrow> sqlobj" where
  "notNull main = ext_obj ''IS NOT NULL'' [main] (\<lambda>s. s ! 0 @ '' IS NOT NULL'')"

definition toFloat64OrNull :: "sqlobj \<Rightarrow> sqlobj" where
  "toFloat64OrNull main = ext_obj '''' [main] (\<lambda>s. ''toFloat64OrNull('' @ s ! 0 @ '')'')"

definition quoted_in :: "string \<Rightarrow> string \<Rightarrow> string \<Rightarrow> string" where
  "quoted_in pre s post = pre @ [CHR 0x27] @ s @ [CHR 0x27] @ post"

text \<open>The column of a label: in the label map, or what \<open>LabelValGetter\<close> gives.\<close>

definition map_label :: "string \<Rightarrow> sqlobj" where
  "map_label name = NewRawObject (quoted_in ''labels['' name '']'')"

definition json_label :: "string \<Rightarrow> sqlobj" where
  "json_label name = NewRawObject (quoted_in ''JSONExtractString(labels, '' name '')'')"

definition JSONParserErr :: string where "JSONParserErr = ''JSONParserErr''"

text \<open>\<open>makeErrorLabelCond\<close>: \<open>None\<close> when the filter is not handled.\<close>

definition makeErrorLabelCond :: "ch_env \<Rightarrow> bool \<Rightarrow> SimpleLabelFilter \<Rightarrow> sqlobj option res" where
  "makeErrorLabelCond E jsonSeen expr =
     (if \<not> jsonSeen \<or> slf_Label expr \<noteq> ErrorLabel then Inr None
      else if slf_Fn expr \<noteq> ''='' \<and> slf_Fn expr \<noteq> ''!='' then Inr None
      else case slf_StrVal expr of
        None \<Rightarrow> Inr None
      | Some q \<Rightarrow> rbind (Unquote (env_lib E) q) (\<lambda>val.
          let jsonType = NewRawObject ''JSONType(string)'';
              noError = sql_Eq jsonType (StringVal ''Object'');
              isError = sql_Neq jsonType (StringVal ''Object'') in
          if val = '''' then Inr (Some (if slf_Fn expr = ''!='' then isError else noError))
          else if val = JSONParserErr then Inr (Some (if slf_Fn expr = ''='' then isError else noError))
          else if slf_Fn expr = ''='' then Inr (Some (sql_Eq (IntVal 1) (IntVal 0)))
          else Inr (Some (sql_Eq (IntVal 1) (IntVal 1)))))"

definition str_op :: "string \<Rightarrow> (sqlobj \<Rightarrow> sqlobj \<Rightarrow> sqlobj) option" where
  "str_op fn =
     (if fn = ''='' then Some sql_Eq
      else if fn = ''=~'' then Some (\<lambda>l r. sql_Eq (SqlMatch l r) (IntVal 1))
      else if fn = ''!~'' then Some (\<lambda>l r. sql_Eq (SqlMatch l r) (IntVal 0))
      else if fn = ''!='' then Some sql_Neq else None)"

definition makeSimpleStrSqlCond ::
    "ch_env \<Rightarrow> (string \<Rightarrow> sqlobj) \<Rightarrow> bool \<Rightarrow> SimpleLabelFilter \<Rightarrow> sqlobj res" where
  "makeSimpleStrSqlCond E label jsonSeen expr =
     rbind (makeErrorLabelCond E jsonSeen expr) (\<lambda>handled.
       case handled of Some cond \<Rightarrow> Inr cond
       | None \<Rightarrow>
         (case slf_StrVal expr of
            None \<Rightarrow> Inl (ErrMsg (''illegal expression: '' @ str_SimpleLabelFilter expr))
          | Some q \<Rightarrow>
            (case str_op (slf_Fn expr) of
               None \<Rightarrow> Inl (ErrMsg (''illegal expression: '' @ str_SimpleLabelFilter expr))
             | Some sqlOp \<Rightarrow> rbind (Unquote (env_lib E) q) (\<lambda>val.
                 Inr (sqlOp (label (slf_Label expr)) (StringVal val))))))"

definition num_op :: "string \<Rightarrow> sqlobj \<Rightarrow> sqlobj \<Rightarrow> sqlobj" where
  "num_op fn =
     (if fn = ''=='' then sql_Eq else if fn = ''!='' then sql_Neq else if fn = ''>'' then sql_Gt
      else if fn = ''>='' then sql_Ge else if fn = ''<'' then sql_Lt else sql_Le)"

definition makeSimpleNumSqlCond :: "ch_env \<Rightarrow> (string \<Rightarrow> sqlobj) \<Rightarrow> SimpleLabelFilter \<Rightarrow> sqlobj res" where
  "makeSimpleNumSqlCond E label expr =
     (let lbl = toFloat64OrNull (label (slf_Label expr)) in
      if slf_NumVal expr = '''' then Inl (ErrMsg (''illegal expression: '' @ str_SimpleLabelFilter expr))
      else rbind (parse_float (env_lib E) (slf_NumVal expr)) (\<lambda>val.
        Inr (sql_And [notNull lbl, num_op (slf_Fn expr) lbl (FloatVal val)])))"

definition makeSimpleSqlCond ::
    "ch_env \<Rightarrow> (string \<Rightarrow> sqlobj) \<Rightarrow> bool \<Rightarrow> SimpleLabelFilter \<Rightarrow> sqlobj res" where
  "makeSimpleSqlCond E label jsonSeen expr =
     (if slf_Fn expr \<in> {''=='', ''>'', ''>='', ''<'', ''<=''} \<or> slf_Fn expr = ''!='' \<and> slf_StrVal expr = None
      then makeSimpleNumSqlCond E label expr
      else makeSimpleStrSqlCond E label jsonSeen expr)"

fun makeSqlCond :: "ch_env \<Rightarrow> (string \<Rightarrow> sqlobj) \<Rightarrow> bool \<Rightarrow> LabelFilter \<Rightarrow> sqlobj res"
and makeHeadCond :: "ch_env \<Rightarrow> (string \<Rightarrow> sqlobj) \<Rightarrow> bool \<Rightarrow> Head \<Rightarrow> sqlobj res" where
  "makeSqlCond E label jsonSeen (LabelFilter h op tl') =
     rbind (makeHeadCond E label jsonSeen h) (\<lambda>leftSide.
       case tl' of None \<Rightarrow> Inr leftSide
       | Some t \<Rightarrow> rbind (makeSqlCond E label jsonSeen t) (\<lambda>rightSide.
           if op = ''and'' then Inr (sql_And [leftSide, rightSide])
           else if op = ''or'' then Inr (sql_Or [leftSide, rightSide])
           else Inl (ErrMsg (''illegal expression '' @ str_LabelFilter (LabelFilter h op tl')))))"
| "makeHeadCond E label jsonSeen (Head complex simple) =
     (case simple of Some s \<Rightarrow> makeSimpleSqlCond E label jsonSeen s
      | None \<Rightarrow> (case complex of None \<Rightarrow> nil_deref | Some e \<Rightarrow> makeSqlCond E label jsonSeen e))"

definition ChLabelFilter_Process :: "ch_env \<Rightarrow> LabelFilter \<Rightarrow> bool \<Rightarrow> sel ch \<Rightarrow> sel ch" where
  "ChLabelFilter_Process E expr jsonSeen main =
     cbind main (\<lambda>q. cbind (clift (makeSqlCond E map_label jsonSeen expr)) (\<lambda>cond. cret (sel_AndWhere [cond] q)))"

definition SimpleLabelFilter_Process ::
    "ch_env \<Rightarrow> planner_ctx \<Rightarrow> bool \<Rightarrow> LabelFilter \<Rightarrow> sel ch \<Rightarrow> sel ch" where
  "SimpleLabelFilter_Process E ctx noStreamSelect expr fpSel =
     (let mainReq = sel_From (NewRawObject (pc_TimeSeriesTableName ctx))
            (sel_Select [NewRawObject ''fingerprint''] NewSelect) in
      cbind (if noStreamSelect then cret mainReq
             else cbind fpSel (\<lambda>main. cbind pc_Id (\<lambda>i.
               let withMain = NewWith main (''subsel_'' @ show_int i) in
               cret (sel_AndWhere [NewIn (NewRawObject ''fingerprint'') [NewWithRef withMain]]
                 (sel_With [withMain] mainReq)))))
        (\<lambda>q. cbind (clift (makeSqlCond E json_label False expr)) (\<lambda>cond. cret (sel_AndWhere [cond] q))))"

subsection \<open>Line filters\<close>

definition isAlphanumericRune :: "char \<Rightarrow> bool" where
  "isAlphanumericRune r \<longleftrightarrow>
     CHR ''a'' \<le> r \<and> r \<le> CHR ''z'' \<or> CHR ''A'' \<le> r \<and> r \<le> CHR ''Z'' \<or> CHR ''0'' \<le> r \<and> r \<le> CHR ''9''"

text \<open>
  \<open>strings.FieldsFunc\<close>: the maximal runs of bytes that satisfy \<open>p\<close>. The separator test looks at
  runes; a rune is alphanumeric only if it is a single byte, so the bytes decide. Trimming white
  space first removes separators only.
\<close>

fun fields_of :: "(char \<Rightarrow> bool) \<Rightarrow> string \<Rightarrow> string \<Rightarrow> string list" where
  "fields_of p acc [] = (if acc = '''' then [] else [acc])"
| "fields_of p acc (x # xs) =
     (if p x then fields_of p (acc @ [x]) xs
      else if acc = '''' then fields_of p '''' xs else acc # fields_of p '''' xs)"

definition splitOnNonAlphanumeric :: "string \<Rightarrow> string" where
  "splitOnNonAlphanumeric s = go_join '' '' (fields_of isAlphanumericRune '''' (trim_space s))"

text \<open>\<open>strings.Trim(s, cutset)\<close> for a one-byte cutset.\<close>

definition trim_byte :: "char \<Rightarrow> string \<Rightarrow> string" where
  "trim_byte c s = rev (dropWhile (\<lambda>x. x = c) (rev (dropWhile (\<lambda>x. x = c) s)))"

definition doLike :: "string \<Rightarrow> string \<Rightarrow> sqlobj" where
  "doLike likeOp val =
     (let enqVal = trim_byte (CHR 0x27) (render_StringVal val);
          enqVal = replace_byte (CHR ''%'') [CHR 0x5C, CHR ''%''] enqVal;
          enqVal = replace_byte (CHR ''_'') [CHR 0x5C, CHR ''_''] enqVal in
      SqlLike likeOp (NewRawObject ''samples.string'') (''%'' @ enqVal @ ''%''))"

definition doHasPhrase :: "string \<Rightarrow> sqlobj" where
  "doHasPhrase val =
     (let phrase = splitOnNonAlphanumeric val in
      if phrase = '''' then doLike ''like'' val
      else SqlHasPhrase (NewRawObject ''samples.string'') phrase)"

text \<open>\<open>syntax.PerlX\<close> is 64 and \<open>syntax.FoldCase\<close> 1.\<close>

definition re2Like :: "ch_env \<Rightarrow> string \<Rightarrow> (string \<times> bool) option" where
  "re2Like E val =
     (case env_re_parse E val of
        None \<Rightarrow> None
      | Some e \<Rightarrow>
          if \<not> re_OpLiteral e \<or> re_Flags e AND NOT 65 \<noteq> 0 then None
          else Some (re_Rune e, re_Flags e AND 1 \<noteq> 0))"

text \<open>\<open>strings.Split(match, "<_>")\<close>, and the loop of \<open>patternMatch\<close> from index \<open>i - 1\<close> down.\<close>

fun split_hole :: "string \<Rightarrow> string list" where
  "split_hole [] = [[]]"
| "split_hole (x # xs) =
     (if has_prefix ''<_>'' (x # xs) then [] # split_hole (drop 2 xs)
      else (case split_hole xs of [] \<Rightarrow> [[x]] | p # ps \<Rightarrow> (x # p) # ps))"

definition slash_count :: "string \<Rightarrow> nat" where
  "slash_count s = length (takeWhile (\<lambda>x. x = CHR 0x5C) (rev s))"

fun join_escaped :: "nat \<Rightarrow> string list \<Rightarrow> string list" where
  "join_escaped 0 parts = parts"
| "join_escaped (Suc i) parts =
     join_escaped i
       (if odd (slash_count (parts ! i))
        then take i parts @ [parts ! i @ ''<_>'' @ parts ! (i + 1)] @ drop (i + 2) parts else parts)"

definition patternMatch :: "string \<Rightarrow> string" where
  "patternMatch m =
     (let parts = split_hole (replace_byte (CHR ''%'') ''%%'' m) in
      go_join ''%'' (join_escaped (length parts - 1) parts))"

definition buildSimpleCondition :: "ch_env \<Rightarrow> string \<Rightarrow> QuotedString \<Rightarrow> sqlobj res" where
  "buildSimpleCondition E fn s =
     rbind (Unquote (env_lib E) s) (\<lambda>val.
       if fn = ''|='' then Inr (doHasPhrase val)
       else if fn = ''!='' then Inr (doLike ''notLike'' val)
       else if fn = ''|~'' then
         Inr (case re2Like E val of
                Some (likeStr, insensitive) \<Rightarrow> doLike (if insensitive then ''ilike'' else ''like'') likeStr
              | None \<Rightarrow> sql_Eq (SqlMatch (NewRawObject ''string'') (StringVal val)) (IntVal 1))
       else if fn = ''!~'' then
         Inr (case re2Like E val of
                Some (likeStr, insensitive) \<Rightarrow> doLike (if insensitive then ''notILike'' else ''notLike'') likeStr
              | None \<Rightarrow> sql_Eq (SqlMatch (NewRawObject ''string'') (StringVal val)) (IntVal 1))
       else if fn = ''|>'' then
         Inr (BinaryLogicalOp ''LIKE'' (NewRawObject ''string'') (StringVal (patternMatch val)))
       else Inl (ErrMsg (fn @ '' not supported'')))"

fun buildExpCondition :: "ch_env \<Rightarrow> string \<Rightarrow> LineFilterExp \<Rightarrow> sqlobj res"
and buildHeadCondition :: "ch_env \<Rightarrow> string \<Rightarrow> LineFilterHead \<Rightarrow> sqlobj res" where
  "buildExpCondition E fn (LineFilterExp h op tl') =
     rbind (buildHeadCondition E fn h) (\<lambda>head.
       if op = '''' then Inr head
       else (case tl' of None \<Rightarrow> nil_deref
             | Some t \<Rightarrow> rbind (buildExpCondition E fn t) (\<lambda>tail.
                 if op = ''or'' then Inr (sql_Or [head, tail]) else Inr (sql_And [head, tail]))))"
| "buildHeadCondition E fn (LineFilterHead complex simple) =
     (case complex of Some e \<Rightarrow> buildExpCondition E fn e
      | None \<Rightarrow> (case simple of None \<Rightarrow> nil_deref | Some s \<Rightarrow> buildSimpleCondition E fn s))"

definition ChLineFilter_Process :: "ch_env \<Rightarrow> LineFilter \<Rightarrow> sel ch \<Rightarrow> sel ch" where
  "ChLineFilter_Process E f main =
     cbind main (\<lambda>req. cbind (clift (buildExpCondition E (lf_Fn f) (lf_Exp f))) (\<lambda>clause.
       cret (sel_AndWhere [clause] req)))"


subsection \<open>Parsers\<close>

text \<open>\<open>jsonPathPart.String\<close> and \<open>JsonPathParamToArray\<close> (shared/path\_parser.go).\<close>

definition jsonPathPart_String :: "ch_env \<Rightarrow> jsonPathPart \<Rightarrow> string res" where
  "jsonPathPart_String E j =
     (if jp_Ident j \<noteq> '''' then Inr (jp_Ident j)
      else if jp_Idx j \<noteq> '''' then rbind (env_atoi E (jp_Idx j)) (\<lambda>i. Inr (show_int (i + 1)))
      else Unquote (env_lib E) (jp_Field j))"

definition JsonPathParamToArray :: "ch_env \<Rightarrow> string \<Rightarrow> string list res" where
  "JsonPathParamToArray E param =
     rbind (json_path_parse (env_lib E) param) (mapM_res (jsonPathPart_String E))"

definition path2Sql :: "sqlobj \<Rightarrow> string list \<Rightarrow> sqlobj" where
  "path2Sql col path =
     ext_obj '''' (col # map StringVal path) (\<lambda>s.
       let c = s ! 0; p = go_join '','' (tl s) in
       ''if(JSONType('' @ c @ '', '' @ p @ '') == '' @ [CHR 0x27] @ ''String'' @ [CHR 0x27] @ '', '' @
       ''JSONExtractString('' @ c @ '', '' @ p @ ''), '' @ ''JSONExtractRaw('' @ c @ '', '' @ p @ '')'' @ '')'')"

fun every_other :: "'a list \<Rightarrow> 'a list" where
  "every_other [] = []"
| "every_other (x # xs) = x # (case xs of [] \<Rightarrow> [] | y # ys \<Rightarrow> every_other ys)"

definition sqlJsonParser :: "sqlobj \<Rightarrow> string list \<Rightarrow> string list list \<Rightarrow> sqlobj" where
  "sqlJsonParser col labels paths =
     ext_obj '''' (concat (map (\<lambda>(l, p). [StringVal l, path2Sql col p]) (zip labels paths))) (\<lambda>s.
       ''mapFromArrays(['' @ go_join '','' (every_other s) @ ''], ['' @ go_join '','' (every_other (tl s)) @ ''])'')"

definition ch_json :: "ch_env \<Rightarrow> string list \<Rightarrow> string list \<Rightarrow> sel \<Rightarrow> sel res" where
  "ch_json E labels vals req =
     rbind (mapM_res (JsonPathParamToArray E) vals) (\<lambda>jsonPaths.
       rbind (patchCol (s_columns req) ''labels'' (\<lambda>object.
           Inr (sqlMapUpdate object (sqlParserError (NewRawObject ''string'')
             (sqlJsonParser (NewRawObject ''string'') labels jsonPaths) JSONParserErr
             ''line is not a valid json object''))))
         (\<lambda>sel'. Inr (sel_Select sel' req)))"

text \<open>
  The text of a regular expression with the names of its groups removed, and those names. A named
  group with an empty body has a nil \<open>Tail\<close>.
\<close>

fun regexAST_String :: "regexAST \<Rightarrow> string res"
and regexPart_String :: "regexPart \<Rightarrow> string res"
and brackPart_String :: "brackPart \<Rightarrow> string res" where
  "regexAST_String (RegexAST parts) = rbind (mapM_res regexPart_String parts) (\<lambda>ss. Inr (concat ss))"
| "regexPart_String (RegexPart simple named brack) =
     (if simple \<noteq> '''' then Inr simple
      else case named of Some b \<Rightarrow> rbind (brackPart_String b) (\<lambda>s. Inr (''('' @ s @ '')''))
      | None \<Rightarrow> (case brack of None \<Rightarrow> nil_deref
                 | Some a \<Rightarrow> rbind (regexAST_String a) (\<lambda>s. Inr (''('' @ s @ '')''))))"
| "brackPart_String (BrackPart name tl') = (case tl' of None \<Rightarrow> nil_deref | Some a \<Rightarrow> regexAST_String a)"

fun groupNames :: "regexAST \<Rightarrow> string list res"
and groupNames_part :: "regexPart \<Rightarrow> string list res"
and groupNames_brack :: "brackPart \<Rightarrow> string list res" where
  "groupNames (RegexAST parts) = rbind (mapM_res groupNames_part parts) (\<lambda>ss. Inr (concat ss))"
| "groupNames_part (RegexPart simple named brack) =
     (case named of Some b \<Rightarrow> groupNames_brack b
      | None \<Rightarrow> (case brack of None \<Rightarrow> Inr [] | Some a \<Rightarrow> rbind (groupNames a) (\<lambda>ns. Inr ('''' # ns))))"
| "groupNames_brack (BrackPart name tl') =
     (case tl' of None \<Rightarrow> nil_deref | Some a \<Rightarrow> rbind (groupNames a) (\<lambda>ns. Inr (name # ns)))"

definition regexMap :: "sqlobj \<Rightarrow> string list \<Rightarrow> string \<Rightarrow> sqlobj" where
  "regexMap col labels re =
     SqlExt '''' True (\<lambda>opts. opts) (col # map StringVal labels @ [StringVal re]) (\<lambda>i s.
       let strCol = s ! 0; strLabels = butlast (tl s); strRe = last s; q2 = [CHR 0x27, CHR 0x27];
           n = show_int i in
       ''mapFromArrays('' @ ''arrayFilter('' @
       '' (x,y) -> x != '' @ q2 @ '' AND y != '' @ q2 @ '','' @
       ''  ['' @ go_join '','' strLabels @ ''] as re_lbls_'' @ n @ '','' @
       ''  arrayMap(x -> x[length(x)], extractAllGroupsHorizontal('' @ strCol @ '', '' @ strRe @ '')) as re_vals_'' @
       n @ ''),'' @
       ''arrayFilter((x,y) -> x != '' @ q2 @ '' AND y != '' @ q2 @ '', re_vals_'' @ n @ '', re_lbls_'' @ n @ ''))'')"

definition ch_regexp :: "ch_env \<Rightarrow> string list \<Rightarrow> sel \<Rightarrow> sel res" where
  "ch_regexp E vals req =
     rbind (slice_at vals 0) (\<lambda>re. rbind (env_regex_parse E re) (\<lambda>ast.
       rbind (groupNames ast) (\<lambda>names.
         rbind (patchCol (s_columns req) ''labels'' (\<lambda>object. rbind (regexAST_String ast) (\<lambda>text'.
             Inr (sqlMapUpdate object (regexMap (NewRawObject ''string'') names text')))))
           (\<lambda>sel'. Inr (sel_Select sel' req)))))"

definition ChParser_Process ::
    "ch_env \<Rightarrow> string \<Rightarrow> string list \<Rightarrow> string list \<Rightarrow> sel ch \<Rightarrow> sel ch" where
  "ChParser_Process E op labels vals main =
     (if op \<noteq> ''regexp'' \<and> op \<noteq> ''json'' then clift (Inl (ErrMsg (op @ '' not supported'')))
      else cbind main (\<lambda>req.
        cbind (clift (if op = ''regexp'' then ch_regexp E vals req else ch_json E labels vals req)) (\<lambda>req.
          cbind (clift (patchCol (s_columns req) ''fingerprint'' (\<lambda>_.
              Inr (NewRawObject ''cityHash64(arraySort(arrayZip(mapKeys(labels),mapValues(labels))))''))))
            (\<lambda>sel'. cret (sel_Select sel' req)))))"

subsection \<open>Formats\<close>

text \<open>\<open>LineFormatPlanner\<close> collects a format string and its arguments while visiting the template.\<close>

type_synonym line_fmt = "string \<times> sqlobj list"

definition append_arg :: "sqlobj \<Rightarrow> line_fmt \<Rightarrow> line_fmt" where
  "append_arg x l = (fst l @ ''{'' @ show_int (int (length (snd l))) @ ''}'', snd l @ [x])"

definition label_arg :: "string \<Rightarrow> sqlobj" where
  "label_arg label = ext_obj '''' [StringVal label] (\<lambda>s. ''labels['' @ s ! 0 @ '']'')"

definition line_arg :: sqlobj where "line_arg = NewRawObject ''string''"

definition timestamp_arg :: sqlobj where
  "timestamp_arg = NewRawObject ''fromUnixTimestamp64Nano(timestamp_ns)''"

definition fieldNode :: "string list \<Rightarrow> line_fmt \<Rightarrow> line_fmt" where
  "fieldNode ident l =
     (let i = hd ident in
      if i = ''__line__'' \<or> i = ''_entry'' then append_arg line_arg l
      else if i = ''__timestamp__'' then append_arg timestamp_arg l
      else append_arg (label_arg i) l)"

definition actionNode :: "tpl_node list list \<Rightarrow> line_fmt \<Rightarrow> line_fmt" where
  "actionNode cmds l =
     (case cmds of
        [[IdentifierNode i]] \<Rightarrow>
          if i = ''__line__'' \<or> i = ''_entry'' then append_arg line_arg l
          else if i = ''__timestamp__'' then append_arg timestamp_arg l else l
      | _ \<Rightarrow> l)"

text \<open>\<open>visitNodes\<close> with \<open>node\<close>: a node first, then its children.\<close>

lemma arg_size: "x \<in> set (concat cmds) \<Longrightarrow> size x < size_list (size_list size) cmds"
proof -
  assume "x \<in> set (concat cmds)"
  then obtain args where a: "x \<in> set args" "args \<in> set cmds" by auto
  have "size x < size_list size args" using a(1) by (induction args) auto
  also have "\<dots> \<le> size_list (size_list size) cmds" using a(2) by (simp add: size_list_estimation')
  finally show ?thesis .
qed

function visitNodes :: "tpl_node \<Rightarrow> line_fmt \<Rightarrow> line_fmt" where
  "visitNodes (TextNode t) l = (fst l @ t, snd l)"
| "visitNodes (FieldNode ident) l = fieldNode ident l"
| "visitNodes (ActionNode cmds) l =
     fold (\<lambda>arg l'. visitNodes arg l') (concat cmds) (actionNode cmds l)"
| "visitNodes (ListNode ns) l = fold (\<lambda>n l'. visitNodes n l') ns l"
| "visitNodes (IdentifierNode i) l = l"
| "visitNodes OtherNode l = l"
  by pat_completeness auto
termination
proof (relation "measure (\<lambda>(n, l). size n)", goal_cases)
  case (2 cmds l x l')
  then show ?case using arg_size [of x cmds] by auto
next
  case (3 ns l x l')
  then have "size x < size_list size ns" by (induction ns) auto
  then show ?case by simp
qed simp

definition ChLineFormat_Process :: "ch_env \<Rightarrow> string \<Rightarrow> sel ch \<Rightarrow> sel ch" where
  "ChLineFormat_Process E tpl main =
     cbind main (\<lambda>req. cbind pc_Id (\<lambda>_. cbind (clift (env_tpl_parse E tpl)) (\<lambda>root.
       let l = visitNodes root ('''', []) in
       cbind (clift (patchCol (s_columns req) ''string'' (\<lambda>_. Inr (sqlFormat (fst l) (snd l))))) (\<lambda>sel'.
         cret (sel_Select sel' req)))))"

subsection \<open>Dropping and keeping labels\<close>

text \<open>One clause per label; with a value the pair is compared.\<close>

definition pair_clause :: "string \<Rightarrow> (string \<times> string) \<Rightarrow> sqlobj" where
  "pair_clause eq lv =
     (case lv of (l, v) \<Rightarrow>
        if v = '''' then ext_obj '''' [StringVal l] (\<lambda>s. ''k'' @ eq @ s ! 0)
        else ext_obj '''' [StringVal l, StringVal v] (\<lambda>s. ''(k, v)'' @ eq @ ''('' @ s ! 0 @ '', '' @ s ! 1 @ '')''))"

definition map_filter :: "string \<Rightarrow> sqlobj \<Rightarrow> sqlobj list \<Rightarrow> sqlobj" where
  "map_filter junction col clauses =
     ext_obj '''' (col # clauses)
       (\<lambda>s. ''mapFilter((k,v) -> '' @ go_join junction (tl s) @ '', '' @ s ! 0 @ '')'')"

definition mapDropFilter :: "sqlobj \<Rightarrow> string list \<Rightarrow> string list \<Rightarrow> sqlobj" where
  "mapDropFilter col labels vals = map_filter '' and '' col (map (pair_clause ''!='') (zip labels vals))"

definition mapKeepFilter :: "sqlobj \<Rightarrow> string list \<Rightarrow> string list \<Rightarrow> sqlobj" where
  "mapKeepFilter col labels vals =
     map_filter '' or '' col
       (map (pair_clause ''=='') ([(ErrorLabel, ''''), (ErrorDetailsLabel, '''')] @ zip labels vals))"

definition PlannerDrop_Process :: "string list \<Rightarrow> string list \<Rightarrow> sel ch \<Rightarrow> sel ch" where
  "PlannerDrop_Process labels vals main =
     cbind main (\<lambda>req.
       cbind (clift (patchCol (s_columns req) ''labels'' (\<lambda>c. Inr (mapDropFilter c labels vals)))) (\<lambda>cols.
         cret (sel_Select cols req)))"

definition PlannerKeep_Process :: "string list \<Rightarrow> string list \<Rightarrow> sel ch \<Rightarrow> sel ch" where
  "PlannerKeep_Process labels vals main =
     cbind main (\<lambda>req.
       cbind (clift (patchCol (s_columns req) ''labels'' (\<lambda>c. Inr (mapKeepFilter c labels vals)))) (\<lambda>cols.
         cret (sel_Select cols req)))"

subsection \<open>Unwrapping\<close>

text \<open>
  \<open>UnwrapPlanner.processSimple\<close>. The other branch needs \<open>UseTimeSeriesTable\<close>, which the planner
  sets from \<open>fastUnwrap\<close>; that field starts false and is only ever conjoined with more.
\<close>

definition unwrap_value :: "string \<Rightarrow> sqlobj \<Rightarrow> sqlobj option \<Rightarrow> sqlobj" where
  "unwrap_value label labels strCol =
     (if label \<noteq> ''_entry'' then
        ext_obj '''' [labels, StringVal label] (\<lambda>s. ''toFloat64OrNull('' @ s ! 0 @ ''['' @ s ! 1 @ ''])'')
      else (case strCol of
              None \<Rightarrow> nil_obj
            | Some c \<Rightarrow> ext_obj '''' [c] (\<lambda>s. ''toFloat64OrNull('' @ s ! 0 @ '')'')))"

definition ChUnwrap_Process :: "string \<Rightarrow> sel ch \<Rightarrow> sel ch" where
  "ChUnwrap_Process label main =
     cbind main (\<lambda>req.
       case getCol req ''labels'' of
         None \<Rightarrow> clift (Inl (ErrMsg ''labels col not inited''))
       | Some labels \<Rightarrow>
           cbind (clift (patchCol (s_columns req) ''value'' (\<lambda>_.
               Inr (unwrap_value label labels (getCol req ''string''))))) (\<lambda>sel'.
             cret (sel_AndWhere [sql_NotNull (NewRawObject ''value'')] (sel_Select sel' req))))"

end
