(* ===== verification/Ch_Planner.thy ===== *)
theory Ch_Planner
  imports Ch_Filter
begin

section \<open>The SQL planners around the main query\<close>

text \<open>
  The planners that put a query into the next one, the tree they form (\<open>sql_planner\<close>, one
  constructor per planner type, the caches being those of the state) and its \<open>Process\<close>. Planners
  of one \<open>planner\<close> value share its two caches; the operands of a binary expression come from
  different ones, so each operand starts with empty caches.
\<close>

subsection \<open>Joining the parts\<close>

definition WithConnector_Process ::
    "sel ch \<Rightarrow> sel ch \<Rightarrow> string \<Rightarrow> (sel \<Rightarrow> with_q \<Rightarrow> sel res) \<Rightarrow> sel ch" where
  "WithConnector_Process main withP al processFn =
     cbind main (\<lambda>q. cbind get_fpCache (\<lambda>cache.
       cbind (case cache of Some w \<Rightarrow> cret w
              | None \<Rightarrow> cbind withP (\<lambda>withReq.
                  let w = NewWith withReq al in cbind (set_fpCache w) (\<lambda>_. cret w)))
         (\<lambda>w. clift (processFn (sel_With [w] q) w))))"

definition FingerprintFilter_Process :: "bool \<Rightarrow> sel ch \<Rightarrow> sel ch \<Rightarrow> sel ch" where
  "FingerprintFilter_Process noStreamSelect fps main =
     (if noStreamSelect then main
      else WithConnector_Process main fps ''fp_sel'' (\<lambda>q w.
        Inr (sel_AndWhere [NewIn (NewRawObject ''samples.fingerprint'') [NewWithRef w]] q)))"

definition labels_join :: "planner_ctx \<Rightarrow> with_q \<Rightarrow> with_q \<Rightarrow> sel" where
  "labels_join ctx withMain withTS =
     (if pc_IsCluster ctx then
        (let withTSSelect = sel_From (NewCol (NewWithRef withTS) ''_time_series'')
               (sel_Select [NewSimpleCol ''mapFromArrays(groupArray(fingerprint), groupArray(labels))'' ''map''] NewSelect);
             labelsCol = ext_obj '''' [SelectObj withTSSelect] (\<lambda>s. ''('' @ s ! 0 @ '')[main.fingerprint]'') in
         sel_From (NewWithRef withMain)
           (sel_Select
             [NewSimpleCol ''main.fingerprint'' ''fingerprint'',
              NewSimpleCol ''main.timestamp_ns'' ''timestamp_ns'',
              NewCol labelsCol ''labels'',
              NewSimpleCol ''main.string'' ''string'',
              NewSimpleCol ''main.value'' ''value'']
             (sel_With [withMain, withTS] NewSelect)))
      else
        sel_Join [NewJoin ''ANY LEFT '' (NewWithRef withTS)
            (Some (sql_Eq (NewRawObject ''main.fingerprint'') (NewRawObject ''_time_series.fingerprint'')))]
          (sel_From (NewWithRef withMain)
          (sel_Select
             [NewSimpleCol ''main.fingerprint'' ''fingerprint'',
              NewSimpleCol ''main.timestamp_ns'' ''timestamp_ns'',
              NewSimpleCol ''_time_series.labels'' ''labels'',
              NewSimpleCol ''main.string'' ''string'',
              NewSimpleCol ''main.value'' ''value'']
             (sel_With [withMain, withTS] NewSelect))))"

definition LabelsJoin_Process ::
    "planner_ctx \<Rightarrow> bool \<Rightarrow> sel ch \<Rightarrow> sel ch \<Rightarrow> sel ch \<Rightarrow> bool \<Rightarrow> sel ch" where
  "LabelsJoin_Process ctx noStreamSelect main fps timeSeries cacheLabels =
     cbind (if noStreamSelect then timeSeries
            else WithConnector_Process timeSeries fps ''fp_sel'' (\<lambda>q w.
              sel_AndPreWhere [NewIn (NewRawObject ''time_series.fingerprint'') [NewWithRef w]] q))
       (\<lambda>tsReq. cbind main (\<lambda>mainReq.
          let withMain = NewWith mainReq ''main'';
              withTS = NewWith (boundTimeSeriesToWindow ctx tsReq withMain) ''_time_series'' in
          cbind (if cacheLabels then set_labelsCache withTS else cret ()) (\<lambda>_.
            cret (labels_join ctx withMain withTS))))"

definition MainRenew_Process :: "bool \<Rightarrow> sel ch \<Rightarrow> sel ch" where
  "MainRenew_Process useLabels main =
     cbind main (\<lambda>q. cbind pc_Id (\<lambda>i.
       let withMain = NewWith q (''subsel_'' @ show_int i) in
       cret (sel_Select
         ([NewSimpleCol ''samples.timestamp_ns'' ''timestamp_ns'',
           NewSimpleCol ''samples.fingerprint'' ''fingerprint''] @
          (if useLabels then [NewSimpleCol ''samples.labels'' ''labels''] else []) @
          [NewSimpleCol ''samples.string'' ''string'',
           NewSimpleCol ''samples.value'' ''value''])
         (sel_From (NewCol (NewWithRef withMain) ''samples'') (sel_With [withMain] NewSelect)))))"

definition order_dir :: "planner_ctx \<Rightarrow> int" where
  "order_dir ctx = (if pc_OrderASC ctx then ORDER_BY_DIRECTION_ASC else ORDER_BY_DIRECTION_DESC)"

definition MainOrderBy_Process :: "planner_ctx \<Rightarrow> string list \<Rightarrow> sel ch \<Rightarrow> sel ch" where
  "MainOrderBy_Process ctx cols main =
     cbind main (\<lambda>req. cret (sel_OrderBy (map (\<lambda>c. NewOrderBy (NewRawObject c) (order_dir ctx)) cols) req))"

definition MainLimit_Process :: "planner_ctx \<Rightarrow> sel ch \<Rightarrow> sel ch" where
  "MainLimit_Process ctx main =
     cbind main (\<lambda>req. cret (if pc_Limit ctx = 0 then req else sel_Limit [IntVal (pc_Limit ctx)] req))"

definition final_cols :: "string \<Rightarrow> bool \<Rightarrow> sqlobj list" where
  "final_cols al isMatrix =
     [NewSimpleCol (al @ ''.fingerprint'') ''fingerprint'',
      NewSimpleCol (al @ ''.labels'') ''labels'',
      (if isMatrix then NewSimpleCol (al @ ''.value'') ''value'' else NewSimpleCol (al @ ''.string'') ''string''),
      NewSimpleCol (al @ ''.timestamp_ns'') ''timestamp_ns'']"

definition MainFinalizer_Process :: "planner_ctx \<Rightarrow> bool \<Rightarrow> bool \<Rightarrow> sel ch \<Rightarrow> sel ch" where
  "MainFinalizer_Process ctx isMatrix isFinal main =
     cbind main (\<lambda>req.
       if \<not> pc_CHFinalize ctx then cret req
       else
         (let withReq = NewWith req ''prefinal'';
              dir = (if isMatrix then ORDER_BY_DIRECTION_ASC else order_dir ctx);
              orderBy = (if isMatrix \<or> isFinal
                         then [NewOrderBy (NewRawObject ''fingerprint'') dir, NewOrderBy (NewRawObject ''timestamp_ns'') dir]
                         else [NewOrderBy (NewRawObject ''timestamp_ns'') dir]) in
          cret (sel_OrderBy orderBy
            (sel_From (NewWithRef withReq)
            (sel_Select (final_cols ''prefinal'' isMatrix) (sel_With [withReq] NewSelect))))))"

subsection \<open>Aggregation\<close>

definition int_div_col :: "string \<Rightarrow> int \<Rightarrow> string" where
  "int_div_col col d = ''intDiv('' @ col @ '', '' @ show_int d @ '') * '' @ show_int d"

definition empty_str_col :: sqlobj where
  "empty_str_col = NewSimpleCol [CHR 0x27, CHR 0x27] ''string''"

definition StepFix_Process :: "planner_ctx \<Rightarrow> int \<Rightarrow> sel ch \<Rightarrow> sel ch" where
  "StepFix_Process ctx d main =
     cbind main (\<lambda>q.
       if d \<ge> pc_Step ctx then cret q
       else
         (let witMain = NewWith q ''pre_step_fix'' in
          cret (sel_Select
            ([NewSimpleCol (int_div_col ''pre_step_fix.timestamp_ns'' (pc_Step ctx)) ''timestamp_ns'',
              NewRawObject ''fingerprint'',
              empty_str_col,
              NewSimpleCol ''argMin(pre_step_fix.value, pre_step_fix.timestamp_ns)'' ''value''] @
             (if hasColumn (s_columns q) ''labels'' then [NewSimpleCol ''any(labels)'' ''labels''] else []))
            (sel_GroupBy [NewRawObject ''timestamp_ns'', NewRawObject ''fingerprint'']
            (sel_From (NewWithRef witMain) (sel_With [witMain] NewSelect))))))"

definition rename_string :: "sqlobj \<Rightarrow> sqlobj" where
  "rename_string c = (case c of Col e al \<Rightarrow> if al = ''string'' then NewCol e ''_string'' else c | _ \<Rightarrow> c)"

definition lra_value :: "string \<Rightarrow> string \<Rightarrow> int \<Rightarrow> sqlobj" where
  "lra_value fn covered d =
     (if fn = ''rate'' then NewRawObject (rateValueExpr ''toFloat64(COUNT())'' covered)
      else if fn = ''count_over_time'' then NewRawObject (totalValueExpr ''toFloat64(COUNT())'' covered d)
      else if fn = ''bytes_rate'' then NewRawObject (rateValueExpr ''toFloat64(sum(length(_string)))'' covered)
      else if fn = ''bytes_over_time''
      then NewRawObject (totalValueExpr ''toFloat64(sum(length(_string)))'' covered d)
      else nil_obj)"

definition lra_query :: "ch_env \<Rightarrow> planner_ctx \<Rightarrow> int \<Rightarrow> string \<Rightarrow> bool \<Rightarrow> int option \<Rightarrow> with_q \<Rightarrow> sel" where
  "lra_query E ctx d fn withLabels offset withAgg =
     (let bucketStart = int_div_col ''time_series.timestamp_ns'' d;
          covered = coveredNsExpr E ctx bucketStart d offset in
      sel_Select
        ([NewSimpleCol bucketStart ''timestamp_ns'',
          NewSimpleCol ''fingerprint'' ''fingerprint'',
          empty_str_col,
          NewCol (lra_value fn covered d) ''value''] @
         (if withLabels then [NewSimpleCol ''any(labels)'' ''labels''] else []))
        (sel_GroupBy [NewRawObject ''fingerprint'', NewRawObject ''timestamp_ns'']
        (sel_From (NewCol (NewWithRef withAgg) ''time_series'') (sel_With [withAgg] NewSelect))))"

definition ChLRA_Process ::
    "ch_env \<Rightarrow> planner_ctx \<Rightarrow> int \<Rightarrow> string \<Rightarrow> bool \<Rightarrow> int option \<Rightarrow> sel ch \<Rightarrow> sel ch" where
  "ChLRA_Process E ctx d fn withLabels offset main =
     cbind main (\<lambda>q.
       cret (lra_query E ctx d fn withLabels offset
         (NewWith (sel_Select (map rename_string (s_columns q)) q) ''agg_a'')))"

definition agg_value :: "string \<Rightarrow> sqlobj" where
  "agg_value fn =
     (if fn = ''sum'' then NewRawObject ''sum(lra_main.value)''
      else if fn = ''min'' then NewRawObject ''min(lra_main.value)''
      else if fn = ''max'' then NewRawObject ''max(lra_main.value)''
      else if fn = ''avg'' then NewRawObject ''avg(lra_main.value)''
      else if fn = ''stddev'' then NewRawObject ''stddevPop(lra_main.value)''
      else if fn = ''stdvar'' then NewRawObject ''varPop(lra_main.value)''
      else if fn = ''count'' then NewRawObject ''count()''
      else nil_obj)"

definition ChAggOp_Process :: "string \<Rightarrow> bool \<Rightarrow> sel ch \<Rightarrow> sel ch" where
  "ChAggOp_Process fn withLabels main =
     cbind main (\<lambda>q.
       let withMain = NewWith q ''lra_main'' in
       cret (sel_Select
         ([NewSimpleCol ''fingerprint'' ''fingerprint'',
           NewCol (agg_value fn) ''value'',
           NewSimpleCol ''lra_main.timestamp_ns'' ''timestamp_ns'',
           empty_str_col] @
          (if withLabels then [NewSimpleCol ''any(lra_main.labels)'' ''labels''] else []))
         (sel_GroupBy [NewRawObject ''fingerprint'', NewRawObject ''timestamp_ns'']
         (sel_From (NewWithRef withMain) (sel_With [withMain] NewSelect)))))"

definition unwrap_fn_value :: "string \<Rightarrow> string \<Rightarrow> int \<Rightarrow> sqlobj" where
  "unwrap_fn_value fn covered d =
     (if fn = ''rate'' then NewRawObject (rateValueExpr ''sum(unwrap_1.value)'' covered)
      else if fn = ''sum_over_time'' then NewRawObject (totalValueExpr ''sum(unwrap_1.value)'' covered d)
      else if fn = ''avg_over_time'' then NewRawObject ''avg(unwrap_1.value)''
      else if fn = ''max_over_time'' then NewRawObject ''max(unwrap_1.value)''
      else if fn = ''min_over_time'' then NewRawObject ''min(unwrap_1.value)''
      else if fn = ''first_over_time'' then NewRawObject ''argMin(unwrap_1.value, unwrap_1.timestamp_ns)''
      else if fn = ''last_over_time'' then NewRawObject ''argMax(unwrap_1.value, unwrap_1.timestamp_ns)''
      else if fn = ''stdvar_over_time'' then NewRawObject ''varPop(unwrap_1.value)''
      else if fn = ''stddev_over_time'' then NewRawObject ''stddevPop(unwrap_1.value)''
      else nil_obj)"

definition UnwrapFunction_Process ::
    "ch_env \<Rightarrow> planner_ctx \<Rightarrow> string \<Rightarrow> int \<Rightarrow> int option \<Rightarrow> sel ch \<Rightarrow> sel ch" where
  "UnwrapFunction_Process E ctx fn d offset main =
     cbind main (\<lambda>q.
       let withMain = NewWith q ''unwrap_1'';
           bucketStart = int_div_col ''timestamp_ns'' d;
           covered = coveredNsExpr E ctx bucketStart d offset in
       cret (sel_GroupBy [NewRawObject ''fingerprint'', NewRawObject ''timestamp_ns'']
         (sel_From (NewWithRef withMain)
         (sel_Select
           [NewSimpleCol bucketStart ''timestamp_ns'',
            NewRawObject ''fingerprint'',
            empty_str_col,
            NewCol (unwrap_fn_value fn covered d) ''value'',
            NewSimpleCol ''any(labels)'' ''labels''] (sel_With [withMain] NewSelect)))))"

definition Quantile_Process :: "ch_env \<Rightarrow> 64 word \<Rightarrow> int \<Rightarrow> sel ch \<Rightarrow> sel ch" where
  "Quantile_Process E param d main =
     cbind main (\<lambda>q.
       let quantA = NewWith q ''quant_a'' in
       cret (sel_Select
         ([NewSimpleCol ''quant_a.fingerprint'' ''fingerprint'',
           NewSimpleCol (int_div_col ''quant_a.timestamp_ns'' d) ''timestamp_ns'',
           NewSimpleCol (''quantile('' @ env_fmt_f E param @ '')(value)'') ''value''] @
          (if hasColumn (s_columns q) ''labels'' then [NewSimpleCol ''any(quant_a.labels)'' ''labels''] else []))
         (sel_GroupBy [NewRawObject ''timestamp_ns'', NewRawObject ''fingerprint'']
         (sel_From (NewWithRef quantA) (sel_With [quantA] NewSelect)))))"

definition topk_slices :: "int \<Rightarrow> bool \<Rightarrow> bool \<Rightarrow> with_q \<Rightarrow> sel" where
  "topk_slices len isTop hasLabels withParA =
     (let lambda = (if isTop then ''x -> (-x.1, x.2'' @ (if hasLabels then '', x.3'' else '''') @ ''),'' else '''');
          tuple = ''par_a.value, par_a.fingerprint'' @ (if hasLabels then '', par_a.labels'' else '''') in
      sel_GroupBy [NewRawObject ''timestamp_ns'']
        (sel_From (NewWithRef withParA)
        (sel_Select
          [NewSimpleCol ''par_a.timestamp_ns'' ''timestamp_ns'',
           NewSimpleCol (''arraySlice(arraySort('' @ lambda @ ''groupArray(('' @ tuple @ ''))), 1, '' @ show_int len @ '')'')
             ''slice''] (sel_With [withParA] NewSelect))))"

definition TopK_Process :: "int \<Rightarrow> bool \<Rightarrow> sel ch \<Rightarrow> sel ch" where
  "TopK_Process len isTop main =
     cbind main (\<lambda>q.
       let hasLabels = hasColumn (s_columns q) ''labels'';
           withParB = NewWith (topk_slices len isTop hasLabels (NewWith q ''par_a'')) ''par_b'' in
       cret (sel_Select
         ([NewSimpleCol ''arr_b.2'' ''fingerprint'',
           NewSimpleCol ''par_b.timestamp_ns'' ''timestamp_ns'',
           NewSimpleCol ''arr_b.1'' ''value'',
           empty_str_col] @
          (if hasLabels then [NewSimpleCol ''arr_b.3'' ''labels''] else []))
         (sel_Join [NewJoin ''array'' (NewSimpleCol ''par_b.slice'' ''arr_b'') None]
         (sel_From (NewWithRef withParB) (sel_With [withParB] NewSelect)))))"

text \<open>An operator outside the list leaves the function nil; calling it panics.\<close>

definition cmp_op :: "string \<Rightarrow> (sqlobj \<Rightarrow> sqlobj \<Rightarrow> sqlobj) option" where
  "cmp_op fn =
     (if fn = ''>'' then Some sql_Gt else if fn = ''<'' then Some sql_Lt else if fn = ''>='' then Some sql_Ge
      else if fn = ''<='' then Some sql_Le else if fn = ''=='' then Some sql_Eq
      else if fn = ''!='' then Some sql_Neq else None)"

definition ChComparison_Process :: "string \<Rightarrow> 64 word \<Rightarrow> sel ch \<Rightarrow> sel ch" where
  "ChComparison_Process fn param main =
     cbind main (\<lambda>q. case cmp_op fn of
       None \<Rightarrow> clift nil_deref
     | Some f \<Rightarrow> cret (sel_AndHaving [f (NewRawObject ''value'') (FloatVal param)] q))"


subsection \<open>Grouping by labels\<close>

definition canonicalFPCol :: "sqlobj \<Rightarrow> sqlobj" where
  "canonicalFPCol inner =
     ext_obj '''' [inner] (\<lambda>s.
       ''cityHash64(arrayStringConcat(arrayMap((k,v)->concat(k,'' @ [CHR 0x27] @ ''='' @ [CHR 0x27] @ '',v),mapKeys('' @
       s ! 0 @ ''),mapValues('' @ s ! 0 @ '')),'' @ [CHR 0x27] @ '','' @ [CHR 0x27] @ ''))'')"

definition byWithoutFilterCol :: "sqlobj \<Rightarrow> string list \<Rightarrow> bool \<Rightarrow> sqlobj" where
  "byWithoutFilterCol labelsCol labels by' =
     (if labels = [] then
        (if by' then ext_obj '''' [] (\<lambda>_. ''map()'') else ext_obj '''' [labelsCol] (\<lambda>s. s ! 0))
      else ext_obj '''' (labelsCol # map StringVal labels) (\<lambda>s.
        ''mapFilter((k,v) -> k '' @ (if by' then ''IN'' else ''NOT IN'') @ '' ('' @ go_join '','' (tl s) @ ''), '' @ s ! 0 @ '')''))"

definition by_simple :: "string list \<Rightarrow> bool \<Rightarrow> sel \<Rightarrow> sel ch" where
  "by_simple labels by' main =
     cbind pc_Id (\<lambda>i.
       let al = ''pre_by_without_'' @ show_int i;
           withMain = NewWith main al;
           filteredLabels = byWithoutFilterCol (NewRawObject (al @ ''.labels'')) labels by' in
       cret (sel_From (NewWithRef withMain)
         (sel_Select
           [NewSimpleCol ''timestamp_ns'' ''timestamp_ns'',
            NewCol (canonicalFPCol filteredLabels) ''fingerprint'',
            NewCol filteredLabels ''labels'',
            NewSimpleCol ''string'' ''string'',
            NewSimpleCol ''value'' ''value''] (sel_With [withMain] NewSelect))))"

text \<open>The labels query of \<open>processTSTable\<close>, from the cache or from the time series table.\<close>

definition by_labels ::
    "planner_ctx \<Rightarrow> bool \<Rightarrow> string list \<Rightarrow> bool \<Rightarrow> with_q option \<Rightarrow> with_q option \<Rightarrow> with_q \<Rightarrow> sel res" where
  "by_labels ctx noStreamSelect labels by' labelsCache fpCache withMain =
     (case labelsCache of
        Some lc \<Rightarrow>
          (let filteredLabels = byWithoutFilterCol (NewRawObject ''a.labels'') labels by' in
           Inr (sel_From (NewCol (NewWithRef lc) ''a'')
             (sel_Select
               [NewRawObject ''fingerprint'',
                NewCol (canonicalFPCol filteredLabels) ''new_fingerprint'',
                NewCol filteredLabels ''labels''] NewSelect)))
      | None \<Rightarrow>
          rbind (labelsFromScratch ctx (if noStreamSelect then None else fpCache) (Some withMain)) (\<lambda>from.
            rbind (patchCol (s_columns from) ''labels'' (\<lambda>object. Inr (byWithoutFilterCol object labels by'))) (\<lambda>cols.
              Inr (sel_Select
                (cols @ [NewCol (canonicalFPCol
                   (case getCol from ''labels'' of None \<Rightarrow> nil_obj | Some object \<Rightarrow> byWithoutFilterCol object labels by'))
                   ''new_fingerprint'']) from))))"

definition relabel_join :: "planner_ctx \<Rightarrow> with_q \<Rightarrow> with_q \<Rightarrow> sel" where
  "relabel_join ctx withMain withLabels =
     (let m = w_alias withMain; l = w_alias withLabels in
      sel_Join [NewJoin (if pc_IsCluster ctx then ''GLOBAL ANY LEFT '' else ''ANY LEFT '') (NewWithRef withLabels)
          (Some (sql_Eq (NewRawObject (m @ ''.fingerprint'')) (NewRawObject (l @ ''.fingerprint''))))]
        (sel_From (NewWithRef withMain)
        (sel_Select
          [NewSimpleCol (l @ ''.new_fingerprint'') ''fingerprint'',
           NewSimpleCol (m @ ''.timestamp_ns'') ''timestamp_ns'',
           NewSimpleCol (m @ ''.value'') ''value'',
           empty_str_col,
           NewSimpleCol (l @ ''.labels'') ''labels''] (sel_With [withMain, withLabels] NewSelect))))"

definition by_ts_table :: "planner_ctx \<Rightarrow> bool \<Rightarrow> string list \<Rightarrow> bool \<Rightarrow> sel \<Rightarrow> sel ch" where
  "by_ts_table ctx noStreamSelect labels by' main =
     cbind pc_Id (\<lambda>i. cbind get_labelsCache (\<lambda>lc. cbind get_fpCache (\<lambda>fc.
       let withMain = NewWith main (''pre_without_'' @ show_int i) in
       cbind (clift (by_labels ctx noStreamSelect labels by' lc fc withMain)) (\<lambda>lbls. cbind pc_Id (\<lambda>j.
         let withLabels = NewWith lbls (''labels_'' @ show_int j) in
         cbind (set_labelsCache withLabels) (\<lambda>_. cret (relabel_join ctx withMain withLabels)))))))"

definition ChByWithout_Process ::
    "planner_ctx \<Rightarrow> bool \<Rightarrow> string list \<Rightarrow> bool \<Rightarrow> bool \<Rightarrow> sel ch \<Rightarrow> sel ch" where
  "ChByWithout_Process ctx noStreamSelect labels by' useTimeSeriesTable main =
     cbind main (if useTimeSeriesTable then by_ts_table ctx noStreamSelect labels by' else by_simple labels by')"

subsection \<open>Binary expressions\<close>

text \<open>
  \<open>processScalar\<close> prints the value column with the default context while planning, and puts the
  text back with the scalar.
\<close>

definition processScalar :: "ch_env \<Rightarrow> string \<Rightarrow> string \<Rightarrow> sel \<Rightarrow> sel res" where
  "processScalar E op scalar leftSel =
     rbind (patchCol (s_columns leftSel) ''value'' (\<lambda>expr.
         rbind (fst (render [] expr (DefaultCtx (env_fmt_f E)))) (\<lambda>exprStr.
           Inr (NewRawObject (''('' @ exprStr @ '') '' @ op @ '' '' @ scalar)))))
       (\<lambda>cols. Inr (sel_Select cols leftSel))"

definition arithmeticExpr :: "string \<Rightarrow> string res" where
  "arithmeticExpr op =
     (if op \<in> {''/'', ''*'', ''+'', ''-'', ''%''}
      then Inr (''argMinIf(value, timestamp_ns, side = 1) '' @ op @ '' argMinIf(value, timestamp_ns, side = 2)'')
      else Inl (ErrMsg (''unsupported binary operator: '' @ [CHR 0x22] @ op @ [CHR 0x22])))"

definition addSide :: "sel \<Rightarrow> int \<Rightarrow> sel" where
  "addSide q side = sel_Select (s_columns q @ [NewRawObject (show_int side @ '' as side'')]) q"

text \<open>The union is printed with its own options: \<open>WITH\<close> queries are inlined.\<close>

definition processBinary :: "string \<Rightarrow> sel \<Rightarrow> sel \<Rightarrow> sel res" where
  "processBinary op leftSel rightSel =
     (let union = UnionAll (addSide leftSel 1) [addSide rightSel 2];
          unionSubquery = SqlExt '''' False (\<lambda>_. [STRING_OPT_INLINE_WITH]) [SelectObj union] (\<lambda>_ s. ''('' @ s ! 0 @ '')'') in
      rbind (arithmeticExpr op) (\<lambda>valueExpr.
        Inr (sel_OrderBy [NewOrderBy (NewRawObject ''fingerprint'') ORDER_BY_DIRECTION_ASC,
                          NewOrderBy (NewRawObject ''timestamp_ns'') ORDER_BY_DIRECTION_ASC]
          (sel_GroupBy [NewRawObject ''fingerprint'', NewRawObject ''timestamp_ns'']
          (sel_From (NewCol unionSubquery ''binary_op'')
          (sel_Select
            [NewRawObject ''fingerprint'',
             NewSimpleCol ''anyIf(labels, side = 1)'' ''labels'',
             NewSimpleCol valueExpr ''value'',
             NewRawObject ''timestamp_ns''] NewSelect))))))"

text \<open>An operand with the caches of its own \<open>planner\<close>; the counter is that of the context.\<close>

definition with_own_caches :: "'a ch \<Rightarrow> 'a ch" where
  "with_own_caches m = (\<lambda>st.
     rbind (m (st\<lparr>st_fpCache := None, st_labelsCache := None\<rparr>)) (\<lambda>(v, st').
       Inr (v, st\<lparr>st_id := st_id st'\<rparr>)))"

definition BinaryScalarSQL_Process :: "ch_env \<Rightarrow> string \<Rightarrow> string \<Rightarrow> sel ch \<Rightarrow> sel ch" where
  "BinaryScalarSQL_Process E op scalar left =
     cbind (with_own_caches left) (\<lambda>l. clift (processScalar E op scalar l))"

definition BinaryExprSQL_Process :: "string \<Rightarrow> sel ch \<Rightarrow> sel ch \<Rightarrow> sel ch" where
  "BinaryExprSQL_Process op left right =
     cbind (with_own_caches left) (\<lambda>l. cbind (with_own_caches right) (\<lambda>r. clift (processBinary op l r)))"

subsection \<open>The planner tree\<close>

datatype sql_planner =
    NilPlanner        \<comment> \<open>a nil \<open>SQLRequestPlanner\<close>\<close>
  | StreamSelectPlanner bool "matcher list" "int option"
  | SqlMainInitPlanner "int option"
  | TimeSeriesInitPlanner "int option"
  | Metrics15ShortcutPlanner string int "int option"
  | SimpleLabelFilterPlanner bool LabelFilter sql_planner
  | FingerprintFilterPlanner bool sql_planner sql_planner
      \<comment> \<open>\<open>NoStreamSelect\<close>, \<open>FingerprintsSelectPlanner\<close>, \<open>MainRequestPlanner\<close>\<close>
  | LabelsJoinPlanner bool sql_planner sql_planner sql_planner bool
      \<comment> \<open>\<open>NoStreamSelect\<close>, \<open>Main\<close>, \<open>Fingerprints\<close>, \<open>TimeSeries\<close>, whether \<open>LabelsCache\<close> is set\<close>
  | ChLineFormatPlanner sql_planner string
  | ChLabelFilterPlanner sql_planner LabelFilter bool
  | ChLineFilterPlanner sql_planner LineFilter
  | ChParserPlanner sql_planner string "string list" "string list"
  | ChUnwrapPlanner sql_planner string
  | PlannerDrop sql_planner "string list" "string list"
  | PlannerKeep sql_planner "string list" "string list"
  | MainRenewPlanner sql_planner bool
  | ChLRAPlanner sql_planner int string bool "int option"
  | UnwrapFunctionPlanner sql_planner string int "int option"
  | ChByWithoutPlanner sql_planner bool "string list" bool bool
  | ChAggOpPlanner sql_planner string bool
  | TopKPlanner sql_planner int bool
  | QuantilePlanner sql_planner "64 word" int
  | ChComparisonPlanner sql_planner string "64 word"
  | MainOrderByPlanner sql_planner "string list"
  | MainLimitPlanner sql_planner
  | StepFixPlanner sql_planner int
  | MainFinalizerPlanner sql_planner bool bool
  | BinaryScalarSQLPlanner sql_planner string string
  | BinaryExprSQLPlanner sql_planner string sql_planner

text \<open>
  \<open>Process\<close>. Every planner that takes a query hands it to \<open>With\<close>, or calls a method on it, at
  once; the nil query of a stream selection without matchers panics there.
\<close>

definition the_query :: "sel option res \<Rightarrow> sel res" where
  "the_query r = rbind r (\<lambda>q. case q of None \<Rightarrow> nil_deref | Some s \<Rightarrow> Inr s)"

fun Process :: "ch_env \<Rightarrow> planner_ctx \<Rightarrow> sql_planner \<Rightarrow> sel ch" where
  "Process E ctx NilPlanner = clift nil_deref"
| "Process E ctx (StreamSelectPlanner noSel ms offset) = clift (the_query (StreamSelect_Process E ctx noSel ms offset))"
| "Process E ctx (SqlMainInitPlanner offset) = clift (SqlMainInit_Process ctx offset)"
| "Process E ctx (TimeSeriesInitPlanner offset) = clift (TimeSeriesInit_Process ctx offset)"
| "Process E ctx (Metrics15ShortcutPlanner fn d offset) = cret (Metrics15_Process E ctx fn d offset)"
| "Process E ctx (SimpleLabelFilterPlanner noSel expr fpSel) =
     SimpleLabelFilter_Process E ctx noSel expr (Process E ctx fpSel)"
| "Process E ctx (FingerprintFilterPlanner noSel fps main) =
     FingerprintFilter_Process noSel (Process E ctx fps) (Process E ctx main)"
| "Process E ctx (LabelsJoinPlanner noSel main fps ts cacheLabels) =
     LabelsJoin_Process ctx noSel (Process E ctx main) (Process E ctx fps) (Process E ctx ts) cacheLabels"
| "Process E ctx (ChLineFormatPlanner main tpl) = ChLineFormat_Process E tpl (Process E ctx main)"
| "Process E ctx (ChLabelFilterPlanner main expr jsonSeen) = ChLabelFilter_Process E expr jsonSeen (Process E ctx main)"
| "Process E ctx (ChLineFilterPlanner main f) = ChLineFilter_Process E f (Process E ctx main)"
| "Process E ctx (ChParserPlanner main op labels vals) = ChParser_Process E op labels vals (Process E ctx main)"
| "Process E ctx (ChUnwrapPlanner main label) = ChUnwrap_Process label (Process E ctx main)"
| "Process E ctx (PlannerDrop main labels vals) = PlannerDrop_Process labels vals (Process E ctx main)"
| "Process E ctx (PlannerKeep main labels vals) = PlannerKeep_Process labels vals (Process E ctx main)"
| "Process E ctx (MainRenewPlanner main useLabels) = MainRenew_Process useLabels (Process E ctx main)"
| "Process E ctx (ChLRAPlanner main d fn withLabels offset) =
     ChLRA_Process E ctx d fn withLabels offset (Process E ctx main)"
| "Process E ctx (UnwrapFunctionPlanner main fn d offset) = UnwrapFunction_Process E ctx fn d offset (Process E ctx main)"
| "Process E ctx (ChByWithoutPlanner main noSel labels by' useTS) =
     ChByWithout_Process ctx noSel labels by' useTS (Process E ctx main)"
| "Process E ctx (ChAggOpPlanner main fn withLabels) = ChAggOp_Process fn withLabels (Process E ctx main)"
| "Process E ctx (TopKPlanner main len isTop) = TopK_Process len isTop (Process E ctx main)"
| "Process E ctx (QuantilePlanner main param d) = Quantile_Process E param d (Process E ctx main)"
| "Process E ctx (ChComparisonPlanner main fn param) = ChComparison_Process fn param (Process E ctx main)"
| "Process E ctx (MainOrderByPlanner main cols) = MainOrderBy_Process ctx cols (Process E ctx main)"
| "Process E ctx (MainLimitPlanner main) = MainLimit_Process ctx (Process E ctx main)"
| "Process E ctx (StepFixPlanner main d) = StepFix_Process ctx d (Process E ctx main)"
| "Process E ctx (MainFinalizerPlanner main isMatrix isFinal) =
     MainFinalizer_Process ctx isMatrix isFinal (Process E ctx main)"
| "Process E ctx (BinaryScalarSQLPlanner left op scalar) = BinaryScalarSQL_Process E op scalar (Process E ctx left)"
| "Process E ctx (BinaryExprSQLPlanner left op right) =
     BinaryExprSQL_Process op (Process E ctx left) (Process E ctx right)"

definition run_planner :: "ch_env \<Rightarrow> planner_ctx \<Rightarrow> sql_planner \<Rightarrow> sel res" where
  "run_planner E ctx p = rbind (Process E ctx p init_state) (\<lambda>(q, st). Inr q)"

end
