(* ===== verification/Ch_Plan.thy ===== *)
theory Ch_Plan
  imports Ch_Planner
begin

section \<open>Planning a script as SQL (clickhouse\_planner/planner.go, analyze.go)\<close>

text \<open>
  \<open>plan\<close> analyses the script once (record \<open>analysis\<close>: the fields of \<open>planner\<close> that the analysis
  sets) and then stacks planners. The closures in \<open>matrixFunctionsOrder\<close> are the constructors of
  \<open>matrix_fn\<close>; they run after the analysis and see its final fields.
\<close>

datatype matrix_fn =
    FnComparison Comparison
  | FnUnwrapFn LRAOrUnwrap
  | FnLRA LRAOrUnwrap
  | FnAgg AggOperator
  | FnTopK TopK
  | FnQuantile QuantileOverTime

record analysis =
  an_labelsJoinIdx :: "nat option"      \<comment> \<open>\<open>None\<close> is -1\<close>
  an_simpleLabelOperation :: "bool list"
  an_renewMainAfter :: "bool list"
  an_matrixFunctionsOrder :: "matrix_fn list"
  an_matrixFunctionsLabelsIDX :: "nat option"
  an_metrics15Shortcut :: bool
  an_offsetModifier :: "int option"
  an_noStreamSelect :: bool

subsection \<open>Looking into the script\<close>

text \<open>\<open>getStreamSelector\<close>; its nil result and a nil quantile operand are dereferenced at once.\<close>

definition getStreamSelector :: "LogQLScript \<Rightarrow> StrSelector res" where
  "getStreamSelector script =
     (let a = ql_Head script in
      case at_StrSelector a of Some x \<Rightarrow> Inr x | None \<Rightarrow>
      (case at_LRAOrUnwrap a of Some l \<Rightarrow> Inr (lra_StrSel l) | None \<Rightarrow>
      (case at_AggOperator a of Some g \<Rightarrow> Inr (lra_StrSel (agg_LRAOrUnwrap g)) | None \<Rightarrow>
      (case at_TopK a of
         Some t \<Rightarrow>
           (case topk_LRAOrUnwrap t of Some l \<Rightarrow> Inr (lra_StrSel l) | None \<Rightarrow>
           (case topk_AggOperator t of Some g \<Rightarrow> Inr (lra_StrSel (agg_LRAOrUnwrap g)) | None \<Rightarrow>
           (case topk_QuantileOverTime t of Some q \<Rightarrow> Inr (qot_StrSel q) | None \<Rightarrow> nil_deref)))
       | None \<Rightarrow>
      (case at_QuantileOverTime a of Some q \<Rightarrow> Inr (qot_StrSel q) | None \<Rightarrow> nil_deref)))))"

text \<open>\<open>findFirst\<close> at \<open>StrSelector\<close> and at \<open>Offset\<close>.\<close>

definition ch_topk_StrSel :: "TopK \<Rightarrow> StrSelector option" where
  "ch_topk_StrSel t =
     opt_or (map_option lra_StrSel (ch_topk_LRA t)) (map_option qot_StrSel (topk_QuantileOverTime t))"

fun ch_find_StrSel :: "LogQLScript \<Rightarrow> StrSelector option" where
  "ch_find_StrSel (LogQLScript (AtomExpr paren sel lra agg mac topk qot scalar) ops) =
     opt_or (map_option lra_StrSel lra) (opt_or (map_option (\<lambda>g. lra_StrSel (agg_LRAOrUnwrap g)) agg)
       (opt_or (Option.bind topk ch_topk_StrSel) (opt_or (map_option qot_StrSel qot) (opt_or sel
         (case paren of None \<Rightarrow> None | Some s \<Rightarrow> ch_find_StrSel s)))))"

definition ch_topk_Offset :: "TopK \<Rightarrow> Offset option" where
  "ch_topk_Offset t =
     opt_or (Option.bind (topk_LRAOrUnwrap t) lra_Offset)
       (Option.bind (topk_AggOperator t) (\<lambda>g. lra_Offset (agg_LRAOrUnwrap g)))"

fun ch_find_Offset :: "LogQLScript \<Rightarrow> Offset option" where
  "ch_find_Offset (LogQLScript (AtomExpr paren sel lra agg mac topk qot scalar) ops) =
     opt_or (Option.bind lra lra_Offset) (opt_or (Option.bind agg (\<lambda>g. lra_Offset (agg_LRAOrUnwrap g)))
       (opt_or (Option.bind topk ch_topk_Offset)
         (case paren of None \<Rightarrow> None | Some s \<Rightarrow> ch_find_Offset s)))"

subsection \<open>Analysis\<close>

definition any_value :: "StrSelCmd \<Rightarrow> bool" where
  "any_value c \<longleftrightarrow>
     cmd_Op c = ''=~'' \<and> (cmd_Val c = [CHR 0x60] @ ''.*'' @ [CHR 0x60] \<or> cmd_Val c = [CHR 0x22] @ ''.*'' @ [CHR 0x22])"

definition analyzeStreamSelect :: "LogQLScript \<Rightarrow> bool" where
  "analyzeStreamSelect script =
     (case ch_find_StrSel script of
        None \<Rightarrow> True
      | Some s \<Rightarrow> sel_StrSelCmds s = [] \<or> list_all any_value (sel_StrSelCmds s))"

definition analyzeOffset :: "ch_env \<Rightarrow> LogQLScript \<Rightarrow> int option" where
  "analyzeOffset E script =
     map_option (\<lambda>o'. case parse_duration (env_lib E) (off_Time o' @ off_TimeUnit o') of Inl _ \<Rightarrow> 0 | Inr d \<Rightarrow> d)
       (ch_find_Offset script)"

fun simple_ops :: "StrSelectorPipeline list \<Rightarrow> bool list" where
  "simple_ops [] = []"
| "simple_ops (p # ps) =
     (ppl_LabelFilter p \<noteq> None) #
     (if ppl_Parser p \<noteq> None then replicate (length ps) False else simple_ops ps)"

definition joins_labels :: "StrSelectorPipeline \<Rightarrow> bool \<Rightarrow> bool" where
  "joins_labels p simple \<longleftrightarrow>
     ppl_Parser p \<noteq> None \<or> ppl_LabelFilter p \<noteq> None \<and> \<not> simple \<or> ppl_LineFormat p \<noteq> None \<or>
     ppl_Drop p \<noteq> None \<or> ppl_Keep p \<noteq> None"

fun labels_join_idx :: "nat \<Rightarrow> StrSelectorPipeline list \<Rightarrow> bool list \<Rightarrow> nat option" where
  "labels_join_idx i (p # ps) (b # bs) = (if joins_labels p b then Some i else labels_join_idx (i + 1) ps bs)"
| "labels_join_idx i _ _ = None"

fun renew_after :: "StrSelectorPipeline list \<Rightarrow> bool list" where
  "renew_after [] = []"
| "renew_after [p] = [False]"
| "renew_after (p # q # ps) = (ppl_Parser p \<noteq> None \<and> ppl_Parser q = None) # renew_after (q # ps)"

text \<open>\<open>getFunctionOrder\<close> on the functions in order and \<open>matrixFunctionsLabelsIDX\<close>.\<close>

type_synonym fn_order = "matrix_fn list \<times> nat option"

definition fo_comparison :: "Comparison option \<Rightarrow> fn_order \<Rightarrow> fn_order" where
  "fo_comparison c s = (case c of None \<Rightarrow> s | Some op \<Rightarrow> (fst s @ [FnComparison op], snd s))"

definition ends_in_unwrap :: "LRAOrUnwrap \<Rightarrow> bool" where
  "ends_in_unwrap l \<longleftrightarrow>
     sel_Pipelines (lra_StrSel l) \<noteq> [] \<and> ppl_Unwrap (last (sel_Pipelines (lra_StrSel l))) \<noteq> None"

definition fo_lra :: "LRAOrUnwrap \<Rightarrow> fn_order \<Rightarrow> fn_order" where
  "fo_lra l s =
     fo_comparison (lra_Comparison l)
       (if ends_in_unwrap l
        then (fst s @ [FnUnwrapFn l], if snd s = None then Some (length (fst s)) else snd s)
        else (fst s @ [FnLRA l], snd s))"

definition fo_agg :: "AggOperator \<Rightarrow> fn_order \<Rightarrow> fn_order" where
  "fo_agg a s =
     (let s = fo_lra (agg_LRAOrUnwrap a) s;
          idx = (if agg_ByOrWithoutPrefix a \<noteq> None \<or> agg_ByOrWithoutSuffix a \<noteq> None \<and> snd s = None
                 then Some (length (fst s)) else snd s) in
      fo_comparison (agg_Comparison a) (fst s @ [FnAgg a], idx))"

definition fo_quantile :: "QuantileOverTime \<Rightarrow> fn_order \<Rightarrow> fn_order" where
  "fo_quantile q s = fo_comparison (qot_Comparison q) (fst s @ [FnQuantile q], snd s)"

definition fo_visit :: "('a \<Rightarrow> fn_order \<Rightarrow> fn_order) \<Rightarrow> 'a option \<Rightarrow> fn_order \<Rightarrow> fn_order" where
  "fo_visit f x s = (case x of None \<Rightarrow> s | Some v \<Rightarrow> f v s)"

definition fo_topk :: "TopK \<Rightarrow> fn_order \<Rightarrow> fn_order" where
  "fo_topk t s =
     (let s = fo_visit fo_quantile (topk_QuantileOverTime t)
                (fo_visit fo_agg (topk_AggOperator t) (fo_visit fo_lra (topk_LRAOrUnwrap t) s)) in
      fo_comparison (topk_Comparison t) (fst s @ [FnTopK t], snd s))"

definition getFunctionOrder :: "LogQLScript \<Rightarrow> fn_order" where
  "getFunctionOrder script =
     (let a = ql_Head script in
      fo_visit fo_quantile (at_QuantileOverTime a) (fo_visit fo_topk (at_TopK a)
        (fo_visit fo_agg (at_AggOperator a) (fo_visit fo_lra (at_LRAOrUnwrap a) ([], None)))))"

text \<open>
  With the shortcut the analysis stops early: no label operation is simple. The index of the
  label functions is then set to -1 by \<open>plan\<close>.
\<close>

definition analyzeScript :: "ch_env \<Rightarrow> LogQLScript \<Rightarrow> analysis res" where
  "analyzeScript E script =
     rbind (getStreamSelector script) (\<lambda>strSel.
       let pipeline = sel_Pipelines strSel;
           base = \<lparr>an_labelsJoinIdx = None, an_simpleLabelOperation = [], an_renewMainAfter = [],
             an_matrixFunctionsOrder = [], an_matrixFunctionsLabelsIDX = None,
             an_metrics15Shortcut = AnalyzeMetrics15sShortcut (env_lib E) script,
             an_offsetModifier = analyzeOffset E script, an_noStreamSelect = analyzeStreamSelect script\<rparr> in
       Inr (if an_metrics15Shortcut base then base
            else base\<lparr>an_simpleLabelOperation := simple_ops pipeline,
              an_labelsJoinIdx := labels_join_idx 0 pipeline (simple_ops pipeline),
              an_renewMainAfter := renew_after pipeline,
              an_matrixFunctionsOrder := fst (getFunctionOrder script),
              an_matrixFunctionsLabelsIDX := snd (getFunctionOrder script)\<rparr>))"

subsection \<open>Planning the reads\<close>

definition matchers_of :: "ch_env \<Rightarrow> StrSelCmd list \<Rightarrow> matcher list res" where
  "matchers_of E cmds =
     mapM_res (\<lambda>c. rbind (Unquote (env_lib E) (cmd_Val c)) (\<lambda>v. Inr (cmd_Label c, cmd_Op c, v))) cmds"

definition planTS :: "ch_env \<Rightarrow> analysis \<Rightarrow> LogQLScript \<Rightarrow> sql_planner res" where
  "planTS E an script =
     rbind (getStreamSelector script) (\<lambda>strSel.
       rbind (matchers_of E (sel_StrSelCmds strSel)) (\<lambda>ms.
         Inr (fold (\<lambda>(simple, ppl) fp.
                case ppl_LabelFilter ppl of
                  Some f \<Rightarrow> if simple then SimpleLabelFilterPlanner (an_noStreamSelect an) f fp else fp
                | None \<Rightarrow> fp)
              (zip (an_simpleLabelOperation an) (sel_Pipelines strSel))
              (StreamSelectPlanner (an_noStreamSelect an) ms (an_offsetModifier an)))))"

subsection \<open>Planning the pipeline\<close>

text \<open>The planner under construction: \<open>samplesPlanner\<close> and \<open>jsonParserSeen\<close>.\<close>

type_synonym spl = "sql_planner \<times> bool"

definition label_values :: "ch_env \<Rightarrow> (string \<times> string option) list \<Rightarrow> (string list \<times> string list) res" where
  "label_values E ps =
     rbind (mapM_res (\<lambda>(l, v). case v of None \<Rightarrow> Inr '''' | Some q \<Rightarrow> Unquote (env_lib E) q) ps) (\<lambda>vals.
       Inr (map fst ps, vals))"

definition planStage :: "ch_env \<Rightarrow> analysis \<Rightarrow> nat \<Rightarrow> StrSelectorPipeline \<Rightarrow> spl \<Rightarrow> spl res" where
  "planStage E an i ppl s =
     (let main = fst s; seen = snd s; simple = an_simpleLabelOperation an ! i in
      case ppl_LineFormat ppl of
        Some q \<Rightarrow> rbind (Unquote (env_lib E) q) (\<lambda>v. Inr (ChLineFormatPlanner main v, seen))
      | None \<Rightarrow>
      (case ppl_LabelFilter ppl of
        Some f \<Rightarrow> Inr (if simple then main else ChLabelFilterPlanner main f seen, seen)
      | None \<Rightarrow>
      (case ppl_LineFilter ppl of
        Some f \<Rightarrow> Inr (ChLineFilterPlanner main f, seen)
      | None \<Rightarrow>
      (case ppl_Parser ppl of
        Some p \<Rightarrow>
          rbind (mapM_res (\<lambda>pp. Unquote (env_lib E) (pp_Val pp)) (par_ParserParams p)) (\<lambda>vals.
            Inr (ChParserPlanner main (par_Fn p)
              (map (\<lambda>pp. case pp_Label pp of None \<Rightarrow> '''' | Some l \<Rightarrow> l) (par_ParserParams p)) vals,
              seen \<or> par_Fn p = ''json''))
      | None \<Rightarrow>
      (case ppl_Unwrap ppl of
        Some u \<Rightarrow> Inr (ChUnwrapPlanner main (unw_Label u), seen)
      | None \<Rightarrow>
      (case ppl_Drop ppl of
        Some d \<Rightarrow>
          if simple then Inr s
          else rbind (label_values E (map (\<lambda>p. (dp_Label p, dp_Val p)) (drop_Params d))) (\<lambda>(ls, vs).
            Inr (PlannerDrop main ls vs, seen))
      | None \<Rightarrow>
      (case ppl_Keep ppl of
        Some k \<Rightarrow>
          if simple then Inr s
          else rbind (label_values E (map (\<lambda>p. (kp_Label p, kp_Val p)) (keep_Params k))) (\<lambda>(ls, vs).
            Inr (PlannerKeep main ls vs, seen))
      | None \<Rightarrow> Inr s)))))))"

definition joined_labels :: "analysis \<Rightarrow> sql_planner \<Rightarrow> nat \<Rightarrow> spl \<Rightarrow> spl" where
  "joined_labels an fpPlanner i s =
     (if an_labelsJoinIdx an = Some i
      then (LabelsJoinPlanner (an_noStreamSelect an) (MainOrderByPlanner (fst s) [''timestamp_ns'']) fpPlanner
              (TimeSeriesInitPlanner (an_offsetModifier an)) True, snd s)
      else s)"

definition renewed :: "analysis \<Rightarrow> nat \<Rightarrow> spl \<Rightarrow> spl" where
  "renewed an i s =
     (if an_renewMainAfter an ! i
      then (MainRenewPlanner (fst s) (case an_labelsJoinIdx an of None \<Rightarrow> False | Some j \<Rightarrow> j \<le> i), snd s)
      else s)"

fun planPipelines ::
    "ch_env \<Rightarrow> analysis \<Rightarrow> sql_planner \<Rightarrow> nat \<Rightarrow> StrSelectorPipeline list \<Rightarrow> spl \<Rightarrow> spl res" where
  "planPipelines E an fpPlanner i [] s = Inr s"
| "planPipelines E an fpPlanner i (ppl # ppls) s =
     rbind (planStage E an i ppl (joined_labels an fpPlanner i s)) (\<lambda>s.
       planPipelines E an fpPlanner (i + 1) ppls (renewed an i s))"

definition planSpl :: "ch_env \<Rightarrow> analysis \<Rightarrow> sql_planner \<Rightarrow> LogQLScript \<Rightarrow> sql_planner res" where
  "planSpl E an fpPlanner script =
     rbind (getStreamSelector script) (\<lambda>strSel.
       rbind (planPipelines E an fpPlanner 0 (sel_Pipelines strSel)
           (FingerprintFilterPlanner (an_noStreamSelect an) fpPlanner (SqlMainInitPlanner (an_offsetModifier an)), False))
         (\<lambda>s. Inr (fst s)))"

subsection \<open>Planning the functions\<close>

definition ch_planByWithout :: "analysis \<Rightarrow> ByOrWithout option list \<Rightarrow> sql_planner \<Rightarrow> sql_planner" where
  "ch_planByWithout an bs main =
     (case filter (\<lambda>b. b \<noteq> None) bs of
        [] \<Rightarrow> main
      | ne \<Rightarrow> (case last ne of None \<Rightarrow> main
               | Some b \<Rightarrow> ChByWithoutPlanner main (an_noStreamSelect an) (bow_Labels b)
                   (to_lower (bow_Fn b) = ''by'') (an_labelsJoinIdx an = None)))"

definition planLRA :: "ch_env \<Rightarrow> analysis \<Rightarrow> LRAOrUnwrap \<Rightarrow> sql_planner \<Rightarrow> sql_planner res" where
  "planLRA E an l main =
     rbind (lra_duration (env_lib E) l) (\<lambda>d.
       Inr (ChLRAPlanner main d (lra_Fn l) (an_labelsJoinIdx an \<noteq> None) (an_offsetModifier an)))"

definition planUnwrapFn :: "ch_env \<Rightarrow> analysis \<Rightarrow> LRAOrUnwrap \<Rightarrow> sql_planner \<Rightarrow> sql_planner res" where
  "planUnwrapFn E an l main =
     (let main = ch_planByWithout an [lra_ByOrWithoutPrefix l, lra_ByOrWithoutSuffix l] main in
      rbind (lra_duration (env_lib E) l) (\<lambda>d.
        Inr (UnwrapFunctionPlanner main (lra_Fn l) d (an_offsetModifier an))))"

definition planAgg :: "analysis \<Rightarrow> AggOperator \<Rightarrow> bool \<Rightarrow> sql_planner \<Rightarrow> sql_planner" where
  "planAgg an a withLabels main =
     ChAggOpPlanner
       (ch_planByWithout an
          (if agg_ByOrWithoutPrefix a = None \<and> agg_ByOrWithoutSuffix a = None
           then [Some \<lparr>bow_Fn = ''by'', bow_Labels = []\<rparr>]
           else [agg_ByOrWithoutPrefix a, agg_ByOrWithoutSuffix a]) main)
       (agg_Fn a) (an_labelsJoinIdx an \<noteq> None \<or> withLabels)"

definition planTopK :: "ch_env \<Rightarrow> TopK \<Rightarrow> sql_planner \<Rightarrow> sql_planner res" where
  "planTopK E t main =
     rbind (env_atoi E (topk_Param t)) (\<lambda>len. Inr (TopKPlanner main len (topk_Fn t = ''topk'')))"

definition planQuantileOverTime :: "ch_env \<Rightarrow> analysis \<Rightarrow> QuantileOverTime \<Rightarrow> sql_planner \<Rightarrow> sql_planner res" where
  "planQuantileOverTime E an q main =
     (let main = ch_planByWithout an [qot_ByOrWithoutPrefix q, qot_ByOrWithoutSuffix q] main in
      rbind (parse_float (env_lib E) (qot_Param q)) (\<lambda>param.
        rbind (qot_duration (env_lib E) q) (\<lambda>d. Inr (QuantilePlanner main param d))))"

definition planComparison :: "ch_env \<Rightarrow> Comparison option \<Rightarrow> sql_planner \<Rightarrow> sql_planner res" where
  "planComparison E c main =
     (case c of None \<Rightarrow> Inr main
      | Some op \<Rightarrow> rbind (parse_float (env_lib E) (cmp_Val op)) (\<lambda>v. Inr (ChComparisonPlanner main (cmp_Fn op) v)))"

definition planMatrixFn :: "ch_env \<Rightarrow> analysis \<Rightarrow> matrix_fn \<Rightarrow> sql_planner \<Rightarrow> sql_planner res" where
  "planMatrixFn E an f main =
     (case f of
        FnComparison c \<Rightarrow> planComparison E (Some c) main
      | FnUnwrapFn l \<Rightarrow> planUnwrapFn E an l main
      | FnLRA l \<Rightarrow> planLRA E an l main
      | FnAgg a \<Rightarrow> Inr (planAgg an a (an_matrixFunctionsLabelsIDX an \<noteq> None) main)
      | FnTopK t \<Rightarrow> planTopK E t main
      | FnQuantile q \<Rightarrow> planQuantileOverTime E an q main)"

fun planMatrixFns :: "ch_env \<Rightarrow> analysis \<Rightarrow> matrix_fn list \<Rightarrow> sql_planner \<Rightarrow> sql_planner res" where
  "planMatrixFns E an [] main = Inr main"
| "planMatrixFns E an (f # fs) main = rbind (planMatrixFn E an f main) (planMatrixFns E an fs)"

text \<open>\<open>planMetrics15Shortcut\<close> gives the planner and the new \<open>matrixFunctionsLabelsIDX\<close>.\<close>

definition shortcut_lra :: "ch_env \<Rightarrow> analysis \<Rightarrow> sql_planner \<Rightarrow> LRAOrUnwrap \<Rightarrow> (sql_planner \<times> nat option) res" where
  "shortcut_lra E an fpPlanner l =
     rbind (lra_duration (env_lib E) l) (\<lambda>d.
       rbind (planComparison E (lra_Comparison l)
           (FingerprintFilterPlanner (an_noStreamSelect an) fpPlanner
             (Metrics15ShortcutPlanner (lra_Fn l) d (an_offsetModifier an)))) (\<lambda>p. Inr (p, None)))"

definition shortcut_agg :: "ch_env \<Rightarrow> analysis \<Rightarrow> sql_planner \<Rightarrow> AggOperator \<Rightarrow> (sql_planner \<times> nat option) res" where
  "shortcut_agg E an fpPlanner a =
     rbind (shortcut_lra E an fpPlanner (agg_LRAOrUnwrap a)) (\<lambda>(p, _).
       let withLabels = (agg_ByOrWithoutPrefix a \<noteq> None \<or> agg_ByOrWithoutSuffix a \<noteq> None) in
       rbind (planComparison E (agg_Comparison a) (planAgg an a withLabels p)) (\<lambda>p.
         Inr (p, if withLabels then Some 0 else None)))"

definition shortcut_topk :: "ch_env \<Rightarrow> analysis \<Rightarrow> sql_planner \<Rightarrow> TopK \<Rightarrow> (sql_planner \<times> nat option) res" where
  "shortcut_topk E an fpPlanner t =
     rbind (case topk_AggOperator t of Some a \<Rightarrow> shortcut_agg E an fpPlanner a
            | None \<Rightarrow> (case topk_LRAOrUnwrap t of Some l \<Rightarrow> shortcut_lra E an fpPlanner l
                       | None \<Rightarrow> Inr (NilPlanner, None))) (\<lambda>(p, idx).
       rbind (planTopK E t p) (\<lambda>p.
         rbind (planComparison E (topk_Comparison t) p) (\<lambda>p. Inr (p, idx))))"

definition planMetrics15Shortcut ::
    "ch_env \<Rightarrow> analysis \<Rightarrow> sql_planner \<Rightarrow> LogQLScript \<Rightarrow> (sql_planner \<times> nat option) res" where
  "planMetrics15Shortcut E an fpPlanner script =
     (let a = ql_Head script in
      case at_TopK a of Some t \<Rightarrow> shortcut_topk E an fpPlanner t | None \<Rightarrow>
      (case at_AggOperator a of Some g \<Rightarrow> shortcut_agg E an fpPlanner g | None \<Rightarrow>
      (case at_LRAOrUnwrap a of Some l \<Rightarrow> shortcut_lra E an fpPlanner l | None \<Rightarrow> Inr (NilPlanner, None))))"

subsection \<open>The whole plan\<close>

text \<open>The common end of \<open>plan\<close>.\<close>

definition finish_plan ::
    "ch_env \<Rightarrow> analysis \<Rightarrow> bool \<Rightarrow> LogQLScript \<Rightarrow> sql_planner \<Rightarrow> nat option \<Rightarrow> sql_planner \<Rightarrow> sql_planner res" where
  "finish_plan E an finalize script fpPlanner labelsIDX p =
     (let isLog = (at_StrSelector (ql_Head script) \<noteq> None) in
      rbind (if isLog
             then Inr (let p = MainOrderByPlanner p [''timestamp_ns''] in if finalize then MainLimitPlanner p else p)
             else rbind (GetDuration (env_lib E) script) (\<lambda>d. Inr (StepFixPlanner p d))) (\<lambda>p.
        let p = (if an_labelsJoinIdx an = None \<and> labelsIDX = None
                 then LabelsJoinPlanner (an_noStreamSelect an) p fpPlanner (TimeSeriesInitPlanner (an_offsetModifier an)) False
                 else p) in
        Inr (MainFinalizerPlanner p (\<not> isLog) finalize)))"

definition ch_Plan :: "ch_env \<Rightarrow> LogQLScript \<Rightarrow> bool \<Rightarrow> sql_planner res" where
  "ch_Plan E script finalize =
     (if at_Macros (ql_Head script) \<noteq> None then Inl (ErrMsg ''not implemented'')
      else rbind (analyzeScript E script) (\<lambda>an. rbind (planTS E an script) (\<lambda>fpPlanner.
        if an_metrics15Shortcut an
        then rbind (planMetrics15Shortcut E an fpPlanner script) (\<lambda>(p, idx).
          finish_plan E an finalize script fpPlanner idx p)
        else rbind (planSpl E an fpPlanner script) (\<lambda>p.
          rbind (planMatrixFns E an (an_matrixFunctionsOrder an) p)
            (finish_plan E an finalize script fpPlanner (an_matrixFunctionsLabelsIDX an))))))"

subsection \<open>Binary expressions as SQL (logql\_transpiler/planner.go)\<close>

function planScriptToSQL :: "ch_env \<Rightarrow> LogQLScript \<Rightarrow> sql_planner res"
and planAtomToSQL :: "ch_env \<Rightarrow> AtomExpr \<Rightarrow> sql_planner res" where
  "planScriptToSQL E s =
     (let s' = unwrapParens s in
      if \<not> IsBinary s' then ch_Plan E s' True
      else rbind (planAtomToSQL E (ql_Head s')) (\<lambda>left.
        rbind (mapM_res (\<lambda>b. if at_Scalar (bin_Right b) \<noteq> '''' then Inr NilPlanner
                              else planAtomToSQL E (bin_Right b)) (ql_BinOps s')) (\<lambda>rights.
          Inr (fold (\<lambda>(b, right) current.
                 if at_Scalar (bin_Right b) \<noteq> ''''
                 then BinaryScalarSQLPlanner current (bin_Op b) (at_Scalar (bin_Right b))
                 else BinaryExprSQLPlanner current (bin_Op b) right) (zip (ql_BinOps s') rights) left))))"
| "planAtomToSQL E a =
     (case at_Paren a of Some p \<Rightarrow> planScriptToSQL E p | None \<Rightarrow> ch_Plan E (LogQLScript a []) True)"
  by pat_completeness auto
termination
proof (relation "measure (\<lambda>x. case x of Inl (E, s) \<Rightarrow> size s | Inr (E, a) \<Rightarrow> size a)", goal_cases)
  case (2 E s s')
  then show ?case using atom_size [of "ql_Head s'" s'] unwrapParens_size [of s] by (auto simp: all_atoms_def)
next
  case (3 E s s' left b)
  then show ?case using atom_size [of "bin_Right b" s'] unwrapParens_size [of s] by (auto simp: all_atoms_def)
next
  case (4 E a p)
  then show ?case using paren_smaller [of a p] by auto
qed simp

declare planScriptToSQL.simps [simp del] planAtomToSQL.simps [simp del]

end
