(* ===== verification/Ch_Example.thy ===== *)
theory Ch_Example
  imports Ch_Plan
begin

section \<open>Concrete inputs\<close>

text \<open>
  An environment, a context and scripts on which the properties of the SQL planners are applied.
  The library functions are simple total ones: quotes are cut off, digits are read as a number,
  and no pattern parses as a literal. Times are small, a second counts as one unit.
\<close>

definition example_lib :: "64 word lib" where
  "example_lib =
     \<lparr>f_zero = 0, f_one = 1, f_add = (+), f_sub = (-), f_mul = (*), f_div = (div), f_mod = (mod),
      f_lt = (<), f_le = (\<le>), f_eq = (=), f_of_int = of_int,
      parse_float = (\<lambda>s. map_sum id of_int (parse_float int_lib s)),
      parse_duration = (\<lambda>s. if s = ''60s'' then Inr 60 else Inl (ErrMsg ''invalid duration'')), json_string = json_string int_lib,
      go_unquote = go_unquote int_lib, regexp_compile = regexp_compile int_lib, ch64 = ch64 int_lib,
      template_parse = template_parse int_lib, json_path_parse = json_path_parse int_lib,
      jx_decode = jx_decode int_lib, logfmt_pairs = logfmt_pairs int_lib\<rparr>"

definition example_env :: ch_env where
  "example_env =
     \<lparr>env_lib = example_lib, env_now = 5000, env_clock = \<lambda>i. 5000, env_OmitEmptyValues = False, env_dist_suffix = ''_dist'',
      env_local_date = utc_date, env_atoi = parse_float int_lib, env_fmt_f = (\<lambda>x. show_int (sint x)),
      env_re_parse = (\<lambda>_. None), env_tpl_parse = (\<lambda>s. Inr (TextNode s)),
      env_regex_parse = (\<lambda>_. Inl (ErrMsg ''no regular expressions''))\<rparr>"

definition fed_ctx :: planner_ctx where
  "fed_ctx =
     \<lparr>pc_IsCluster = False, pc_From = 1000, pc_To = 2000, pc_OrderASC = False,
      pc_Limit = 100, pc_Offset = 0,
      pc_TimeSeriesGinTableName = ''time_series_gin'', pc_TimeSeriesGinDistTableName = ''time_series_gin'',
      pc_SamplesTableName = ''samples_v3'', pc_SamplesDistTableName = ''samples_v3'',
      pc_TimeSeriesTableName = ''time_series'', pc_TimeSeriesDistTableName = ''time_series'',
      pc_Metrics15sTableName = ''metrics_15s'', pc_Metrics15sDistTableName = ''metrics_15s'',
      pc_PatternsTable = ''patterns'', pc_PatternsDistTable = ''patterns'',
      pc_CHFinalize = True, pc_Step = 100, pc_Type = 1, pc_Federated = True,
      pc_OidFilter = \<lparr>Tenants = [''7''], Deny = False\<rparr>\<rparr>"

definition quoted :: "string \<Rightarrow> string" where
  "quoted s = CHR 0x22 # s @ [CHR 0x22]"

definition empty_stage :: StrSelectorPipeline where
  "empty_stage =
     \<lparr>ppl_LineFilter = None, ppl_LabelFilter = None, ppl_Parser = None, ppl_LineFormat = None,
      ppl_LabelFormat = None, ppl_Unwrap = None, ppl_Drop = None, ppl_Keep = None\<rparr>"

definition label_is :: "string \<Rightarrow> string \<Rightarrow> LabelFilter" where
  "label_is name v =
     LabelFilter (Head None (Some \<lparr>slf_Label = name, slf_Fn = ''='', slf_StrVal = Some (quoted v), slf_NumVal = ''''\<rparr>)) '''' None"

definition example_stages :: "StrSelectorPipeline list" where
  "example_stages =
     [empty_stage\<lparr>ppl_LabelFilter := Some (label_is ''level'' ''error'')\<rparr>,
      empty_stage\<lparr>ppl_LineFilter :=
        Some \<lparr>lf_Fn = ''|='', lf_Exp = LineFilterExp (LineFilterHead None (Some (quoted ''boom''))) '''' None\<rparr>\<rparr>,
      empty_stage\<lparr>ppl_Drop := Some \<lparr>drop_Fn = ''drop'', drop_Params = [\<lparr>dp_Label = ''pod'', dp_Val = None\<rparr>]\<rparr>\<rparr>]"

text \<open>\<open>{job="api"} | level="error" |= "boom" | drop pod\<close> as a log query; a selector under \<open>rate(... [60s])\<close>.\<close>

definition job_api :: StrSelCmd where
  "job_api = \<lparr>cmd_Label = ''job'', cmd_Op = ''='', cmd_Val = quoted ''api''\<rparr>"

definition rate_of :: "StrSelector \<Rightarrow> LRAOrUnwrap" where
  "rate_of sel =
     \<lparr>lra_Fn = ''rate'', lra_ByOrWithoutPrefix = None, lra_StrSel = sel, lra_Time = ''60'', lra_TimeUnit = ''s'',
      lra_Offset = None, lra_ByOrWithoutSuffix = None, lra_Comparison = None\<rparr>"

definition rate_atom :: "StrSelector \<Rightarrow> AtomExpr" where
  "rate_atom sel = AtomExpr None None (Some (rate_of sel)) None None None None ''''"

definition example_sel :: StrSelector where
  "example_sel = \<lparr>sel_StrSelCmds = [job_api], sel_Pipelines = example_stages\<rparr>"

definition example_log :: LogQLScript where
  "example_log = selector_script example_sel"

definition isr_res :: "'a res \<Rightarrow> bool" where
  "isr_res r = (case r of Inl _ \<Rightarrow> False | Inr _ \<Rightarrow> True)"

end
