(* ===== verification/Ch_Behaviour.thy ===== *)
theory Ch_Behaviour
  imports Ch_Example
begin

section \<open>What the SQL planners do\<close>

text \<open>
  Outcomes of the SQL planners, and the parts of a query that do not reach the SQL: the loop that
  takes matchers out of a stream selector, label filters without stream selection, the pipeline
  of a metric query read from the 15 second table, \<open>label_format\<close>, \<open>unwrap\<close>, negated regular
  expressions, and the columns of the finished query.
\<close>

subsection \<open>Stream selection\<close>

definition any_matcher :: "matcher \<Rightarrow> bool" where
  "any_matcher m \<longleftrightarrow> (case m of (name, op, v) \<Rightarrow> op = ''=~'' \<and> v = ''.*'')"

definition empty_matcher :: "matcher \<Rightarrow> bool" where
  "empty_matcher m \<longleftrightarrow> (case m of (name, op, v) \<Rightarrow> (op = ''='' \<or> op = ''=~'') \<and> v = '''')"

definition known_op :: "matcher \<Rightarrow> bool" where
  "known_op m \<longleftrightarrow> fst (snd m) \<in> {''='', ''!='', ''=~'', ''!~''}"

lemma strip_step:
  "strip_matchers (Suc (length todo)) (todo @ m # done) es =
     (if empty_matcher m
      then (case done of [] \<Rightarrow> Inl (Panic ''index out of range'')
            | y # ys \<Rightarrow> strip_matchers (length todo) (todo @ (if any_matcher y then ys else y # ys)) (es @ [fst m]))
      else strip_matchers (length todo) (todo @ (if any_matcher m then done else m # done)) es)"
proof -
  have at: "slice_at (todo @ x # xs) (length todo) = Inr x" "slice_at todo (length todo) = Inl (Panic ''index out of range'')"
    for x and xs :: "matcher list"
    by (simp_all add: slice_at_def nth_append)
  have rem: "slice_remove (todo @ x # xs) (length todo) = todo @ xs" for x and xs :: "matcher list"
    by (simp add: slice_remove_def)
  show ?thesis
    by (cases m; cases "done")
       (auto simp: at rem empty_matcher_def any_matcher_def Let_def split: prod.splits)
qed

lemma strip_matchers_spec:
  assumes "list_all (\<lambda>m. \<not> any_matcher m \<and> \<not> empty_matcher m) done"
  shows "strip_matchers (length todo) (todo @ done) es =
    (let ks = filter (\<lambda>m. \<not> any_matcher m) todo @ done in
     if ks \<noteq> [] \<and> empty_matcher (last ks) then Inl (Panic ''index out of range'')
     else Inr (filter (\<lambda>m. \<not> any_matcher m \<and> \<not> empty_matcher m) todo @ done,
               es @ map fst (rev (filter empty_matcher todo))))"
  using assms
proof (induction todo arbitrary: "done" es rule: rev_induct)
  case Nil
  then have "done \<noteq> [] \<Longrightarrow> \<not> empty_matcher (last done)" by (auto simp: list_all_iff)
  then show ?case by (auto simp: Let_def)
next
  case (snoc m todo)
  have disj: "empty_matcher m \<Longrightarrow> \<not> any_matcher m" by (cases m) (auto simp: empty_matcher_def any_matcher_def)
  show ?case
  proof (cases "empty_matcher m")
    case True
    with disj snoc.prems snoc.IH [OF snoc.prems, of "es @ [fst m]"] show ?thesis
      by (cases "done") (simp_all add: strip_step Let_def del: strip_matchers.simps)
  next
    case False
    with snoc.prems snoc.IH [OF snoc.prems, of es] snoc.IH [of "m # done" es] show ?thesis
      by (cases "any_matcher m") (simp_all add: strip_step Let_def del: strip_matchers.simps)
  qed
qed

lemma matcher_clauses_total: "list_all known_op ms \<Longrightarrow> \<exists>cs. mapM_res matcher_clause ms = Inr cs \<and> length cs = length ms"
proof (induction ms)
  case (Cons m ms)
  then obtain cs where "mapM_res matcher_clause ms = Inr cs" "length cs = length ms" by auto
  moreover obtain c where "matcher_clause m = Inr c"
    using Cons.prems by (cases m) (auto simp: known_op_def matcher_clause_def val_clause_def)
  ultimately show ?case by simp
qed simp

text \<open>
  the stream selector. Without the setting \<open>OmitEmptyValues\<close> the planner panics exactly if the
  last matcher that is not \<open>=~".*"\<close> asks for the empty value, as in \<open>{job="api", env=""}\<close>.
  Otherwise the fingerprints are selected by the other matchers, one bit each, and the labels
  asked to be empty are checked on the series.
\<close>

theorem StreamSelect_outcome:
  assumes "\<not> env_OmitEmptyValues E" "list_all known_op ms"
  shows "let ks = filter (\<lambda>m. \<not> any_matcher m) ms; live = filter (\<lambda>m. \<not> empty_matcher m) ks in
    if ks \<noteq> [] \<and> empty_matcher (last ks)
    then StreamSelect_Process E ctx False ms off = Inl (Panic ''index out of range'')
    else \<exists>cs. mapM_res matcher_clause live = Inr cs \<and> length cs = length live \<and>
      StreamSelect_Process E ctx False ms off =
        Inr (Some (processEmptyLabels ctx live
          (fp_request ctx (pc_From ctx + (case off of Some x \<Rightarrow> x | None \<Rightarrow> pc_Offset ctx)) cs)
          (map fst (rev (filter empty_matcher ms)))))"
proof -
  let ?live = "filter (\<lambda>m. \<not> any_matcher m \<and> \<not> empty_matcher m) ms"
  have live: "filter (\<lambda>m. \<not> empty_matcher m) (filter (\<lambda>m. \<not> any_matcher m) ms) = ?live"
    by (simp add: conj_commute)
  have "list_all known_op ?live" using assms(2) by (auto simp: list_all_iff)
  then obtain cs where cs: "mapM_res matcher_clause ?live = Inr cs" "length cs = length ?live"
    using matcher_clauses_total by blast
  show ?thesis
    unfolding Let_def live
    using assms(1) cs strip_matchers_spec [of "[]" ms "[]"]
    by (auto simp: StreamSelect_Process_def Let_def)
qed

theorem StreamSelect_outcome_witness:
  "StreamSelect_Process example_env fed_ctx False [(''job'', ''='', ''api''), (''env'', ''='', '''')] None =
     Inl (Panic ''index out of range'') \<and>
   isr_res (StreamSelect_Process example_env fed_ctx False [(''env'', ''='', ''''), (''job'', ''='', ''api'')] None)"
proof -
  have "\<not> env_OmitEmptyValues example_env" by (simp add: example_env_def)
  from StreamSelect_outcome [OF this, of "[(''job'', ''='', ''api''), (''env'', ''='', '''')]" fed_ctx None]
    StreamSelect_outcome [OF this, of "[(''env'', ''='', ''''), (''job'', ''='', ''api'')]" fed_ctx None]
  show ?thesis by (auto simp: known_op_def any_matcher_def empty_matcher_def isr_res_def Let_def)
qed


subsection \<open>Filters without stream selection\<close>

text \<open>The stages that only filter labels, and the run of the planner tree they leave.\<close>

definition label_filter_stage :: "StrSelectorPipeline \<Rightarrow> bool" where
  "label_filter_stage p \<longleftrightarrow>
     ppl_LabelFilter p \<noteq> None \<and> ppl_Parser p = None \<and> ppl_LineFormat p = None \<and> ppl_Drop p = None \<and> ppl_Keep p = None"

lemma label_filter_stages:
  assumes "list_all label_filter_stage ps"
  shows "simple_ops ps = replicate (length ps) True"
    and "labels_join_idx i ps (replicate (length ps) True) = None"
    and "renew_after ps = replicate (length ps) False"
proof -
  show "simple_ops ps = replicate (length ps) True"
    using assms by (induction ps) (auto simp: label_filter_stage_def)
  show "labels_join_idx i ps (replicate (length ps) True) = None"
    using assms by (induction ps arbitrary: i) (auto simp: label_filter_stage_def joins_labels_def)
  show "renew_after ps = replicate (length ps) False"
    using assms by (induction ps rule: renew_after.induct) (auto simp: label_filter_stage_def)
qed

lemma planPipelines_label_filters:
  assumes "list_all label_filter_stage ps" "an_labelsJoinIdx an = None"
    "\<And>j. i \<le> j \<Longrightarrow> j < i + length ps \<Longrightarrow> an_simpleLabelOperation an ! j \<and> \<not> an_renewMainAfter an ! j"
  shows "planPipelines E an fps i ps s = Inr s"
  using assms
proof (induction ps arbitrary: i)
  case (Cons p ps)
  have "an_simpleLabelOperation an ! i \<and> \<not> an_renewMainAfter an ! i"
    using Cons.prems(3) [of i] by simp
  moreover have "planPipelines E an fps (i + 1) ps s = Inr s"
    using Cons.prems by (intro Cons.IH) auto
  ultimately show ?case
    using Cons.prems(1,2)
    by (auto simp: joined_labels_def renewed_def planStage_def Let_def label_filter_stage_def split: option.splits)
qed simp

lemma log_shortcut: "\<not> AnalyzeMetrics15sShortcut L (selector_script x)"
  by (simp add: AnalyzeMetrics15sShortcut_def selector_script_def opt_or_def)

lemma log_head [simp]:
  "getStreamSelector (selector_script x) = Inr x" "at_Macros (ql_Head (selector_script x)) = None"
  "at_StrSelector (ql_Head (selector_script x)) = Some x"
  by (simp_all add: getStreamSelector_def selector_script_def)

lemma log_analysis:
  "analyzeScript E (selector_script x) =
     Inr \<lparr>an_labelsJoinIdx = labels_join_idx 0 (sel_Pipelines x) (simple_ops (sel_Pipelines x)),
       an_simpleLabelOperation = simple_ops (sel_Pipelines x), an_renewMainAfter = renew_after (sel_Pipelines x),
       an_matrixFunctionsOrder = [], an_matrixFunctionsLabelsIDX = None, an_metrics15Shortcut = False,
       an_offsetModifier = None,
       an_noStreamSelect = (sel_StrSelCmds x = [] \<or> list_all any_value (sel_StrSelCmds x))\<rparr>"
  using log_shortcut [of "env_lib E" x]
  by (simp add: analyzeScript_def getStreamSelector_def selector_script_def analyzeOffset_def
      analyzeStreamSelect_def getFunctionOrder_def fo_visit_def opt_or_def Let_def)

text \<open>The tree of a log query whose stages are all label filters.\<close>

definition log_tree :: "bool \<Rightarrow> bool \<Rightarrow> sql_planner \<Rightarrow> sql_planner" where
  "log_tree noSel fin fps =
     MainFinalizerPlanner (LabelsJoinPlanner noSel
       (let p = MainOrderByPlanner (FingerprintFilterPlanner noSel fps (SqlMainInitPlanner None)) [''timestamp_ns''] in
        if fin then MainLimitPlanner p else p) fps (TimeSeriesInitPlanner None) False) False fin"

lemma planTS_label_filters:
  assumes "list_all label_filter_stage (sel_Pipelines x)" "matchers_of E (sel_StrSelCmds x) = Inr ms"
    "an_simpleLabelOperation an = replicate (length (sel_Pipelines x)) True"
  shows "planTS E an (selector_script x) =
    Inr (fold (SimpleLabelFilterPlanner (an_noStreamSelect an)) (map (\<lambda>p. the (ppl_LabelFilter p)) (sel_Pipelines x))
      (StreamSelectPlanner (an_noStreamSelect an) ms (an_offsetModifier an)))"
proof -
  have "fold (\<lambda>(simple, ppl) fp. case ppl_LabelFilter ppl of
          Some f \<Rightarrow> if simple then SimpleLabelFilterPlanner (an_noStreamSelect an) f fp else fp | None \<Rightarrow> fp)
        (zip (replicate (length ps) True) ps) fp =
      fold (SimpleLabelFilterPlanner (an_noStreamSelect an)) (map (\<lambda>p. the (ppl_LabelFilter p)) ps) fp"
    if "list_all label_filter_stage ps" for ps fp
    using that by (induction ps arbitrary: fp) (auto simp: label_filter_stage_def)
  with assms show ?thesis by (simp add: planTS_def)
qed

lemma log_plan_label_filters:
  assumes "list_all label_filter_stage (sel_Pipelines x)" "matchers_of E (sel_StrSelCmds x) = Inr ms"
  defines "noSel \<equiv> sel_StrSelCmds x = [] \<or> list_all any_value (sel_StrSelCmds x)"
  shows "ch_Plan E (selector_script x) fin =
    Inr (log_tree noSel fin (fold (SimpleLabelFilterPlanner noSel) (map (\<lambda>p. the (ppl_LabelFilter p)) (sel_Pipelines x))
      (StreamSelectPlanner noSel ms None)))"
  using assms(1,2) label_filter_stages [OF assms(1)]
  by (simp add: ch_Plan_def log_analysis planTS_label_filters planSpl_def planPipelines_label_filters
      finish_plan_def log_tree_def Let_def noSel_def)

text \<open>
  label filters without stream selection. If every matcher of a log query is \<open>=~".*"\<close>, label
  filters at the start of the pipeline have no effect: \<open>{app=~".*"} | level="error"\<close> makes the
  query of \<open>{app=~".*"}\<close>.
\<close>

theorem label_filters_dropped:
  assumes "list_all any_value (sel_StrSelCmds x)" "list_all label_filter_stage (sel_Pipelines x)"
    "matchers_of E (sel_StrSelCmds x) = Inr ms"
  shows "rbind (ch_Plan E (selector_script x) fin) (run_planner E ctx) =
    rbind (ch_Plan E (selector_script (x\<lparr>sel_Pipelines := []\<rparr>)) fin) (run_planner E ctx)"
proof -
  have same: "run_planner E ctx (log_tree True fin fps) = run_planner E ctx (log_tree True fin fps')" for fps fps'
    by (cases fin) (simp_all add: run_planner_def log_tree_def Let_def FingerprintFilter_Process_def LabelsJoin_Process_def)
  show ?thesis
    using assms log_plan_label_filters [of x E ms fin] log_plan_label_filters [of "x\<lparr>sel_Pipelines := []\<rparr>" E ms fin]
      same [of "fold (SimpleLabelFilterPlanner True) (map (\<lambda>p. the (ppl_LabelFilter p)) (sel_Pipelines x)) (StreamSelectPlanner True ms None)"
        "StreamSelectPlanner True ms None"]
    by simp
qed

definition any_app :: StrSelCmd where
  "any_app = \<lparr>cmd_Label = ''app'', cmd_Op = ''=~'', cmd_Val = quoted ''.*''\<rparr>"

theorem label_filters_dropped_witness:
  "rbind (ch_Plan example_env (selector_script \<lparr>sel_StrSelCmds = [any_app],
       sel_Pipelines = [empty_stage\<lparr>ppl_LabelFilter := Some (label_is ''level'' ''error'')\<rparr>]\<rparr>) True)
     (run_planner example_env fed_ctx) =
   rbind (ch_Plan example_env (selector_script \<lparr>sel_StrSelCmds = [any_app], sel_Pipelines = []\<rparr>) True)
     (run_planner example_env fed_ctx)"
proof -
  let ?x = "\<lparr>sel_StrSelCmds = [any_app], sel_Pipelines = [empty_stage\<lparr>ppl_LabelFilter := Some (label_is ''level'' ''error'')\<rparr>]\<rparr>"
  have "list_all any_value (sel_StrSelCmds ?x)" "list_all label_filter_stage (sel_Pipelines ?x)"
    by (simp_all add: any_value_def any_app_def quoted_def label_filter_stage_def empty_stage_def)
  moreover have "matchers_of example_env (sel_StrSelCmds ?x) = Inr [(''app'', ''=~'', ''.*'')]"
    by (simp add: matchers_of_def any_app_def quoted_def Unquote_def example_env_def example_lib_def int_lib_def)
  ultimately show ?thesis using label_filters_dropped [of ?x example_env _ True fed_ctx] by simp
qed


subsection \<open>The 15 second table\<close>

text \<open>
  C40: the pipeline of a metric query read from the 15 second table. Where \<open>rate\<close> or
  \<open>count_over_time\<close>, alone or under an aggregation, is answered from the 15 second table, its
  plan is that of the query without pipeline: label filters, \<open>drop\<close>, \<open>keep\<close> and formats of
  \<open>rate({job="api"} | level="error" [60s])\<close> are left out.
\<close>

theorem shortcut_ignores_pipeline:
  assumes "ql_Head s = AtomExpr None None lra agg None None None ''''"
    and "lra = Some l \<and> agg = None \<or> lra = None \<and> agg = Some g \<and> l = agg_LRAOrUnwrap g"
    and "AnalyzeMetrics15sShortcut (env_lib E) s"
  shows "ch_Plan E (with_sel ((lra_StrSel l)\<lparr>sel_Pipelines := []\<rparr>) s) fin = ch_Plan E s fin"
proof -
  define s0 where "s0 = with_sel ((lra_StrSel l)\<lparr>sel_Pipelines := []\<rparr>) s"
  obtain ops where s: "s = LogQLScript (AtomExpr None None lra agg None None None '''') ops"
    using assms(1) by (cases s) simp
  have find: "ch_find_LRA s = Some l" using assms(2) by (auto simp: s opt_or_def)
  have find0: "ch_find_LRA s0 = Some (lra_with_sel ((lra_StrSel l)\<lparr>sel_Pipelines := []\<rparr>) l)"
    using assms(2) by (auto simp: s s0_def with_sel_def map_head_def opt_or_def agg_with_sel_def)
  have sc0: "AnalyzeMetrics15sShortcut (env_lib E) s0"
    using assms(3) by (auto simp: AnalyzeMetrics15sShortcut_def find find0 lra_with_sel_def lra_duration_def split: sum.splits)
  have an: "analyzeScript E s0 = analyzeScript E s"
    using assms(2,3) sc0
    by (auto simp: analyzeScript_def getStreamSelector_def analyzeOffset_def analyzeStreamSelect_def Let_def
        s s0_def with_sel_def map_head_def opt_or_def agg_with_sel_def lra_with_sel_def split: option.splits)
  obtain a where a: "analyzeScript E s = Inr a" "an_simpleLabelOperation a = []" "an_metrics15Shortcut a"
    using assms(2,3) by (auto simp: analyzeScript_def getStreamSelector_def Let_def s)
  have ts: "planTS E a s0 = planTS E a s"
    using assms(2) a(2)
    by (auto simp: planTS_def getStreamSelector_def s s0_def with_sel_def map_head_def agg_with_sel_def lra_with_sel_def)
  have short: "planMetrics15Shortcut E a fp s0 = planMetrics15Shortcut E a fp s" for fp
    using assms(2)
    by (auto simp: planMetrics15Shortcut_def shortcut_lra_def shortcut_agg_def planAgg_def lra_duration_def Let_def
        s s0_def with_sel_def map_head_def agg_with_sel_def lra_with_sel_def)
  have dur: "GetDuration (env_lib E) s0 = GetDuration (env_lib E) s"
    using assms(2) by (auto simp: s s0_def with_sel_def map_head_def agg_with_sel_def lra_with_sel_def lra_duration_def cong: if_cong)
  have finish: "finish_plan E a fin s0 fp idx p = finish_plan E a fin s fp idx p" for fp idx p
    using assms(2) dur by (auto simp: finish_plan_def Let_def s s0_def with_sel_def map_head_def)
  have macros: "at_Macros (ql_Head s0) = None" "at_Macros (ql_Head s) = None"
    using assms(2) by (auto simp: s s0_def with_sel_def map_head_def)
  show ?thesis
    unfolding s0_def [symmetric] using an a ts short finish macros by (simp add: ch_Plan_def)
qed


definition rate_script :: "StrSelector \<Rightarrow> LogQLScript" where
  "rate_script x = LogQLScript (AtomExpr None None (Some (rate_of x)) None None None None '''') []"

definition long_env :: ch_env where
  "long_env = example_env\<lparr>env_lib := example_lib\<lparr>parse_duration := parse_duration int_lib\<rparr>\<rparr>"

theorem shortcut_ignores_pipeline_witness:
  "ch_Plan long_env (rate_script \<lparr>sel_StrSelCmds = [job_api], sel_Pipelines = []\<rparr>) True =
   ch_Plan long_env (rate_script \<lparr>sel_StrSelCmds = [job_api],
     sel_Pipelines = [empty_stage\<lparr>ppl_LabelFilter := Some (label_is ''level'' ''error'')\<rparr>]\<rparr>) True"
proof -
  let ?x = "\<lparr>sel_StrSelCmds = [job_api], sel_Pipelines = [empty_stage\<lparr>ppl_LabelFilter := Some (label_is ''level'' ''error'')\<rparr>]\<rparr>"
  have "AnalyzeMetrics15sShortcut (env_lib long_env) (rate_script ?x)"
    by (simp add: AnalyzeMetrics15sShortcut_def rate_script_def rate_of_def opt_or_def lra_duration_def long_env_def
        int_lib_def digits_val_def empty_stage_def)
  moreover have "with_sel ((lra_StrSel (rate_of ?x))\<lparr>sel_Pipelines := []\<rparr>) (rate_script ?x) =
      rate_script \<lparr>sel_StrSelCmds = [job_api], sel_Pipelines = []\<rparr>"
    by (simp add: with_sel_def map_head_def rate_script_def rate_of_def lra_with_sel_def)
  ultimately show ?thesis
    using shortcut_ignores_pipeline [of "rate_script ?x" "Some (rate_of ?x)" None "rate_of ?x" undefined long_env True]
    by (simp add: rate_script_def)
qed

subsection \<open>Negated regular expressions\<close>

text \<open>No pattern of the expression is a plain literal that becomes a \<open>LIKE\<close>.\<close>

fun no_literal :: "ch_env \<Rightarrow> LineFilterExp \<Rightarrow> bool"
and no_literal_head :: "ch_env \<Rightarrow> LineFilterHead \<Rightarrow> bool" where
  "no_literal E (LineFilterExp h op tl') =
     (no_literal_head E h \<and> (case tl' of None \<Rightarrow> True | Some t \<Rightarrow> no_literal E t))"
| "no_literal_head E (LineFilterHead complex simple) =
     ((case complex of None \<Rightarrow> True | Some e \<Rightarrow> no_literal E e) \<and>
      (case simple of None \<Rightarrow> True
       | Some s \<Rightarrow> (case Unquote (env_lib E) s of Inl _ \<Rightarrow> True | Inr v \<Rightarrow> re2Like E v = None)))"

lemma negated_simple:
  "(case Unquote (env_lib E) s of Inl _ \<Rightarrow> True | Inr v \<Rightarrow> re2Like E v = None) \<Longrightarrow>
   buildSimpleCondition E ''!~'' s = buildSimpleCondition E ''|~'' s"
  by (cases "Unquote (env_lib E) s") (auto simp: buildSimpleCondition_def)

lemma negated_condition:
  "no_literal E e \<Longrightarrow> buildExpCondition E ''!~'' e = buildExpCondition E ''|~'' e"
  "no_literal_head E h \<Longrightarrow> buildHeadCondition E ''!~'' h = buildHeadCondition E ''|~'' h"
proof (induction e and h)
  case (LineFilterExp h op tl')
  then show ?case by (cases tl') (auto intro!: rbind_cong)
next
  case (LineFilterHead complex simple)
  then show ?case by (cases complex; cases simple) (auto simp: negated_simple)
qed

text \<open>
  negated regular expressions. For patterns that are not plain literals the line filter
  \<open>!~\<close> makes the query of \<open>|~\<close>, which returns the lines that match.
\<close>

theorem negated_regexp_not_negated:
  assumes "no_literal E e"
  shows "ChLineFilter_Process E \<lparr>lf_Fn = ''!~'', lf_Exp = e\<rparr> main = ChLineFilter_Process E \<lparr>lf_Fn = ''|~'', lf_Exp = e\<rparr> main"
  using negated_condition(1) [OF assms] by (simp add: ChLineFilter_Process_def)

theorem negated_regexp_not_negated_witness:
  "ChLineFilter_Process example_env
     \<lparr>lf_Fn = ''!~'', lf_Exp = LineFilterExp (LineFilterHead None (Some (quoted ''err.*''))) '''' None\<rparr>
     (Process example_env fed_ctx (SqlMainInitPlanner None)) =
   ChLineFilter_Process example_env
     \<lparr>lf_Fn = ''|~'', lf_Exp = LineFilterExp (LineFilterHead None (Some (quoted ''err.*''))) '''' None\<rparr>
     (Process example_env fed_ctx (SqlMainInitPlanner None))"
  by (rule negated_regexp_not_negated) (simp add: re2Like_def example_env_def split: sum.splits)

end
