(* ===== verification/Ch_Scope.thy ===== *)
theory Ch_Scope
  imports Ch_Plan
begin

section \<open>Tenant scoping of a whole query\<close>

text \<open>
  \<open>scoped f q\<close> looks through a query, at every place a query may be nested: \<open>WITH\<close> queries and
  references to them, joins, sub-queries in conditions and columns, the parts of a union. A
  \<open>SELECT\<close> whose source is a table must have the tenant condition of \<open>f\<close> for that table among
  its conjuncts, or return nothing but fingerprints that are in a sub-query. An object that is
  a bare closure is allowed only if it never prints. A raw text counts as a table where it is the
  source of a \<open>SELECT\<close>, and is not looked into elsewhere: the planners write columns, functions
  and literals as raw texts and make every read a \<open>SELECT\<close> object. The definition therefore speaks
  of queries that planners build, not of arbitrary objects.
\<close>

definition conjuncts :: "sqlobj option \<Rightarrow> sqlobj list" where
  "conjuncts w =
     (case w of None \<Rightarrow> [] | Some c \<Rightarrow> if is_LogicalOp c \<and> GetFunction c = ''and'' then GetEntity c else [c])"

text \<open>The alias under which a table is read; \<open>None\<close> for a source that is no table.\<close>

fun table_alias :: "sqlobj \<Rightarrow> string option" where
  "table_alias (RawObject t) = Some ''''"
| "table_alias (Col (RawObject t) al) = Some al"
| "table_alias _ = None"

definition oid_col :: "string \<Rightarrow> string" where
  "oid_col al = (if al \<noteq> '''' then al @ ''.oid'' else ''oid'')"

fun fp_in_query :: "sqlobj \<Rightarrow> bool" where
  "fp_in_query (In (RawObject c) [WithRef w]) = (c = ''fingerprint'')"
| "fp_in_query _ = False"

definition own_tenant :: "OidFilter \<Rightarrow> sel \<Rightarrow> bool" where
  "own_tenant f q \<longleftrightarrow>
     (case Option.bind (s_from q) table_alias of
        None \<Rightarrow> True
      | Some al \<Rightarrow> BuildOidCondition (oid_col al) f \<in> set (conjuncts (s_preWhere q) @ conjuncts (s_where q)))"

definition only_fingerprints :: "sel \<Rightarrow> bool" where
  "only_fingerprints q \<longleftrightarrow>
     s_columns q = [RawObject ''fingerprint''] \<and> list_ex fp_in_query (conjuncts (s_where q))"

definition never_prints :: "(sql_opts \<Rightarrow> string pr) \<Rightarrow> bool" where
  "never_prints m \<longleftrightarrow> (\<forall>opts c. \<exists>e c'. m opts c = (Inl e, c'))"

fun sc_obj :: "OidFilter \<Rightarrow> sqlobj \<Rightarrow> bool"
and sc_with :: "OidFilter \<Rightarrow> with_q \<Rightarrow> bool"
and sc_join :: "OidFilter \<Rightarrow> join \<Rightarrow> bool"
and sc_window :: "OidFilter \<Rightarrow> window \<Rightarrow> bool"
and scoped :: "OidFilter \<Rightarrow> sel \<Rightarrow> bool"
where
  "sc_obj f (OrderBy col d fill from till step stale) = sc_obj f col"
| "sc_obj f (WithObj w) = sc_with f w"
| "sc_obj f (WithRef w) = sc_with f w"
| "sc_obj f (JoinObj j) = sc_join f j"
| "sc_obj f (LimitBy l es) = (sc_obj f l \<and> list_all (sc_obj f) es)"
| "sc_obj f (CtxParam name def) = False"
| "sc_obj f (Col e a) = sc_obj f e"
| "sc_obj f (In l r) = (sc_obj f l \<and> list_all (sc_obj f) r)"
| "sc_obj f (CustomCol m) = never_prints m"
| "sc_obj f (SqlExt fn newid optf args g) = list_all (sc_obj f) args"
| "sc_obj f (WindowObj w) = sc_window f w"
| "sc_obj f (WindowFunctionRef w) = sc_window f w"
| "sc_obj f (LogicalOp fn cs) = list_all (sc_obj f) cs"
| "sc_obj f (CNot e) = sc_obj f e"
| "sc_obj f (CNotNull e) = sc_obj f e"
| "sc_obj f (SelectObj s) = scoped f s"
| "sc_obj f (RawObject s) = True"
| "sc_obj f (StringVal s) = True"
| "sc_obj f (IntVal i) = True"
| "sc_obj f (BoolVal b) = True"
| "sc_obj f (FloatVal x) = True"
| "sc_with f (With q a) = scoped f q"
| "sc_join f (Join tp t on) =
     ((to_lower tp = ''array'' \<or> table_alias t = None) \<and> sc_obj f t \<and>
      list_all (sc_obj f) (case on of None \<Rightarrow> [] | Some x \<Rightarrow> [x]))"
| "sc_window f (WindowFunction a p ob r st stop) = (list_all (sc_obj f) p \<and> list_all (sc_obj f) ob)"
| "scoped f (Select dist cols from wh pre hav gby oby lim off withs joins wins st an) =
     (list_all (sc_obj f) cols \<and> pred_option (sc_obj f) from \<and> pred_option (sc_obj f) wh \<and>
      pred_option (sc_obj f) pre \<and> pred_option (sc_obj f) hav \<and> list_all (sc_obj f) gby \<and>
      list_all (sc_obj f) oby \<and> list_all (sc_obj f) lim \<and> pred_option (sc_obj f) off \<and>
      list_all (sc_with f) withs \<and> list_all (sc_join f) joins \<and> list_all (sc_window f) wins \<and>
      list_all (scoped f) an \<and>
      (own_tenant f (Select dist cols from wh pre hav gby oby lim off withs joins wins st an) \<or>
       only_fingerprints (Select dist cols from wh pre hav gby oby lim off withs joins wins st an)))"

text \<open>The same with the tenant condition of the outermost query required.\<close>

definition strict :: "OidFilter \<Rightarrow> sel \<Rightarrow> bool" where
  "strict f q \<longleftrightarrow> scoped f q \<and> own_tenant f q"

subsection \<open>Scoping and the builder\<close>

named_theorems sc_simps \<open>scoping of the objects the planners build\<close>
named_theorems sc_intros \<open>scoping kept by the builder methods\<close>

definition parts_scoped :: "OidFilter \<Rightarrow> sel \<Rightarrow> bool" where
  "parts_scoped f q \<longleftrightarrow>
     list_all (sc_obj f) (s_columns q) \<and> pred_option (sc_obj f) (s_from q) \<and> pred_option (sc_obj f) (s_where q) \<and>
     pred_option (sc_obj f) (s_preWhere q) \<and> pred_option (sc_obj f) (s_having q) \<and> list_all (sc_obj f) (s_groupBy q) \<and>
     list_all (sc_obj f) (s_orderBy q) \<and> list_all (sc_obj f) (s_limit q) \<and> pred_option (sc_obj f) (s_offset q) \<and>
     list_all (sc_with f) (s_withs q) \<and> list_all (sc_join f) (s_joins q) \<and> list_all (sc_window f) (s_windows q) \<and>
     list_all (scoped f) (s_anothers q)"

lemma scoped_iff: "scoped f q \<longleftrightarrow> parts_scoped f q \<and> (own_tenant f q \<or> only_fingerprints q)"
  by (cases q) (simp add: parts_scoped_def)

lemma strict_iff: "strict f q \<longleftrightarrow> parts_scoped f q \<and> own_tenant f q"
  by (auto simp: strict_def scoped_iff)

lemma strict_scoped: "strict f q \<Longrightarrow> scoped f q"
  by (simp add: strict_def)

lemma conjuncts_And: "conjuncts (Some (sql_And cs)) = cs"
  by (simp add: conjuncts_def sql_cond_defs)

lemma sc_where_sel_AndWhere [simp]:
  "conjuncts (s_where (sel_AndWhere cs q)) = conjuncts (s_where q) @ cs"
  "s_preWhere (sel_AndWhere cs q) = s_preWhere q" "s_from (sel_AndWhere cs q) = s_from q"
  "s_columns (sel_AndWhere cs q) = s_columns q"
proof -
  show "conjuncts (s_where (sel_AndWhere cs q)) = conjuncts (s_where q) @ cs"
  proof (cases "s_where q")
    case (Some w)
    then show ?thesis
      by (cases w) (auto simp: sel_AndWhere_def conjuncts_def sql_cond_defs)
  qed (simp add: sel_AndWhere_def conjuncts_def sql_cond_defs)
qed (auto simp: sel_AndWhere_def split: option.splits)

lemma sc_obj_AppendEntity: "sc_obj f w \<Longrightarrow> list_all (sc_obj f) cs \<Longrightarrow> sc_obj f (AppendEntity w cs)"
  by (cases w) auto

lemma parts_AndWhere [sc_intros]:
  "parts_scoped f q \<Longrightarrow> list_all (sc_obj f) cs \<Longrightarrow> parts_scoped f (sel_AndWhere cs q)"
  by (auto simp: parts_scoped_def sel_AndWhere_def sql_cond_defs intro!: sc_obj_AppendEntity split: option.splits)

lemma parts_AndHaving [sc_intros]:
  "parts_scoped f q \<Longrightarrow> list_all (sc_obj f) cs \<Longrightarrow> parts_scoped f (sel_AndHaving cs q)"
  by (auto simp: parts_scoped_def sel_AndHaving_def sql_cond_defs intro!: sc_obj_AppendEntity split: option.splits)

lemma own_AndHaving [simp]: "own_tenant f (sel_AndHaving cs q) = own_tenant f q"
  by (auto simp: own_tenant_def sel_AndHaving_def split: option.splits)

lemma own_AndWhere [sc_intros]: "own_tenant f q \<Longrightarrow> own_tenant f (sel_AndWhere cs q)"
  by (auto simp: own_tenant_def split: option.splits)

lemma AndPreWhere_conjuncts:
  "sel_AndPreWhere cs q = Inr q' \<Longrightarrow>
     conjuncts (s_preWhere q') = conjuncts (s_preWhere q) @ cs \<and> q' = set_preWhere (s_preWhere q') q \<and>
     (parts_scoped f q \<and> list_all (sc_obj f) cs \<longrightarrow> parts_scoped f q')"
proof (cases "s_preWhere q")
  case None
  assume "sel_AndPreWhere cs q = Inr q'"
  with None have "q' = set_preWhere (Some (sql_And cs)) q" by (auto simp: sel_AndPreWhere_def)
  then show ?thesis
    by (auto simp: None conjuncts_def sql_cond_defs parts_scoped_def set_preWhere_def)
next
  case (Some w)
  assume "sel_AndPreWhere cs q = Inr q'"
  with Some have w: "is_LogicalOp w \<and> GetFunction w = ''and''" "q' = set_preWhere (Some (AppendEntity w cs)) q"
    by (auto simp: sel_AndPreWhere_def split: if_splits)
  then obtain ds where "w = LogicalOp ''and'' ds" by (cases w) auto
  with w Some show ?thesis
    by (auto simp: conjuncts_def parts_scoped_def set_preWhere_def)
qed

lemma strict_AndPreWhere:
  assumes "sel_AndPreWhere cs q = Inr q'" "strict f q" "list_all (sc_obj f) cs"
  shows "strict f q'"
proof -
  from AndPreWhere_conjuncts [OF assms(1)]
  have q': "conjuncts (s_preWhere q') = conjuncts (s_preWhere q) @ cs" "q' = set_preWhere (s_preWhere q') q"
    by blast+
  have "own_tenant f q'"
    using assms(2) q'(1) by (subst q'(2)) (auto simp: strict_iff own_tenant_def split: option.splits)
  moreover have "parts_scoped f q'"
    using AndPreWhere_conjuncts [OF assms(1), of f] assms(2,3) by (simp add: strict_iff)
  ultimately show ?thesis by (simp add: strict_iff)
qed

lemma sc_add_withs:
  "list_all (sc_with f) ws \<Longrightarrow> list_all (sc_with f) acc \<Longrightarrow> list_all (sc_with f) (add_withs ws acc)"
  by (induction ws acc rule: add_withs.induct) auto

lemma parts_build [sc_intros]:
  "parts_scoped f q \<Longrightarrow> list_all (sc_obj f) cols \<Longrightarrow> parts_scoped f (sel_Select cols q)"
  "parts_scoped f q \<Longrightarrow> sc_obj f t \<Longrightarrow> parts_scoped f (sel_From t q)"
  "parts_scoped f q \<Longrightarrow> list_all (sc_with f) ws \<Longrightarrow> parts_scoped f (sel_With ws q)"
  "parts_scoped f q \<Longrightarrow> list_all (sc_obj f) cols \<Longrightarrow> parts_scoped f (sel_GroupBy cols q)"
  "parts_scoped f q \<Longrightarrow> list_all (sc_obj f) cols \<Longrightarrow> parts_scoped f (sel_OrderBy cols q)"
  "parts_scoped f q \<Longrightarrow> list_all (sc_obj f) cols \<Longrightarrow> parts_scoped f (sel_Limit cols q)"
  "parts_scoped f q \<Longrightarrow> list_all (sc_join f) js \<Longrightarrow> parts_scoped f (sel_Join js q)"
  "parts_scoped f NewSelect"
  by (simp_all add: parts_scoped_def sel_Select_def sel_From_def sel_With_def sel_GroupBy_def sel_OrderBy_def
      sel_Limit_def sel_Join_def NewSelect_def sc_add_withs)

lemma own_build [simp]:
  "own_tenant f (sel_Select cols q) = own_tenant f q"
  "own_tenant f (sel_With ws q) = own_tenant f q"
  "own_tenant f (sel_GroupBy cols q) = own_tenant f q"
  "own_tenant f (sel_OrderBy cols q) = own_tenant f q"
  "own_tenant f (sel_Limit cols q) = own_tenant f q"
  "own_tenant f (sel_Join js q) = own_tenant f q"
  "own_tenant f NewSelect"
  by (simp_all add: own_tenant_def sel_Select_def sel_With_def sel_GroupBy_def sel_OrderBy_def
      sel_Limit_def sel_Join_def NewSelect_def split: option.splits)

lemma own_From_query [sc_intros]: "table_alias t = None \<Longrightarrow> own_tenant f (sel_From t q)"
  by (simp add: own_tenant_def sel_From_def)


subsection \<open>Scoping of the objects\<close>

lemma sc_ext [sc_simps]: "sc_obj f (ext_obj fn args g) = list_all (sc_obj f) args"
  by (simp add: ext_obj_def)

lemma sc_new [sc_simps]:
  "sc_obj f (NewRawObject s)" "sc_obj f (NewSimpleCol n al)"
  "sc_obj f (NewCol e al) = sc_obj f e" "sc_obj f (NewWithRef w) = sc_with f w"
  "sc_with f (NewWith q al) = scoped f q" "sc_obj f (NewOrderBy c d) = sc_obj f c"
  "sc_obj f (NewIn l r) = (sc_obj f l \<and> list_all (sc_obj f) r)"
  by (simp_all add: NewRawObject_def NewSimpleCol_def NewCol_def NewWithRef_def NewWith_def NewOrderBy_def NewIn_def)

lemma sc_cond [sc_simps]:
  "sc_obj f (sql_And cs) = list_all (sc_obj f) cs" "sc_obj f (sql_Or cs) = list_all (sc_obj f) cs"
  "sc_obj f (sql_Eq l r) = (sc_obj f l \<and> sc_obj f r)" "sc_obj f (sql_Neq l r) = (sc_obj f l \<and> sc_obj f r)"
  "sc_obj f (sql_Lt l r) = (sc_obj f l \<and> sc_obj f r)" "sc_obj f (sql_Le l r) = (sc_obj f l \<and> sc_obj f r)"
  "sc_obj f (sql_Gt l r) = (sc_obj f l \<and> sc_obj f r)" "sc_obj f (sql_Ge l r) = (sc_obj f l \<and> sc_obj f r)"
  "sc_obj f (BinaryLogicalOp fn l r) = (sc_obj f l \<and> sc_obj f r)"
  "sc_obj f (sql_NotNull e) = sc_obj f e"
  by (simp_all add: sql_cond_defs sql_NotNull_def)

lemma sc_strings [sc_simps]: "list_all (sc_obj f) (map StringVal vs)"
  by (simp add: list_all_iff)

lemma sc_nil_obj [sc_simps]: "sc_obj f nil_obj"
  by (simp add: nil_obj_def never_prints_def perr_def)

lemma sc_BuildOidCondition [sc_simps]: "sc_obj f (BuildOidCondition col g)"
  by (simp add: BuildOidCondition_def sql_cond_defs list_all_iff)

lemma sc_GetTypes [sc_simps]: "sc_obj f (GetTypes ctx)"
  by (simp add: GetTypes_def Let_def sc_simps)

lemma sc_objects [sc_simps]:
  "sc_obj f (SqlMatch c p) = (sc_obj f c \<and> sc_obj f p)" "sc_obj f (SqlLike op c pat) = sc_obj f c"
  "sc_obj f (SqlHasPhrase c ph) = sc_obj f c" "sc_obj f (sqlMapUpdate m1 m2) = (sc_obj f m1 \<and> sc_obj f m2)"
  "sc_obj f (sqlParserError c p e d) = (sc_obj f c \<and> sc_obj f p)"
  "sc_obj f (sqlFormat fmt args) = list_all (sc_obj f) args"
  "sc_obj f (globalInCondition l q) = (sc_obj f l \<and> scoped f q)"
  "sc_obj f (SqlBitSetAnd cs) = list_all (sc_obj f) cs"
  "sc_obj f (canonicalFPCol c) = sc_obj f c"
  "sc_obj f (toFloat64OrNull c) = sc_obj f c" "sc_obj f (notNull c) = sc_obj f c"
  "sc_obj f (path2Sql c ps) = sc_obj f c" "sc_obj f (empty_clause lb)"
  "sc_obj f (map_label lb)" "sc_obj f (json_label lb)" "sc_obj f (label_arg lb)"
  "sc_obj f (pair_clause eq lv)" "sc_obj f empty_str_col" "sc_obj f line_arg" "sc_obj f timestamp_arg"
  by (auto simp: SqlMatch_def SqlLike_def SqlHasPhrase_def sqlMapUpdate_def sqlParserError_def sqlFormat_def
      globalInCondition_def SqlBitSetAnd_def canonicalFPCol_def toFloat64OrNull_def notNull_def path2Sql_def
      empty_clause_def map_label_def json_label_def label_arg_def pair_clause_def empty_str_col_def line_arg_def
      timestamp_arg_def sc_simps split: prod.splits)

lemma sc_filters [sc_simps]:
  "sc_obj f c \<Longrightarrow> sc_obj f (mapDropFilter c ls vs)" "sc_obj f c \<Longrightarrow> sc_obj f (mapKeepFilter c ls vs)"
  "sc_obj f c \<Longrightarrow> sc_obj f (byWithoutFilterCol c ls b)"
  "sc_obj f c \<Longrightarrow> sc_obj f (sqlJsonParser c ls ps)" "sc_obj f c \<Longrightarrow> sc_obj f (regexMap c ls re)"
  by (auto simp: mapDropFilter_def mapKeepFilter_def map_filter_def byWithoutFilterCol_def sqlJsonParser_def
      regexMap_def list_all_iff sc_simps)

lemma sc_doLike [sc_simps]: "sc_obj f (doLike op v)" "sc_obj f (doHasPhrase v)"
  by (simp_all add: doLike_def doHasPhrase_def Let_def sc_simps)

lemma sc_values [sc_simps]:
  "sc_obj f (lra_value fn cov d)" "sc_obj f (agg_value fn)" "sc_obj f (unwrap_fn_value fn cov d)"
  "sc_obj f l \<Longrightarrow> pred_option (sc_obj f) s \<Longrightarrow> sc_obj f (unwrap_value lbl l s)"
  by (auto simp: lra_value_def agg_value_def unwrap_fn_value_def unwrap_value_def sc_simps split: option.splits)

text \<open>Conditions of filters.\<close>

lemma sc_num_op [sc_simps]: "sc_obj f (num_op fn l r) = (sc_obj f l \<and> sc_obj f r)"
  by (simp add: num_op_def sc_simps)

lemma sc_str_op: "str_op fn = Some g \<Longrightarrow> sc_obj f l \<Longrightarrow> sc_obj f r \<Longrightarrow> sc_obj f (g l r)"
  by (auto simp: str_op_def sc_simps split: if_splits)

lemma sc_cmp_op: "cmp_op fn = Some g \<Longrightarrow> sc_obj f l \<Longrightarrow> sc_obj f r \<Longrightarrow> sc_obj f (g l r)"
  by (auto simp: cmp_op_def sc_simps split: if_splits)

lemma sc_makeErrorLabelCond: "makeErrorLabelCond E seen expr = Inr (Some c) \<Longrightarrow> sc_obj f c"
  by (auto simp: makeErrorLabelCond_def Let_def sc_simps rbind_Inr_iff split: if_splits option.splits)

lemma sc_makeSimpleSqlCond:
  assumes "makeSimpleSqlCond E label seen expr = Inr c" "\<And>n. sc_obj f (label n)"
  shows "sc_obj f c"
  using assms
  by (auto simp: makeSimpleSqlCond_def makeSimpleNumSqlCond_def makeSimpleStrSqlCond_def Let_def rbind_Inr_iff
      sc_simps split: if_splits option.splits intro: sc_str_op sc_makeErrorLabelCond)

lemma sc_makeSqlCond:
  assumes "\<And>n. sc_obj f (label n)"
  shows "makeSqlCond E label seen e = Inr c \<Longrightarrow> sc_obj f c"
    and "makeHeadCond E label seen h = Inr c \<Longrightarrow> sc_obj f c"
  by (induction e and h arbitrary: c and c)
     (auto simp: rbind_Inr_iff sc_simps split: option.splits if_splits intro: sc_makeSimpleSqlCond assms)

lemma sc_buildSimpleCondition: "buildSimpleCondition E fn s = Inr c \<Longrightarrow> sc_obj f c"
  by (auto simp: buildSimpleCondition_def rbind_Inr_iff sc_simps split: if_splits option.splits)

lemma sc_buildExpCondition:
  "buildExpCondition E fn e = Inr c \<Longrightarrow> sc_obj f c"
  "buildHeadCondition E fn h = Inr c \<Longrightarrow> sc_obj f c"
  by (induction e and h arbitrary: c and c)
     (auto simp: rbind_Inr_iff sc_simps split: option.splits if_splits intro: sc_buildSimpleCondition)

text \<open>Columns.\<close>

lemma sc_patchCol:
  assumes "patchCol cols name patch = Inr cols'" "list_all (sc_obj f) cols"
    and "\<And>e e'. sc_obj f e \<Longrightarrow> patch e = Inr e' \<Longrightarrow> sc_obj f e'"
  shows "list_all (sc_obj f) cols'"
  using assms(1,2)
proof (induction cols arbitrary: cols')
  case (Cons c cols)
  then obtain c' cs where c: "cols' = c' # cs" "patchCol cols name patch = Inr cs"
    "(case c of Col e al \<Rightarrow> if al \<noteq> name then Inr c else rbind (patch e) (\<lambda>e'. Inr (NewCol e' name))
      | _ \<Rightarrow> Inr c) = Inr c'"
    by (auto simp: rbind_Inr_iff)
  have "sc_obj f c'"
    using c(3) Cons.prems(2) by (cases c) (auto simp: rbind_Inr_iff sc_simps split: if_splits intro: assms(3))
  with c Cons show ?case by simp
qed simp

lemma sc_getCol: "list_all (sc_obj f) (s_columns q) \<Longrightarrow> getCol q al = Some e \<Longrightarrow> sc_obj f e"
proof -
  assume cols: "list_all (sc_obj f) (s_columns q)" and "getCol q al = Some e"
  then obtain a cs where "filter (has_alias al) (s_columns q) = Col e a # cs"
    by (auto simp: getCol_def split: list.splits sqlobj.splits)
  then have "Col e a \<in> set (filter (has_alias al) (s_columns q))" by simp
  with cols show ?thesis by (auto simp: list_all_iff)
qed

end
