(* ===== verification/Ch_Scope_Plan.thy ===== *)
theory Ch_Scope_Plan
  imports Ch_Scope Ch_Example
begin

section \<open>Every planned query is scoped to the tenants of the request\<close>

text \<open>
  One lemma per planner says that it gives a scoped query when its inputs do, and keeps the
  caches scoped; induction over the planner tree gives it for \<open>Process\<close>, and the trees that
  \<open>ch_Plan\<close> builds are of the kinds the induction needs.
\<close>

subsection \<open>Leaves\<close>

lemma own_oid_AndWhere:
  assumes "pc_Federated ctx" "Option.bind (s_from q) table_alias = Some al"
  shows "own_tenant (pc_OidFilter ctx) (oid_AndWhere ctx al q)"
  using assms by (auto simp: own_tenant_def oid_AndWhere_def GetOidFilter_def oid_col_def)

lemma parts_oid_AndWhere: "parts_scoped f q \<Longrightarrow> parts_scoped f (oid_AndWhere ctx al q)"
  by (auto simp: oid_AndWhere_def GetOidFilter_def sc_simps intro!: sc_intros)

lemma oid_AndPreWhere_scoped:
  assumes "oid_AndPreWhere ctx al q = Inr q'" "pc_Federated ctx" "Option.bind (s_from q) table_alias = Some al"
    "parts_scoped (pc_OidFilter ctx) q"
  shows "strict (pc_OidFilter ctx) q'"
proof -
  have pw: "sel_AndPreWhere [BuildOidCondition (oid_col al) (pc_OidFilter ctx)] q = Inr q'"
    using assms(1,2) by (auto simp: oid_AndPreWhere_def GetOidFilter_def oid_col_def)
  note c = AndPreWhere_conjuncts [OF pw, of "pc_OidFilter ctx"]
  have "s_from q' = s_from q" using c by (metis set_preWhere_sel(3))
  then have "own_tenant (pc_OidFilter ctx) q'" using c assms(3) by (simp add: own_tenant_def)
  with c assms(4) show ?thesis by (simp add: strict_iff sc_simps)
qed

lemma sc_matcher_clause: "matcher_clause m = Inr c \<Longrightarrow> sc_obj f c"
  by (auto simp: matcher_clause_def val_clause_def rbind_Inr_iff sc_simps split: prod.splits if_splits)

lemma sc_matcher_clauses: "mapM_res matcher_clause ms = Inr cs \<Longrightarrow> list_all (sc_obj f) cs"
  by (induction ms arbitrary: cs) (auto simp: rbind_Inr_iff intro: sc_matcher_clause)

lemma from_AndHaving [simp]: "s_from (sel_AndHaving cs q) = s_from q"
  by (auto simp: sel_AndHaving_def split: option.splits)

lemma from_build [simp]:
  "s_from (sel_Select cols q) = s_from q" "s_from (sel_GroupBy cols q) = s_from q"
  "s_from (sel_From t q) = Some t" "s_from (sel_With ws q) = s_from q"
  by (simp_all add: sel_Select_def sel_GroupBy_def sel_From_def sel_With_def)

lemma table_alias_new [simp]:
  "table_alias (NewRawObject t) = Some ''''" "table_alias (NewSimpleCol t al) = Some al"
  "table_alias (NewWithRef w) = None" "table_alias (NewCol (NewWithRef w) al) = None"
  "table_alias (SqlExt a b c d e) = None" "table_alias (NewCol (SqlExt a b c d e) al) = None"
  by (simp_all add: NewRawObject_def NewSimpleCol_def NewWithRef_def NewCol_def)

lemma fp_request_strict:
  assumes "pc_Federated ctx" "list_all (sc_obj (pc_OidFilter ctx)) cs"
  shows "strict (pc_OidFilter ctx) (fp_request ctx from cs)"
  unfolding strict_iff fp_request_def
  using assms by (intro conjI own_oid_AndWhere parts_oid_AndWhere sc_intros) (simp_all add: sc_simps)

lemma processEmptyLabels_strict:
  assumes "pc_Federated ctx" "strict (pc_OidFilter ctx) req"
  shows "strict (pc_OidFilter ctx) (processEmptyLabels ctx ms req es)"
proof -
  let ?res = "oid_AndWhere ctx ''''
    (sel_AndWhere [sql_Ge (NewRawObject ''date'') (StringVal (FormatFromDate (pc_From ctx))),
                   sql_And (map empty_clause es)]
    (sel_From (NewRawObject (pc_TimeSeriesTableName ctx))
    (sel_Select [NewSimpleCol ''fingerprint'' ''fingerprint''] NewSelect)))"
  have "parts_scoped (pc_OidFilter ctx) ?res"
    by (intro parts_oid_AndWhere sc_intros) (auto simp: sc_simps list_all_iff)
  moreover have "own_tenant (pc_OidFilter ctx) ?res"
    using assms(1) by (intro own_oid_AndWhere) simp_all
  ultimately show ?thesis
    using assms(2)
    by (auto simp: processEmptyLabels_def Let_def strict_iff scoped_iff sc_simps intro!: sc_intros)
qed

lemma StreamSelect_strict:
  assumes "pc_Federated ctx" "StreamSelect_Process E ctx noSel ms off = Inr (Some q)"
  shows "strict (pc_OidFilter ctx) q"
  using assms
  by (auto simp: StreamSelect_Process_def Let_def rbind_Inr_iff split: if_splits
      intro!: processEmptyLabels_strict fp_request_strict sc_matcher_clauses)

lemma prewhere_new:
  "s_preWhere q = None \<Longrightarrow> sel_AndPreWhere cs q = Inr (set_preWhere (Some (sql_And cs)) q)"
  by (simp add: sel_AndPreWhere_def)

lemma parts_set_preWhere:
  "parts_scoped f q \<Longrightarrow> list_all (sc_obj f) cs \<Longrightarrow> parts_scoped f (set_preWhere (Some (sql_And cs)) q)"
  by (simp add: parts_scoped_def sc_simps)

lemma preWhere_build [simp]:
  "s_preWhere (sel_Select cols q) = s_preWhere q" "s_preWhere (sel_From t q) = s_preWhere q"
  "s_preWhere NewSelect = None"
  by (simp_all add: sel_Select_def sel_From_def NewSelect_def)

lemma SqlMainInit_strict:
  "pc_Federated ctx \<Longrightarrow> SqlMainInit_Process ctx off = Inr q \<Longrightarrow> strict (pc_OidFilter ctx) q"
  by (auto simp: SqlMainInit_Process_def Let_def prewhere_new sc_simps
      intro!: oid_AndPreWhere_scoped parts_set_preWhere sc_intros)

lemma TimeSeriesInit_strict:
  "pc_Federated ctx \<Longrightarrow> TimeSeriesInit_Process ctx off = Inr q \<Longrightarrow> strict (pc_OidFilter ctx) q"
  by (auto simp: TimeSeriesInit_Process_def Let_def prewhere_new sc_simps
      intro!: oid_AndPreWhere_scoped parts_set_preWhere sc_intros)

lemma Metrics15_strict:
  assumes "pc_Federated ctx"
  shows "strict (pc_OidFilter ctx) (Metrics15_Process E ctx fn d off)"
  unfolding strict_iff Metrics15_Process_def Metrics15_GetQuery_def Let_def
  using assms by (intro conjI own_oid_AndWhere parts_oid_AndWhere sc_intros) (auto simp: sc_simps)

lemma boundTimeSeries_strict:
  assumes "strict f q" "sc_with f w"
  shows "strict f (boundTimeSeriesToWindow ctx q w)"
proof -
  have "scoped f (sel_From (NewWithRef w) (sel_Select [NewSimpleCol ''fingerprint'' ''''] NewSelect))"
    using assms(2) by (auto simp: scoped_iff sc_simps intro!: sc_intros)
  with assms(1) show ?thesis
    by (auto simp: boundTimeSeriesToWindow_def Let_def strict_iff sc_simps intro!: sc_intros)
qed

lemma labelsFromScratch_strict:
  assumes "labelsFromScratch ctx fpc wm = Inr q" "pc_Federated ctx"
    "pred_option (sc_with (pc_OidFilter ctx)) fpc" "pred_option (sc_with (pc_OidFilter ctx)) wm"
  shows "strict (pc_OidFilter ctx) q"
proof -
  from assms(1) obtain a b where
    a: "TimeSeriesInit_Process ctx None = Inr a" and
    b: "(case fpc of None \<Rightarrow> Inr a
         | Some w \<Rightarrow> sel_AndPreWhere [NewIn (NewRawObject ''time_series.fingerprint'') [NewWithRef w]] a) = Inr b" and
    q: "q = (case wm of None \<Rightarrow> b | Some w \<Rightarrow> boundTimeSeriesToWindow ctx b w)"
    by (auto simp: labelsFromScratch_def rbind_Inr_iff)
  have "strict (pc_OidFilter ctx) a" using a assms(2) by (rule TimeSeriesInit_strict [rotated])
  then have "strict (pc_OidFilter ctx) b"
    using b assms(3) by (auto simp: sc_simps split: option.splits intro: strict_AndPreWhere)
  with q assms(4) show ?thesis by (auto intro: boundTimeSeries_strict split: option.splits)
qed


subsection \<open>Planners\<close>

text \<open>The invariant of the state: what the caches hold is scoped.\<close>

definition caches_scoped :: "OidFilter \<Rightarrow> ch_state \<Rightarrow> bool" where
  "caches_scoped f st \<longleftrightarrow> pred_option (sc_with f) (st_fpCache st) \<and> pred_option (sc_with f) (st_labelsCache st)"

abbreviation gives_scoped :: "OidFilter \<Rightarrow> sel ch \<Rightarrow> bool" where
  "gives_scoped f \<equiv> gives (caches_scoped f) (scoped f)"

abbreviation gives_strict :: "OidFilter \<Rightarrow> sel ch \<Rightarrow> bool" where
  "gives_strict f \<equiv> gives (caches_scoped f) (strict f)"

lemma gives_state [gives_intros]:
  "gives (caches_scoped f) (\<lambda>_. True) pc_Id"
  "gives (caches_scoped f) (pred_option (sc_with f)) get_fpCache"
  "gives (caches_scoped f) (pred_option (sc_with f)) get_labelsCache"
  "sc_with f w \<Longrightarrow> gives (caches_scoped f) (\<lambda>_. True) (set_fpCache w)"
  "sc_with f w \<Longrightarrow> gives (caches_scoped f) (\<lambda>_. True) (set_labelsCache w)"
  by (auto simp: gives_def caches_scoped_def ch_run_defs)

lemma gives_strict_scoped: "gives_strict f m \<Longrightarrow> gives_scoped f m"
  by (erule gives_weaken) (rule strict_scoped)

text \<open>A query around a \<open>WITH\<close> query.\<close>

lemma wrap_strict:
  assumes "list_all (sc_with f) ws" "sc_obj f t" "table_alias t = None" "list_all (sc_obj f) cols"
  shows "strict f (sel_From t (sel_Select cols (sel_With ws NewSelect)))"
    and "strict f (sel_Select cols (sel_From t (sel_With ws NewSelect)))"
    and "list_all (sc_obj f) g \<Longrightarrow> strict f (sel_Select cols (sel_GroupBy g (sel_From t (sel_With ws NewSelect))))"
    and "list_all (sc_obj f) g \<Longrightarrow> strict f (sel_GroupBy g (sel_From t (sel_Select cols (sel_With ws NewSelect))))"
    and "list_all (sc_obj f) g \<Longrightarrow> strict f (sel_OrderBy g (sel_From t (sel_Select cols (sel_With ws NewSelect))))"
    and "list_all (sc_join f) js \<Longrightarrow> strict f (sel_Join js (sel_From t (sel_Select cols (sel_With ws NewSelect))))"
    and "list_all (sc_join f) js \<Longrightarrow> strict f (sel_Select cols (sel_Join js (sel_From t (sel_With ws NewSelect))))"
  using assms by (auto simp: strict_iff intro!: sc_intros)

lemma sc_NewJoin [sc_simps]:
  "sc_join f (NewJoin tp t on) \<longleftrightarrow>
     (to_lower tp = ''array'' \<or> table_alias t = None) \<and> sc_obj f t \<and> pred_option (sc_obj f) on"
  by (cases on) (simp_all add: NewJoin_def)

lemma strict_AndWhere: "strict f q \<Longrightarrow> list_all (sc_obj f) cs \<Longrightarrow> strict f (sel_AndWhere cs q)"
  by (auto simp: strict_iff intro!: sc_intros)

lemma strict_keep:
  "strict f q \<Longrightarrow> list_all (sc_obj f) cols \<Longrightarrow> strict f (sel_Select cols q)"
  "strict f q \<Longrightarrow> list_all (sc_obj f) cs \<Longrightarrow> strict f (sel_AndHaving cs q)"
  "strict f q \<Longrightarrow> list_all (sc_obj f) cs \<Longrightarrow> strict f (sel_OrderBy cs q)"
  "strict f q \<Longrightarrow> list_all (sc_obj f) cs \<Longrightarrow> strict f (sel_Limit cs q)"
  "strict f q \<Longrightarrow> list_all (sc_with f) ws \<Longrightarrow> strict f (sel_With ws q)"
  by (auto simp: strict_iff intro!: sc_intros)

lemma strict_columns: "strict f q \<Longrightarrow> list_all (sc_obj f) (s_columns q)"
  by (simp add: strict_iff parts_scoped_def)

text \<open>Steps that only change the query of their input.\<close>

lemma gives_map:
  assumes "gives_strict f m" "\<And>q. strict f q \<Longrightarrow> gives_strict f (g q)"
  shows "gives_strict f (cbind m g)"
  by (rule gives_cbind [OF assms])

lemma gives_patch:
  assumes "\<And>e e'. sc_obj f e \<Longrightarrow> patch e = Inr e' \<Longrightarrow> sc_obj f e'" "strict f q"
  shows "gives_strict f (cbind (clift (patchCol (s_columns q) name patch)) (\<lambda>cols. cret (sel_Select cols q)))"
  using assms by (auto intro!: gives_intros strict_keep strict_columns intro: sc_patchCol)

lemma WithConnector_gives:
  assumes "gives_strict f main" "gives_scoped f withP"
    and "\<And>q w q'. strict f q \<Longrightarrow> sc_with f w \<Longrightarrow> fn q w = Inr q' \<Longrightarrow> strict f q'"
  shows "gives_strict f (WithConnector_Process main withP al fn)"
  unfolding WithConnector_Process_def
proof (rule gives_map [OF assms(1)], rule gives_cbind [OF gives_state(2)])
  fix q cache assume q: "strict f q" and cache: "pred_option (sc_with f) cache"
  let ?get = "case cache of Some w \<Rightarrow> cret w
    | None \<Rightarrow> cbind withP (\<lambda>withReq. let w = NewWith withReq al in cbind (set_fpCache w) (\<lambda>_. cret w))"
  have "gives (caches_scoped f) (sc_with f) ?get"
  proof (cases cache)
    case None
    then show ?thesis
      by (auto simp: Let_def sc_simps intro!: gives_cbind [OF assms(2)] gives_True_cbind gives_intros)
  qed (use cache in \<open>auto intro!: gives_intros\<close>)
  then show "gives_strict f (cbind ?get (\<lambda>w. clift (fn (sel_With [w] q) w)))"
    by (rule gives_cbind) (auto intro!: gives_intros strict_keep q intro: assms(3) [rotated 2])
qed

lemma FingerprintFilter_gives:
  assumes "gives_strict f main" "\<not> noSel \<Longrightarrow> gives_scoped f fps"
  shows "gives_strict f (FingerprintFilter_Process noSel fps main)"
  using assms by (auto simp: FingerprintFilter_Process_def sc_simps intro!: WithConnector_gives strict_AndWhere)

lemma labels_join_strict:
  assumes "sc_with f m" "sc_with f t"
  shows "strict f (labels_join ctx m t)"
proof -
  have "scoped f (sel_From (NewCol (NewWithRef t) ''_time_series'') (sel_Select [NewSimpleCol a b] NewSelect))" for a b
    using assms(2) by (auto simp: scoped_iff sc_simps intro!: sc_intros)
  with assms show ?thesis
    by (auto simp: labels_join_def Let_def sc_simps intro!: wrap_strict)
qed

lemma LabelsJoin_gives:
  assumes "gives_strict f main" "gives_strict f ts" "\<not> noSel \<Longrightarrow> gives_scoped f fps"
  shows "gives_strict f (LabelsJoin_Process ctx noSel main fps ts cache)"
  unfolding LabelsJoin_Process_def
proof (rule gives_map)
  show "gives_strict f (if noSel then ts else WithConnector_Process ts fps ''fp_sel'' (\<lambda>q w.
      sel_AndPreWhere [NewIn (NewRawObject ''time_series.fingerprint'') [NewWithRef w]] q))"
    using assms by (auto simp: sc_simps intro!: WithConnector_gives intro: strict_AndPreWhere)
next
  fix tsReq assume ts: "strict f tsReq"
  show "gives_strict f (cbind main (\<lambda>mainReq.
      let withMain = NewWith mainReq ''main'';
          withTS = NewWith (boundTimeSeriesToWindow ctx tsReq withMain) ''_time_series'' in
      cbind (if cache then set_labelsCache withTS else cret ()) (\<lambda>_. cret (labels_join ctx withMain withTS))))"
  proof (rule gives_map [OF assms(1)])
    fix q assume "strict f q"
    then have w: "sc_with f (NewWith q ''main'')" by (simp add: sc_simps strict_scoped)
    then have "sc_with f (NewWith (boundTimeSeriesToWindow ctx tsReq (NewWith q ''main'')) ''_time_series'')"
      using ts by (simp add: sc_simps strict_scoped boundTimeSeries_strict)
    with w show "gives_strict f (let withMain = NewWith q ''main'';
          withTS = NewWith (boundTimeSeriesToWindow ctx tsReq withMain) ''_time_series'' in
      cbind (if cache then set_labelsCache withTS else cret ()) (\<lambda>_. cret (labels_join ctx withMain withTS)))"
      by (auto simp: Let_def intro!: gives_True_cbind gives_intros labels_join_strict)
  qed
qed


text \<open>The filters and parsers change conditions or columns of their input.\<close>

lemma sc_map_cond: "makeSqlCond E map_label seen expr = Inr c \<Longrightarrow> sc_obj f c"
  by (rule sc_makeSqlCond(1)) (auto simp: sc_simps)

lemma sc_json_cond: "makeSqlCond E json_label seen expr = Inr c \<Longrightarrow> sc_obj f c"
  by (rule sc_makeSqlCond(1)) (auto simp: sc_simps)

lemma LabelFilter_gives: "gives_strict f main \<Longrightarrow> gives_strict f (ChLabelFilter_Process E expr seen main)"
  unfolding ChLabelFilter_Process_def
  by (erule gives_map) (auto intro!: gives_intros strict_AndWhere intro: sc_map_cond)

lemma LineFilter_gives: "gives_strict f main \<Longrightarrow> gives_strict f (ChLineFilter_Process E lf main)"
  unfolding ChLineFilter_Process_def
  by (rule gives_map) (auto intro!: gives_intros strict_AndWhere intro: sc_buildExpCondition(1))

lemma Drop_gives: "gives_strict f main \<Longrightarrow> gives_strict f (PlannerDrop_Process ls vs main)"
  unfolding PlannerDrop_Process_def by (erule gives_map) (auto simp: sc_simps intro!: gives_patch)

lemma Keep_gives: "gives_strict f main \<Longrightarrow> gives_strict f (PlannerKeep_Process ls vs main)"
  unfolding PlannerKeep_Process_def by (erule gives_map) (auto simp: sc_simps intro!: gives_patch)

lemma json_strict: "ch_json E ls vs q = Inr q' \<Longrightarrow> strict f q \<Longrightarrow> strict f q'"
  by (auto simp: ch_json_def rbind_Inr_iff sc_simps intro!: strict_keep strict_columns elim!: sc_patchCol)

lemma regexp_strict: "ch_regexp E vs q = Inr q' \<Longrightarrow> strict f q \<Longrightarrow> strict f q'"
  by (auto simp: ch_regexp_def rbind_Inr_iff sc_simps intro!: strict_keep strict_columns elim!: sc_patchCol)

lemma Parser_gives: "gives_strict f main \<Longrightarrow> gives_strict f (ChParser_Process E op ls vs main)"
proof -
  assume main: "gives_strict f main"
  have "gives_strict f (cbind (clift (if op = ''regexp'' then ch_regexp E vs q else ch_json E ls vs q)) (\<lambda>req.
      cbind (clift (patchCol (s_columns req) ''fingerprint'' (\<lambda>_. Inr (NewRawObject t))))
        (\<lambda>sel'. cret (sel_Select sel' req))))" if "strict f q" for q t
    by (rule gives_clift_bind, rule gives_patch)
       (use that in \<open>auto simp: sc_simps split: if_splits intro: json_strict regexp_strict\<close>)
  then show ?thesis
    unfolding ChParser_Process_def
    by (auto simp del: cbind_simps intro!: gives_clift gives_map [OF main])
qed

lemma sc_visitNodes:
  "list_all (sc_obj f) (snd l) \<Longrightarrow> list_all (sc_obj f) (snd (visitNodes n l))"
proof (induction n l rule: visitNodes.induct)
  case (3 cmds l)
  have "list_all (sc_obj f) (snd (actionNode cmds l))"
    using 3(2) by (auto simp: actionNode_def append_arg_def sc_simps split: list.splits tpl_node.splits)
  moreover have "list_all (sc_obj f) (snd l') \<Longrightarrow> set as \<subseteq> set (concat cmds) \<Longrightarrow>
      list_all (sc_obj f) (snd (fold (\<lambda>arg l'. visitNodes arg l') as l'))" for as l'
    by (induction as arbitrary: l') (use 3(1) in \<open>auto simp: subset_iff\<close>)
  ultimately show ?case by (simp del: set_concat)
next
  case (4 ns l)
  have "list_all (sc_obj f) (snd l') \<Longrightarrow> set as \<subseteq> set ns \<Longrightarrow>
      list_all (sc_obj f) (snd (fold (\<lambda>n l'. visitNodes n l') as l'))" for as l'
    by (induction as arbitrary: l') (use 4(1) in auto)
  with 4(2) show ?case by simp
qed (auto simp: fieldNode_def append_arg_def Let_def sc_simps)

lemma LineFormat_gives: "gives_strict f main \<Longrightarrow> gives_strict f (ChLineFormat_Process E tpl main)"
  unfolding ChLineFormat_Process_def Let_def
  by (erule gives_map, rule gives_True_cbind [OF gives_state(1)], rule gives_clift_bind, rule gives_patch)
     (auto simp: sc_simps intro!: sc_visitNodes)

lemma Unwrap_gives: "gives_strict f main \<Longrightarrow> gives_strict f (ChUnwrap_Process label main)"
  unfolding ChUnwrap_Process_def
proof (erule gives_map)
  fix q assume q: "strict f q"
  note cols = strict_columns [OF q]
  show "gives_strict f (case getCol q ''labels'' of
      None \<Rightarrow> clift (Inl (ErrMsg ''labels col not inited''))
    | Some labels \<Rightarrow>
        cbind (clift (patchCol (s_columns q) ''value'' (\<lambda>_. Inr (unwrap_value label labels (getCol q ''string'')))))
          (\<lambda>sel'. cret (sel_AndWhere [sql_NotNull (NewRawObject ''value'')] (sel_Select sel' q))))"
  proof (cases "getCol q ''labels''")
    case (Some labels)
    have "sc_obj f (unwrap_value label labels (getCol q ''string''))"
      using sc_getCol [OF cols] Some by (intro sc_values) (auto simp: option.pred_set)
    then show ?thesis
      using q cols Some by (auto simp: sc_simps intro!: gives_intros strict_AndWhere strict_keep elim!: sc_patchCol)
  qed (auto intro!: gives_intros)
qed

text \<open>The planners that put their input into a \<open>WITH\<close> query.\<close>

lemma Renew_gives: "gives_strict f main \<Longrightarrow> gives_strict f (MainRenew_Process use main)"
  unfolding MainRenew_Process_def Let_def
  by (erule gives_map)
     (auto simp: sc_simps strict_scoped intro!: gives_True_cbind [OF gives_state(1)] gives_cret wrap_strict)

lemma OrderBy_gives: "gives_strict f main \<Longrightarrow> gives_strict f (MainOrderBy_Process ctx cols main)"
  unfolding MainOrderBy_Process_def
  by (erule gives_map) (auto simp: sc_simps list_all_iff intro!: gives_intros strict_keep)

lemma Limit_gives: "gives_strict f main \<Longrightarrow> gives_strict f (MainLimit_Process ctx main)"
  unfolding MainLimit_Process_def by (erule gives_map) (auto intro!: gives_intros strict_keep)

lemma Finalizer_gives: "gives_strict f main \<Longrightarrow> gives_strict f (MainFinalizer_Process ctx m fin main)"
  unfolding MainFinalizer_Process_def Let_def
  by (erule gives_map)
     (auto simp: sc_simps strict_scoped final_cols_def intro!: gives_intros wrap_strict)

lemma StepFix_gives: "gives_strict f main \<Longrightarrow> gives_strict f (StepFix_Process ctx d main)"
  unfolding StepFix_Process_def Let_def
  by (erule gives_map) (auto simp: sc_simps strict_scoped intro!: gives_intros wrap_strict)

lemma sc_rename_string: "sc_obj f c \<Longrightarrow> sc_obj f (rename_string c)"
  by (auto simp: rename_string_def sc_simps split: sqlobj.splits)

lemma LRA_gives: "gives_strict f main \<Longrightarrow> gives_strict f (ChLRA_Process E ctx d fn wl off main)"
  unfolding ChLRA_Process_def lra_query_def Let_def
proof (erule gives_map, rule gives_cret, rule wrap_strict(3))
  fix q assume q: "strict f q"
  have "strict f (sel_Select (map rename_string (s_columns q)) q)"
    using q strict_columns [OF q] by (auto simp: list_all_iff intro!: strict_keep sc_rename_string)
  then show "list_all (sc_with f) [NewWith (sel_Select (map rename_string (s_columns q)) q) ''agg_a'']"
    and "sc_obj f (NewCol (NewWithRef (NewWith (sel_Select (map rename_string (s_columns q)) q) ''agg_a'')) ''time_series'')"
    by (simp_all add: sc_simps strict_scoped)
qed (auto simp: sc_simps)

lemma Agg_gives: "gives_strict f main \<Longrightarrow> gives_strict f (ChAggOp_Process fn wl main)"
  unfolding ChAggOp_Process_def Let_def
  by (erule gives_map) (auto simp: sc_simps strict_scoped intro!: gives_intros wrap_strict)

lemma UnwrapFunction_gives: "gives_strict f main \<Longrightarrow> gives_strict f (UnwrapFunction_Process E ctx fn d off main)"
  unfolding UnwrapFunction_Process_def Let_def
  by (erule gives_map) (auto simp: sc_simps strict_scoped intro!: gives_intros wrap_strict)

lemma Quantile_gives: "gives_strict f main \<Longrightarrow> gives_strict f (Quantile_Process E p d main)"
  unfolding Quantile_Process_def Let_def
  by (erule gives_map) (auto simp: sc_simps strict_scoped intro!: gives_intros wrap_strict)

lemma topk_slices_scoped: "sc_with f w \<Longrightarrow> scoped f (topk_slices n isTop hl w)"
  unfolding topk_slices_def Let_def by (intro strict_scoped wrap_strict) (auto simp: sc_simps)

lemma TopK_gives: "gives_strict f main \<Longrightarrow> gives_strict f (TopK_Process n isTop main)"
proof -
  have arr: "to_lower ''array'' = ''array''" by code_simp
  show "gives_strict f main \<Longrightarrow> ?thesis"
    unfolding TopK_Process_def Let_def
    by (erule gives_map, rule gives_cret, rule wrap_strict(7))
       (auto simp: sc_simps arr strict_scoped intro!: topk_slices_scoped)
qed

lemma Comparison_gives: "gives_strict f main \<Longrightarrow> gives_strict f (ChComparison_Process fn p main)"
  unfolding ChComparison_Process_def
proof (erule gives_map)
  fix q assume "strict f q"
  then show "gives_strict f (case cmp_op fn of None \<Rightarrow> clift nil_deref
      | Some g \<Rightarrow> cret (sel_AndHaving [g (NewRawObject ''value'') (FloatVal p)] q))"
    using sc_cmp_op [of fn _ f "NewRawObject ''value''" "FloatVal p"]
    by (cases "cmp_op fn") (auto simp: sc_new intro!: gives_clift gives_cret strict_keep)
qed


subsection \<open>Grouping by labels and binary expressions\<close>

lemma by_simple_gives: "strict f q \<Longrightarrow> gives_strict f (by_simple ls by' q)"
  unfolding by_simple_def Let_def
  by (rule gives_True_cbind [OF gives_state(1)], rule gives_cret, rule wrap_strict)
     (auto simp: sc_simps strict_scoped)

lemma by_labels_scoped:
  assumes "by_labels ctx noSel ls by' lc fc w = Inr q" "pc_Federated ctx" "sc_with (pc_OidFilter ctx) w"
    "pred_option (sc_with (pc_OidFilter ctx)) lc" "pred_option (sc_with (pc_OidFilter ctx)) fc"
  shows "strict (pc_OidFilter ctx) q"
proof (cases lc)
  case (Some c)
  with assms have q: "q = sel_From (NewCol (NewWithRef c) ''a'') (sel_Select
      [NewRawObject ''fingerprint'', NewCol (canonicalFPCol (byWithoutFilterCol (NewRawObject ''a.labels'') ls by')) ''new_fingerprint'',
       NewCol (byWithoutFilterCol (NewRawObject ''a.labels'') ls by') ''labels''] NewSelect)"
    by (simp add: by_labels_def Let_def)
  show ?thesis
    unfolding q strict_iff using Some assms(4) by (auto simp: sc_simps intro!: sc_intros)
next
  case None
  with assms(1) obtain src cols where
    src: "labelsFromScratch ctx (if noSel then None else fc) (Some w) = Inr src" and
    cols: "patchCol (s_columns src) ''labels'' (\<lambda>object. Inr (byWithoutFilterCol object ls by')) = Inr cols" and
    q: "q = sel_Select (cols @ [NewCol (canonicalFPCol
          (case getCol src ''labels'' of None \<Rightarrow> nil_obj | Some object \<Rightarrow> byWithoutFilterCol object ls by')) ''new_fingerprint'']) src"
    by (auto simp: by_labels_def rbind_Inr_iff)
  have st: "strict (pc_OidFilter ctx) src"
    using assms by (intro labelsFromScratch_strict [OF src]) auto
  have "list_all (sc_obj (pc_OidFilter ctx)) cols"
    by (rule sc_patchCol [OF cols strict_columns [OF st]]) (auto simp: sc_simps)
  then show ?thesis
    unfolding q using st sc_getCol [OF strict_columns [OF st]]
    by (auto simp: sc_simps intro!: strict_keep split: option.splits)
qed

lemma relabel_join_strict: "sc_with f m \<Longrightarrow> sc_with f l \<Longrightarrow> strict f (relabel_join ctx m l)"
  unfolding relabel_join_def Let_def by (rule wrap_strict) (auto simp: sc_simps)

lemma by_ts_table_gives:
  assumes "pc_Federated ctx" "strict (pc_OidFilter ctx) q"
  shows "gives_strict (pc_OidFilter ctx) (by_ts_table ctx noSel ls by' q)"
  unfolding by_ts_table_def
proof (rule gives_True_cbind [OF gives_state(1)], rule gives_cbind [OF gives_state(3)], rule gives_cbind [OF gives_state(2)])
  fix i :: int and lc fc
  let ?m = "NewWith q (''pre_without_'' @ show_int i)"
  assume "pred_option (sc_with (pc_OidFilter ctx)) lc" "pred_option (sc_with (pc_OidFilter ctx)) fc"
  then have "by_labels ctx noSel ls by' lc fc ?m = Inr lb \<Longrightarrow> sc_with (pc_OidFilter ctx) (NewWith lb al)" for lb al
    using assms by (simp add: sc_new strict_scoped by_labels_scoped [of ctx noSel ls by' lc fc ?m])
  then show "gives_strict (pc_OidFilter ctx) (let withMain = ?m in
       cbind (clift (by_labels ctx noSel ls by' lc fc withMain)) (\<lambda>lbls. cbind pc_Id (\<lambda>j.
         let withLabels = NewWith lbls (''labels_'' @ show_int j) in
         cbind (set_labelsCache withLabels) (\<lambda>_. cret (relabel_join ctx withMain withLabels)))))"
    using assms(2)
    by (auto simp: Let_def sc_simps strict_scoped
        intro!: gives_clift_bind gives_True_cbind gives_intros relabel_join_strict)
qed

lemma ByWithout_gives:
  assumes "pc_Federated ctx" "gives_strict (pc_OidFilter ctx) main"
  shows "gives_strict (pc_OidFilter ctx) (ChByWithout_Process ctx noSel ls by' useTS main)"
  unfolding ChByWithout_Process_def
  by (rule gives_map [OF assms(2)]) (auto intro: by_simple_gives by_ts_table_gives assms(1))

lemma SimpleLabelFilter_gives:
  assumes "gives_scoped f fps"
  shows "gives_scoped f (SimpleLabelFilter_Process E ctx False expr fps)"
proof -
  let ?q = "\<lambda>w. sel_AndWhere [NewIn (NewRawObject ''fingerprint'') [NewWithRef w]]
    (sel_With [w] (sel_From (NewRawObject (pc_TimeSeriesTableName ctx))
      (sel_Select [NewRawObject ''fingerprint''] NewSelect)))"
  have parts: "parts_scoped f (?q w)" if "sc_with f w" for w
    using that by (auto simp: sc_simps intro!: sc_intros)
  have fp: "only_fingerprints (?q w)" for w
    by (simp add: only_fingerprints_def NewRawObject_def NewIn_def NewWithRef_def
        sel_With_def sel_From_def sel_Select_def)
  have cond: "scoped f (sel_AndWhere [c] q)"
    if "parts_scoped f q \<and> only_fingerprints q" "sc_obj f c" for q c
    using that by (auto simp: scoped_iff only_fingerprints_def intro!: sc_intros)
  show ?thesis
    unfolding SimpleLabelFilter_Process_def Let_def if_False
  proof (rule gives_cbind [where Q = "\<lambda>q. parts_scoped f q \<and> only_fingerprints q"])
    show "gives (caches_scoped f) (\<lambda>q. parts_scoped f q \<and> only_fingerprints q)
      (cbind fps (\<lambda>main. cbind pc_Id (\<lambda>i. cret (?q (NewWith main (''subsel_'' @ show_int i))))))"
      using fp parts by (intro gives_cbind [OF assms] gives_True_cbind [OF gives_state(1)] gives_cret) (auto simp: sc_simps)
  qed (auto intro!: gives_intros cond intro: sc_json_cond)
qed

lemma own_caches_gives:
  assumes "gives_strict f m"
  shows "gives_strict f (with_own_caches m)"
proof -
  have start: "caches_scoped f (st\<lparr>st_fpCache := None, st_labelsCache := None\<rparr>)" for st
    by (simp add: caches_scoped_def)
  have keep: "caches_scoped f (st\<lparr>st_id := i\<rparr>) = caches_scoped f st" for st i
    by (simp add: caches_scoped_def)
  show ?thesis
    unfolding gives_def
  proof (intro allI impI)
    fix st v st' assume st: "caches_scoped f st" and run: "with_own_caches m st = Inr (v, st')"
    from run obtain st1 where
      m: "m (st\<lparr>st_fpCache := None, st_labelsCache := None\<rparr>) = Inr (v, st1)" and st': "st' = st\<lparr>st_id := st_id st1\<rparr>"
      by (auto simp: with_own_caches_def rbind_Inr_iff)
    from assms m start [of st] have "strict f v" unfolding gives_def by blast
    with st st' keep show "strict f v \<and> caches_scoped f st'" by simp
  qed
qed

lemma BinaryScalar_gives: "gives_strict f l \<Longrightarrow> gives_strict f (BinaryScalarSQL_Process E op sc l)"
  unfolding BinaryScalarSQL_Process_def
  by (erule gives_map [OF own_caches_gives])
     (auto simp: processScalar_def rbind_Inr_iff sc_simps intro!: gives_clift strict_keep strict_columns elim!: sc_patchCol)

lemma addSide_strict: "strict f q \<Longrightarrow> strict f (addSide q n)"
  by (auto simp: addSide_def sc_simps intro!: strict_keep strict_columns)

lemma UnionAll_scoped:
  assumes "strict f q" "list_all (scoped f) qs"
  shows "scoped f (UnionAll q qs)"
proof -
  have "own_tenant f (UnionAll q qs) = own_tenant f q"
    by (simp add: UnionAll_def set_anothers_def own_tenant_def split: option.splits)
  moreover have "parts_scoped f (UnionAll q qs)"
    using assms by (simp add: strict_iff UnionAll_def set_anothers_def parts_scoped_def)
  ultimately show ?thesis
    using assms by (simp add: strict_iff scoped_iff)
qed

lemma processBinary_strict:
  assumes "processBinary op l r = Inr q" "strict f l" "strict f r"
  shows "strict f q"
proof -
  have "scoped f (UnionAll (addSide l 1) [addSide r 2])"
    using assms by (intro UnionAll_scoped) (auto simp: addSide_strict strict_scoped)
  with assms(1) show ?thesis
    by (auto simp: processBinary_def Let_def rbind_Inr_iff strict_iff sc_simps intro!: sc_intros)
qed

lemma BinaryExpr_gives:
  assumes "gives_strict f l" "gives_strict f r"
  shows "gives_strict f (BinaryExprSQL_Process op l r)"
  unfolding BinaryExprSQL_Process_def
  by (rule gives_map [OF own_caches_gives [OF assms(1)]], rule gives_map [OF own_caches_gives [OF assms(2)]])
     (auto intro!: gives_clift intro: processBinary_strict)


subsection \<open>The planner tree\<close>

text \<open>
  The trees of \<open>ch_Plan\<close> have two kinds of node: those that select fingerprints, and those that
  give rows. The first kind may be left without tenant condition of its own.
\<close>

fun fp_planner :: "sql_planner \<Rightarrow> bool" where
  "fp_planner (StreamSelectPlanner noSel ms off) = True"
| "fp_planner (SimpleLabelFilterPlanner noSel e fps) = (\<not> noSel \<and> fp_planner fps)"
| "fp_planner _ = False"

fun main_planner :: "sql_planner \<Rightarrow> bool" where
  "main_planner NilPlanner = True"
| "main_planner (StreamSelectPlanner noSel ms off) = False"
| "main_planner (SqlMainInitPlanner off) = True"
| "main_planner (TimeSeriesInitPlanner off) = True"
| "main_planner (Metrics15ShortcutPlanner fn d off) = True"
| "main_planner (SimpleLabelFilterPlanner noSel e fps) = False"
| "main_planner (FingerprintFilterPlanner noSel fps m) = ((noSel \<or> fp_planner fps) \<and> main_planner m)"
| "main_planner (LabelsJoinPlanner noSel m fps ts c) =
     ((noSel \<or> fp_planner fps) \<and> main_planner m \<and> main_planner ts)"
| "main_planner (ChLineFormatPlanner m tpl) = main_planner m"
| "main_planner (ChLabelFilterPlanner m e seen) = main_planner m"
| "main_planner (ChLineFilterPlanner m e) = main_planner m"
| "main_planner (ChParserPlanner m op ls vs) = main_planner m"
| "main_planner (ChUnwrapPlanner m lb) = main_planner m"
| "main_planner (PlannerDrop m ls vs) = main_planner m"
| "main_planner (PlannerKeep m ls vs) = main_planner m"
| "main_planner (MainRenewPlanner m use) = main_planner m"
| "main_planner (ChLRAPlanner m d fn wl off) = main_planner m"
| "main_planner (UnwrapFunctionPlanner m fn d off) = main_planner m"
| "main_planner (ChByWithoutPlanner m noSel ls by' useTS) = main_planner m"
| "main_planner (ChAggOpPlanner m fn wl) = main_planner m"
| "main_planner (TopKPlanner m n isTop) = main_planner m"
| "main_planner (QuantilePlanner m p d) = main_planner m"
| "main_planner (ChComparisonPlanner m fn p) = main_planner m"
| "main_planner (MainOrderByPlanner m cols) = main_planner m"
| "main_planner (MainLimitPlanner m) = main_planner m"
| "main_planner (StepFixPlanner m d) = main_planner m"
| "main_planner (MainFinalizerPlanner m isM fin) = main_planner m"
| "main_planner (BinaryScalarSQLPlanner l op sc) = main_planner l"
| "main_planner (BinaryExprSQLPlanner l op r) = (main_planner l \<and> main_planner r)"

lemmas planner_gives =
  FingerprintFilter_gives LabelsJoin_gives LineFormat_gives LabelFilter_gives LineFilter_gives Parser_gives
  Unwrap_gives Drop_gives Keep_gives Renew_gives LRA_gives UnwrapFunction_gives ByWithout_gives Agg_gives
  TopK_gives Quantile_gives Comparison_gives OrderBy_gives Limit_gives StepFix_gives Finalizer_gives
  BinaryScalar_gives BinaryExpr_gives

lemma the_query_Inr: "the_query r = Inr q \<longleftrightarrow> r = Inr (Some q)"
  by (cases r) (auto simp: the_query_def split: option.splits)

lemma fp_planner_scoped:
  "pc_Federated ctx \<Longrightarrow> fp_planner p \<Longrightarrow> gives_scoped (pc_OidFilter ctx) (Process E ctx p)"
  by (induction p)
     (auto simp: the_query_Inr intro!: gives_clift SimpleLabelFilter_gives StreamSelect_strict [THEN strict_scoped])

lemma main_planner_scoped:
  assumes "pc_Federated ctx" "main_planner p"
  shows "gives_strict (pc_OidFilter ctx) (Process E ctx p)"
  using assms(2)
proof (induction p)
  case (FingerprintFilterPlanner noSel fps m)
  then show ?case
    using fp_planner_scoped [OF assms(1), of fps E] by (auto intro!: FingerprintFilter_gives)
next
  case (LabelsJoinPlanner noSel m fps ts c)
  then show ?case
    using fp_planner_scoped [OF assms(1), of fps E] by (auto intro!: LabelsJoin_gives)
qed (auto intro!: gives_clift gives_cret planner_gives Metrics15_strict assms(1)
    intro: SqlMainInit_strict [OF assms(1)] TimeSeriesInit_strict [OF assms(1)])

lemma run_planner_scoped:
  assumes "pc_Federated ctx" "main_planner p" "run_planner E ctx p = Inr q"
  shows "strict (pc_OidFilter ctx) q"
proof -
  obtain st where "Process E ctx p init_state = Inr (q, st)"
    using assms(3) by (auto simp: run_planner_def rbind_Inr_iff)
  moreover have "caches_scoped (pc_OidFilter ctx) init_state"
    by (simp add: caches_scoped_def init_state_def)
  ultimately show ?thesis
    using main_planner_scoped [OF assms(1,2), of E] unfolding gives_def by blast
qed

subsection \<open>The plans of a script\<close>

text \<open>\<open>planTS\<close> gives a planner of the first kind, whenever its result is used.\<close>

lemma planTS_kind: "planTS E an script = Inr p \<Longrightarrow> an_noStreamSelect an \<or> fp_planner p"
proof -
  have step: "fp_planner (fold (\<lambda>(simple, ppl) fp. case ppl_LabelFilter ppl of
          Some f \<Rightarrow> if simple then SimpleLabelFilterPlanner (an_noStreamSelect an) f fp else fp
        | None \<Rightarrow> fp) ps p)" if "\<not> an_noStreamSelect an" "fp_planner p" for ps p
    using that(2)
  proof (induction ps arbitrary: p)
    case (Cons x ps)
    then show ?case using that(1) by (cases x) (simp split: option.splits)
  qed simp
  show "planTS E an script = Inr p \<Longrightarrow> ?thesis"
    by (cases "an_noStreamSelect an") (auto simp: planTS_def rbind_Inr_iff intro!: step simp del: fold.simps)
qed

lemma planStage_kind: "planStage E an i ppl s = Inr s' \<Longrightarrow> main_planner (fst s) \<Longrightarrow> main_planner (fst s')"
  by (auto simp: planStage_def Let_def rbind_Inr_iff split: option.splits if_splits prod.splits)

lemma planPipelines_kind:
  assumes "an_noStreamSelect an \<or> fp_planner fps"
  shows "planPipelines E an fps i ppls s = Inr s' \<Longrightarrow> main_planner (fst s) \<Longrightarrow> main_planner (fst s')"
proof (induction ppls arbitrary: i s)
  case (Cons p ps)
  from Cons.prems(1) obtain t where
    t: "planStage E an i p (joined_labels an fps i s) = Inr t" "planPipelines E an fps (i + 1) ps (renewed an i t) = Inr s'"
    by (auto simp: rbind_Inr_iff)
  have "main_planner (fst (joined_labels an fps i s))"
    using assms Cons.prems(2) by (simp add: joined_labels_def)
  with t(1) have "main_planner (fst t)" by (rule planStage_kind)
  then have "main_planner (fst (renewed an i t))" by (simp add: renewed_def)
  with t(2) show ?case by (rule Cons.IH)
qed simp

lemma planSpl_kind:
  "planSpl E an fps script = Inr p \<Longrightarrow> an_noStreamSelect an \<or> fp_planner fps \<Longrightarrow> main_planner p"
  by (auto simp: planSpl_def rbind_Inr_iff dest!: planPipelines_kind [rotated 1])

lemma planByWithout_kind: "main_planner (ch_planByWithout an bs m) = main_planner m"
  by (auto simp: ch_planByWithout_def split: list.splits option.splits)

lemma planComparison_kind: "planComparison E c m = Inr p \<Longrightarrow> main_planner p = main_planner m"
  by (auto simp: planComparison_def rbind_Inr_iff split: option.splits)

lemma planMatrixFn_kind: "planMatrixFn E an fn m = Inr p \<Longrightarrow> main_planner m \<Longrightarrow> main_planner p"
  by (auto simp: planMatrixFn_def planUnwrapFn_def planLRA_def planAgg_def planTopK_def planQuantileOverTime_def
      Let_def rbind_Inr_iff planByWithout_kind dest: planComparison_kind split: matrix_fn.splits)

lemma planMatrixFns_kind: "planMatrixFns E an fns m = Inr p \<Longrightarrow> main_planner m \<Longrightarrow> main_planner p"
  by (induction fns arbitrary: m) (auto simp: rbind_Inr_iff dest: planMatrixFn_kind)

lemma shortcut_lra_kind:
  "shortcut_lra E an fps l = Inr (p, idx) \<Longrightarrow> an_noStreamSelect an \<or> fp_planner fps \<Longrightarrow> main_planner p"
  by (auto simp: shortcut_lra_def rbind_Inr_iff dest: planComparison_kind)

lemma shortcut_agg_kind:
  "shortcut_agg E an fps a = Inr (p, idx) \<Longrightarrow> an_noStreamSelect an \<or> fp_planner fps \<Longrightarrow> main_planner p"
  by (auto simp: shortcut_agg_def rbind_Inr_iff Let_def planAgg_def planByWithout_kind
      dest!: planComparison_kind shortcut_lra_kind split: prod.splits)

lemma shortcut_topk_kind:
  "shortcut_topk E an fps t = Inr (p, idx) \<Longrightarrow> an_noStreamSelect an \<or> fp_planner fps \<Longrightarrow> main_planner p"
  by (auto simp: shortcut_topk_def rbind_Inr_iff planTopK_def
      dest!: planComparison_kind dest: shortcut_lra_kind shortcut_agg_kind split: option.splits prod.splits)

lemma planMetrics15Shortcut_kind:
  "planMetrics15Shortcut E an fps script = Inr (p, idx) \<Longrightarrow> an_noStreamSelect an \<or> fp_planner fps \<Longrightarrow> main_planner p"
  by (auto simp: planMetrics15Shortcut_def Let_def split: option.splits
      dest: shortcut_lra_kind shortcut_agg_kind shortcut_topk_kind)

lemma finish_plan_kind:
  "finish_plan E an fin script fps idx m = Inr p \<Longrightarrow> an_noStreamSelect an \<or> fp_planner fps \<Longrightarrow>
   main_planner m \<Longrightarrow> main_planner p"
  by (auto simp: finish_plan_def Let_def rbind_Inr_iff split: if_splits)

lemma ch_Plan_kind:
  assumes "ch_Plan E script fin = Inr p"
  shows "main_planner p"
proof -
  from assms obtain an fps where an: "analyzeScript E script = Inr an" "planTS E an script = Inr fps" and
    rest: "(if an_metrics15Shortcut an
        then rbind (planMetrics15Shortcut E an fps script) (\<lambda>(p, idx). finish_plan E an fin script fps idx p)
        else rbind (planSpl E an fps script) (\<lambda>p. rbind (planMatrixFns E an (an_matrixFunctionsOrder an) p)
            (finish_plan E an fin script fps (an_matrixFunctionsLabelsIDX an)))) = Inr p"
    by (auto simp: ch_Plan_def rbind_Inr_iff split: if_splits)
  note fps = planTS_kind [OF an(2)]
  show ?thesis
  proof (cases "an_metrics15Shortcut an")
    case True
    with rest fps show ?thesis
      by (auto simp: rbind_Inr_iff intro: finish_plan_kind planMetrics15Shortcut_kind)
  next
    case False
    with rest fps show ?thesis
      by (auto simp: rbind_Inr_iff dest!: planSpl_kind planMatrixFns_kind dest: finish_plan_kind)
  qed
qed


lemma planScriptToSQL_kind:
  "planScriptToSQL E s = Inr p \<Longrightarrow> main_planner p"
  "planAtomToSQL E a = Inr p \<Longrightarrow> main_planner p"
proof (induction E s and E a arbitrary: p and p rule: planScriptToSQL_planAtomToSQL.induct)
  case (1 E s)
  let ?s = "unwrapParens s"
  let ?step = "\<lambda>(b, right) current. if at_Scalar (bin_Right b) \<noteq> ''''
                 then BinaryScalarSQLPlanner current (bin_Op b) (at_Scalar (bin_Right b))
                 else BinaryExprSQLPlanner current (bin_Op b) right"
  show ?case
  proof (cases "IsBinary ?s")
    case True
    with 1(3) obtain l rs where
      l: "planAtomToSQL E (ql_Head ?s) = Inr l" and
      rs: "mapM_res (\<lambda>b. if at_Scalar (bin_Right b) \<noteq> '''' then Inr NilPlanner else planAtomToSQL E (bin_Right b)) (ql_BinOps ?s) = Inr rs" and
      p: "p = fold ?step (zip (ql_BinOps ?s) rs) l"
      by (auto simp: planScriptToSQL.simps [of E s] Let_def rbind_Inr_iff)
    have right: "main_planner r" if "b \<in> set (ql_BinOps ?s)" "at_Scalar (bin_Right b) = ''''" "planAtomToSQL E (bin_Right b) = Inr r" for b r
      using 1(2) [OF refl, of l b r] True that l by simp
    have "list_all main_planner rs" if "set bs \<subseteq> set (ql_BinOps ?s)"
      "mapM_res (\<lambda>b. if at_Scalar (bin_Right b) \<noteq> '''' then Inr NilPlanner else planAtomToSQL E (bin_Right b)) bs = Inr rs" for bs rs
      using that by (induction bs arbitrary: rs) (auto simp: rbind_Inr_iff split: if_splits intro: right)
    then have rs': "list_all main_planner rs" using rs by blast
    have "main_planner l" using 1(1) [OF refl _ l] True by blast
    moreover have "main_planner l \<Longrightarrow> list_all main_planner rs \<Longrightarrow> main_planner (fold ?step (zip bs rs) l)" for bs rs l
      by (induction bs rs arbitrary: l rule: list_induct2') auto
    ultimately show ?thesis unfolding p using rs' by blast
  qed (use 1(3) in \<open>auto simp: planScriptToSQL.simps [of E s] Let_def intro: ch_Plan_kind\<close>)
next
  case (2 E a)
  then show ?case by (auto simp: planAtomToSQL.simps [of E a] split: option.splits intro: ch_Plan_kind)
qed

text \<open>
  C2: tenant isolation of planned queries. Whatever the script, a query that the SQL planners
  make for a federated request reads tables only under the tenant condition of the request, at
  every nesting depth, or for fingerprints that are taken from such a read.
\<close>

theorem planned_query_scoped:
  assumes "pc_Federated ctx" "ch_Plan E script fin = Inr p \<or> planScriptToSQL E script = Inr p"
    "run_planner E ctx p = Inr q"
  shows "strict (pc_OidFilter ctx) q"
  using assms run_planner_scoped [OF assms(1)] ch_Plan_kind planScriptToSQL_kind(1) by blast

theorem planned_query_scoped_witness:
  "\<exists>p q. ch_Plan example_env example_log True = Inr p \<and> run_planner example_env fed_ctx p = Inr q \<and>
     strict \<lparr>Tenants = [''7''], Deny = False\<rparr> q"
proof -
  have "isr_res (rbind (ch_Plan example_env example_log True) (run_planner example_env fed_ctx))"
    by code_simp
  then obtain p q where pq: "ch_Plan example_env example_log True = Inr p" "run_planner example_env fed_ctx p = Inr q"
    by (auto simp: isr_res_def rbind_Inr_iff split: sum.splits)
  have ctx: "pc_Federated fed_ctx" "pc_OidFilter fed_ctx = \<lparr>Tenants = [''7''], Deny = False\<rparr>"
    by (simp_all add: fed_ctx_def)
  from planned_query_scoped [OF ctx(1) disjI1 [OF pq(1)] pq(2)] pq ctx(2) show ?thesis by auto
qed

end
