(* ===== verification/Ch_Labels.thy ===== *)
theory Ch_Labels
  imports Ch_Scope_Plan
begin

section \<open>Label names, label values, series, detected labels and patterns\<close>

text \<open>
  The planners behind the label endpoints: planner\_label\_names.go, planner\_values.go,
  planner\_series.go, planner\_labels\_detect.go, planner\_patterns.go, planner\_multi\_stream\_select.go
  and planner\_plan\_fingerprints.go, with the entry points of planner.go, and the planners that
  service/query\_abels.go builds from them. A selector is planned without the analysis of
  \<open>analyzeScript\<close>, so \<open>NoStreamSelect\<close> is false throughout. Proved: label names, values and
  series are scoped to the tenants of the request; detected labels and patterns are not.
\<close>

subsection \<open>Planners\<close>

fun cmapM :: "'a ch list \<Rightarrow> 'a list ch" where
  "cmapM [] = cret []"
| "cmapM (m # ms) = cbind m (\<lambda>x. cbind (cmapM ms) (\<lambda>xs. cret (x # xs)))"

definition planFingerprints :: "ch_env \<Rightarrow> LogQLScript \<Rightarrow> sql_planner res" where
  "planFingerprints E script =
     (case at_StrSelector (ql_Head script) of
        None \<Rightarrow> nil_deref
      | Some x \<Rightarrow> rbind (matchers_of E (sel_StrSelCmds x)) (\<lambda>ms. Inr (StreamSelectPlanner False ms None)))"

definition in_fingerprints :: "string \<Rightarrow> string \<Rightarrow> sel \<Rightarrow> sel \<Rightarrow> sel" where
  "in_fingerprints col al fp q =
     (let withFp = NewWith fp al in
      sel_AndWhere [NewIn (NewRawObject col) [NewWithRef withFp]] (sel_With [withFp] q))"

definition LabelNames_Process :: "ch_env \<Rightarrow> planner_ctx \<Rightarrow> sel ch list \<Rightarrow> sel ch" where
  "LabelNames_Process E ctx fpPlanners =
     cbind (cmapM fpPlanners) (\<lambda>fpSelects.
       let q = oid_AndWhere ctx ''keys''
             (sel_AndWhere
               [NewIn (NewRawObject ''type'') [IntVal (pc_Type ctx), IntVal 0],
                sql_Ge (NewRawObject ''date'') (StringVal (FormatFromDate (pc_From ctx))),
                sql_Le (NewRawObject ''date'') (StringVal (env_local_date E (pc_To ctx)))]
             (sel_From (NewSimpleCol (pc_TimeSeriesGinDistTableName ctx) ''keys'')
             (sel_Select [NewRawObject ''key''] (sel_Distinct True NewSelect)))) in
       cret (case fpSelects of [] \<Rightarrow> q
             | fp # fps \<Rightarrow> in_fingerprints ''fingerprint'' ''fp'' (UnionAll fp fps) q))"

definition MultiStreamSelect_Process :: "sel ch list \<Rightarrow> sel ch" where
  "MultiStreamSelect_Process mains =
     (if length mains = 1 then hd mains
      else cbind (cmapM mains) (\<lambda>selects. case selects of
        [] \<Rightarrow> clift (Inl (Panic ''index out of range''))
      | s # ss \<Rightarrow> cret (UnionAll s ss)))"

definition Values_Process :: "ch_env \<Rightarrow> planner_ctx \<Rightarrow> bool \<Rightarrow> sel ch option \<Rightarrow> string \<Rightarrow> int option \<Rightarrow> sel ch" where
  "Values_Process E ctx noStreamSelect fpPlanner key offset =
     (let off = (case offset of Some x \<Rightarrow> x | None \<Rightarrow> 0);
          res = oid_AndWhere ctx ''''
            (sel_AndWhere
              [sql_Ge (NewRawObject ''date'') (StringVal (FormatFromDate (pc_From ctx + off))),
               sql_Le (NewRawObject ''date'') (StringVal (env_local_date E (pc_To ctx + off))),
               sql_Eq (NewRawObject ''key'') (StringVal key),
               GetTypes ctx]
            (sel_From (NewRawObject (pc_TimeSeriesGinDistTableName ctx))
            (sel_Distinct True (sel_Select [NewRawObject ''val''] NewSelect))));
          limited = (\<lambda>q. if pc_Limit ctx > 0 then sel_Limit [IntVal (pc_Limit ctx)] q else q) in
      case fpPlanner of
        Some m \<Rightarrow> if noStreamSelect then cret (limited res)
                  else cbind m (\<lambda>fp. cret (limited (in_fingerprints ''fingerprint'' ''fp_sel'' fp res)))
      | None \<Rightarrow> cret (limited res))"

definition Series_Process :: "ch_env \<Rightarrow> planner_ctx \<Rightarrow> bool \<Rightarrow> sel ch \<Rightarrow> int option \<Rightarrow> sel ch" where
  "Series_Process E ctx noStreamSelect fpPlanner offset =
     (let off = (case offset of Some x \<Rightarrow> x | None \<Rightarrow> 0);
          req = oid_AndWhere ctx ''time_series''
            (sel_AndWhere
              [sql_Ge (NewRawObject ''date'') (StringVal (FormatFromDate (pc_From ctx + off))),
               sql_Le (NewRawObject ''date'') (StringVal (env_local_date E (pc_To ctx + off))),
               GetTypes ctx]
            (sel_From (NewSimpleCol (pc_TimeSeriesDistTableName ctx) ''time_series'')
            (sel_Select [NewSimpleCol ''labels'' ''labels''] (sel_Distinct True NewSelect))));
          req = (if pc_Limit ctx > 0 then sel_Limit [IntVal (pc_Limit ctx)] req else req) in
      if noStreamSelect then cret req
      else cbind fpPlanner (\<lambda>fp. cret (in_fingerprints ''fingerprint'' ''fp_sel'' fp req)))"

definition DetectLabels_Process :: "ch_env \<Rightarrow> planner_ctx \<Rightarrow> bool \<Rightarrow> sel ch option \<Rightarrow> sel ch" where
  "DetectLabels_Process E ctx noStreamSelect fpPlanner =
     (let from = pc_TimeSeriesGinTableName ctx @ (if pc_IsCluster ctx then env_dist_suffix E else '''');
          req = sel_GroupBy [NewRawObject ''key'']
            (sel_AndWhere
              [sql_Ge (NewRawObject ''date'') (StringVal (env_local_date E (pc_From ctx))),
               sql_Le (NewRawObject ''date'') (StringVal (env_local_date E (pc_To ctx)))]
            (sel_From (NewRawObject from)
            (sel_Select
              [NewSimpleCol ''key'' ''key'', NewSimpleCol ''count(distinct val)'' ''cardinality''] NewSelect))) in
      case fpPlanner of
        Some m \<Rightarrow> if noStreamSelect then cret req
                  else cbind m (\<lambda>fp. cret (in_fingerprints ''fingerprint'' ''fp'' fp req))
      | None \<Rightarrow> cret req)"

text \<open>\<open>int(ctx.Step.Seconds())\<close> and \<open>Unix()\<close> of an instant.\<close>

definition step_seconds :: "int \<Rightarrow> int" where
  "step_seconds ns = go_div ns 1000000000"

definition unix_seconds :: "int \<Rightarrow> int" where
  "unix_seconds ns = ns div 1000000000"

definition pattern_counts :: "planner_ctx \<Rightarrow> sel \<Rightarrow> sel" where
  "pattern_counts ctx fp =
     (let withFp = NewWith fp ''fp''; step = show_int (step_seconds (pc_Step ctx)) in
      sel_GroupBy [NewRawObject ''pattern_id'', NewRawObject ''timestamp_s'']
        (sel_AndWhere
          [sql_Ge (NewRawObject ''p.timestamp_10m'') (IntVal (go_div (unix_seconds (pc_From ctx)) 600)),
           sql_Le (NewRawObject ''p.timestamp_10m'') (IntVal (go_div (unix_seconds (pc_To ctx)) 600)),
           sql_Ge (NewRawObject ''p.timestamp_s'') (IntVal (unix_seconds (pc_From ctx))),
           sql_Le (NewRawObject ''p.timestamp_s'') (IntVal (unix_seconds (pc_To ctx))),
           NewIn (NewRawObject ''p.fingerprint'') [NewWithRef withFp]]
        (sel_From (NewSimpleCol (pc_PatternsDistTable ctx) ''p'')
        (sel_Select
          [NewSimpleCol ''pattern_id'' ''pattern_id'',
           NewSimpleCol ''max(iteration_id)'' ''_iteration_id'',
           NewSimpleCol ''argMax(tokens, iteration_id)'' ''tokens'',
           NewSimpleCol (''intDiv(timestamp_s, '' @ step @ '') * '' @ step) ''timestamp_s'',
           NewSimpleCol ''sum(samples_count)'' ''count'']
          (sel_With [withFp] NewSelect)))))"

definition Patterns_Process :: "planner_ctx \<Rightarrow> sel ch \<Rightarrow> sel ch" where
  "Patterns_Process ctx fpPlanner =
     cbind fpPlanner (\<lambda>fp.
       let withReq = NewWith (pattern_counts ctx fp) ''pregroup'';
           cnt = NewRawObject ''arraySum(arrayMap(x -> x.2, samples))'' in
       cret (sel_Limit [IntVal (pc_Limit ctx)]
         (sel_OrderBy [NewOrderBy cnt ORDER_BY_DIRECTION_DESC]
         (sel_AndHaving [sql_Gt cnt (IntVal 1)]
         (sel_GroupBy [NewRawObject ''pattern_id'']
         (sel_From (NewWithRef withReq)
         (sel_Select
           [NewSimpleCol ''argMax(tokens, _iteration_id)'' ''tokens'',
            NewSimpleCol ''arraySort(groupArray((timestamp_s, count)))'' ''samples'']
           (sel_With [withReq] NewSelect))))))))"

subsection \<open>Entry points\<close>

definition PlanLabels :: "ch_env \<Rightarrow> LogQLScript list \<Rightarrow> sql_planner list res" where
  "PlanLabels E scripts =
     (if list_ex (\<lambda>s. at_StrSelector (ql_Head s) = None) scripts then Inl (ErrMsg ''unsupported query'')
      else mapM_res (planFingerprints E) scripts)"

text \<open>\<open>planTS\<close> on a \<open>planner\<close> that has analysed nothing.\<close>

definition no_analysis :: analysis where
  "no_analysis =
     \<lparr>an_labelsJoinIdx = Some 0, an_simpleLabelOperation = [], an_renewMainAfter = [], an_matrixFunctionsOrder = [],
      an_matrixFunctionsLabelsIDX = Some 0, an_metrics15Shortcut = False, an_offsetModifier = None,
      an_noStreamSelect = False\<rparr>"

definition planDetectLabels :: "ch_env \<Rightarrow> LogQLScript option \<Rightarrow> sql_planner option res" where
  "planDetectLabels E script =
     (case script of
        None \<Rightarrow> Inr None
      | Some s \<Rightarrow> if at_StrSelector (ql_Head s) = None then Inl (ErrMsg ''unsupported query'')
                  else rbind (planTS E no_analysis s) (\<lambda>p. Inr (Some p)))"

definition planPatterns :: "ch_env \<Rightarrow> LogQLScript option \<Rightarrow> sql_planner res" where
  "planPatterns E script =
     (case script of
        None \<Rightarrow> Inl (ErrMsg ''unsupported query'')
      | Some s \<Rightarrow> if at_StrSelector (ql_Head s) = None then Inl (ErrMsg ''unsupported query'')
                  else planTS E no_analysis s)"

text \<open>The queries of the endpoints: \<open>Labels\<close>, \<open>Values\<close>, \<open>Series\<close> and of query\_range.go.\<close>

definition first_of :: "('a \<times> 's) res \<Rightarrow> 'a res" where
  "first_of r = rbind r (\<lambda>(x, _). Inr x)"

definition labels_query :: "ch_env \<Rightarrow> planner_ctx \<Rightarrow> LogQLScript list \<Rightarrow> sel res" where
  "labels_query E ctx scripts =
     rbind (PlanLabels E scripts) (\<lambda>ps. first_of (LabelNames_Process E ctx (map (Process E ctx) ps) init_state))"

definition values_query :: "ch_env \<Rightarrow> planner_ctx \<Rightarrow> LogQLScript list \<Rightarrow> string \<Rightarrow> sel res" where
  "values_query E ctx matches label =
     (if matches \<noteq> [] then
        rbind (mapM_res (planFingerprints E) matches) (\<lambda>ps.
          first_of (Values_Process E ctx False
            (Some (MultiStreamSelect_Process (map (Process E ctx) ps))) label None init_state))
      else first_of (Values_Process E ctx False None label None init_state))"

definition series_query :: "ch_env \<Rightarrow> planner_ctx \<Rightarrow> LogQLScript list \<Rightarrow> sel res" where
  "series_query E ctx requests =
     rbind (mapM_res (planFingerprints E) requests) (\<lambda>ps.
       first_of (Series_Process E ctx False (MultiStreamSelect_Process (map (Process E ctx) ps)) None init_state))"

text \<open>The query of \<open>QueryIndexStats\<close> (query\_range.go).\<close>

definition stats_base :: "planner_ctx \<Rightarrow> int \<Rightarrow> int \<Rightarrow> sel res" where
  "stats_base ctx fromNs toNs =
     rbind (sel_AndPreWhere
         [sql_Ge (NewRawObject ''timestamp_ns'') (IntVal fromNs),
          sql_Lt (NewRawObject ''timestamp_ns'') (IntVal toNs),
          NewIn (NewRawObject ''type_v2'') [IntVal 0, IntVal 1]]
         (sel_From (NewRawObject (pc_SamplesDistTableName ctx))
         (sel_Select
           [NewRawObject ''toInt64(uniqExact(fingerprint))'',
            NewRawObject ''toInt64(COUNT(*))'',
            NewRawObject ''toInt64(SUM(length(string)))'',
            NewRawObject ''toInt64(uniqExact(fingerprint, toDate(toDateTime(intDiv(timestamp_ns, 1000000000)))))'']
           NewSelect)))
       (oid_AndPreWhere ctx '''')"

definition stats_query :: "ch_env \<Rightarrow> planner_ctx \<Rightarrow> LogQLScript option \<Rightarrow> int \<Rightarrow> int \<Rightarrow> sel res" where
  "stats_query E ctx script fromNs toNs =
     (let ctx = ctx\<lparr>pc_From := fromNs, pc_To := toNs\<rparr> in
      rbind (stats_base ctx fromNs toNs) (\<lambda>q.
        case Option.bind script (\<lambda>s. at_StrSelector (ql_Head s)) of
          None \<Rightarrow> Inr q
        | Some x \<Rightarrow>
            if sel_StrSelCmds x = [] then Inr q
            else rbind (planFingerprints E (the script)) (\<lambda>p.
              rbind (first_of (Process E ctx p init_state)) (\<lambda>fp.
                Inr (in_fingerprints ''fingerprint'' ''fp_sel'' fp q)))))"

definition detect_query :: "ch_env \<Rightarrow> planner_ctx \<Rightarrow> LogQLScript option \<Rightarrow> sel res" where
  "detect_query E ctx script =
     rbind (planDetectLabels E script) (\<lambda>p.
       first_of (DetectLabels_Process E ctx False (map_option (Process E ctx) p) init_state))"

definition patterns_query :: "ch_env \<Rightarrow> planner_ctx \<Rightarrow> LogQLScript option \<Rightarrow> sel res" where
  "patterns_query E ctx script =
     rbind (planPatterns E script) (\<lambda>p. first_of (Patterns_Process ctx (Process E ctx p) init_state))"


subsection \<open>Scoping\<close>

lemma distinct_build [simp]:
  "s_from (sel_Distinct b q) = s_from q" "own_tenant f (sel_Distinct b q) = own_tenant f q"
  by (simp_all add: sel_Distinct_def own_tenant_def split: option.splits)

lemma parts_Distinct [sc_intros]: "parts_scoped f q \<Longrightarrow> parts_scoped f (sel_Distinct b q)"
  by (simp add: parts_scoped_def sel_Distinct_def)

lemma in_fingerprints_strict: "strict f q \<Longrightarrow> scoped f fp \<Longrightarrow> strict f (in_fingerprints col al fp q)"
  by (auto simp: in_fingerprints_def Let_def sc_simps intro!: strict_AndWhere strict_keep)

lemma gives_cmapM: "list_all (gives I P) ms \<Longrightarrow> gives I (list_all P) (cmapM ms)"
proof (induction ms)
  case (Cons m ms)
  then have "gives I P m" "gives I (list_all P) (cmapM ms)" by simp_all
  then show ?case by (auto intro!: gives_cbind gives_cret)
qed (auto intro!: gives_cret)

lemma planFingerprints_kind: "planFingerprints E s = Inr p \<Longrightarrow> \<exists>ms off. p = StreamSelectPlanner False ms off"
  by (auto simp: planFingerprints_def rbind_Inr_iff split: option.splits)

lemma fingerprints_strict:
  assumes "pc_Federated ctx" "mapM_res (planFingerprints E) ss = Inr ps"
  shows "list_all (gives_strict (pc_OidFilter ctx)) (map (Process E ctx) ps)"
  using assms(2)
proof (induction ss arbitrary: ps)
  case (Cons s ss)
  then show ?case
    using assms(1) by (auto simp: rbind_Inr_iff the_query_Inr dest!: planFingerprints_kind
        intro!: gives_clift StreamSelect_strict)
qed simp

lemma union_scoped: "list_all (strict f) (q # qs) \<Longrightarrow> scoped f (UnionAll q qs)"
  by (intro UnionAll_scoped) (auto simp: list_all_iff strict_scoped)

lemma LabelNames_gives:
  assumes "pc_Federated ctx" "list_all (gives_strict (pc_OidFilter ctx)) fps"
  shows "gives_strict (pc_OidFilter ctx) (LabelNames_Process E ctx fps)"
proof -
  let ?q = "oid_AndWhere ctx ''keys''
     (sel_AndWhere
       [NewIn (NewRawObject ''type'') [IntVal (pc_Type ctx), IntVal 0],
        sql_Ge (NewRawObject ''date'') (StringVal (FormatFromDate (pc_From ctx))),
        sql_Le (NewRawObject ''date'') (StringVal (env_local_date E (pc_To ctx)))]
     (sel_From (NewSimpleCol (pc_TimeSeriesGinDistTableName ctx) ''keys'')
     (sel_Select [NewRawObject ''key''] (sel_Distinct True NewSelect))))"
  have "strict (pc_OidFilter ctx) ?q"
    unfolding strict_iff using assms(1)
    by (intro conjI own_oid_AndWhere parts_oid_AndWhere sc_intros) (simp_all add: sc_simps)
  then show ?thesis
    unfolding LabelNames_Process_def Let_def
    by (intro gives_cbind [OF gives_cmapM [OF assms(2)]] gives_cret)
       (auto intro!: in_fingerprints_strict union_scoped split: list.splits)
qed

lemma MultiStreamSelect_gives:
  assumes "list_all (gives_strict f) ms"
  shows "gives_scoped f (MultiStreamSelect_Process ms)"
proof (cases "length ms = 1")
  case True
  then obtain m where "ms = [m]" by (cases ms) auto
  with assms show ?thesis by (simp add: MultiStreamSelect_Process_def gives_strict_scoped)
next
  case False
  then show ?thesis
    unfolding MultiStreamSelect_Process_def if_not_P [OF False]
    by (intro gives_cbind [OF gives_cmapM [OF assms]])
       (auto intro!: gives_intros union_scoped split: list.splits)
qed

lemma Values_gives:
  assumes "pc_Federated ctx" "pred_option (gives_scoped (pc_OidFilter ctx)) fp"
  shows "gives_strict (pc_OidFilter ctx) (Values_Process E ctx False fp key off)"
proof -
  let ?off = "case off of Some x \<Rightarrow> x | None \<Rightarrow> 0"
  have res: "strict (pc_OidFilter ctx) (oid_AndWhere ctx ''''
     (sel_AndWhere
       [sql_Ge (NewRawObject ''date'') (StringVal (FormatFromDate (pc_From ctx + ?off))),
        sql_Le (NewRawObject ''date'') (StringVal (env_local_date E (pc_To ctx + ?off))),
        sql_Eq (NewRawObject ''key'') (StringVal key), GetTypes ctx]
     (sel_From (NewRawObject (pc_TimeSeriesGinDistTableName ctx))
     (sel_Distinct True (sel_Select [NewRawObject ''val''] NewSelect)))))"
    unfolding strict_iff using assms(1)
    by (intro conjI own_oid_AndWhere parts_oid_AndWhere sc_intros) (simp_all add: sc_simps)
  show ?thesis
  proof (cases fp)
    case None
    with res show ?thesis by (auto simp: Values_Process_def Let_def intro!: gives_cret strict_keep)
  next
    case (Some m)
    with assms(2) have m: "gives_scoped (pc_OidFilter ctx) m" by simp
    show ?thesis
      unfolding Values_Process_def Let_def Some option.case if_False
      by (rule gives_cbind [OF m]) (auto intro!: gives_cret strict_keep in_fingerprints_strict res)
  qed
qed

lemma Series_gives:
  assumes "pc_Federated ctx" "gives_scoped (pc_OidFilter ctx) fp"
  shows "gives_strict (pc_OidFilter ctx) (Series_Process E ctx False fp off)"
proof -
  let ?off = "case off of Some x \<Rightarrow> x | None \<Rightarrow> 0"
  have res: "strict (pc_OidFilter ctx) (oid_AndWhere ctx ''time_series''
     (sel_AndWhere
       [sql_Ge (NewRawObject ''date'') (StringVal (FormatFromDate (pc_From ctx + ?off))),
        sql_Le (NewRawObject ''date'') (StringVal (env_local_date E (pc_To ctx + ?off))), GetTypes ctx]
     (sel_From (NewSimpleCol (pc_TimeSeriesDistTableName ctx) ''time_series'')
     (sel_Select [NewSimpleCol ''labels'' ''labels''] (sel_Distinct True NewSelect)))))"
    unfolding strict_iff using assms(1)
    by (intro conjI own_oid_AndWhere parts_oid_AndWhere sc_intros) (simp_all add: sc_simps)
  show ?thesis
    unfolding Series_Process_def Let_def if_False
    by (rule gives_cbind [OF assms(2)]) (auto intro!: gives_cret strict_keep in_fingerprints_strict res)
qed

lemma first_of_gives:
  assumes "gives_strict f m" "first_of (m init_state) = Inr q"
  shows "strict f q"
proof -
  obtain st where "m init_state = Inr (q, st)" using assms(2) by (auto simp: first_of_def rbind_Inr_iff)
  moreover have "caches_scoped f init_state" by (simp add: caches_scoped_def init_state_def)
  ultimately show ?thesis using assms(1) unfolding gives_def by blast
qed

lemma stats_base_strict: "pc_Federated ctx \<Longrightarrow> stats_base ctx a b = Inr q \<Longrightarrow> strict (pc_OidFilter ctx) q"
  by (auto simp: stats_base_def prewhere_new sc_simps
      intro!: oid_AndPreWhere_scoped parts_set_preWhere sc_intros)

lemma stats_query_strict:
  assumes "pc_Federated ctx" "stats_query E ctx script a b = Inr q"
  shows "strict (pc_OidFilter ctx) q"
proof -
  let ?ctx = "ctx\<lparr>pc_From := a, pc_To := b\<rparr>"
  from assms(2) obtain q0 where q0: "stats_base ?ctx a b = Inr q0" and
    q: "q = q0 \<or> (\<exists>p fp. planFingerprints E (the script) = Inr p \<and> first_of (Process E ?ctx p init_state) = Inr fp \<and>
        q = in_fingerprints ''fingerprint'' ''fp_sel'' fp q0)"
    by (auto simp: stats_query_def Let_def rbind_Inr_iff split: option.splits if_splits)
  have base: "strict (pc_OidFilter ctx) q0" using stats_base_strict [OF _ q0] assms(1) by simp
  have "scoped (pc_OidFilter ctx) fp"
    if "planFingerprints E s = Inr p" "first_of (Process E ?ctx p init_state) = Inr fp" for s p fp
    using fingerprints_strict [of ?ctx E "[s]" "[p]"] that assms(1)
    by (auto simp: strict_scoped dest: first_of_gives [rotated])
  with q base show ?thesis by (auto intro: in_fingerprints_strict)
qed

text \<open>
  C37: tenant isolation of the label endpoints. Whatever the selectors, the queries for label
  names, label values, series and index statistics of a federated request read only under its
  tenant condition.
\<close>

theorem label_queries_scoped:
  assumes "pc_Federated ctx"
    "labels_query E ctx ss = Inr q \<or> values_query E ctx ss label = Inr q \<or> series_query E ctx ss = Inr q \<or>
     stats_query E ctx script a b = Inr q"
  shows "strict (pc_OidFilter ctx) q"
  using assms(2)
proof (elim disjE)
  assume "labels_query E ctx ss = Inr q"
  then show ?thesis
    using assms(1) by (auto simp: labels_query_def PlanLabels_def rbind_Inr_iff split: if_splits
        intro!: first_of_gives [rotated] LabelNames_gives fingerprints_strict)
next
  assume "values_query E ctx ss label = Inr q"
  then show ?thesis
    using assms(1) by (auto simp: values_query_def rbind_Inr_iff split: if_splits
        intro!: first_of_gives [rotated] Values_gives MultiStreamSelect_gives fingerprints_strict)
next
  assume "series_query E ctx ss = Inr q"
  then show ?thesis
    using assms(1) by (auto simp: series_query_def rbind_Inr_iff
        intro!: first_of_gives [rotated] Series_gives MultiStreamSelect_gives fingerprints_strict)
qed (rule stats_query_strict [OF assms(1)])

theorem label_queries_scoped_witness:
  "\<exists>q. series_query example_env fed_ctx [example_log] = Inr q \<and> strict \<lparr>Tenants = [''7''], Deny = False\<rparr> q"
proof -
  have "isr_res (series_query example_env fed_ctx [example_log])" by code_simp
  then obtain q where q: "series_query example_env fed_ctx [example_log] = Inr q"
    by (auto simp: isr_res_def split: sum.splits)
  have ctx: "pc_Federated fed_ctx" "pc_OidFilter fed_ctx = \<lparr>Tenants = [''7''], Deny = False\<rparr>"
    by (simp_all add: fed_ctx_def)
  from label_queries_scoped [OF ctx(1), of example_env "[example_log]" q "''job''" None 0 0] q ctx(2) show ?thesis by auto
qed

text \<open>A condition on a tenant column is none of the conditions that the two planners add.\<close>

lemma oid_condition_other:
  "BuildOidCondition col f \<noteq> sql_Ge a b" "BuildOidCondition col f \<noteq> sql_Le a b"
  "col \<noteq> col' \<Longrightarrow> BuildOidCondition col f \<noteq> NewIn (NewRawObject col') xs"
  by (auto simp: BuildOidCondition_def sql_cond_defs NewIn_def NewRawObject_def)

lemma conjuncts_None [simp]: "conjuncts None = []"
  by (simp add: conjuncts_def)

lemma where_build [simp]:
  "s_where (sel_Select cols q) = s_where q" "s_where (sel_GroupBy cols q) = s_where q"
  "s_where (sel_From t q) = s_where q" "s_where (sel_With ws q) = s_where q" "s_where NewSelect = None"
  "s_preWhere (sel_GroupBy cols q) = s_preWhere q" "s_preWhere (sel_With ws q) = s_preWhere q"
  "s_columns (sel_GroupBy g q) = s_columns q" "s_columns (sel_From t q) = s_columns q"
  "s_columns (sel_With ws q) = s_columns q" "s_columns (sel_Select cols q) = cols"
  by (simp_all add: sel_Select_def sel_GroupBy_def sel_From_def sel_With_def NewSelect_def)

lemma from_end [simp]: "s_from (sel_Limit xs q) = s_from q" "s_from (sel_OrderBy xs q) = s_from q"
  by (simp_all add: sel_Limit_def sel_OrderBy_def)

lemma pattern_counts_unscoped: "\<not> scoped f (pattern_counts ctx fp)"
proof -
  have "oid_col ''p'' \<noteq> ''p.fingerprint''" by (simp add: oid_col_def)
  then have "\<not> own_tenant f (pattern_counts ctx fp)"
    by (simp add: own_tenant_def pattern_counts_def Let_def oid_condition_other)
  moreover have "\<not> only_fingerprints (pattern_counts ctx fp)"
    by (simp add: only_fingerprints_def pattern_counts_def Let_def)
  ultimately show ?thesis by (simp add: scoped_iff)
qed

lemma detect_unscoped:
  assumes "DetectLabels_Process E ctx False m st = Inr (q, st')"
  shows "\<not> scoped f q"
proof -
  have "oid_col '''' \<noteq> ''fingerprint''" by (simp add: oid_col_def)
  with assms show ?thesis
    by (auto simp: DetectLabels_Process_def Let_def in_fingerprints_def scoped_iff own_tenant_def only_fingerprints_def
        cbind_Inr_iff cret_def oid_condition_other split: option.splits)
qed

text \<open>
  C38: detected labels and patterns are not scoped. Their queries read the label index and the
  patterns table without the tenant condition of the request; without a selector the query for
  detected labels does not depend on the tenants of the request at all.
\<close>

theorem detect_patterns_unscoped:
  "(detect_query E ctx script = Inr q \<longrightarrow> \<not> scoped f q) \<and>
   (patterns_query E ctx script = Inr q \<longrightarrow> \<not> scoped f q) \<and>
   detect_query E (ctx\<lparr>pc_OidFilter := g\<rparr>) None = detect_query E ctx None"
proof (intro conjI impI)
  assume "detect_query E ctx script = Inr q"
  then show "\<not> scoped f q"
    by (auto simp: detect_query_def first_of_def rbind_Inr_iff dest!: detect_unscoped)
next
  assume "patterns_query E ctx script = Inr q"
  then obtain fp where "s_from q = Some (NewWithRef (NewWith (pattern_counts ctx fp) ''pregroup''))"
    by (auto simp: patterns_query_def Patterns_Process_def first_of_def rbind_Inr_iff cbind_Inr_iff Let_def cret_def)
  then show "\<not> scoped f q"
    using pattern_counts_unscoped by (auto simp: scoped_iff parts_scoped_def sc_simps)
qed (simp add: detect_query_def planDetectLabels_def DetectLabels_Process_def Let_def)

theorem detect_patterns_unscoped_witness:
  "\<exists>q. detect_query example_env fed_ctx None = Inr q \<and> \<not> scoped \<lparr>Tenants = [''7''], Deny = False\<rparr> q"
proof -
  obtain q where q: "detect_query example_env fed_ctx None = Inr q"
    by (simp add: detect_query_def planDetectLabels_def DetectLabels_Process_def Let_def first_of_def cret_def)
  with detect_patterns_unscoped [of example_env fed_ctx None q] show ?thesis by blast
qed

end
