(* ===== verification/Logql_Plan_Correct.thy ===== *)
theory Logql_Plan_Correct
  imports Logql_Plan
begin

section \<open>Correctness of the query planner\<close>

text \<open>
  What \<open>Plan\<close> promises: a binary expression over a raw log selector is rejected and no other,
  the script is cut so that ClickHouse gets only stages it can run and nothing is lost, the
  cancelling of \<open>json\<close> before \<open>logfmt\<close> and its failure, and the shape of the plan.
\<close>

subsection \<open>Validation of binary expressions\<close>

text \<open>The operands of a script, looking through parentheses.\<close>

function leaf_atoms :: "LogQLScript \<Rightarrow> AtomExpr list" where
  "leaf_atoms s =
     concat (map (\<lambda>a. case at_Paren a of None \<Rightarrow> [a] | Some p \<Rightarrow> leaf_atoms p) (all_atoms s))"
  by pat_completeness auto
termination
proof (relation "measure size", goal_cases)
  case (2 s a p)
  then show ?case using paren_smaller [of a p] atom_size [of a s] by auto
qed simp

declare leaf_atoms.simps [simp del]

definition raw_operand :: "AtomExpr \<Rightarrow> bool" where
  "raw_operand a \<longleftrightarrow> at_StrSelector a \<noteq> None"

lemma leaf_atoms_unwrap: "leaf_atoms (unwrapParens s) = leaf_atoms s"
proof (induction s rule: unwrapParens.induct)
  case (1 s)
  show ?case
  proof (cases "IsBinary s \<or> at_Paren (ql_Head s) = None")
    case True
    then show ?thesis by (auto simp: unwrapParens.simps [of s])
  next
    case False
    then obtain inner where i: "at_Paren (ql_Head s) = Some inner" by auto
    have "all_atoms s = [ql_Head s]" using False by (simp add: all_atoms_def IsBinary_def)
    then have "leaf_atoms s = leaf_atoms inner" using i by (simp add: leaf_atoms.simps [of s])
    with 1 i False show ?thesis by (auto simp: unwrapParens.simps [of s])
  qed
qed

lemma unwrapParens_done: "IsBinary (unwrapParens s) \<or> at_Paren (ql_Head (unwrapParens s)) = None"
proof (induction s rule: unwrapParens.induct)
  case (1 s)
  show ?case
  proof (cases "IsBinary s \<or> at_Paren (ql_Head s) = None")
    case True
    then show ?thesis by (auto simp: unwrapParens.simps [of s])
  next
    case False
    with 1 show ?thesis by (auto simp: unwrapParens.simps [of s])
  qed
qed

lemma mapM_res_unit:
  assumes "\<And>x. x \<in> set xs \<Longrightarrow> f x = (if P x then Inl e else Inr ())"
  shows "rbind (mapM_res f xs) (\<lambda>_. Inr ()) = (if list_ex P xs then Inl e else Inr ())"
  using assms by (induction xs) (auto simp: rbind_def split: sum.splits if_splits)

lemma validate_leaves:
  "validateBinaryOps s = (if IsBinary s \<and> list_ex raw_operand (leaf_atoms s) then Inl binary_error else Inr ())"
  "validateAtomForBinaryOp a =
     (if list_ex raw_operand (case at_Paren a of None \<Rightarrow> [a] | Some p \<Rightarrow> leaf_atoms p) then Inl binary_error else Inr ())"
proof (induction s and a rule: validateBinaryOps_validateAtomForBinaryOp.induct)
  case (1 s)
  let ?P = "\<lambda>a. list_ex raw_operand (case at_Paren a of None \<Rightarrow> [a] | Some p \<Rightarrow> leaf_atoms p)"
  have leaves: "list_ex raw_operand (leaf_atoms s) = list_ex ?P (all_atoms s)"
    by (subst leaf_atoms.simps) (simp add: list_ex_iff)
  show ?case
  proof (cases "IsBinary s")
    case True
    have "rbind (mapM_res validateAtomForBinaryOp (all_atoms s)) (\<lambda>_. Inr ()) =
        (if list_ex ?P (all_atoms s) then Inl binary_error else Inr ())"
      by (rule mapM_res_unit) (use 1 True in blast)
    then show ?thesis using True leaves by (simp add: validateBinaryOps.simps)
  qed (simp add: validateBinaryOps.simps)
next
  case (2 a)
  show ?case
  proof (cases "at_Paren a")
    case None
    then show ?thesis by (simp add: validateAtomForBinaryOp.simps raw_operand_def)
  next
    case (Some p)
    let ?i = "unwrapParens p"
    have head: "leaf_atoms ?i = [ql_Head ?i] \<and> at_Paren (ql_Head ?i) = None" if nb: "\<not> IsBinary ?i"
      using unwrapParens_done [of p] nb
      by (simp add: leaf_atoms.simps [of ?i] all_atoms_def IsBinary_def)
    have a: "validateAtomForBinaryOp a = rbind (validateBinaryOps ?i) (\<lambda>_.
        if \<not> IsBinary ?i then validateAtomForBinaryOp (ql_Head ?i) else Inr ())"
      using Some by (simp add: validateAtomForBinaryOp.simps [of a] Let_def)
    have s: "validateBinaryOps ?i = (if IsBinary ?i \<and> list_ex raw_operand (leaf_atoms p) then Inl binary_error else Inr ())"
      using 2(1) [OF Some refl] by (simp add: leaf_atoms_unwrap)
    show ?thesis
    proof (cases "IsBinary ?i")
      case True
      then show ?thesis using a s Some by simp
    next
      case False
      have "leaf_atoms p = [ql_Head ?i]" using head [OF False] leaf_atoms_unwrap [of p] by simp
      then show ?thesis
        using a s Some False head [OF False]
        by (simp add: validateAtomForBinaryOp.simps [of "ql_Head ?i"] raw_operand_def)
    qed
  qed
qed

text \<open>
  validation of binary arithmetic. A script is rejected exactly if it is a binary expression
  with an operand, at any depth of parentheses, that is a log stream selector; the error is the
  syntax error of the source, and \<open>Plan\<close> returns it.
\<close>

theorem validateBinaryOps_rejects:
  "validateBinaryOps s =
     (if IsBinary s \<and> list_ex (\<lambda>a. at_StrSelector a \<noteq> None) (leaf_atoms s) then Inl binary_error else Inr ()) \<and>
   (IsBinary (unwrapParens s) \<and> list_ex (\<lambda>a. at_StrSelector a \<noteq> None) (leaf_atoms s) \<longrightarrow>
      Plan L s = Inl binary_error)"
  using validate_leaves(1) [of s] validate_leaves(1) [of "unwrapParens s"]
  by (auto simp: raw_operand_def [abs_def] leaf_atoms_unwrap Plan.simps [of L s])

definition sel_atom :: "StrSelector \<Rightarrow> AtomExpr" where
  "sel_atom x = AtomExpr None (Some x) None None None None None ''''"

definition scalar_atom :: "string \<Rightarrow> AtomExpr" where
  "scalar_atom v = AtomExpr None None None None None None None v"

theorem validateBinaryOps_rejects_witness:
  "Plan int_lib (LogQLScript (sel_atom \<lparr>sel_StrSelCmds = [], sel_Pipelines = []\<rparr>) [BinOpPart ''*'' (scalar_atom ''2'')]) =
     Inl binary_error"
proof -
  let ?s = "LogQLScript (sel_atom \<lparr>sel_StrSelCmds = [], sel_Pipelines = []\<rparr>) [BinOpPart ''*'' (scalar_atom ''2'')]"
  have "IsBinary (unwrapParens ?s)" by (simp add: unwrapParens.simps IsBinary_def)
  moreover have "list_ex (\<lambda>a. at_StrSelector a \<noteq> None) (leaf_atoms ?s)"
    by (simp add: leaf_atoms.simps all_atoms_def sel_atom_def)
  ultimately show ?thesis using validateBinaryOps_rejects [of ?s int_lib] by blast
qed

subsection \<open>Cutting the script at the break point\<close>

text \<open>The grammar gives an atom exactly one of its alternatives.\<close>

definition one_kind :: "AtomExpr \<Rightarrow> bool" where
  "one_kind a \<longleftrightarrow>
     length (filter id [at_Paren a \<noteq> None, at_StrSelector a \<noteq> None, at_LRAOrUnwrap a \<noteq> None, at_AggOperator a \<noteq> None,
       at_Macros a \<noteq> None, at_TopK a \<noteq> None, at_QuantileOverTime a \<noteq> None, at_Scalar a \<noteq> '''']) = 1"

lemma breakpoint_from_cases:
  "breakpoint_from i ps = BreakpointNo \<and> list_all (\<lambda>p. \<not> needs_internal p) ps \<or>
   (\<exists>k < length ps. breakpoint_from i ps = i + int k \<and> list_all (\<lambda>p. \<not> needs_internal p) (take k ps) \<and>
      needs_internal (ps ! k))"
proof (induction ps arbitrary: i)
  case (Cons p ps)
  show ?case
  proof (cases "needs_internal p")
    case True
    then show ?thesis by (intro disjI2 exI [of _ 0]) simp
  next
    case False
    from Cons.IH [of "i + 1"] show ?thesis
    proof (elim disjE exE conjE)
      fix k assume "k < length ps" "breakpoint_from (i + 1) ps = i + 1 + int k"
        "list_all (\<lambda>p. \<not> needs_internal p) (take k ps)" "needs_internal (ps ! k)"
      then show ?thesis using False by (intro disjI2 exI [of _ "Suc k"]) simp
    qed (use False in simp)
  qed
qed simp

lemma sel_breakpoint_cases:
  "sel_breakpoint x = BreakpointNo \<and> list_all (\<lambda>p. \<not> needs_internal p) (sel_Pipelines x) \<or>
   (\<exists>k < length (sel_Pipelines x). sel_breakpoint x = int k \<and>
      list_all (\<lambda>p. \<not> needs_internal p) (take k (sel_Pipelines x)))"
  using breakpoint_from_cases [of 0 "sel_Pipelines x"] by (auto simp: sel_breakpoint_def)

text \<open>What a cut gives: the part for ClickHouse, and a script with the rest of the stages.\<close>

definition cut_ok :: "StrSelector \<Rightarrow> LogQLScript \<times> LogQLScript option \<Rightarrow> bool" where
  "cut_ok sel r \<longleftrightarrow>
     (\<exists>chsel isel i. r = (selector_script chsel, Some i) \<and> GetStrSelector i = Some isel \<and>
        sel_StrSelCmds chsel = sel_StrSelCmds sel \<and>
        list_all (\<lambda>p. \<not> needs_internal p) (sel_Pipelines chsel) \<and>
        sel_Pipelines chsel @ sel_Pipelines isel = sel_Pipelines sel)"

lemma break_sel_cut:
  assumes "sel_breakpoint x \<noteq> BreakpointNo"
    "\<And>y. GetStrSelector (map_head (put y) script) = Some y"
  shows "\<exists>r. break_sel (sel_breakpoint x) script put x = Inr r \<and> cut_ok x r"
proof -
  obtain k where k: "k < length (sel_Pipelines x)" "sel_breakpoint x = int k"
      "list_all (\<lambda>p. \<not> needs_internal p) (take k (sel_Pipelines x))"
    using sel_breakpoint_cases [of x] assms(1) by auto
  then show ?thesis
    by (auto simp: break_sel_def cut_ok_def assms(2)
        intro!: exI [of _ "\<lparr>sel_StrSelCmds = sel_StrSelCmds x, sel_Pipelines = take k (sel_Pipelines x)\<rparr>"])
qed

lemma break_lra_cut:
  assumes "lra_breakpoint l \<noteq> BreakpointNo"
    "\<And>y. GetStrSelector (map_head (put y) script) = Some y"
  shows "\<exists>r. break_lra (lra_breakpoint l) script put l = Inr r \<and> cut_ok (lra_StrSel l) r"
proof (cases "lra_breakpoint l = BreakpointLra")
  case True
  have "sel_breakpoint (lra_StrSel l) = BreakpointNo \<and>
      list_all (\<lambda>p. \<not> needs_internal p) (sel_Pipelines (lra_StrSel l))"
    using True sel_breakpoint_cases [of "lra_StrSel l"]
    by (auto simp: lra_breakpoint_def Let_def BreakpointLra_def BreakpointNo_def split: if_splits)
  then show ?thesis
    by (auto simp: break_lra_def True cut_ok_def assms(2)
        intro!: exI [of _ "\<lparr>sel_StrSelCmds = sel_StrSelCmds (lra_StrSel l), sel_Pipelines = sel_Pipelines (lra_StrSel l)\<rparr>"])
next
  case False
  then have eq: "lra_breakpoint l = sel_breakpoint (lra_StrSel l)"
    by (auto simp: lra_breakpoint_def Let_def split: if_splits)
  show ?thesis
    using break_sel_cut [OF _ assms(2), of "lra_StrSel l"] assms(1) False eq
    by (auto simp: break_lra_def)
qed

lemma put_sel_get: "GetStrSelector (map_head (put_sel y) s) = Some y"
  by (cases "ql_Head s") (simp add: GetStrSelector_def map_head_def)

lemma put_agg_sel_get:
  assumes "at_AggOperator (ql_Head s) = Some g" "at_StrSelector (ql_Head s) = None" "at_TopK (ql_Head s) = None"
  shows "GetStrSelector (map_head (put_agg_sel y) s) = Some y"
  using assms by (cases "ql_Head s") (simp add: GetStrSelector_def map_head_def agg_with_sel_def lra_with_sel_def)

lemma put_lra_sel_get:
  assumes "at_LRAOrUnwrap (ql_Head s) = Some l" "at_StrSelector (ql_Head s) = None"
    "at_TopK (ql_Head s) = None" "at_AggOperator (ql_Head s) = None"
  shows "GetStrSelector (map_head (put_lra_sel y) s) = Some y"
  using assms by (cases "ql_Head s") (simp add: GetStrSelector_def map_head_def lra_with_sel_def)

lemma one_kindD:
  assumes "one_kind a"
  shows "at_TopK a \<noteq> None \<Longrightarrow> at_StrSelector a = None \<and> at_AggOperator a = None \<and> at_LRAOrUnwrap a = None \<and> at_QuantileOverTime a = None"
    "at_AggOperator a \<noteq> None \<Longrightarrow> at_StrSelector a = None \<and> at_TopK a = None \<and> at_LRAOrUnwrap a = None \<and> at_QuantileOverTime a = None"
    "at_StrSelector a \<noteq> None \<Longrightarrow> at_TopK a = None \<and> at_AggOperator a = None \<and> at_LRAOrUnwrap a = None \<and> at_QuantileOverTime a = None"
    "at_LRAOrUnwrap a \<noteq> None \<Longrightarrow> at_TopK a = None \<and> at_AggOperator a = None \<and> at_StrSelector a = None \<and> at_QuantileOverTime a = None"
    "at_Scalar a \<noteq> '''' \<Longrightarrow> at_TopK a = None \<and> at_AggOperator a = None \<and> at_StrSelector a = None \<and> at_LRAOrUnwrap a = None \<and> at_QuantileOverTime a = None \<and> at_Paren a = None"
    "at_QuantileOverTime a \<noteq> None \<Longrightarrow> at_AggOperator a = None \<and> at_StrSelector a = None \<and> at_LRAOrUnwrap a = None"
  using assms by (auto simp: one_kind_def split: if_splits)

lemma breakScript_cut:
  assumes "GetBreakpoint s \<noteq> BreakpointNo" "one_kind (ql_Head s)"
    "at_TopK (ql_Head s) = None" "at_QuantileOverTime (ql_Head s) = None"
  shows "\<exists>sel r. GetStrSelector s = Some sel \<and> breakScript (GetBreakpoint s) s = Inr r \<and> cut_ok sel r"
proof -
  let ?a = "ql_Head s"
  consider g where "at_AggOperator ?a = Some g" | x where "at_AggOperator ?a = None" "at_StrSelector ?a = Some x"
    | l where "at_AggOperator ?a = None" "at_StrSelector ?a = None" "at_LRAOrUnwrap ?a = Some l"
    using assms by (cases "at_AggOperator ?a"; cases "at_StrSelector ?a"; cases "at_LRAOrUnwrap ?a") (auto simp: GetBreakpoint_def Let_def)
  then show ?thesis
  proof cases
    case (1 g)
    have none: "at_StrSelector ?a = None" using one_kindD(2) [OF assms(2)] 1 by simp
    have bp: "GetBreakpoint s = lra_breakpoint (agg_LRAOrUnwrap g)" using 1 assms(3,4) by (simp add: GetBreakpoint_def)
    obtain r where "break_lra (GetBreakpoint s) s put_agg_sel (agg_LRAOrUnwrap g) = Inr r"
        "cut_ok (lra_StrSel (agg_LRAOrUnwrap g)) r"
      using break_lra_cut [of "agg_LRAOrUnwrap g" put_agg_sel s] put_agg_sel_get [OF 1 none assms(3)] assms(1) bp by auto
    then show ?thesis using 1 assms(3) none by (simp add: breakScript_def GetStrSelector_def)
  next
    case (2 x)
    have none: "at_LRAOrUnwrap ?a = None" using one_kindD(3) [OF assms(2)] 2 by simp
    have bp: "GetBreakpoint s = sel_breakpoint x" using 2 none assms(3,4) by (simp add: GetBreakpoint_def)
    obtain r where "break_sel (GetBreakpoint s) s put_sel x = Inr r" "cut_ok x r"
      using break_sel_cut [of x put_sel s] put_sel_get assms(1) bp by auto
    then show ?thesis using 2 assms(3) by (simp add: breakScript_def GetStrSelector_def)
  next
    case (3 l)
    have bp: "GetBreakpoint s = lra_breakpoint l" using 3 assms(3,4) by (simp add: GetBreakpoint_def)
    obtain r where "break_lra (GetBreakpoint s) s put_lra_sel l = Inr r" "cut_ok (lra_StrSel l) r"
      using break_lra_cut [of l put_lra_sel s] put_lra_sel_get [OF 3(3) 3(2) assms(3) 3(1)] assms(1) bp by auto
    then show ?thesis using 3 assms(3) by (simp add: breakScript_def GetStrSelector_def)
  qed
qed

text \<open>
  C14: cutting a script for in-process evaluation. If \<open>decidePlanMode\<close> says that a script that
  is not binary needs the internal planner, then either it is a \<open>topk\<close> or \<open>quantile_over_time\<close>,
  which is reported as not supported, or \<open>breakScript\<close> succeeds: the internal script is never nil,
  ClickHouse gets a plain selector with the same matchers and only stages it can evaluate, and its
  stages followed by those of the internal script are the stages of the query.
\<close>

theorem breakScript_splits:
  assumes "single_mode L s = PlanInternal" "one_kind (ql_Head s)"
  shows "if at_TopK (ql_Head s) \<noteq> None \<or> at_QuantileOverTime (ql_Head s) \<noteq> None
    then \<exists>msg. breakScript (GetBreakpoint s) s = Inl (ErrMsg msg)
    else \<exists>sel chsel isel i. GetStrSelector s = Some sel \<and>
      breakScript (GetBreakpoint s) s = Inr (selector_script chsel, Some i) \<and> GetStrSelector i = Some isel \<and>
      sel_StrSelCmds chsel = sel_StrSelCmds sel \<and> list_all (\<lambda>p. \<not> needs_internal p) (sel_Pipelines chsel) \<and>
      sel_Pipelines chsel @ sel_Pipelines isel = sel_Pipelines sel"
proof (cases "at_TopK (ql_Head s) \<noteq> None \<or> at_QuantileOverTime (ql_Head s) \<noteq> None")
  case True
  have "at_QuantileOverTime (ql_Head s) \<noteq> None \<Longrightarrow> at_AggOperator (ql_Head s) = None \<and>
      at_StrSelector (ql_Head s) = None \<and> at_LRAOrUnwrap (ql_Head s) = None"
    by (rule one_kindD(6) [OF assms(2)])
  then show ?thesis using True by (auto simp: breakScript_def Let_def split: option.split)
next
  case False
  have "GetBreakpoint s \<noteq> BreakpointNo" using assms(1) by (auto simp: single_mode_def split: if_splits)
  then obtain sel r where "GetStrSelector s = Some sel" "breakScript (GetBreakpoint s) s = Inr r" "cut_ok sel r"
    using breakScript_cut [OF _ assms(2)] False by auto
  then show ?thesis using False unfolding cut_ok_def by auto
qed

text \<open>Stages used by the examples.\<close>

definition no_stage :: StrSelectorPipeline where
  "no_stage = \<lparr>ppl_LineFilter = None, ppl_LabelFilter = None, ppl_Parser = None, ppl_LineFormat = None,
     ppl_LabelFormat = None, ppl_Unwrap = None, ppl_Drop = None, ppl_Keep = None\<rparr>"

definition parser_stage_of :: "string \<Rightarrow> StrSelectorPipeline" where
  "parser_stage_of fn = no_stage\<lparr>ppl_Parser := Some \<lparr>par_Fn = fn, par_ParserParams = []\<rparr>\<rparr>"

theorem breakScript_splits_witness:
  "\<exists>chsel i. breakScript 1 (selector_script \<lparr>sel_StrSelCmds = [], sel_Pipelines = [no_stage, parser_stage_of ''json'', no_stage]\<rparr>) =
     Inr (selector_script chsel, Some i)"
proof -
  let ?s = "selector_script \<lparr>sel_StrSelCmds = [], sel_Pipelines = [no_stage, parser_stage_of ''json'', no_stage]\<rparr>"
  have bp: "GetBreakpoint ?s = 1"
    by (simp add: GetBreakpoint_def selector_script_def sel_breakpoint_def needs_internal_def parser_stage_of_def no_stage_def)
  have mode: "single_mode int_lib ?s = PlanInternal"
    using bp by (simp add: single_mode_def BreakpointNo_def AnalyzeMetrics15sShortcut_def selector_script_def opt_or_def)
  have kind: "one_kind (ql_Head ?s)" by (simp add: one_kind_def selector_script_def)
  show ?thesis using breakScript_splits [OF mode kind] bp by (auto simp: selector_script_def)
qed

subsection \<open>Cancelling \<open>json\<close> before \<open>logfmt\<close>\<close>

definition is_parser :: "string \<Rightarrow> StrSelectorPipeline \<Rightarrow> bool" where
  "is_parser fn p \<longleftrightarrow> (case ppl_Parser p of None \<Rightarrow> False | Some q \<Rightarrow> par_Fn q = fn)"

text \<open>The intended result: from the right, a \<open>json\<close> stage that meets a \<open>logfmt\<close> stage goes away with it.\<close>

fun cancelled :: "StrSelectorPipeline list \<Rightarrow> StrSelectorPipeline list" where
  "cancelled [] = []"
| "cancelled (p # ps) =
     (case cancelled ps of
        [] \<Rightarrow> [p]
      | q # qs \<Rightarrow> if is_parser ''json'' p \<and> is_parser ''logfmt'' q then qs else p # q # qs)"

lemma cancelled_step:
  assumes "i < length ps" "i + 1 < length ps"
  shows "cancel_loop (Suc i) (take (Suc i) ps @ cancelled (drop (Suc i) ps)) =
    (if cancelled (drop (Suc i) ps) = [] \<and> ppl_Parser (ps ! i) \<noteq> None then Inl (Panic ''index out of range'')
     else cancel_loop i (take i ps @ cancelled (drop i ps)))"
proof -
  have d: "drop i ps = ps ! i # drop (Suc i) ps" using assms(1) by (simp add: Cons_nth_drop_Suc)
  have t: "take (Suc i) ps = take i ps @ [ps ! i]" using assms(1) by (simp add: take_Suc_conv_app_nth)
  have len: "length (take i ps) = i" using assms(1) by simp
  show ?thesis
  proof (cases "cancelled (drop (Suc i) ps)")
    case Nil
    then show ?thesis using len by (simp add: d t nth_append split: option.split)
  next
    case (Cons q qs)
    have at_i: "(take (Suc i) ps @ q # qs) ! i = ps ! i" using len by (simp add: t nth_append)
    have at_j: "(take (Suc i) ps @ q # qs) ! (i + 1) = q" using assms by (simp add: nth_append)
    have tk: "take i (take (Suc i) ps @ q # qs) = take i ps" and dr: "drop (i + 2) (take (Suc i) ps @ q # qs) = qs"
      using assms by simp_all
    show ?thesis
      using assms unfolding Cons cancel_loop.simps at_i at_j tk dr
      by (simp add: d Cons is_parser_def t split: option.split)
  qed
qed

text \<open>Whether the loop gets past position \<open>i\<close>.\<close>

definition stuck :: "StrSelectorPipeline list \<Rightarrow> nat \<Rightarrow> bool" where
  "stuck ps i \<longleftrightarrow> cancelled (drop (Suc i) ps) = [] \<and> ppl_Parser (ps ! i) \<noteq> None"

lemma cancel_loop_from:
  "i < length ps \<Longrightarrow> cancel_loop i (take i ps @ cancelled (drop i ps)) =
     (if list_ex (stuck ps) [0..<i] then Inl (Panic ''index out of range'') else Inr (cancelled ps))"
proof (induction i)
  case (Suc i)
  then show ?case using cancelled_step [of i ps] by (auto simp: stuck_def)
qed simp

text \<open>
  cancelling \<open>json\<close> before \<open>logfmt\<close>. The loop gives the intended result, with every such
  pair removed, unless some stage before a tail that cancels completely is a parser: then the
  source indexes past the end of the shortened slice and the planner panics. A pipeline such
  as \<open>json | json | logfmt\<close> is one of these.
\<close>

theorem cancelJsonAndLogFmt_outcome:
  "cancel_loop (length ps - 1) ps =
     (if list_ex (\<lambda>i. cancelled (drop (i + 1) ps) = [] \<and> ppl_Parser (ps ! i) \<noteq> None) [0..<length ps - 1]
      then Inl (Panic ''index out of range'') else Inr (cancelled ps)) \<and>
   (\<nexists>xs p q ys. cancelled ps = xs @ p # q # ys \<and> is_parser ''json'' p \<and> is_parser ''logfmt'' q)"
proof -
  have no_pair: "\<nexists>xs p q ys. cancelled ps = xs @ p # q # ys \<and> is_parser ''json'' p \<and> is_parser ''logfmt'' q"
  proof (induction ps)
    case (Cons p ps)
    then show ?case
      by (auto simp: Cons_eq_append_conv split: list.splits if_splits) (metis append_Cons)+
  qed simp
  have loop: "cancel_loop (length ps - 1) ps =
      (if list_ex (stuck ps) [0..<length ps - 1] then Inl (Panic ''index out of range'') else Inr (cancelled ps))"
  proof (cases "ps = []")
    case False
    let ?n = "length ps - 1"
    obtain qs q where ps: "ps = qs @ [q]" using False by (metis append_butlast_last_id)
    then have "take ?n ps @ cancelled (drop ?n ps) = ps" by simp
    then show ?thesis using cancel_loop_from [of ?n ps] False by simp
  qed simp
  show ?thesis using no_pair loop by (simp add: stuck_def [abs_def])
qed

subsection \<open>The shape of a plan\<close>

lemma plan_stage_not_matrix: "plan_stage L ppl inp = Inr p \<Longrightarrow> \<not> IsMatrix inp \<Longrightarrow> \<not> IsMatrix p"
  by (auto simp: plan_stage_def rbind_Inr_iff split: option.splits)

lemma plan_stages_not_matrix: "plan_stages L ps inp = Inr p \<Longrightarrow> \<not> IsMatrix inp \<Longrightarrow> \<not> IsMatrix p"
  by (induction ps arbitrary: inp) (auto simp: rbind_Inr_iff dest: plan_stage_not_matrix)

text \<open>Rewriting the selector keeps the kind of the head and what is not the selector.\<close>

definition same_kind :: "AtomExpr \<Rightarrow> AtomExpr \<Rightarrow> bool" where
  "same_kind a b \<longleftrightarrow> at_Paren a = at_Paren b \<and> (at_StrSelector a = None) = (at_StrSelector b = None) \<and>
     (at_LRAOrUnwrap a = None) = (at_LRAOrUnwrap b = None) \<and> (at_AggOperator a = None) = (at_AggOperator b = None) \<and>
     (at_Macros a = None) = (at_Macros b = None) \<and> (at_TopK a = None) = (at_TopK b = None) \<and>
     (at_QuantileOverTime a = None) = (at_QuantileOverTime b = None) \<and> at_Scalar a = at_Scalar b"

lemma put_same_kind:
  "at_StrSelector a \<noteq> None \<Longrightarrow> same_kind (put_sel y a) a" "same_kind (put_agg_sel y a) a" "same_kind (put_lra_sel y a) a"
  "same_kind (put_topk_sel y a) a" "same_kind (put_qot_sel y a) a"
  by (cases a; simp add: same_kind_def)+

lemma with_sel_same_kind: "same_kind (ql_Head (with_sel x s)) (ql_Head s) \<and> ql_BinOps (with_sel x s) = ql_BinOps s"
  by (simp add: with_sel_def Let_def map_head_def put_same_kind)

lemma breakScript_same_kind:
  "breakScript bp s = Inr (ch, Some i) \<Longrightarrow> same_kind (ql_Head i) (ql_Head s) \<and> ql_BinOps i = ql_BinOps s"
  by (auto simp: breakScript_def Let_def break_lra_def break_sel_def map_head_def put_same_kind
      split: option.splits if_splits)

lemma one_kind_same: "same_kind a b \<Longrightarrow> one_kind a = one_kind b"
  by (simp add: same_kind_def one_kind_def)

text \<open>The durations of a script do not depend on its selector.\<close>

lemma duration_with_sel:
  "lra_duration L (lra_with_sel x l) = lra_duration L l"
  "qot_duration L (q\<lparr>qot_StrSel := x\<rparr>) = qot_duration L q"
  by (simp_all add: lra_duration_def lra_with_sel_def qot_duration_def)

lemma topk_duration_with_sel: "topk_duration L (topk_with_sel x t) = topk_duration L t"
  by (simp add: topk_duration_def topk_with_sel_def duration_with_sel agg_with_sel_def split: option.split cong: if_cong)

lemma GetDuration_with_sel: "GetDuration L (with_sel x s) = GetDuration L s"
proof -
  obtain h ops where s: "s = LogQLScript h ops" by (cases s)
  obtain paren sel lra agg mac topk qot scalar where h: "h = AtomExpr paren sel lra agg mac topk qot scalar"
    by (cases h)
  show ?thesis
    by (simp add: with_sel_def map_head_def s h duration_with_sel topk_duration_with_sel agg_with_sel_def
        split: option.split cong: if_cong)
qed

text \<open>The aggregation of a script of one kind.\<close>

lemma find_in_atom:
  assumes "ql_BinOps s = []" "at_Paren (ql_Head s) = None"
  shows "find_in f s = f (ql_Head s)"
proof -
  obtain h where s: "s = LogQLScript h []" using assms(1) by (cases s) auto
  then show ?thesis using assms(2) by (cases h) (simp add: opt_or_def)
qed

lemmas find_simps = FindFirst_TopK_def FindFirst_QuantileOverTime_def FindFirst_LRAOrUnwrap_def FindFirst_AggOperator_def

lemma planAggregators_selector:
  assumes "ql_BinOps s = []" "one_kind (ql_Head s)" "at_Paren (ql_Head s) = None" "at_StrSelector (ql_Head s) \<noteq> None"
  shows "planAggregators L s p = Inr p"
  using one_kindD(3) [OF assms(2) assms(4)]
  by (simp add: planAggregators_def find_simps find_in_atom [OF assms(1,3)] opt_or_def)

lemma maybeComparison_matrix: "maybeComparison L p c = Inr q \<Longrightarrow> IsMatrix p \<Longrightarrow> IsMatrix q"
  by (auto simp: maybeComparison_def rbind_Inr_iff split: option.splits)

lemma planAggregators_range:
  assumes "ql_BinOps s = []" "at_Paren (ql_Head s) = None"
    "at_LRAOrUnwrap (ql_Head s) \<noteq> None \<or> at_AggOperator (ql_Head s) \<noteq> None" "planAggregators L s p = Inr q"
  shows "IsMatrix q"
  using assms(3,4)
  by (auto simp: planAggregators_def find_simps find_in_atom [OF assms(1,2)] opt_or_def rbind_Inr_iff plan_range_def
      split: option.splits if_splits elim!: maybeComparison_matrix)

lemma ram_Plan_shape:
  assumes "ql_BinOps i = []" "one_kind (ql_Head i)" "at_Paren (ql_Head i) = None"
    "at_StrSelector (ql_Head i) \<noteq> None \<or> at_LRAOrUnwrap (ql_Head i) \<noteq> None \<or> at_AggOperator (ql_Head i) \<noteq> None"
    "ram_Plan L i inp = Inr p" "\<not> IsMatrix inp"
  shows "if at_StrSelector (ql_Head i) \<noteq> None then \<exists>q. p = ResponseOptimizerPlanner (LimitPlanner q) \<and> \<not> IsMatrix q
    else IsMatrix p"
proof -
  obtain sel where g: "GetStrSelector i = Some sel"
    using assms(5) by (cases "GetStrSelector i") (simp_all add: ram_Plan_def)
  obtain p1 where p1': "plan_stages L (sel_Pipelines sel) inp = Inr p1"
    "rbind (planAggregators L i p1) (\<lambda>p. Inr (if IsMatrix p then p else ResponseOptimizerPlanner (LimitPlanner p))) = Inr p"
    using assms(5) g by (cases "plan_stages L (sel_Pipelines sel) inp") (simp_all add: ram_Plan_def)
  then obtain p2 where p: "plan_stages L (sel_Pipelines sel) inp = Inr p1" "planAggregators L i p1 = Inr p2"
      "p = (if IsMatrix p2 then p2 else ResponseOptimizerPlanner (LimitPlanner p2))"
    by (cases "planAggregators L i p1") simp_all
  have p1: "\<not> IsMatrix p1" using plan_stages_not_matrix [OF p(1) assms(6)] .
  show ?thesis
  proof (cases "at_StrSelector (ql_Head i) = None")
    case True
    then have "IsMatrix p2" using planAggregators_range [OF assms(1,3) _ p(2)] assms(4) by blast
    then show ?thesis using True p(3) by simp
  next
    case False
    then have "p2 = p1" using planAggregators_selector [OF assms(1-3) False, of L p1] p(2) by simp
    then show ?thesis using False p(3) p1 by simp
  qed
qed

lemma MatrixPost_shape:
  "MatrixPostProcessors L s q = Inr p \<Longrightarrow>
     if IsMatrix q then \<exists>d. GetDuration L s = Inr d \<and> p = FixPeriodPlanner (ZeroEaterPlanner q) d else p = q"
  by (auto simp: MatrixPostProcessors_def rbind_Inr_iff)

lemma decidePlanMode_single:
  "\<not> IsBinary s \<Longrightarrow> at_Paren (ql_Head s) = None \<Longrightarrow> decidePlanMode L s = single_mode L s"
  by (simp add: decidePlanMode.simps [of L s] unwrapParens.simps [of s] Let_def)

lemma Plan_not_binary:
  assumes "\<not> IsBinary s" "at_Paren (ql_Head s) = None"
  shows "Plan L s = plan_single L s"
proof -
  have "unwrapParens s = s" using assms by (simp add: unwrapParens.simps [of s])
  then show ?thesis using assms(1) by (simp add: Plan.simps [of L s] validateBinaryOps.simps [of s])
qed

lemma plan_single_shape:
  assumes "\<not> IsBinary s" "one_kind (ql_Head s)" "at_Paren (ql_Head s) = None" "plan_single L s = Inr p"
  shows "if at_StrSelector (ql_Head s) \<noteq> None
    then (\<exists>s'. p = ClickhouseGetter s' True False) \<or>
         (\<exists>q. p = ResponseOptimizerPlanner (LimitPlanner q) \<and> \<not> IsMatrix q)
    else \<exists>q d. GetDuration L s = Inr d \<and> p = FixPeriodPlanner (ZeroEaterPlanner q) d \<and> IsMatrix q"
proof -
  obtain s1 where s1: "cancelJsonAndLogFmt s = Inr s1"
    and rest: "rbind (case decidePlanMode L s1 of
                PlanClickhouse \<Rightarrow> Inr (ClickhouseGetter s1 True (at_StrSelector (ql_Head s1) = None))
              | PlanInternal \<Rightarrow>
                  rbind (breakScript (GetBreakpoint s1) s1) (\<lambda>(ch, internal).
                    case internal of None \<Rightarrow> nil_deref
                    | Some i \<Rightarrow> ram_Plan L i (ClickhouseGetter ch False (at_StrSelector (ql_Head ch) = None))))
         (MatrixPostProcessors L s1) = Inr p"
    using assms(4) by (auto simp: plan_single_def rbind_Inr_iff)
  obtain x where x: "s1 = with_sel x s"
    using s1 by (auto simp: cancelJsonAndLogFmt_def rbind_Inr_iff split: option.splits)
  have kind: "same_kind (ql_Head s1) (ql_Head s)" and ops: "ql_BinOps s1 = []"
    using with_sel_same_kind [of x s] x assms(1) by (auto simp: IsBinary_def)
  have sel: "(at_StrSelector (ql_Head s1) = None) = (at_StrSelector (ql_Head s) = None)"
    and par: "at_Paren (ql_Head s1) = None" and one: "one_kind (ql_Head s1)"
    using kind assms(2,3) one_kind_same [OF kind] by (simp_all add: same_kind_def)
  have dur: "GetDuration L s1 = GetDuration L s" using x by (simp add: GetDuration_with_sel)
  have nb: "\<not> IsBinary s1" using ops by (simp add: IsBinary_def)
  have mode: "decidePlanMode L s1 = single_mode L s1" using decidePlanMode_single [OF nb par] .
  show ?thesis
  proof (cases "single_mode L s1")
    case PlanClickhouse
    then have "MatrixPostProcessors L s1 (ClickhouseGetter s1 True (at_StrSelector (ql_Head s1) = None)) = Inr p"
      using rest mode by simp
    from MatrixPost_shape [OF this] show ?thesis using sel dur by (auto split: if_splits)
  next
    case PlanInternal
    obtain ch i q where b: "breakScript (GetBreakpoint s1) s1 = Inr (ch, Some i)"
        "ram_Plan L i (ClickhouseGetter ch False (at_StrSelector (ql_Head ch) = None)) = Inr q"
        "MatrixPostProcessors L s1 q = Inr p"
      using rest mode PlanInternal by (auto simp: rbind_Inr_iff split: option.splits prod.splits)
    have bp: "GetBreakpoint s1 \<noteq> BreakpointNo" using PlanInternal by (auto simp: single_mode_def split: if_splits)
    have nt: "at_TopK (ql_Head s1) = None" "at_QuantileOverTime (ql_Head s1) = None"
      using b(1) one_kindD(6) [OF one] by (force simp: breakScript_def Let_def split: option.splits)+
    obtain chsel where ch: "ch = selector_script chsel"
      using breakScript_cut [OF bp one nt] b(1) by (auto simp: cut_ok_def)
    have i: "same_kind (ql_Head i) (ql_Head s1)" "ql_BinOps i = []"
      using breakScript_same_kind [OF b(1)] ops by auto
    have some: "at_StrSelector (ql_Head i) \<noteq> None \<or> at_LRAOrUnwrap (ql_Head i) \<noteq> None \<or> at_AggOperator (ql_Head i) \<noteq> None"
      using bp nt i(1) by (auto simp: GetBreakpoint_def Let_def same_kind_def split: option.splits)
    have one_i: "one_kind (ql_Head i)" and par_i: "at_Paren (ql_Head i) = None"
      and sel_i: "(at_StrSelector (ql_Head i) = None) = (at_StrSelector (ql_Head s) = None)"
      using one_kind_same [OF i(1)] one par i(1) sel by (auto simp: same_kind_def)
    have nm: "\<not> IsMatrix (ClickhouseGetter ch False (at_StrSelector (ql_Head ch) = None) :: 'a proc)"
      by (simp add: ch selector_script_def)
    from ram_Plan_shape [OF i(2) one_i par_i some b(2) nm] MatrixPost_shape [OF b(3)] sel_i dur
    show ?thesis by (auto split: if_splits)
  qed
qed

text \<open>
  C31: the shape of a plan, for a script that is no binary expression, has one kind of head and no
  parentheses around it. The plan of a log query is a bare getter of log rows, or it ends in the
  limit and the regrouping and gives no matrix; the plan of a metric query ends in the removal of
  zeros and the re-sampling on the steps of the request, with the duration of the query. Binary
  expressions are not covered: they end in the removal of zeros without a re-sampling.
\<close>

theorem Plan_shape:
  assumes "\<not> IsBinary s" "one_kind (ql_Head s)" "at_Paren (ql_Head s) = None" "Plan L s = Inr p"
  shows "if at_StrSelector (ql_Head s) \<noteq> None
    then (\<exists>s'. p = ClickhouseGetter s' True False) \<or>
         (\<exists>q. p = ResponseOptimizerPlanner (LimitPlanner q) \<and> \<not> IsMatrix q)
    else \<exists>q d. GetDuration L s = Inr d \<and> p = FixPeriodPlanner (ZeroEaterPlanner q) d \<and> IsMatrix q"
  using assms(4) by (intro plan_single_shape [OF assms(1-3)]) (simp add: Plan_not_binary [OF assms(1,3)])

definition lra_script :: "string \<Rightarrow> StrSelectorPipeline list \<Rightarrow> LogQLScript" where
  "lra_script fn ps = LogQLScript (AtomExpr None None
     (Some \<lparr>lra_Fn = fn, lra_ByOrWithoutPrefix = None, lra_StrSel = \<lparr>sel_StrSelCmds = [], sel_Pipelines = ps\<rparr>,
            lra_Time = ''60'', lra_TimeUnit = ''s'', lra_Offset = None, lra_ByOrWithoutSuffix = None, lra_Comparison = None\<rparr>)
     None None None None '''') []"

lemmas plan_eval = plan_single_def Let_def IsBinary_def cancelJsonAndLogFmt_def GetStrSelector_def with_sel_def map_head_def
  lra_with_sel_def GetBreakpoint_def lra_breakpoint_def sel_breakpoint_def needs_internal_def
  single_mode_def BreakpointNo_def BreakpointLra_def AnalyzeMetrics15sShortcut_def opt_or_def
  lra_duration_def breakScript_def break_lra_def break_sel_def selector_script_def
  ram_Plan_def plan_stage_def planAggregators_def find_simps plan_range_def has_unwrap_def maybeComparison_def
  MatrixPostProcessors_def int_lib_def digits_val_def

lemma example_mode: "decidePlanMode int_lib (lra_script ''rate'' [parser_stage_of ''json'']) = PlanInternal"
  by (subst decidePlanMode_single) (simp_all add: plan_eval lra_script_def parser_stage_of_def no_stage_def)

lemma example_plan:
  "Plan int_lib (lra_script ''rate'' [parser_stage_of ''json'']) =
     Inr (FixPeriodPlanner (ZeroEaterPlanner (LRAPlanner (ParserPlanner
       (ClickhouseGetter (selector_script \<lparr>sel_StrSelCmds = [], sel_Pipelines = []\<rparr>) False False) ''json'' [] [])
       60000000000 ''rate'')) 60000000000)"
proof -
  let ?s = "lra_script ''rate'' [parser_stage_of ''json'']"
  have "Plan int_lib ?s = plan_single int_lib ?s"
    by (rule Plan_not_binary) (simp_all add: IsBinary_def lra_script_def)
  also have "\<dots> = rbind (rbind (breakScript (GetBreakpoint ?s) ?s) (\<lambda>(ch, internal).
      case internal of None \<Rightarrow> nil_deref
      | Some i \<Rightarrow> ram_Plan int_lib i (ClickhouseGetter ch False (at_StrSelector (ql_Head ch) = None))))
      (MatrixPostProcessors int_lib ?s)"
  proof -
    have "cancelJsonAndLogFmt ?s = Inr ?s"
      by (simp add: cancelJsonAndLogFmt_def GetStrSelector_def with_sel_def map_head_def lra_with_sel_def lra_script_def)
    then show ?thesis by (simp add: plan_single_def example_mode)
  qed
  also have "\<dots> = Inr (FixPeriodPlanner (ZeroEaterPlanner (LRAPlanner (ParserPlanner
       (ClickhouseGetter (selector_script \<lparr>sel_StrSelCmds = [], sel_Pipelines = []\<rparr>) False False) ''json'' [] [])
       60000000000 ''rate'')) 60000000000)"
    by (simp add: plan_eval lra_script_def parser_stage_of_def no_stage_def)
  finally show ?thesis .
qed

theorem Plan_shape_witness:
  "\<exists>q d. Plan int_lib (lra_script ''rate'' [parser_stage_of ''json'']) = Inr (FixPeriodPlanner (ZeroEaterPlanner q) d) \<and>
     IsMatrix q"
proof -
  have "\<not> IsBinary (lra_script ''rate'' [parser_stage_of ''json''])" "one_kind (ql_Head (lra_script ''rate'' [parser_stage_of ''json'']))"
    "at_Paren (ql_Head (lra_script ''rate'' [parser_stage_of ''json''])) = None"
    "at_StrSelector (ql_Head (lra_script ''rate'' [parser_stage_of ''json''])) = None"
    by (simp_all add: IsBinary_def one_kind_def lra_script_def)
  with Plan_shape [OF this(1-3) example_plan] show ?thesis by (simp only: if_False) (use example_plan in auto)
qed

text \<open>
  a number as the left operand in process. If some operand of a binary expression needs
  in-process evaluation and the first operand is a number, as in \<open>2 * rate({a="b"} | json [1m])\<close>,
  the planner plans the number as a query of its own and panics on the missing selector.
\<close>

theorem scalar_head_panics:
  assumes "IsBinary s" "validateBinaryOps s = Inr ()" "decidePlanMode L s = PlanInternal"
    "one_kind (ql_Head s)" "at_Scalar (ql_Head s) \<noteq> ''''"
  shows "Plan L s = nil_deref"
proof -
  let ?h = "LogQLScript (ql_Head s) []"
  note none = one_kindD(5) [OF assms(4,5)]
  have u: "unwrapParens s = s" using assms(1) by (simp add: unwrapParens.simps)
  have "atom_script (ql_Head s) = ?h" using none by (simp add: atom_script_def)
  moreover have "Plan L ?h = plan_single L ?h" by (rule Plan_not_binary) (simp_all add: none IsBinary_def)
  moreover have "plan_single L ?h = nil_deref"
    by (simp add: plan_single_def cancelJsonAndLogFmt_def GetStrSelector_def none)
  ultimately show ?thesis
    using assms(1-3) by (simp add: Plan.simps [of L s] u Let_def)
qed

definition scalar_times_rate :: LogQLScript where
  "scalar_times_rate = LogQLScript (scalar_atom ''2'')
     [BinOpPart ''*'' (ql_Head (lra_script ''rate'' [parser_stage_of ''json'']))]"

theorem scalar_head_panics_witness: "Plan int_lib scalar_times_rate = nil_deref"
proof (rule scalar_head_panics)
  let ?l = "ql_Head (lra_script ''rate'' [parser_stage_of ''json''])"
  have l: "LogQLScript ?l [] = lra_script ''rate'' [parser_stage_of ''json'']" "at_Paren ?l = None" "at_Scalar ?l = ''''"
    "at_StrSelector ?l = None"
    by (simp_all add: lra_script_def)
  show bin: "IsBinary scalar_times_rate" by (simp add: IsBinary_def scalar_times_rate_def)
  show "validateBinaryOps scalar_times_rate = Inr ()"
    by (simp add: validate_leaves(1) leaf_atoms.simps all_atoms_def scalar_times_rate_def scalar_atom_def raw_operand_def l)
  show "one_kind (ql_Head scalar_times_rate)" "at_Scalar (ql_Head scalar_times_rate) \<noteq> ''''"
    by (simp_all add: one_kind_def scalar_times_rate_def scalar_atom_def)
  have "unwrapParens scalar_times_rate = scalar_times_rate" using bin by (simp add: unwrapParens.simps)
  then show "decidePlanMode int_lib scalar_times_rate = PlanInternal"
    using bin by (subst decidePlanMode.simps)
      (simp add: Let_def all_atoms_def scalar_times_rate_def scalar_atom_def l example_mode)
qed

end
