(* ===== verification/Matrix_Post_Correct.thy ===== *)
theory Matrix_Post_Correct
  imports Ram_Run Logql_Plan_Correct
begin

section \<open>Correctness of the matrix post-processing\<close>

text \<open>
  The doubling fill is a plain fill; re-sampling puts the window value of a series on the steps
  of the request; a binary expression in process is the join of two matrices on fingerprint and
  time, in order; and the context that re-sampling changes makes the operands of a binary
  expression miss each other.
\<close>

subsection \<open>The doubling fill\<close>

lemma fill_loop_replicate:
  "0 < l \<Longrightarrow> take l v = replicate (min l (length v)) x \<Longrightarrow> fill_loop l v = replicate (length v) x"
proof (induction l v rule: fill_loop.induct)
  case (1 l v)
  show ?case
  proof (cases "l < length v")
    case True
    let ?v = "take l v @ take (length v - l) (take l v) @ drop (l + min l (length v - l)) v"
    have t: "take l v = replicate l x" using 1(3) True by simp
    have len: "length ?v = length v" using True by simp
    have "take (l * 2) ?v = replicate (min (l * 2) (length ?v)) x"
    proof (cases "l * 2 \<le> length v")
      case True
      then show ?thesis using t by (simp add: min_def replicate_add [symmetric])
    next
      case False
      then have "?v = replicate (length v) x" using t \<open>l < length v\<close>
        by (simp add: min_def replicate_add [symmetric])
      then show ?thesis by (simp add: min_def)
    qed
    then have "fill_loop (l * 2) ?v = replicate (length ?v) x"
      using 1(1) 1(2) True by simp
    then show ?thesis using True 1(2) len by (simp add: fill_loop.simps [of l v])
  next
    case False
    then show ?thesis using 1(3) by (simp add: fill_loop.simps [of l v])
  qed
qed

lemma fastFill_replicate:
  "fastFill v x = (if v = [] then Inl (Panic ''index out of range'') else Inr (replicate (length v) x))"
proof (cases v)
  case (Cons y ys)
  have "fill_loop 1 (x # ys) = replicate (length (x # ys)) x"
    by (rule fill_loop_replicate) simp_all
  then show ?thesis using Cons by (simp add: fastFill_def)
qed (simp add: fastFill_def)

text \<open>
  the doubling fill. \<open>fastFill\<close> terminates, writes the value into every cell of a non-empty
  slice and keeps its length; on an empty slice it panics.
\<close>

theorem fastFill_fills:
  "fastFill v x = (if v = [] then Inl (Panic ''index out of range'') else Inr (map (\<lambda>_. x) v))"
  by (simp add: fastFill_replicate map_replicate_const)

subsection \<open>Draining a matrix\<close>

definition sample_key :: "'v LogEntry \<Rightarrow> sampleKey" where
  "sample_key e = (Fingerprint e, TimestampNS e)"

text \<open>The entries before the end marker, and the last of them with a given key.\<close>

definition samples_of :: "'v stream \<Rightarrow> 'v batch" where
  "samples_of bs = takeWhile (\<lambda>e. Err e \<noteq> Some EOF) (concat bs)"

definition sample_at :: "'v batch \<Rightarrow> sampleKey \<Rightarrow> 'v LogEntry option" where
  "sample_at es k = find (\<lambda>e. sample_key e = k) (rev es)"

lemma find_append: "find P (xs @ ys) = (case find P xs of None \<Rightarrow> find P ys | Some x \<Rightarrow> Some x)"
  by (induction xs) auto

lemma drain_entries_ok:
  assumes "list_all (\<lambda>e. Err e = None) (takeWhile (\<lambda>e. Err e \<noteq> Some EOF) es)" "go_map m"
  shows "\<exists>m'. drain_entries es m = Inr m' \<and> go_map m' \<and>
    (\<forall>k. map_of m' k = (case sample_at (takeWhile (\<lambda>e. Err e \<noteq> Some EOF) es) k of None \<Rightarrow> map_of m k | Some e \<Rightarrow> Some e))"
  using assms
proof (induction es arbitrary: m)
  case (Cons e es)
  show ?case
  proof (cases "Err e = Some EOF")
    case True
    then show ?thesis using Cons.prems(2) by (simp add: sample_at_def)
  next
    case False
    then have none: "Err e = None" using Cons.prems(1) by simp
    let ?m = "map_put (Fingerprint e, TimestampNS e) e m"
    obtain m' where m': "drain_entries es ?m = Inr m'" "go_map m'"
        "\<forall>k. map_of m' k = (case sample_at (takeWhile (\<lambda>e. Err e \<noteq> Some EOF) es) k of
                             None \<Rightarrow> map_of ?m k | Some e \<Rightarrow> Some e)"
      using Cons.IH [of ?m] Cons.prems none by auto
    then show ?thesis
      using none by (auto simp: sample_at_def find_append sample_key_def split: option.split)
  qed
qed (simp add: sample_at_def)

lemma drainMatrix_ok:
  assumes "list_all (\<lambda>e. Err e = None) (samples_of bs)"
  shows "\<exists>m. drainMatrix bs = Inr m \<and> go_map m \<and> (\<forall>k. map_of m k = sample_at (samples_of bs) k)"
  using drain_entries_ok [of "concat bs" "[]"] assms
  by (auto simp: drainMatrix_def samples_of_def go_map_def fun_eq_iff split: option.split)

subsection \<open>The join of two matrices\<close>

lemma chunk100_batches:
  "concat (chunk100 L es) = es @ [err_entry L EOF] \<and> list_all (\<lambda>b. b \<noteq> [] \<and> length b \<le> 100) (chunk100 L es)"
proof (induction L es rule: chunk100.induct)
  case (1 L es)
  show ?case
  proof (cases "length es < 100")
    case True
    then show ?thesis by (simp add: chunk100.simps [of L es])
  next
    case False
    then show ?thesis
      using 1 by (auto simp: chunk100.simps [of L es])
  qed
qed

lemma find_map_keys:
  assumes "\<And>k. k \<in> set ks \<Longrightarrow> sample_key (f k) = k"
  shows "find (\<lambda>e. sample_key e = k) (map f ks) = (if k \<in> set ks then Some (f k) else None)"
  using assms by (induction ks) auto

lemma sample_at_key: "sample_at es k = Some e \<Longrightarrow> sample_key e = k"
  by (auto simp: sample_at_def find_Some_iff)

lemma sorted_keys:
  assumes "go_map (m :: 'v sample_map)" "\<And>k. k \<in> fst ` set m \<Longrightarrow> P k \<Longrightarrow> sample_key (f k) = k"
  shows "sorted_wrt (<) (map sample_key (map f (sort (filter P (map fst m)))))"
proof -
  let ?ks = "sort (filter P (map fst m))"
  have "map sample_key (map f ?ks) = ?ks"
    unfolding map_map by (rule map_idI) (use assms(2) in auto)
  moreover have "distinct ?ks" using assms(1) by (simp add: go_map_def)
  ultimately show ?thesis by (simp add: strict_sorted_iff)
qed

text \<open>The sample a binary operation gives at a key.\<close>

definition joined :: "'v lib \<Rightarrow> string \<Rightarrow> 'v LogEntry option \<Rightarrow> 'v LogEntry option \<Rightarrow> 'v LogEntry option" where
  "joined L op x y =
     (case (x, y) of (Some a, Some b) \<Rightarrow> Some (a\<lparr>Value := applyBinaryOp L (Value a) op (Value b)\<rparr>) | _ \<Rightarrow> None)"

lemma emitBinary_join:
  assumes lm: "go_map lm" "\<And>k. map_of lm k = sample_at ls k" and rm: "\<And>k. map_of rm k = sample_at rs k"
  shows "\<exists>es. concat (emitBinary L lm rm op) = es @ [err_entry L EOF] \<and>
    list_all (\<lambda>b. b \<noteq> [] \<and> length b \<le> 100) (emitBinary L lm rm op) \<and> sorted_wrt (<) (map sample_key es) \<and>
    (\<forall>k. find (\<lambda>e. sample_key e = k) es = joined L op (sample_at ls k) (sample_at rs k))"
proof -
  let ?f = "\<lambda>k. let e = the (map_of lm k) in e\<lparr>Value := applyBinaryOp L (Value e) op (Value (the (map_of rm k)))\<rparr>"
  let ?P = "\<lambda>k. map_of rm k \<noteq> None"
  let ?es = "map ?f (sort (filter ?P (map fst lm)))"
  have key: "sample_key (?f k) = k" if k: "k \<in> fst ` set lm" for k
  proof -
    obtain e where e: "map_of lm k = Some e" using k by (metis domD dom_map_of_conv_image_fst)
    then have "sample_key e = k" using lm(2) sample_at_key by metis
    then show ?thesis by (simp add: e sample_key_def)
  qed
  have "find (\<lambda>e. sample_key e = k) ?es = joined L op (sample_at ls k) (sample_at rs k)" for k
  proof -
    have "find (\<lambda>e. sample_key e = k) ?es = (if k \<in> set (sort (filter ?P (map fst lm))) then Some (?f k) else None)"
      by (rule find_map_keys) (use key in auto)
    moreover have "k \<in> fst ` set lm \<longleftrightarrow> map_of lm k \<noteq> None" by (simp add: map_of_eq_None_iff)
    ultimately show ?thesis by (auto simp: joined_def lm(2) rm split: option.split)
  qed
  moreover have "sorted_wrt (<) (map sample_key ?es)" by (rule sorted_keys [OF lm(1)]) (rule key)
  ultimately show ?thesis
    using chunk100_batches [of L ?es] by (intro exI [of _ ?es] conjI) (simp_all add: emitBinary_def)
qed

lemma BinaryExpr_result:
  assumes "list_all (\<lambda>e. Err e = None) (samples_of l)" "list_all (\<lambda>e. Err e = None) (samples_of r)"
  shows "\<exists>out es. BinaryExpr_Process L op (Inr l) (Inr r) = Inr out \<and> concat out = es @ [err_entry L EOF] \<and>
    list_all (\<lambda>b. b \<noteq> [] \<and> length b \<le> 100) out \<and> sorted_wrt (<) (map sample_key es) \<and>
    (\<forall>k. find (\<lambda>e. sample_key e = k) es = joined L op (sample_at (samples_of l) k) (sample_at (samples_of r) k))"
proof -
  obtain lm where lm: "drainMatrix l = Inr lm" "go_map lm" "\<And>k. map_of lm k = sample_at (samples_of l) k"
    using drainMatrix_ok [OF assms(1)] by auto
  obtain rm where rm: "drainMatrix r = Inr rm" "\<And>k. map_of rm k = sample_at (samples_of r) k"
    using drainMatrix_ok [OF assms(2)] by auto
  show ?thesis using emitBinary_join [OF lm(2,3) rm(2)] by (simp add: BinaryExpr_Process_def lm(1) rm(1))
qed

text \<open>
  C16: a binary expression in process. For two matrices without errors the result has, for every
  fingerprint and time at which both sides have a sample, exactly one sample: the left one with
  the value of the operation on the two values (the last sample counts where a side has
  several), and none elsewhere. The samples come in the order of fingerprint and time, in
  batches of at most one hundred, followed by the end marker.
\<close>

theorem BinaryExpr_join:
  assumes "list_all (\<lambda>e. Err e = None) (samples_of l)" "list_all (\<lambda>e. Err e = None) (samples_of r)"
  shows "\<exists>out es. BinaryExpr_Process L op (Inr l) (Inr r) = Inr out \<and> concat out = es @ [err_entry L EOF] \<and>
    list_all (\<lambda>b. b \<noteq> [] \<and> length b \<le> 100) out \<and> sorted_wrt (<) (map sample_key es) \<and>
    (\<forall>k. find (\<lambda>e. sample_key e = k) es = joined L op (sample_at (samples_of l) k) (sample_at (samples_of r) k))"
  by (rule BinaryExpr_result [OF assms])

theorem BinaryExpr_join_witness:
  "\<exists>out es. BinaryExpr_Process int_lib ''+'' (Inr [[entry_at 1 7 [] '''' 5, entry_at 2 7 [] '''' 6]]) (Inr [[entry_at 2 7 [] '''' 10]]) = Inr out \<and>
     concat out = es @ [err_entry int_lib EOF] \<and> find (\<lambda>e. sample_key e = (7, 2)) es = Some (entry_at 2 7 [] '''' 16) \<and>
     find (\<lambda>e. sample_key e = (7, 1)) es = None"
proof -
  have "list_all (\<lambda>e. Err e = None) (samples_of [[entry_at 1 7 [] '''' 5, entry_at 2 7 [] '''' (6::int)]])"
    "list_all (\<lambda>e. Err e = None) (samples_of [[entry_at 2 7 [] '''' (10::int)]])"
    by (simp_all add: samples_of_def entry_at_def)
  from BinaryExpr_join [OF this, of int_lib "''+''"] obtain out es where
    "BinaryExpr_Process int_lib ''+'' (Inr [[entry_at 1 7 [] '''' 5, entry_at 2 7 [] '''' 6]]) (Inr [[entry_at 2 7 [] '''' 10]]) = Inr out"
    "concat out = es @ [err_entry int_lib EOF]"
    and f: "\<forall>k. find (\<lambda>e. sample_key e = k) es = joined int_lib ''+''
       (sample_at (samples_of [[entry_at 1 7 [] '''' 5, entry_at 2 7 [] '''' 6]]) k) (sample_at (samples_of [[entry_at 2 7 [] '''' 10]]) k)"
    by blast
  moreover have "find (\<lambda>e. sample_key e = (7, 2)) es = Some (entry_at 2 7 [] '''' 16)"
    "find (\<lambda>e. sample_key e = (7, 1)) es = None"
    unfolding f [rule_format]
    by (simp_all add: joined_def sample_at_def samples_of_def sample_key_def entry_at_def applyBinaryOp_def int_lib_def)
  ultimately show ?thesis by blast
qed

subsection \<open>Re-sampling on the steps of the request\<close>

lemma div_le_iff: "0 < s \<Longrightarrow> a div s \<le> i \<longleftrightarrow> a < (i + 1) * s" for a s i :: int
proof -
  assume s: "0 < s"
  have lo: "a div s * s \<le> a" using pos_mod_sign [OF s, of a] div_mult_mod_eq [of a s] by linarith
  have "(a div s + 1) * s = a div s * s + s" by (simp add: distrib_right)
  then have hi: "a < (a div s + 1) * s" using pos_mod_bound [OF s, of a] div_mult_mod_eq [of a s] by linarith
  show "a div s \<le> i \<longleftrightarrow> a < (i + 1) * s"
  proof
    assume "a div s \<le> i"
    then have "(a div s + 1) * s \<le> (i + 1) * s" using s by (intro mult_right_mono) auto
    with hi show "a < (i + 1) * s" by linarith
  next
    assume a: "a < (i + 1) * s"
    show "a div s \<le> i"
    proof (rule ccontr)
      assume "\<not> a div s \<le> i"
      then have "(i + 1) * s \<le> a div s * s" using s by (intro mult_right_mono) auto
      with lo a show False by linarith
    qed
  qed
qed

text \<open>
  The steps an entry of the window from \<open>w\<close> to \<open>w + d\<close> is put on: those whose end lies in the
  window, and the first step also if the window ends less than a step from the start.
\<close>

definition step_covered :: "int \<Rightarrow> int \<Rightarrow> int \<Rightarrow> int \<Rightarrow> nat \<Rightarrow> bool" where
  "step_covered lo step d ts i \<longleftrightarrow>
     (let w = ts div d * d; end_of_step = lo + int i * step + step in
      w < end_of_step \<and> end_of_step \<le> w + d \<or> i = 0 \<and> lo - step < w + d \<and> w + d < lo + step)"

lemma fix_bounds:
  assumes "0 < step" "step \<le> d" "0 \<le> ts" "0 < n" "i < n"
    "fix_idx lo step d ts = (a, b)"
  shows "step_covered lo step d ts i \<longleftrightarrow>
    \<not> (b < 0 \<or> int n \<le> a) \<and> max a 0 \<le> int i \<and> int i < max (min b (int n)) (max a 0 + 1)"
proof -
  let ?w = "ts div d * d"
  have d: "0 < d" using assms by linarith
  have ab: "a = go_div (?w - lo) step" "b = go_div (?w + d - lo) step"
    using assms(3,6) d by (simp_all add: fix_idx_def go_div_nonneg algebra_simps)
  have i: "lo + int i * step + step = lo + (int i + 1) * step" by (simp add: algebra_simps)
  have pos: "0 < (int i + 1) * step" using assms(1) by simp
  have below: "x div step \<le> int i \<longleftrightarrow> x < (int i + 1) * step" for x
    using div_le_iff [OF assms(1), of x "int i"] .
  have above: "int i < x div step \<longleftrightarrow> (int i + 1) * step \<le> x" for x
    using below [of x] by linarith
  have zero: "x div step \<le> 0 \<longleftrightarrow> x < step" for x using div_le_iff [OF assms(1), of x 0] by simp
  consider (late) "lo \<le> ?w" | (over) "?w < lo" "lo \<le> ?w + d" | (early) "?w + d < lo" by linarith
  then show ?thesis
  proof cases
    case late
    have A: "a = (?w - lo) div step" and B: "b = (?w + d - lo) div step"
      using late assms(1) d ab by (simp_all add: go_div_nonneg)
    have a0: "0 \<le> a" using A late assms(1) by (simp add: pos_imp_zdiv_nonneg_iff)
    have "(?w - lo + step) div step \<le> (?w + d - lo) div step" using assms(1,2) by (intro zdiv_mono1) auto
    moreover have "(?w - lo + step) div step = a + 1" using A assms(1) by (subst div_add_self2) auto
    ultimately have "a + 1 \<le> b" using B by simp
    then have "(\<not> (b < 0 \<or> int n \<le> a) \<and> max a 0 \<le> int i \<and> int i < max (min b (int n)) (max a 0 + 1)) \<longleftrightarrow> a \<le> int i \<and> int i < b"
      using a0 assms(5) by auto
    also have "\<dots> \<longleftrightarrow> step_covered lo step d ts i"
      unfolding A B below above step_covered_def Let_def i using late assms(2) by auto
    finally show ?thesis by simp
  next
    case over
    have A: "a \<le> 0" using ab over assms(1) by (simp add: go_div_neg pos_imp_zdiv_nonneg_iff)
    have B: "b = (?w + d - lo) div step" using over assms(1) ab by (simp add: go_div_nonneg)
    have w: "?w < lo + (int i + 1) * step" using over pos by linarith
    have b0: "0 \<le> b" using B over assms(1) by (simp add: pos_imp_zdiv_nonneg_iff)
    have "(\<not> (b < 0 \<or> int n \<le> a) \<and> max a 0 \<le> int i \<and> int i < max (min b (int n)) (max a 0 + 1)) \<longleftrightarrow> int i < b \<or> (i = 0 \<and> b \<le> 0)"
      using A b0 assms(4,5) by auto
    also have "\<dots> \<longleftrightarrow> step_covered lo step d ts i"
      unfolding B above zero step_covered_def Let_def i using over assms(1) w by auto
    finally show ?thesis by simp
  next
    case early
    have A: "a \<le> 0" using ab early d assms(1) by (simp add: go_div_neg pos_imp_zdiv_nonneg_iff)
    have B: "b = - ((lo - (?w + d)) div step)" using early assms(1) ab by (simp add: go_div_neg)
    have nn: "0 \<le> (lo - (?w + d)) div step" using early assms(1) by (simp add: pos_imp_zdiv_nonneg_iff)
    have "(\<not> (b < 0 \<or> int n \<le> a) \<and> max a 0 \<le> int i \<and> int i < max (min b (int n)) (max a 0 + 1)) \<longleftrightarrow>
        i = 0 \<and> (lo - (?w + d)) div step \<le> 0"
      using A B nn assms(4,5) by auto
    also have "\<dots> \<longleftrightarrow> step_covered lo step d ts i"
    proof -
      have "\<not> lo + (int i + 1) * step \<le> ?w + d" using early pos by linarith
      then show ?thesis unfolding zero step_covered_def Let_def i using early by auto
    qed
    finally show ?thesis by simp
  qed
qed

text \<open>The value on step \<open>i\<close> after the entries \<open>es\<close>.\<close>

definition step_value :: "int \<Rightarrow> int \<Rightarrow> int \<Rightarrow> 'v \<Rightarrow> 'v batch \<Rightarrow> nat \<Rightarrow> 'v" where
  "step_value lo step d z es i =
     (case find (\<lambda>e. step_covered lo step d (TimestampNS e) i) (rev es) of None \<Rightarrow> z | Some e \<Rightarrow> Value e)"

lemma fill_slice_cells:
  assumes "i < j" "j \<le> length vs"
  shows "fill_slice vs i j v = Inr (map (\<lambda>k. if i \<le> k \<and> k < j then v else vs ! k) [0..<length vs])"
proof -
  have "take i vs @ replicate (j - i) v @ drop j vs = map (\<lambda>k. if i \<le> k \<and> k < j then v else vs ! k) [0..<length vs]"
    using assms by (intro nth_equalityI) (auto simp: nth_append)
  then show ?thesis using assms by (simp add: fill_slice_def fastFill_replicate min_absorb2)
qed

lemma fix_fill_cells:
  assumes "0 < step" "step \<le> d" "0 \<le> TimestampNS e" "vs \<noteq> []"
  shows "fix_fill lo step d e vs =
    Inr (map (\<lambda>i. if step_covered lo step d (TimestampNS e) i then Value e else vs ! i) [0..<length vs])"
proof -
  obtain a b where ab: "fix_idx lo step d (TimestampNS e) = (a, b)" by force
  let ?skip = "b < 0 \<or> int (length vs) \<le> a"
  let ?i = "max a 0" and ?j = "max (min b (int (length vs))) (max a 0 + 1)"
  have cov: "step_covered lo step d (TimestampNS e) k \<longleftrightarrow> \<not> ?skip \<and> ?i \<le> int k \<and> int k < ?j" if "k < length vs" for k
    using fix_bounds [OF assms(1-3) _ that ab] assms(4) by simp
  show ?thesis
  proof (cases ?skip)
    case True
    then have "map (\<lambda>i. if step_covered lo step d (TimestampNS e) i then Value e else vs ! i) [0..<length vs] = vs"
      using cov by (intro nth_equalityI) auto
    then show ?thesis using True by (simp add: fix_fill_def ab)
  next
    case False
    have fits: "0 < n \<Longrightarrow> \<not> n \<le> a \<Longrightarrow> max (min b n) (max a 0 + 1) \<le> n" for n :: int by auto
    have "?j \<le> int (length vs)" by (rule fits) (use assms(4) False in auto)
    then have bounds: "nat ?i < nat ?j" "nat ?j \<le> length vs" by (auto simp: nat_le_iff)
    have "fix_fill lo step d e vs = fill_slice vs (nat ?i) (nat ?j) (Value e)"
      using False by (simp add: fix_fill_def ab Let_def)
    also have "\<dots> = Inr (map (\<lambda>k. if nat ?i \<le> k \<and> k < nat ?j then Value e else vs ! k) [0..<length vs])"
      by (rule fill_slice_cells [OF bounds])
    finally show ?thesis using False cov by (auto simp: nat_le_iff zless_nat_eq_int_zless)
  qed
qed

lemma step_value_snoc:
  "step_value lo step d z (es @ [e]) i = (if step_covered lo step d (TimestampNS e) i then Value e else step_value lo step d z es i)"
  by (simp add: step_value_def)

lemma step_value_Cons:
  "step_value lo step d z (e # es) i =
     step_value lo step d (if step_covered lo step d (TimestampNS e) i then Value e else z) es i"
  by (simp add: step_value_def find_append split: option.split)

lemma fix_entries_group:
  assumes "0 < step" "step \<le> d" "fs_values st \<noteq> []"
    "\<forall>e\<in>set es. 0 \<le> TimestampNS e \<and> Fingerprint e = fs_fingerprint st"
  shows "fix_entries L lo hi step d (es @ rest) st = fix_entries L lo hi step d rest
    (st\<lparr>fs_values := map (\<lambda>i. step_value lo step d (fs_values st ! i) es i) [0..<length (fs_values st)]\<rparr>)"
  using assms(3,4)
proof (induction es arbitrary: st)
  case Nil
  have "map (\<lambda>i. step_value lo step d (fs_values st ! i) [] i) [0..<length (fs_values st)] = fs_values st"
    by (simp add: step_value_def map_nth)
  then show ?case by simp
next
  case (Cons e es)
  let ?vs = "map (\<lambda>i. if step_covered lo step d (TimestampNS e) i then Value e else fs_values st ! i) [0..<length (fs_values st)]"
  have e: "0 \<le> TimestampNS e" "Fingerprint e = fs_fingerprint st" using Cons.prems(2) by simp_all
  have "fix_entry L lo hi step d e st = Inr ([], st\<lparr>fs_values := ?vs\<rparr>)"
    using fix_fill_cells [OF assms(1,2) e(1) Cons.prems(1)] assms(1,2) e(2) by (simp add: fix_entry_def fix_switch_def)
  then have "fix_entries L lo hi step d ((e # es) @ rest) st = fix_entries L lo hi step d (es @ rest) (st\<lparr>fs_values := ?vs\<rparr>)"
    by (cases "fix_entries L lo hi step d (es @ rest) (st\<lparr>fs_values := ?vs\<rparr>)") simp_all
  also have "\<dots> = fix_entries L lo hi step d rest (st\<lparr>fs_values := ?vs\<rparr>
      \<lparr>fs_values := map (\<lambda>i. step_value lo step d (?vs ! i) es i) [0..<length ?vs]\<rparr>)"
    using Cons.IH [of "st\<lparr>fs_values := ?vs\<rparr>"] Cons.prems by simp
  also have "map (\<lambda>i. step_value lo step d (?vs ! i) es i) [0..<length ?vs] =
      map (\<lambda>i. step_value lo step d (fs_values st ! i) (e # es) i) [0..<length (fs_values st)]"
    by (simp add: step_value_Cons)
  finally show ?case by simp
qed

text \<open>The samples of one series on the steps from \<open>lo\<close> to \<open>hi\<close>; zeros are left out.\<close>

definition resampled :: "'v lib \<Rightarrow> int \<Rightarrow> int \<Rightarrow> int \<Rightarrow> int \<Rightarrow> 'v batch \<Rightarrow> 'v batch" where
  "resampled L lo hi step d g =
     map (\<lambda>i. \<lparr>TimestampNS = lo + int i * step, Fingerprint = Fingerprint (hd g), Labels = Labels (hd g),
               Message = '''', Value = step_value lo step d (f_zero L) g i, Err = None\<rparr>)
       (filter (\<lambda>i. \<not> f_eq L (step_value lo step d (f_zero L) g i) (f_zero L)) [0..<nat ((hi - lo) div step) + 1])"

definition non_empty :: "'v batch \<Rightarrow> 'v stream" where
  "non_empty b = (if b = [] then [] else [b])"

lemma exportEntries_cells:
  "exportEntries L lo step \<lparr>fs_values = map f [0..<n], fs_fingerprint = k, fs_labels = l\<rparr> =
     non_empty (map (\<lambda>i. \<lparr>TimestampNS = lo + int i * step, Fingerprint = k, Labels = l, Message = '''', Value = f i, Err = None\<rparr>)
       (filter (\<lambda>i. \<not> f_eq L (f i) (f_zero L)) [0..<n]))"
proof -
  have "enumerate 0 (map f [0..<n]) = map (\<lambda>i. (i, f i)) [0..<n]"
    by (intro nth_equalityI) (simp_all add: nth_enumerate_eq)
  then show ?thesis by (simp add: exportEntries_def non_empty_def filter_map o_def)
qed

text \<open>A run of entries of one series.\<close>

definition series_run :: "'v batch \<Rightarrow> bool" where
  "series_run g \<longleftrightarrow> g \<noteq> [] \<and> list_all (\<lambda>e. 0 \<le> TimestampNS e \<and> Fingerprint e = Fingerprint (hd g)) g"

fun runs_from :: "64 word \<Rightarrow> 'v batch list \<Rightarrow> bool" where
  "runs_from k [] = True"
| "runs_from k (g # gs) = (series_run g \<and> Fingerprint (hd g) \<noteq> k \<and> runs_from (Fingerprint (hd g)) gs)"

lemma fix_entries_runs:
  assumes "0 < step" "step \<le> d" "lo \<le> hi" "runs_from (fs_fingerprint st) gs"
  shows "fix_entries L lo hi step d (concat gs) st =
    Inr (exportEntries L lo step st @ concat (map (\<lambda>g. non_empty (resampled L lo hi step d g)) gs))"
  using assms(4)
proof (induction gs arbitrary: st)
  case (Cons g gs)
  let ?n = "nat ((hi - lo) div step) + 1" and ?k = "Fingerprint (hd g)"
  define s0 where "s0 = \<lparr>fs_values = replicate ?n (f_zero L), fs_fingerprint = ?k, fs_labels = Labels (hd g)\<rparr>"
  let ?s1 = "\<lparr>fs_values = map (step_value lo step d (f_zero L) g) [0..<?n], fs_fingerprint = ?k, fs_labels = Labels (hd g)\<rparr>"
  obtain e es where g: "g = e # es" using Cons.prems by (auto simp: series_run_def neq_Nil_conv)
  have q: "0 \<le> (hi - lo) div step" using assms(1,3) by (simp add: pos_imp_zdiv_nonneg_iff)
  have len: "nat (go_div (hi - lo) step + 1) = ?n" "\<not> go_div (hi - lo) step + 1 < 0"
    using q assms(1,3) by (simp_all add: go_div_nonneg nat_add_distrib)
  have sw: "fix_switch L lo hi step e st = Inr (exportEntries L lo step st, s0)"
    using Cons.prems len g by (simp add: fix_switch_def s0_def)
  have sw0: "fix_switch L lo hi step e s0 = Inr ([], s0)" by (simp add: fix_switch_def g s0_def)
  have "0 \<le> TimestampNS e" "fs_values s0 \<noteq> []" using Cons.prems g by (simp_all add: series_run_def s0_def)
  then obtain vs where vs: "fix_fill lo step d e (fs_values s0) = Inr vs"
    using fix_fill_cells [OF assms(1,2)] by blast
  have "fix_entry L lo hi step d e st = Inr (exportEntries L lo step st, s0\<lparr>fs_values := vs\<rparr>)"
    "fix_entry L lo hi step d e s0 = Inr ([], s0\<lparr>fs_values := vs\<rparr>)"
    using assms(1,2) by (simp_all add: fix_entry_def sw sw0 vs)
  then have "fix_entries L lo hi step d (concat (g # gs)) st =
      rbind (fix_entries L lo hi step d (g @ concat gs) s0) (\<lambda>out. Inr (exportEntries L lo step st @ out))"
    by (cases "fix_entries L lo hi step d (es @ concat gs) (s0\<lparr>fs_values := vs\<rparr>)") (simp_all add: g)
  also have "fix_entries L lo hi step d (g @ concat gs) s0 = fix_entries L lo hi step d (concat gs) ?s1"
  proof -
    have cells: "map (\<lambda>i. step_value lo step d (replicate ?n (f_zero L) ! i) g i) [0..<?n] =
        map (step_value lo step d (f_zero L) g) [0..<?n]"
      by (rule map_cong) (simp_all del: replicate_Suc upt_Suc)
    have v: "fs_values s0 = replicate ?n (f_zero L)" by (simp add: s0_def)
    have upd: "s0\<lparr>fs_values := x\<rparr> = \<lparr>fs_values = x, fs_fingerprint = ?k, fs_labels = Labels (hd g)\<rparr>" for x
      by (simp add: s0_def)
    have "fix_entries L lo hi step d (g @ concat gs) s0 = fix_entries L lo hi step d (concat gs)
      (s0\<lparr>fs_values := map (\<lambda>i. step_value lo step d (fs_values s0 ! i) g i) [0..<length (fs_values s0)]\<rparr>)"
    proof (rule fix_entries_group [OF assms(1,2)])
      have fp: "fs_fingerprint s0 = ?k" by (simp add: s0_def)
      show "\<forall>e\<in>set g. 0 \<le> TimestampNS e \<and> Fingerprint e = fs_fingerprint s0"
        unfolding fp using Cons.prems unfolding runs_from.simps series_run_def list_all_iff by blast
    qed (simp add: s0_def)
    then show ?thesis by (simp only: v upd cells length_replicate)
  qed
  also have "fix_entries L lo hi step d (concat gs) ?s1 = Inr (exportEntries L lo step ?s1 @
      concat (map (\<lambda>g. non_empty (resampled L lo hi step d g)) gs))"
    using Cons by simp
  also have "exportEntries L lo step ?s1 = non_empty (resampled L lo hi step d g)"
    by (simp add: exportEntries_cells resampled_def del: upt_Suc)
  finally show ?case by simp
qed simp

text \<open>
  C17: re-sampling. Let the step be positive and no longer than the duration, the start not after
  the end, no entry have a negative time, and the first entry have a fingerprint other than 0. The
  input, cut into its runs of equal fingerprints, gives one batch per run (none if it has no
  value): for each step of the request from the start to the end, at the time of the step, the
  value of the last entry that covers it, with the fingerprint and labels of the run; steps with
  value zero or without an entry are left out. An entry covers a step if its window, the multiple
  of the duration it falls in, contains the end of the step; it covers the first step also if its
  window ends less than a step before or after the start, that is, possibly without containing
  the end of that step (\<open>step_covered\<close>): the code always fills at least one cell.
\<close>

theorem FixPeriod_resamples:
  assumes "0 < ctx_Step ctx" "ctx_Step ctx \<le> d" "ctx_From ctx \<le> ctx_To ctx" "concat bs = concat gs" "runs_from 0 gs"
  shows "FixPeriod_Process L ctx d (Inr bs) =
    Inr (concat (map (\<lambda>g. non_empty (resampled L (ctx_From ctx) (ctx_To ctx) (ctx_Step ctx) d g)) gs))"
  using fix_entries_runs [OF assms(1-3), of "\<lparr>fs_values = [], fs_fingerprint = 0, fs_labels = None\<rparr>" gs L] assms(4,5)
  by (simp add: FixPeriod_Process_def exportEntries_def)

definition fix_example_ctx :: ram_ctx where
  "fix_example_ctx = example_ctx\<lparr>ctx_From := 7, ctx_To := 20, ctx_Step := 5\<rparr>"

theorem FixPeriod_resamples_witness:
  "FixPeriod_Process int_lib fix_example_ctx 10 (Inr [[entry_at 0 7 [] '''' 3, entry_at 10 7 [] '''' 4]]) =
     Inr [[entry_at 7 7 [] '''' 4, entry_at 12 7 [] '''' 4]]"
proof -
  have "FixPeriod_Process int_lib fix_example_ctx 10 (Inr [[entry_at 0 7 [] '''' 3, entry_at 10 7 [] '''' 4]]) =
    Inr (concat (map (\<lambda>g. non_empty (resampled int_lib (ctx_From fix_example_ctx) (ctx_To fix_example_ctx) (ctx_Step fix_example_ctx) 10 g))
      [[entry_at 0 7 [] '''' 3, entry_at 10 7 [] '''' 4]]))"
    by (rule FixPeriod_resamples) (simp_all add: fix_example_ctx_def series_run_def entry_at_def)
  then show ?thesis
    by (simp add: fix_example_ctx_def non_empty_def resampled_def step_value_def step_covered_def entry_at_def int_lib_def
        upt_rec numeral_3_eq_3)
qed

subsection \<open>The context shared by the operands\<close>

text \<open>Every sample that re-sampling gives lies on the grid of the context it ran in.\<close>

definition on_grid :: "int \<Rightarrow> int \<Rightarrow> 'v LogEntry \<Rightarrow> bool" where
  "on_grid lo step e \<longleftrightarrow> Err e = None \<and> TimestampNS e mod step = lo mod step"

lemma exportEntries_grid: "list_all (list_all (on_grid lo step)) (exportEntries L lo step st)"
  by (auto simp: exportEntries_def list_all_iff on_grid_def)

lemma fix_entries_grid:
  "fix_entries L lo hi step d es st = Inr out \<Longrightarrow> list_all (list_all (on_grid lo step)) out"
proof (induction es arbitrary: st out)
  case Nil
  then show ?case using exportEntries_grid by auto
next
  case (Cons e es)
  then obtain o1 s1 o2 where o: "fix_entry L lo hi step d e st = Inr (o1, s1)"
      "fix_entries L lo hi step d es s1 = Inr o2" "out = o1 @ o2"
    by (auto simp: rbind_Inr_iff)
  have "o1 = [] \<or> o1 = exportEntries L lo step st"
    using o(1) by (auto simp: fix_entry_def fix_switch_def rbind_Inr_iff split: if_splits)
  then show ?case using Cons.IH [OF o(2)] exportEntries_grid [of lo step L st] o(3) by auto
qed

lemma FixPeriod_grid:
  assumes "FixPeriod_Process L ctx d inp = Inr out"
  shows "list_all (on_grid (ctx_From ctx) (ctx_Step ctx)) (samples_of out)"
proof -
  have "list_all (on_grid (ctx_From ctx) (ctx_Step ctx)) (concat out)"
    using assms fix_entries_grid by (fastforce simp: FixPeriod_Process_def rbind_Inr_iff list_all_iff)
  then show ?thesis unfolding samples_of_def list_all_iff using set_takeWhileD by metis
qed

lemma sample_at_in: "sample_at es k = Some e \<Longrightarrow> e \<in> set es"
  by (auto simp: sample_at_def find_Some_iff) (metis nth_mem set_rev length_rev)

text \<open>Processors that leave the context alone.\<close>

fun keeps_ctx :: "'v proc \<Rightarrow> bool" where
  "keeps_ctx (ClickhouseGetter s fin matrix) = True"
| "keeps_ctx (ClickhouseBinary s) = True"
| "keeps_ctx (LineFilterPlanner p f) = keeps_ctx p"
| "keeps_ctx (LabelFormatPlanner p f) = keeps_ctx p"
| "keeps_ctx (LabelFilterPlanner p f) = keeps_ctx p"
| "keeps_ctx (LineFormatterPlanner p t) = keeps_ctx p"
| "keeps_ctx (UnwrapPlanner p l) = keeps_ctx p"
| "keeps_ctx (ParserPlanner p op names vals) = keeps_ctx p"
| "keeps_ctx (DropPlanner p ps) = keeps_ctx p"
| "keeps_ctx (KeepPlanner p ps) = keeps_ctx p"
| "keeps_ctx (ByWithoutPlanner p by ls) = keeps_ctx p"
| "keeps_ctx (LRAPlanner p d fn) = keeps_ctx p"
| "keeps_ctx (UnwrapAggPlanner p d fn) = keeps_ctx p"
| "keeps_ctx (AggOpPlanner p d fn) = keeps_ctx p"
| "keeps_ctx (ComparisonPlanner p op v) = keeps_ctx p"
| "keeps_ctx (LimitPlanner p) = keeps_ctx p"
| "keeps_ctx (ResponseOptimizerPlanner p) = keeps_ctx p"
| "keeps_ctx (ZeroEaterPlanner p) = keeps_ctx p"
| "keeps_ctx (FixPeriodPlanner p d) = False"
| "keeps_ctx (BinaryScalar p op v) = keeps_ctx p"
| "keeps_ctx (BinaryExpr p op q) = (keeps_ctx p \<and> keeps_ctx q)"

lemma run_keeps_ctx: "keeps_ctx p \<Longrightarrow> snd (run L src p ctx) = ctx"
  by (induction p) (auto split: prod.split dest: prod.expand)

text \<open>
  the operands of a binary expression in process miss each other. Re-sampling the left
  operand replaces the start of the shared context by the start of the window, so that the right
  operand is sampled on the grid that begins there. Unless the difference is a multiple of the
  step, no time of one side is a time of the other and the result of the expression is empty.
\<close>

theorem operands_miss:
  assumes "keeps_ctx p" "fst (run L src (FixPeriodPlanner p d) ctx) = Inr l"
    "fst (run L src (FixPeriodPlanner q d') (fix_ctx d ctx)) = Inr r"
    "ctx_From ctx mod ctx_Step ctx \<noteq> truncate_time (ctx_From ctx) d mod ctx_Step ctx"
  shows "fst (run L src (BinaryExpr (FixPeriodPlanner p d) op (FixPeriodPlanner q d')) ctx) = Inr [[err_entry L EOF]]"
proof -
  let ?c = "fix_ctx d ctx"
  have c: "ctx_Step ?c = ctx_Step ctx" "ctx_From ?c = truncate_time (ctx_From ctx) d" by (simp_all add: fix_ctx_def)
  have left: "run L src (FixPeriodPlanner p d) ctx = (Inr l, ?c)"
    using assms(2) run_keeps_ctx [OF assms(1), of L src ?c] by (cases "run L src p ?c") simp
  have res: "fst (run L src (BinaryExpr (FixPeriodPlanner p d) op (FixPeriodPlanner q d')) ctx) =
      BinaryExpr_Process L op (Inr l) (Inr r)"
    using assms(3) left by (simp only: run.simps(21) prod.case fst_apfst)
  have gl: "list_all (on_grid (ctx_From ctx) (ctx_Step ctx)) (samples_of l)"
    using assms(2) by (intro FixPeriod_grid) simp
  have gr: "list_all (on_grid (truncate_time (ctx_From ctx) d) (ctx_Step ctx)) (samples_of r)"
    using assms(3) FixPeriod_grid [of L ?c d' _ r] by (simp add: c)
  obtain out es where out: "BinaryExpr_Process L op (Inr l) (Inr r) = Inr out" "concat out = es @ [err_entry L EOF]"
      "list_all (\<lambda>b. b \<noteq> [] \<and> length b \<le> 100) out"
      "\<forall>k. find (\<lambda>e. sample_key e = k) es = joined L op (sample_at (samples_of l) k) (sample_at (samples_of r) k)"
  proof -
    have "list_all (\<lambda>e. Err e = None) (samples_of l)" "list_all (\<lambda>e. Err e = None) (samples_of r)"
      using gl gr by (auto simp: list_all_iff on_grid_def)
    from BinaryExpr_result [OF this, of L op] show thesis by (elim exE conjE) (rule that)
  qed
  have "joined L op (sample_at (samples_of l) k) (sample_at (samples_of r) k) = None" for k
  proof (rule ccontr)
    assume "joined L op (sample_at (samples_of l) k) (sample_at (samples_of r) k) \<noteq> None"
    then obtain a b where ab: "sample_at (samples_of l) k = Some a" "sample_at (samples_of r) k = Some b"
      by (auto simp: joined_def split: option.splits)
    have "TimestampNS a = TimestampNS b" using ab [THEN sample_at_key] by (auto simp: sample_key_def)
    then show False using ab [THEN sample_at_in] gl gr assms(4) by (auto simp: list_all_iff on_grid_def)
  qed
  then have "find (\<lambda>e. sample_key e = sample_key (hd es)) es = None" using out(4) by (simp only:)
  then have "es = []" by (cases es) auto
  then have "out = [[err_entry L EOF]]" using out(2,3) by (cases out) (auto simp: append_eq_Cons_conv list_all_iff)
  then show ?thesis using res out(1) by simp
qed

theorem operands_miss_witness:
  "fst (run int_lib (\<lambda>ctx s fin. Inr [[entry_at 10 7 [] '''' 4]])
     (BinaryExpr (FixPeriodPlanner (ClickhouseBinary (LogQLScript (scalar_atom ''1'') [])) 10) ''/'' (FixPeriodPlanner (ClickhouseBinary (LogQLScript (scalar_atom ''1'') [])) 10)) fix_example_ctx) =
   Inr [[err_entry int_lib EOF]]"
proof -
  have cs: "ctx_From fix_example_ctx = 7" "ctx_To fix_example_ctx = 20" "ctx_Step fix_example_ctx = 5"
    "ctx_From (fix_ctx 10 fix_example_ctx) = 0" "ctx_To (fix_ctx 10 fix_example_ctx) = 30" "ctx_Step (fix_ctx 10 fix_example_ctx) = 5"
    by (simp_all add: fix_example_ctx_def fix_ctx_def truncate_time_def)
  have run: "FixPeriod_Process int_lib c 10 (Inr [[entry_at 10 7 [] '''' 4]]) =
      Inr (concat (map (\<lambda>g. non_empty (resampled int_lib (ctx_From c) (ctx_To c) (ctx_Step c) 10 g)) [[entry_at 10 7 [] '''' 4]]))"
    if "ctx_Step c = 5" "ctx_From c \<le> ctx_To c" for c
    using fix_entries_runs [of "ctx_Step c" 10 "ctx_From c" "ctx_To c" "\<lparr>fs_values = [], fs_fingerprint = 0, fs_labels = None\<rparr>"
        "[[entry_at 10 7 [] '''' 4]]" int_lib] that
    by (simp add: FixPeriod_Process_def exportEntries_def series_run_def entry_at_def)
  show ?thesis
    by (rule operands_miss [where l = "concat (map (\<lambda>g. non_empty (resampled int_lib 7 20 5 10 g)) [[entry_at 10 7 [] '''' 4]])"
          and r = "concat (map (\<lambda>g. non_empty (resampled int_lib 0 30 5 10 g)) [[entry_at 10 7 [] '''' 4]])"])
      (simp_all add: run cs truncate_time_def)
qed

end
