(* ===== verification/Ch_Getter.thy ===== *)
theory Ch_Getter
  imports Ch_Scope_Plan Matrix_Post_Correct Ram_Run
begin

section \<open>Reading the rows of a query (shared/planner\_clickhouse\_getter.go)\<close>

text \<open>
  \<open>ClickhouseGetterPlanner.Process\<close> prints the planned query, sends it to the database and turns
  the rows into batches. The database is the parameter \<open>db\<close>: for the text of a query an error, or
  the outcome of \<open>rows.Scan\<close> for every row. A scan that fails may already have stored columns into
  the entry: its outcome \<open>Inl (e, r)\<close> has, beside the error, what is in the entry by then (zero
  values for the columns not reached; the labels go to a local variable and are dropped). \<open>stop k\<close> says whether the request context is done when
  row number \<open>k\<close> is reached. When \<open>rows.Next\<close> ends the loop, the code does not ask \<open>rows.Err\<close>; a
  result that breaks off is therefore a shorter list of rows here.
\<close>

record 'c row =
  row_Fingerprint :: "64 word"
  row_Labels :: "(string \<times> string) list"
  row_Col :: 'c           \<comment> \<open>the line, or the value of a matrix\<close>
  row_TimestampNS :: int

definition log_entry :: "'v lib \<Rightarrow> string row \<Rightarrow> 'v LogEntry" where
  "log_entry L r =
     \<lparr>TimestampNS = row_TimestampNS r, Fingerprint = row_Fingerprint r, Labels = Some (row_Labels r),
      Message = row_Col r, Value = f_zero L, Err = None\<rparr>"

definition matrix_entry :: "'v row \<Rightarrow> 'v LogEntry" where
  "matrix_entry r =
     \<lparr>TimestampNS = row_TimestampNS r, Fingerprint = row_Fingerprint r, Labels = Some (row_Labels r),
      Message = '''', Value = row_Col r, Err = None\<rparr>"

type_synonym 'r scanned = "go_error \<times> 'r + 'r"

definition failed_entry :: "go_error \<Rightarrow> 'v LogEntry \<Rightarrow> 'v LogEntry" where
  "failed_entry e x = x\<lparr>Labels := None, Err := Some e\<rparr>"

text \<open>\<open>Scan\<close> and \<open>ScanMatrix\<close>; \<open>acc\<close> is \<open>entries[:i]\<close>.\<close>

fun scan_rows ::
    "'v lib \<Rightarrow> ('r \<Rightarrow> 'v LogEntry) \<Rightarrow> (nat \<Rightarrow> bool) \<Rightarrow> nat \<Rightarrow> 'v batch \<Rightarrow> 'r scanned list \<Rightarrow> 'v stream" where
  "scan_rows L entry stop k acc [] = [acc @ [err_entry L EOF]]"
| "scan_rows L entry stop k acc (r # rs) =
     (if stop k then [acc]
      else case r of
        Inl (e, p) \<Rightarrow> [acc @ [failed_entry e (entry p)]]
      | Inr row' \<Rightarrow>
          (let entries = acc @ [entry row'] in
           if length entries \<ge> 100 then entries # scan_rows L entry stop (k + 1) [] rs
           else scan_rows L entry stop (k + 1) entries rs))"

definition Scan :: "'v lib \<Rightarrow> (nat \<Rightarrow> bool) \<Rightarrow> string row scanned list \<Rightarrow> 'v stream" where
  "Scan L stop rows = scan_rows L (log_entry L) stop 0 [] rows"

definition ScanMatrix :: "'v lib \<Rightarrow> (nat \<Rightarrow> bool) \<Rightarrow> 'v row scanned list \<Rightarrow> 'v stream" where
  "ScanMatrix L stop rows = scan_rows L matrix_entry stop 0 [] rows"

record ch_db =
  db_logs :: "string \<Rightarrow> string row scanned list res"
  db_matrix :: "string \<Rightarrow> 64 word row scanned list res"

definition ClickhouseGetter_Process ::
    "ch_env \<Rightarrow> planner_ctx \<Rightarrow> ch_db \<Rightarrow> (nat \<Rightarrow> bool) \<Rightarrow> bool \<Rightarrow> sql_planner \<Rightarrow> 64 word stream res" where
  "ClickhouseGetter_Process E ctx db stop matrix planner =
     rbind (run_planner E ctx planner) (\<lambda>req.
       rbind (fst (render (if pc_IsCluster ctx then [STRING_OPT_INLINE_WITH] else []) (SelectObj req)
           (DefaultCtx (env_fmt_f E)))) (\<lambda>strReq.
         if matrix then rbind (db_matrix db strReq) (\<lambda>rows. Inr (ScanMatrix (env_lib E) stop rows))
         else rbind (db_logs db strReq) (\<lambda>rows. Inr (Scan (env_lib E) stop rows))))"

text \<open>
  The source of the in-process pipeline: the script is planned as SQL, on its own or as a binary
  expression, with the times of the shared context. Every query starts its numbering of aliases
  anew; the numbers only have to differ within one query.
\<close>

definition at_times :: "ram_ctx \<Rightarrow> planner_ctx \<Rightarrow> planner_ctx" where
  "at_times r ctx = ctx\<lparr>pc_From := ctx_From r, pc_To := ctx_To r, pc_Step := ctx_Step r, pc_Limit := ctx_Limit r\<rparr>"

definition ch_source :: "ch_env \<Rightarrow> planner_ctx \<Rightarrow> ch_db \<Rightarrow> (nat \<Rightarrow> bool) \<Rightarrow> 64 word source" where
  "ch_source E ctx db stop = (\<lambda>r script fin.
     rbind (if IsBinary script then planScriptToSQL E script else ch_Plan E script fin) (\<lambda>p.
       ClickhouseGetter_Process E (at_times r ctx) db stop
         (IsBinary script \<or> at_StrSelector (ql_Head script) = None) p))"

subsection \<open>What the reader delivers\<close>

lemma scan_rows_ok:
  assumes "\<And>k. \<not> stop k" "length acc < 100"
  shows "scan_rows L entry stop k acc (map Inr rows) = chunk100 L (acc @ map entry rows)"
  using assms(2)
proof (induction rows arbitrary: k acc)
  case Nil
  then show ?case by (simp add: chunk100.simps)
next
  case (Cons r rows)
  show ?case
  proof (cases "length acc = 99")
    case True
    then have "chunk100 L (acc @ map entry (r # rows)) = (acc @ [entry r]) # chunk100 L (map entry rows)"
      by (subst chunk100.simps) simp
    with True Cons.IH [of "[]"] assms(1) show ?thesis by simp
  next
    case False
    with Cons assms(1) show ?thesis by simp
  qed
qed

lemma scan_rows_error:
  assumes "\<And>k. \<not> stop k"
  shows "concat (scan_rows L entry stop k acc (map Inr rows @ Inl (e, p) # rest)) =
    acc @ map entry rows @ [failed_entry e (entry p)]"
  using assms by (induction rows arbitrary: k acc) (simp_all add: Let_def)



lemma Scan_concat: "\<forall>k. \<not> stop k \<Longrightarrow> concat (Scan L stop (map Inr rows)) = map (log_entry L) rows @ [err_entry L EOF]"
  using chunk100_batches [of L "map (log_entry L) rows"] by (simp add: Scan_def scan_rows_ok)

text \<open>
  C34: rows become entries. While the request is not cancelled, the reader delivers every row once
  and in order, in non-empty batches of at most 100, and closes with the end marker; a row that
  cannot be read ends the stream with its error, in an entry with the columns read before.
\<close>

theorem Scan_delivers:
  assumes "\<forall>k. \<not> stop k"
  shows "concat (Scan L stop (map Inr rows)) = map (log_entry L) rows @ [err_entry L EOF] \<and>
    list_all (\<lambda>b. b \<noteq> [] \<and> length b \<le> 100) (Scan L stop (map Inr rows)) \<and>
    concat (Scan L stop (map Inr rows @ Inl (e, p) # rest)) =
      map (log_entry L) rows @ [failed_entry e (log_entry L p)] \<and>
    concat (ScanMatrix L stop (map Inr ms)) = map matrix_entry ms @ [err_entry L EOF] \<and>
    list_all (\<lambda>b. b \<noteq> [] \<and> length b \<le> 100) (ScanMatrix L stop (map Inr ms)) \<and>
    concat (ScanMatrix L stop (map Inr ms @ Inl (e, p') # rest')) =
      map matrix_entry ms @ [failed_entry e (matrix_entry p')]"
  using assms chunk100_batches [of L "map (log_entry L) rows"] chunk100_batches [of L "map matrix_entry ms"]
    scan_rows_error [of stop L "log_entry L" 0 "[]"] scan_rows_error [of stop L matrix_entry 0 "[]"]
  by (simp add: Scan_def ScanMatrix_def scan_rows_ok)

theorem Scan_delivers_witness:
  "concat (Scan example_lib (\<lambda>k. False)
     [Inr \<lparr>row_Fingerprint = 5, row_Labels = [(''job'', ''api'')], row_Col = ''boom'', row_TimestampNS = 7\<rparr>]) =
   [\<lparr>TimestampNS = 7, Fingerprint = 5, Labels = Some [(''job'', ''api'')], Message = ''boom'', Value = 0, Err = None\<rparr>,
    err_entry example_lib EOF]"
  using Scan_delivers [where stop = "\<lambda>k. False" and L = example_lib and
      rows = "[\<lparr>row_Fingerprint = 5, row_Labels = [(''job'', ''api'')], row_Col = ''boom'', row_TimestampNS = 7\<rparr>]"]
  by (simp add: log_entry_def example_lib_def)

subsection \<open>Tenant isolation of the evaluation\<close>

text \<open>The scripts a plan hands to the database, as SQL is planned from them.\<close>

fun sources :: "'v proc \<Rightarrow> (LogQLScript \<times> bool) list" where
  "sources (ClickhouseGetter s fin matrix) = [(s, fin)]"
| "sources (ClickhouseBinary s) = [(s, True)]"
| "sources (LineFilterPlanner p f) = sources p"
| "sources (LabelFormatPlanner p f) = sources p"
| "sources (LabelFilterPlanner p f) = sources p"
| "sources (LineFormatterPlanner p t) = sources p"
| "sources (UnwrapPlanner p l) = sources p"
| "sources (ParserPlanner p op names vals) = sources p"
| "sources (DropPlanner p ps) = sources p"
| "sources (KeepPlanner p ps) = sources p"
| "sources (ByWithoutPlanner p by ls) = sources p"
| "sources (LRAPlanner p d fn) = sources p"
| "sources (UnwrapAggPlanner p d fn) = sources p"
| "sources (AggOpPlanner p d fn) = sources p"
| "sources (ComparisonPlanner p op v) = sources p"
| "sources (LimitPlanner p) = sources p"
| "sources (ResponseOptimizerPlanner p) = sources p"
| "sources (ZeroEaterPlanner p) = sources p"
| "sources (FixPeriodPlanner p d) = sources p"
| "sources (BinaryScalar p op v) = sources p"
| "sources (BinaryExpr p op q) = sources p @ sources q"

lemma run_cong:
  "\<forall>(s, fin) \<in> set (sources p). \<forall>r. src r s fin = src' r s fin \<Longrightarrow> run L src p ctx = run L src' p ctx"
proof (induction p arbitrary: ctx)
  case (BinaryExpr p op q)
  then show ?case by (auto split: prod.splits)
qed auto

text \<open>
  The texts that the evaluation of the plan \<open>proc\<close> can send in context \<open>ctx\<close> and that come from a
  query with the tenant condition: the query is what the SQL planners give for one of the scripts
  of the plan, and it is \<open>strict\<close>. A planned query without the condition is not among them.
\<close>

definition scoped_text :: "ch_env \<Rightarrow> planner_ctx \<Rightarrow> 'v proc \<Rightarrow> string \<Rightarrow> bool" where
  "scoped_text E ctx proc s \<longleftrightarrow>
     (\<exists>script fin r p q. (script, fin) \<in> set (sources proc) \<and>
       (if IsBinary script then planScriptToSQL E script else ch_Plan E script fin) = Inr p \<and>
       run_planner E (at_times r ctx) p = Inr q \<and> strict (pc_OidFilter ctx) q \<and>
       fst (render (if pc_IsCluster ctx then [STRING_OPT_INLINE_WITH] else []) (SelectObj q) (DefaultCtx (env_fmt_f E))) = Inr s)"

definition same_answer :: "ch_db \<Rightarrow> ch_db \<Rightarrow> string \<Rightarrow> bool" where
  "same_answer db db' s \<longleftrightarrow> db_logs db s = db_logs db' s \<and> db_matrix db s = db_matrix db' s"

lemma at_times_fields [simp]:
  "pc_Federated (at_times r ctx) = pc_Federated ctx" "pc_OidFilter (at_times r ctx) = pc_OidFilter ctx"
  "pc_IsCluster (at_times r ctx) = pc_IsCluster ctx"
  by (simp_all add: at_times_def)

lemma ch_source_scoped:
  assumes "pc_Federated ctx" "(script, fin) \<in> set (sources proc)"
    "\<forall>s. scoped_text E ctx proc s \<longrightarrow> same_answer db db' s"
  shows "ch_source E ctx db stop r script fin = ch_source E ctx db' stop r script fin"
proof -
  let ?p = "if IsBinary script then planScriptToSQL E script else ch_Plan E script fin"
  let ?t = "\<lambda>q. fst (render (if pc_IsCluster ctx then [STRING_OPT_INLINE_WITH] else []) (SelectObj q) (DefaultCtx (env_fmt_f E)))"
  have same: "same_answer db db' s"
    if p: "?p = Inr p" and q: "run_planner E (at_times r ctx) p = Inr q" and s: "?t q = Inr s" for p q s
  proof -
    have "main_planner p" using p by (auto split: if_splits dest: planScriptToSQL_kind ch_Plan_kind)
    then have "strict (pc_OidFilter ctx) q"
      using run_planner_scoped [of "at_times r ctx" p E q] assms(1) q by simp
    then have "scoped_text E ctx proc s" unfolding scoped_text_def using assms(2) p q s by blast
    with assms(3) show ?thesis by blast
  qed
  show ?thesis
  proof (cases ?p)
    case (Inr p)
    show ?thesis
    proof (cases "run_planner E (at_times r ctx) p")
      case q: (Inr q)
      show ?thesis using same [OF Inr q]
        by (cases "?t q") (simp_all add: ch_source_def Inr ClickhouseGetter_Process_def q same_answer_def)
    qed (simp add: ch_source_def Inr ClickhouseGetter_Process_def)
  qed (simp add: ch_source_def)
qed

lemma run_scoped:
  assumes "pc_Federated ctx" "\<forall>s. scoped_text E ctx proc s \<longrightarrow> same_answer db db' s"
  shows "run L (ch_source E ctx db stop) proc r = run L (ch_source E ctx db' stop) proc r"
  using ch_source_scoped [OF assms(1) _ assms(2)] by (intro run_cong) auto

end
