(* ===== verification/Query_Range.thy ===== *)
theory Query_Range
  imports Ch_Getter "HOL-Library.AList"
begin

section \<open>The query range service (reader/service/query\_range.go)\<close>

text \<open>
  The service plans a query, runs it and writes the result as JSON. The JSON writer is a library;
  what the service writes is kept as the sequence of its writer calls (\<open>jtok\<close>), whose texts the
  library puts one after the other. \<open>jtoks\<close> is that sequence for a JSON value. A Go map is written
  in the order of its association list, which stands for the order that the iteration happens to
  take.
\<close>

subsection \<open>Writer calls and JSON values\<close>

datatype jtok = TObjStart | TObjEnd | TArrStart | TArrEnd | TMore | TField string | TString string | TRaw string

datatype json = JStr string | JRaw string | JArr "json list" | JObj "(string \<times> json) list"

fun sep_by :: "'a \<Rightarrow> 'a list list \<Rightarrow> 'a list" where
  "sep_by x [] = []"
| "sep_by x [ys] = ys"
| "sep_by x (ys # zs # r) = ys @ x # sep_by x (zs # r)"

fun jtoks :: "json \<Rightarrow> jtok list" where
  "jtoks (JStr s) = [TString s]"
| "jtoks (JRaw s) = [TRaw s]"
| "jtoks (JArr js) = TArrStart # sep_by TMore (map jtoks js) @ [TArrEnd]"
| "jtoks (JObj kvs) = TObjStart # sep_by TMore (map (\<lambda>kv. TField (fst kv) # jtoks (snd kv)) kvs) @ [TObjEnd]"

text \<open>One \<open>model.QueryRangeOutput\<close>.\<close>

record qr_out =
  out_Str :: "jtok list"
  out_Err :: "go_error option"

definition chunk :: "jtok list \<Rightarrow> qr_out" where
  "chunk ts = \<lparr>out_Str = ts, out_Err = None\<rparr>"

definition out_text :: "qr_out list \<Rightarrow> jtok list" where
  "out_text os = concat (map out_Str os)"

definition onErr :: "go_error \<Rightarrow> qr_out" where
  "onErr e = \<lparr>out_Str = [TArrEnd, TObjEnd, TObjEnd], out_Err = Some e\<rparr>"

definition writeMap :: "(string \<times> string) list \<Rightarrow> jtok list" where
  "writeMap m = TObjStart # sep_by TMore (map (\<lambda>(k, v). [TField k, TString v]) m) @ [TObjEnd]"

definition response_start :: "string \<Rightarrow> jtok list" where
  "response_start tp =
     [TObjStart, TField ''status'', TString ''success'', TMore, TField ''data'', TObjStart,
      TField ''resultType'', TString tp, TMore, TField ''result'', TArrStart]"

definition series_start :: "string \<Rightarrow> 'v LogEntry \<Rightarrow> jtok list" where
  "series_start name e =
     [TObjStart, TField name] @ writeMap (label_list (Labels e)) @ [TMore, TField ''values'', TArrStart]"

subsection \<open>Log streams\<close>

definition log_value :: "'v LogEntry \<Rightarrow> jtok list" where
  "log_value e = [TArrStart, TString (show_int (TimestampNS e)), TMore, TString (Message e), TArrEnd]"

text \<open>The loop of \<open>exportStreamsValue\<close> over the entries; the buffer is empty between them.\<close>

fun export_streams :: "64 word \<Rightarrow> bool \<Rightarrow> bool \<Rightarrow> 'v LogEntry list \<Rightarrow> qr_out list" where
  "export_streams lastFp i j [] =
     [chunk ((if i then [TArrEnd, TObjEnd] else []) @ [TArrEnd, TObjEnd, TObjEnd])]"
| "export_streams lastFp i j (e # es) =
     (case Err e of
        Some err \<Rightarrow> if err = EOF then export_streams lastFp i j es else [onErr err]
      | None \<Rightarrow>
          if lastFp \<noteq> Fingerprint e
          then (if i then [chunk [TArrEnd, TObjEnd, TMore]] else []) @
               chunk (series_start ''stream'' e @ log_value e) # export_streams (Fingerprint e) True True es
          else chunk ((if j then [TMore] else []) @ log_value e) # export_streams lastFp i True es)"

definition exportStreamsValue :: "'v stream \<Rightarrow> qr_out list" where
  "exportStreamsValue out =
     chunk (response_start ''streams'') # export_streams 0 False False (concat out)"

subsection \<open>Matrices\<close>

text \<open>
  \<open>strconv.FormatFloat(v, 'f', -1, 64)\<close> and \<open>fmt.Sprintf("%f", float64(ts)/1e9)\<close> are parameters.
\<close>

definition trim_suffix :: "string \<Rightarrow> string \<Rightarrow> string" where
  "trim_suffix suf s = (if has_prefix (rev suf) (rev s) then take (length s - length suf) s else s)"

definition format_value :: "('v \<Rightarrow> string) \<Rightarrow> 'v \<Rightarrow> string" where
  "format_value fmt v =
     (let val = fmt v in if go_contains ''.'' val then trim_suffix ''.'' (trim_suffix ''0'' val) else val)"

definition matrix_value :: "('v \<Rightarrow> string) \<Rightarrow> (int \<Rightarrow> string) \<Rightarrow> 'v LogEntry \<Rightarrow> jtok list" where
  "matrix_value fmt fmt_ts e =
     [TArrStart, TRaw (fmt_ts (TimestampNS e)), TMore, TString (format_value fmt (Value e)), TArrEnd]"

text \<open>\<open>break\<close> leaves the rest of the batch; the entries that the loop sees.\<close>

definition until_eof :: "'v batch \<Rightarrow> 'v batch" where
  "until_eof b = takeWhile (\<lambda>e. Err e \<noteq> Some EOF) b"

fun export_matrix :: "('v \<Rightarrow> string) \<Rightarrow> (int \<Rightarrow> string) \<Rightarrow> 64 word \<Rightarrow> bool \<Rightarrow> bool \<Rightarrow> 'v LogEntry list \<Rightarrow> qr_out list" where
  "export_matrix fmt fmt_ts lastFp i j [] =
     [chunk ((if i then [TArrEnd, TObjEnd] else []) @ [TArrEnd, TObjEnd, TObjEnd])]"
| "export_matrix fmt fmt_ts lastFp i j (e # es) =
     (case Err e of
        Some err \<Rightarrow> [onErr err]
      | None \<Rightarrow>
          if \<not> i \<or> lastFp \<noteq> Fingerprint e
          then (if i then [chunk [TArrEnd, TObjEnd, TMore]] else []) @
               chunk (series_start ''metric'' e @ matrix_value fmt fmt_ts e) #
               export_matrix fmt fmt_ts (Fingerprint e) True True es
          else chunk ((if j then [TMore] else []) @ matrix_value fmt fmt_ts e) #
               export_matrix fmt fmt_ts lastFp i True es)"

definition exportMatrix :: "('v \<Rightarrow> string) \<Rightarrow> (int \<Rightarrow> string) \<Rightarrow> 'v stream \<Rightarrow> qr_out list" where
  "exportMatrix fmt fmt_ts out =
     chunk (response_start ''matrix'') # export_matrix fmt fmt_ts 0 False False (concat (map until_eof out))"

subsection \<open>Instant queries\<close>

text \<open>\<open>lastValues\<close>, a map from fingerprints to entries.\<close>

definition last_value :: "'v LogEntry \<Rightarrow> (64 word \<times> 'v LogEntry) list \<Rightarrow> (64 word \<times> 'v LogEntry) list" where
  "last_value e m =
     (case map_of m (Fingerprint e) of
        None \<Rightarrow> m @ [(Fingerprint e, e)]
      | Some old \<Rightarrow> if TimestampNS old < TimestampNS e then AList.update (Fingerprint e) e m else m)"

fun collect_last ::
    "'v LogEntry list \<Rightarrow> (64 word \<times> 'v LogEntry) list \<Rightarrow> (64 word \<times> 'v LogEntry) list res" where
  "collect_last [] m = Inr m"
| "collect_last (e # es) m =
     (case Err e of Some err \<Rightarrow> Inl err | None \<Rightarrow> collect_last es (last_value e m))"

definition instant_value :: "('v \<Rightarrow> string) \<Rightarrow> 'v LogEntry \<Rightarrow> jtok list" where
  "instant_value fmt e =
     [TObjStart, TField ''metric''] @ writeMap (label_list (Labels e)) @
     [TMore, TField ''value'', TArrStart, TRaw (show_int (go_div (TimestampNS e) 1000000000)), TMore,
      TString (format_value fmt (Value e)), TArrEnd, TObjEnd]"

definition exportInstant :: "('v \<Rightarrow> string) \<Rightarrow> 'v stream \<Rightarrow> qr_out list" where
  "exportInstant fmt out =
     chunk (response_start ''vector'') #
     (case collect_last (concat (map until_eof out)) [] of
        Inl err \<Rightarrow> [onErr err]
      | Inr m \<Rightarrow>
          map (\<lambda>(n, e). chunk ((if n > 0 then [TMore] else []) @ instant_value fmt e)) (enumerate 0 (map snd m)) @
          [chunk [TArrEnd, TObjEnd, TObjEnd]])"

subsection \<open>Volume\<close>

text \<open>\<open>QueryVolume\<close>: the loop over all entries with \<open>lastFp\<close>, \<open>lastMetric\<close> and \<open>value\<close>.\<close>

fun volume_loop ::
    "'v lib \<Rightarrow> 64 word \<Rightarrow> (string \<times> string) list \<Rightarrow> 'v \<Rightarrow> 'v LogEntry list \<Rightarrow> ((string \<times> string) list \<times> 'v) list" where
  "volume_loop L lastFp metric value [] = (if lastFp \<noteq> 0 then [(metric, value)] else [])"
| "volume_loop L lastFp metric value (e # es) =
     (if Fingerprint e \<noteq> lastFp
      then (if lastFp \<noteq> 0 then [(metric, value)] else []) @
           volume_loop L (Fingerprint e) (label_list (Labels e)) (f_add L (f_zero L) (Value e)) es
      else volume_loop L lastFp metric (f_add L value (Value e)) es)"

definition volume_rows :: "'v lib \<Rightarrow> 'v stream \<Rightarrow> ((string \<times> string) list \<times> 'v) list" where
  "volume_rows L out = volume_loop L 0 [] (f_zero L) (concat out)"

definition getLabelsForVolume :: "LogQLScript \<Rightarrow> string \<Rightarrow> string list res" where
  "getLabelsForVolume script query =
     (case at_StrSelector (ql_Head script) of
        None \<Rightarrow> Inl (ErrMsg (''invalid query: '' @ query))
      | Some x \<Rightarrow> Inr (map cmd_Label (sel_StrSelCmds x)))"

definition volume_request :: "string \<Rightarrow> int \<Rightarrow> string list \<Rightarrow> string" where
  "volume_request query stepMs labels =
     ''sum(bytes_over_time('' @ query @ '' ['' @ show_int stepMs @ ''ms])) by ('' @ go_join '','' labels @ '')''"

subsection \<open>Tailing\<close>

text \<open>
  One tick of \<open>Tail\<close>: what is written and the next start \<open>from\<close> (its nanoseconds), or the error
  that ends the loop. The state of the loop is \<open>from\<close> and the flags of the writer.
\<close>

fun tail_entries ::
    "64 word \<Rightarrow> bool \<Rightarrow> bool \<Rightarrow> int \<Rightarrow> 'v LogEntry list \<Rightarrow> (jtok list \<times> bool \<times> int) res" where
  "tail_entries lastFp i j from [] = Inr ([], i, from)"
| "tail_entries lastFp i j from (e # es) =
     (case Err e of
        Some err \<Rightarrow> if err = EOF then tail_entries lastFp i j from es else Inl err
      | None \<Rightarrow>
          (let new = (lastFp \<noteq> Fingerprint e);
               toks = (if new then (if i then [TArrEnd, TObjEnd, TMore] else []) @ series_start ''stream'' e
                       else (if j then [TMore] else [])) @ log_value e;
               from' = (if from < TimestampNS e then TimestampNS e + 1 else from) in
           rbind (tail_entries (if new then Fingerprint e else lastFp) (i \<or> new) True from' es)
             (\<lambda>(ts, i', f). Inr (toks @ ts, i', f))))"

definition tail_tick :: "int \<Rightarrow> 'v stream \<Rightarrow> (jtok list \<times> int) res" where
  "tail_tick from out =
     rbind (tail_entries 0 False False from (concat out)) (\<lambda>(ts, i, from').
       Inr ([TObjStart, TField ''streams'', TArrStart] @ ts @ (if i then [TArrEnd, TObjEnd] else []) @
            [TArrEnd, TMore, TField ''dropped_entries'', TArrStart, TArrEnd, TObjEnd], from'))"

definition tail_limit :: "int \<Rightarrow> int" where
  "tail_limit tailLimit = (if tailLimit > 0 \<and> tailLimit < 1000 then tailLimit else 1000)"

subsection \<open>Table names (reader/utils/tables/tables.go)\<close>

text \<open>
  The settings behind \<open>PopulateTableNames\<close>: whether federation is on, the filter in the request
  context, the table names plug-in, the suffix of distributed tables, and cluster and database of
  the connection. \<open>InitDistTableNames\<close> has run, so that the map holds the configured suffix.
\<close>

record table_cfg =
  tc_federated :: bool
  tc_oid :: "OidFilter option"
  tc_plugin :: "(string \<Rightarrow> string) option"
  tc_suffix :: string
  tc_cluster :: string
  tc_database :: string

definition tableNames :: "string \<Rightarrow> string \<Rightarrow> string" where
  "tableNames suffix name =
     (if name \<in> {''tempo_traces'', ''tempo_traces_kv'', ''time_series'', ''samples_kv'', ''time_series_gin'', ''samples_v3'',
                 ''metrics_15s'', ''profiles_series'', ''profiles_series_gin'', ''profiles'', ''tempo_traces_attrs_gin'',
                 ''patterns''} then name
      else if name \<in> {''tempo_traces_dist'', ''tempo_traces_kv_dist'', ''time_series_dist'', ''samples_kv_dist'',
                 ''time_series_gin_dist'', ''samples_v3_dist'', ''tempo_traces_attrs_gin_dist''}
      then take (length name - 5) name @ suffix
      else '''')"

definition GetTableName :: "table_cfg \<Rightarrow> string \<Rightarrow> string" where
  "GetTableName c name =
     (case tc_plugin c of
        None \<Rightarrow> tableNames (tc_suffix c) name
      | Some p \<Rightarrow> if p name = '''' then tableNames (tc_suffix c) name else p name)"

definition dist_name :: "table_cfg \<Rightarrow> string \<Rightarrow> string" where
  "dist_name c name =
     (if tc_cluster c \<noteq> '''' then [CHR 0x60] @ tc_database c @ [CHR 0x60] @ ''.'' @ GetTableName c name @ tc_suffix c
      else GetTableName c name)"

definition PopulateTableNames :: "table_cfg \<Rightarrow> planner_ctx \<Rightarrow> planner_ctx" where
  "PopulateTableNames c ctx =
     (let ctx = (if tc_federated c
                 then ctx\<lparr>pc_Federated := True, pc_OidFilter := OidFilterFromContext (tc_oid c)\<rparr> else ctx) in
      ctx\<lparr>pc_SamplesTableName := GetTableName c ''samples_v3'', pc_SamplesDistTableName := dist_name c ''samples_v3'',
        pc_TimeSeriesTableName := GetTableName c ''time_series'', pc_TimeSeriesDistTableName := dist_name c ''time_series'',
        pc_TimeSeriesGinTableName := GetTableName c ''time_series_gin'',
        pc_TimeSeriesGinDistTableName := dist_name c ''time_series_gin'',
        pc_Metrics15sTableName := GetTableName c ''metrics_15s'', pc_Metrics15sDistTableName := dist_name c ''metrics_15s'',
        pc_PatternsTable := GetTableName c ''patterns'', pc_PatternsDistTable := dist_name c ''patterns''\<rparr>)"

subsection \<open>The service\<close>

text \<open>
  \<open>prepareOutput\<close>: times are cut to whole seconds. \<open>ctx\<close> carries what \<open>PopulateTableNames\<close> and the
  connection set.
\<close>

definition whole_seconds :: "int \<Rightarrow> int" where
  "whole_seconds ns = go_div ns 1000000000 * 1000000000"

definition request_ctx :: "int \<Rightarrow> int \<Rightarrow> int \<Rightarrow> int \<Rightarrow> (nat \<Rightarrow> int) \<Rightarrow> ram_ctx" where
  "request_ctx fromNs toNs stepMs limit now =
     \<lparr>ctx_From = whole_seconds fromNs, ctx_To = whole_seconds toNs, ctx_Step = stepMs * 1000000, ctx_Limit = limit,
      ctx_Now = now\<rparr>"

definition prepareOutput ::
    "ch_env \<Rightarrow> planner_ctx \<Rightarrow> ch_db \<Rightarrow> (nat \<Rightarrow> bool) \<Rightarrow> LogQLScript \<Rightarrow> int \<Rightarrow> int \<Rightarrow> int \<Rightarrow> int \<Rightarrow> bool \<Rightarrow>
     (64 word stream \<times> bool) res" where
  "prepareOutput E ctx db stop script fromNs toNs stepMs limit forward =
     rbind (Plan (env_lib E) script) (\<lambda>proc.
       rbind (fst (run (env_lib E) (ch_source E (ctx\<lparr>pc_OrderASC := forward, pc_CHFinalize := True\<rparr>) db stop) proc
           (request_ctx fromNs toNs stepMs limit (env_clock E)))) (\<lambda>out. Inr (out, IsMatrix proc)))"

definition QueryRange ::
    "ch_env \<Rightarrow> (64 word \<Rightarrow> string) \<Rightarrow> (int \<Rightarrow> string) \<Rightarrow> planner_ctx \<Rightarrow> ch_db \<Rightarrow> (nat \<Rightarrow> bool) \<Rightarrow> LogQLScript \<Rightarrow>
     int \<Rightarrow> int \<Rightarrow> int \<Rightarrow> int \<Rightarrow> bool \<Rightarrow> qr_out list res" where
  "QueryRange E fmt fmt_ts ctx db stop script fromNs toNs stepMs limit forward =
     rbind (prepareOutput E ctx db stop script fromNs toNs stepMs limit forward) (\<lambda>(out, isMatrix).
       Inr (if isMatrix then exportMatrix fmt fmt_ts out else exportStreamsValue out))"

definition QueryInstant ::
    "ch_env \<Rightarrow> (64 word \<Rightarrow> string) \<Rightarrow> planner_ctx \<Rightarrow> ch_db \<Rightarrow> (nat \<Rightarrow> bool) \<Rightarrow> LogQLScript \<Rightarrow>
     int \<Rightarrow> int \<Rightarrow> int \<Rightarrow> qr_out list res" where
  "QueryInstant E fmt ctx db stop script timeNs stepMs limit =
     rbind (prepareOutput E ctx db stop script (timeNs - 300000000000) timeNs stepMs limit False) (\<lambda>(out, isMatrix).
       Inr (if isMatrix then exportInstant fmt out else exportStreamsValue out))"

end
