(* ===== verification/Query_Range_Correct.thy ===== *)
theory Query_Range_Correct
  imports Query_Range
begin

section \<open>What the query range service answers\<close>

text \<open>
  The exporters of log streams and matrices share their shape: an array of series, each with the
  entries of one run of equal fingerprints. The locale \<open>series_writer\<close> states the laws of their
  loops and proves once that the calls are those of a JSON value; both exporters interpret it.
\<close>

subsection \<open>JSON values\<close>

lemma sep_by_Cons: "sep_by x (ys # zs) = ys @ concat (map (\<lambda>z. x # z) zs)"
  by (induction zs arbitrary: ys) simp_all

lemma writeMap_json: "writeMap m = jtoks (JObj (map (\<lambda>(k, v). (k, JStr v)) m))"
proof -
  have "map (\<lambda>(k, v). [TField k, TString v]) m =
      map (\<lambda>kv. TField (fst kv) # jtoks (snd kv)) (map (\<lambda>(k, v). (k, JStr v)) m)"
    by auto
  then show ?thesis unfolding writeMap_def by (simp only: jtoks.simps)
qed

text \<open>Brackets opened and not closed; a JSON value closes all.\<close>

definition tok_depth :: "jtok \<Rightarrow> int" where
  "tok_depth t = (case t of TObjStart \<Rightarrow> 1 | TArrStart \<Rightarrow> 1 | TObjEnd \<Rightarrow> -1 | TArrEnd \<Rightarrow> -1 | _ \<Rightarrow> 0)"

definition depth :: "jtok list \<Rightarrow> int" where
  "depth ts = sum_list (map tok_depth ts)"

lemma depth_simps [simp]:
  "depth [] = 0" "depth (t # ts) = tok_depth t + depth ts" "depth (xs @ ys) = depth xs + depth ys"
  by (simp_all add: depth_def)

lemma tok_depth_simps [simp]:
  "tok_depth TObjStart = 1" "tok_depth TArrStart = 1" "tok_depth TObjEnd = -1" "tok_depth TArrEnd = -1"
  "tok_depth TMore = 0" "tok_depth (TField s) = 0" "tok_depth (TString s) = 0" "tok_depth (TRaw s) = 0"
  by (simp_all add: tok_depth_def)

lemma depth_sep_by: "(\<And>ys. ys \<in> set yss \<Longrightarrow> depth ys = 0) \<Longrightarrow> depth (sep_by TMore yss) = 0"
  by (induction TMore yss rule: sep_by.induct) auto

lemma depth_jtoks: "depth (jtoks j) = 0"
proof (induction j)
  case (JArr js)
  then have "depth (sep_by TMore (map jtoks js)) = 0" by (intro depth_sep_by) auto
  then show ?case by simp
next
  case (JObj kvs)
  then have "depth (sep_by TMore (map (\<lambda>kv. TField (fst kv) # jtoks (snd kv)) kvs)) = 0"
    by (intro depth_sep_by) (auto simp: snds.simps)
  then show ?case by simp
qed simp_all

lemma depth_series_start [simp]: "depth (series_start name e) = 2"
  using depth_jtoks [of "JObj (map (\<lambda>(k, v). (k, JStr v)) (label_list (Labels e)))"]
  by (simp add: series_start_def writeMap_json [symmetric] del: jtoks.simps)

subsection \<open>Runs of a fingerprint\<close>

function fp_runs :: "'v LogEntry list \<Rightarrow> 'v LogEntry list list" where
  "fp_runs [] = []"
| "fp_runs (e # es) =
     (e # takeWhile (\<lambda>x. Fingerprint x = Fingerprint e) es) # fp_runs (dropWhile (\<lambda>x. Fingerprint x = Fingerprint e) es)"
  by pat_completeness auto
termination
  by (relation "measure length") (auto simp: le_imp_less_Suc length_dropWhile_le)

lemma concat_fp_runs: "concat (fp_runs es) = es"
  by (induction es rule: fp_runs.induct) simp_all

lemma fp_runs_same: "r \<in> set (fp_runs es) \<Longrightarrow> r \<noteq> [] \<and> (\<forall>x \<in> set r. Fingerprint x = Fingerprint (hd r))"
proof (induction es rule: fp_runs.induct)
  case (2 e es)
  from 2(2) consider "r = e # takeWhile (\<lambda>x. Fingerprint x = Fingerprint e) es"
    | "r \<in> set (fp_runs (dropWhile (\<lambda>x. Fingerprint x = Fingerprint e) es))" by auto
  then show ?case
  proof cases
    case 1
    then show ?thesis by (auto dest: set_takeWhileD)
  qed (rule 2(1))
qed simp

definition series_json :: "string \<Rightarrow> ('v LogEntry \<Rightarrow> json) \<Rightarrow> 'v LogEntry list \<Rightarrow> json" where
  "series_json name val es =
     JObj [(name, JObj (map (\<lambda>(k, v). (k, JStr v)) (label_list (Labels (hd es))))), (''values'', JArr (map val es))]"

definition response :: "string \<Rightarrow> json list \<Rightarrow> json" where
  "response tp js =
     JObj [(''status'', JStr ''success''), (''data'', JObj [(''resultType'', JStr tp), (''result'', JArr js)])]"

lemma response_toks:
  "jtoks (response tp js) = response_start tp @ sep_by TMore (map jtoks js) @ [TArrEnd, TObjEnd, TObjEnd]"
  by (simp add: response_def response_start_def)

lemma series_toks:
  "jtoks (series_json name val (e # es)) =
     series_start name e @ jtoks (val e) @ concat (map (\<lambda>x. TMore # jtoks (val x)) es) @ [TArrEnd, TObjEnd]"
  by (simp add: series_json_def series_start_def writeMap_json sep_by_Cons comp_def)

locale series_writer =
  fixes loop :: "64 word \<Rightarrow> 'v LogEntry list \<Rightarrow> jtok list" and name :: string and val :: "'v LogEntry \<Rightarrow> json"
  assumes loop_end: "loop fp [] = [TArrEnd, TObjEnd, TArrEnd, TObjEnd, TObjEnd]"
    and loop_same: "Err e = None \<Longrightarrow> Fingerprint e = fp \<Longrightarrow> loop fp (e # es) = TMore # jtoks (val e) @ loop fp es"
    and loop_new: "Err e = None \<Longrightarrow> Fingerprint e \<noteq> fp \<Longrightarrow>
      loop fp (e # es) = [TArrEnd, TObjEnd, TMore] @ series_start name e @ jtoks (val e) @ loop (Fingerprint e) es"
    and loop_error: "Err e = Some err \<Longrightarrow> err \<noteq> EOF \<Longrightarrow> loop fp (e # es) = [TArrEnd, TObjEnd, TObjEnd]"
begin

definition from_entry :: "'v LogEntry \<Rightarrow> 'v LogEntry list \<Rightarrow> jtok list" where
  "from_entry e es = series_start name e @ jtoks (val e) @ loop (Fingerprint e) es"

lemma loop_run:
  assumes "list_all (\<lambda>e. Err e = None) es"
  shows "loop fp es = concat (map (\<lambda>x. TMore # jtoks (val x)) (takeWhile (\<lambda>x. Fingerprint x = fp) es)) @ [TArrEnd, TObjEnd] @
    (case dropWhile (\<lambda>x. Fingerprint x = fp) es of
       [] \<Rightarrow> [TArrEnd, TObjEnd, TObjEnd] | e # r \<Rightarrow> TMore # from_entry e r)"
  using assms by (induction es) (auto simp: loop_end loop_same loop_new from_entry_def)

lemma from_entry_json:
  assumes "list_all (\<lambda>e. Err e = None) (e # es)"
  shows "from_entry e es = sep_by TMore (map (\<lambda>r. jtoks (series_json name val r)) (fp_runs (e # es))) @ [TArrEnd, TObjEnd, TObjEnd]"
  using assms
proof (induction "e # es" arbitrary: e es rule: fp_runs.induct)
  case (2 e es)
  let ?same = "\<lambda>x. Fingerprint x = Fingerprint e"
  have head: "from_entry e es = jtoks (series_json name val (e # takeWhile ?same es)) @
      (case dropWhile ?same es of [] \<Rightarrow> [TArrEnd, TObjEnd, TObjEnd] | e' # r \<Rightarrow> TMore # from_entry e' r)"
    using loop_run [of es "Fingerprint e"] 2(2) by (simp add: from_entry_def series_toks)
  show ?case
  proof (cases "dropWhile ?same es")
    case Nil
    with head show ?thesis by (simp add: Nil del: dropWhile_eq_Nil_conv)
  next
    case (Cons e' r)
    have "list_all (\<lambda>e. Err e = None) (e' # r)"
      using 2(2) set_dropWhileD [of _ ?same es] unfolding Cons [symmetric] by (auto simp: list_all_iff)
    from 2(1) [OF Cons this] head Cons show ?thesis by (simp add: sep_by_Cons)
  qed
qed

lemma response_json:
  assumes "list_all (\<lambda>e. Err e = None) (e # es)"
  shows "response_start tp @ from_entry e es = jtoks (response tp (map (series_json name val) (fp_runs (e # es))))"
  using from_entry_json [OF assms] by (simp add: response_toks comp_def)

text \<open>After an entry, an error leaves the series and its array open.\<close>

lemma loop_depth:
  assumes "list_all (\<lambda>e. Err e = None) es" "Err x = Some err" "err \<noteq> EOF"
  shows "depth (loop fp (es @ x # rest)) = -3"
  using assms(1)
proof (induction es arbitrary: fp)
  case Nil
  then show ?case using assms(2,3) by (simp add: loop_error)
next
  case (Cons e es)
  then show ?case
    by (cases "Fingerprint e = fp")
       (simp_all add: loop_same loop_new depth_jtoks)
qed

lemma error_malformed:
  assumes "list_all (\<lambda>e. Err e = None) (e # es)" "Err x = Some err" "err \<noteq> EOF"
  shows "jtoks j \<noteq> response_start tp @ from_entry e (es @ x # rest)"
proof
  assume "jtoks j = response_start tp @ from_entry e (es @ x # rest)"
  then have "depth (response_start tp @ from_entry e (es @ x # rest)) = 0" by (metis depth_jtoks)
  moreover have "depth (loop (Fingerprint e) (es @ x # rest)) = -3"
    using assms by (intro loop_depth) auto
  ultimately show False
    by (simp add: from_entry_def response_start_def depth_jtoks)
qed

end


subsection \<open>The exporters\<close>

definition log_json :: "'v LogEntry \<Rightarrow> json" where
  "log_json e = JArr [JStr (show_int (TimestampNS e)), JStr (Message e)]"

definition matrix_json :: "('v \<Rightarrow> string) \<Rightarrow> (int \<Rightarrow> string) \<Rightarrow> 'v LogEntry \<Rightarrow> json" where
  "matrix_json fmt fmt_ts e = JArr [JRaw (fmt_ts (TimestampNS e)), JStr (format_value fmt (Value e))]"

lemma value_toks: "jtoks (log_json e) = log_value e" "jtoks (matrix_json fmt fmt_ts e) = matrix_value fmt fmt_ts e"
  by (simp_all add: log_json_def log_value_def matrix_json_def matrix_value_def)

lemma out_text_simps [simp]:
  "out_text [] = []" "out_text (chunk ts # os) = ts @ out_text os" "out_text (os @ os') = out_text os @ out_text os'"
  "out_text [onErr err] = [TArrEnd, TObjEnd, TObjEnd]"
  by (simp_all add: out_text_def chunk_def onErr_def)

interpretation streams: series_writer "\<lambda>fp es. out_text (export_streams fp True True es)" "''stream''" log_json
  by unfold_locales (simp_all add: value_toks)

interpretation matrix: series_writer "\<lambda>fp es. out_text (export_matrix fmt fmt_ts fp True True es)" "''metric''"
    "matrix_json fmt fmt_ts" for fmt fmt_ts
  by unfold_locales (simp_all add: value_toks)

text \<open>The entries the loop of the log exporter looks at.\<close>

definition no_eof :: "'v LogEntry list \<Rightarrow> 'v LogEntry list" where
  "no_eof es = filter (\<lambda>e. Err e \<noteq> Some EOF) es"

lemma export_streams_no_eof: "export_streams fp i j (no_eof es) = export_streams fp i j es"
proof (induction es arbitrary: fp i j)
  case (Cons e es)
  then show ?case by (cases "Err e") (auto simp: no_eof_def)
qed (simp add: no_eof_def)

lemma exportStreams_first:
  assumes "no_eof (concat out) = e # es" "Err e = None" "Fingerprint e \<noteq> 0"
  shows "out_text (exportStreamsValue out) = response_start ''streams'' @ streams.from_entry e es"
  unfolding exportStreamsValue_def export_streams_no_eof [of 0 False False "concat out", symmetric] assms(1)
  using assms(2,3) by (simp add: streams.from_entry_def value_toks)

lemma exportMatrix_first:
  assumes "concat (map until_eof out) = e # es" "Err e = None"
  shows "out_text (exportMatrix fmt fmt_ts out) = response_start ''matrix'' @ matrix.from_entry fmt fmt_ts e es"
  using assms by (simp add: exportMatrix_def matrix.from_entry_def value_toks)

lemma export_streams_ok:
  "list_all (\<lambda>e. Err e = None) es \<Longrightarrow> list_all (\<lambda>c. out_Err c = None) (export_streams fp i j es)"
  by (induction es arbitrary: fp i j) (simp_all add: chunk_def)

lemma export_matrix_ok:
  "list_all (\<lambda>e. Err e = None) es \<Longrightarrow> list_all (\<lambda>c. out_Err c = None) (export_matrix fmt fmt_ts fp i j es)"
  by (induction es arbitrary: fp i j) (simp_all add: chunk_def)

lemma exportStreams_ok:
  assumes "list_all (\<lambda>e. Err e = None) (no_eof (concat out))"
    "no_eof (concat out) = [] \<or> Fingerprint (hd (no_eof (concat out))) \<noteq> 0"
  shows "out_text (exportStreamsValue out) =
      jtoks (response ''streams'' (map (series_json ''stream'' log_json) (fp_runs (no_eof (concat out))))) \<and>
    list_all (\<lambda>c. out_Err c = None) (exportStreamsValue out)"
proof
  show "out_text (exportStreamsValue out) =
      jtoks (response ''streams'' (map (series_json ''stream'' log_json) (fp_runs (no_eof (concat out)))))"
  proof (cases "no_eof (concat out)")
    case Nil
    show ?thesis
      unfolding exportStreamsValue_def export_streams_no_eof [of 0 False False "concat out", symmetric] Nil
      by (simp add: response_toks)
  next
    case (Cons e es)
    with assms show ?thesis
      using exportStreams_first [OF Cons] streams.response_json [of e es "''streams''"] by simp
  qed
  show "list_all (\<lambda>c. out_Err c = None) (exportStreamsValue out)"
    using export_streams_ok [OF assms(1), of 0 False False]
    by (simp add: exportStreamsValue_def export_streams_no_eof chunk_def)
qed

text \<open>
  the answer to a log query. Without errors in the stream, and if the first fingerprint is not
  zero, the service writes one JSON document: per run of entries of one fingerprint a stream
  with the labels of its first entry and all its entries in order.
\<close>

theorem export_streams_json:
  assumes "list_all (\<lambda>e. Err e = None) (no_eof (concat out))"
    "no_eof (concat out) = [] \<or> Fingerprint (hd (no_eof (concat out))) \<noteq> 0"
  shows "out_text (exportStreamsValue out) =
      jtoks (response ''streams'' (map (series_json ''stream'' log_json) (fp_runs (no_eof (concat out))))) \<and>
    list_all (\<lambda>c. out_Err c = None) (exportStreamsValue out)"
  using exportStreams_ok [OF assms] .

definition entry_of :: "int \<Rightarrow> 64 word \<Rightarrow> (string \<times> string) list \<Rightarrow> string \<Rightarrow> int LogEntry" where
  "entry_of ts fp ls msg = \<lparr>TimestampNS = ts, Fingerprint = fp, Labels = Some ls, Message = msg, Value = 0, Err = None\<rparr>"

theorem export_streams_json_witness:
  "out_text (exportStreamsValue [[entry_of 2 9 [(''job'', ''api'')] ''b'', entry_of 1 9 [(''job'', ''api'')] ''a''], [err_entry int_lib EOF]]) =
   jtoks (response ''streams'' [JObj [(''stream'', JObj [(''job'', JStr ''api'')]),
     (''values'', JArr [JArr [JStr ''2'', JStr ''b''], JArr [JStr ''1'', JStr ''a'']])]])"
proof -
  let ?out = "[[entry_of 2 9 [(''job'', ''api'')] ''b'', entry_of 1 9 [(''job'', ''api'')] ''a''], [err_entry int_lib EOF]]"
  have es: "no_eof (concat ?out) = [entry_of 2 9 [(''job'', ''api'')] ''b'', entry_of 1 9 [(''job'', ''api'')] ''a'']"
    by (simp add: no_eof_def entry_of_def err_entry_def)
  have runs: "fp_runs (no_eof (concat ?out)) = [[entry_of 2 9 [(''job'', ''api'')] ''b'', entry_of 1 9 [(''job'', ''api'')] ''a'']]"
    unfolding es by (simp add: entry_of_def)
  have num: "show_int 2 = ''2''" "show_int 1 = ''1''" by code_simp+
  have "out_text (exportStreamsValue ?out) =
      jtoks (response ''streams'' (map (series_json ''stream'' log_json) (fp_runs (no_eof (concat ?out)))))"
    by (rule export_streams_json [THEN conjunct1]) (simp_all only: es, simp_all add: entry_of_def)
  then show ?thesis
    unfolding runs by (simp add: series_json_def log_json_def entry_of_def label_list_def num del: jtoks.simps)
qed

text \<open>
  C35: the answer to a metric query, likewise, with no condition on the fingerprints; what follows
  an end marker in its batch is left out.
\<close>

theorem export_matrix_json:
  assumes "list_all (\<lambda>e. Err e = None) (concat (map until_eof out))"
  shows "out_text (exportMatrix fmt fmt_ts out) =
      jtoks (response ''matrix'' (map (series_json ''metric'' (matrix_json fmt fmt_ts)) (fp_runs (concat (map until_eof out))))) \<and>
    list_all (\<lambda>c. out_Err c = None) (exportMatrix fmt fmt_ts out)"
proof
  show "out_text (exportMatrix fmt fmt_ts out) =
      jtoks (response ''matrix'' (map (series_json ''metric'' (matrix_json fmt fmt_ts)) (fp_runs (concat (map until_eof out)))))"
  proof (cases "concat (map until_eof out)")
    case Nil
    show ?thesis unfolding exportMatrix_def Nil by (simp add: response_toks)
  next
    case (Cons e es)
    with assms show ?thesis
      using exportMatrix_first [OF Cons] matrix.response_json [of e es "''matrix''" fmt fmt_ts] by simp
  qed
  show "list_all (\<lambda>c. out_Err c = None) (exportMatrix fmt fmt_ts out)"
    using export_matrix_ok [OF assms] by (simp add: exportMatrix_def chunk_def)
qed

theorem export_matrix_json_witness:
  "\<exists>j. out_text (exportMatrix show_int show_int [[entry_of 2 0 [] ''''], [err_entry int_lib EOF]]) = jtoks j"
  using export_matrix_json [of "[[entry_of 2 0 [] ''''], [err_entry int_lib EOF]]" show_int show_int]
  by (auto simp: until_eof_def entry_of_def err_entry_def)

text \<open>
  C39: an error in the stream after the first entry. The closing brackets written then do not close
  the series that is open, so that the answer is no JSON document.
\<close>

theorem error_answer_malformed:
  assumes "list_all (\<lambda>e. Err e = None) (e # es)" "Err x = Some err" "err \<noteq> EOF"
  shows "(no_eof (concat out) = e # es @ x # rest \<longrightarrow> Fingerprint e \<noteq> 0 \<longrightarrow>
      (\<forall>j. jtoks j \<noteq> out_text (exportStreamsValue out))) \<and>
    (concat (map until_eof out) = e # es @ x # rest \<longrightarrow>
      (\<forall>j. jtoks j \<noteq> out_text (exportMatrix fmt fmt_ts out)))"
  using assms exportStreams_first [of out e "es @ x # rest"] exportMatrix_first [of out e "es @ x # rest"]
    streams.error_malformed [OF assms] matrix.error_malformed [OF assms] by auto

theorem error_answer_malformed_witness:
  "\<forall>j. jtoks j \<noteq> out_text (exportStreamsValue [[entry_of 2 9 [] ''b'', err_entry int_lib (ErrMsg ''timeout'')]])"
  using error_answer_malformed [of "entry_of 2 9 [] ''b''" "[]" "err_entry int_lib (ErrMsg ''timeout'')" "ErrMsg ''timeout''"
      "[[entry_of 2 9 [] ''b'', err_entry int_lib (ErrMsg ''timeout'')]]" "[]"]
  by (simp add: no_eof_def entry_of_def err_entry_def)

subsection \<open>Instant queries\<close>

text \<open>The last value of a series: of its entries the first among those with the greatest time.\<close>

fun latest :: "'v LogEntry list \<Rightarrow> 'v LogEntry option" where
  "latest [] = None"
| "latest (e # es) = (case latest es of None \<Rightarrow> Some e
     | Some l \<Rightarrow> if TimestampNS e < TimestampNS l then Some l else Some e)"

lemma latest_None: "latest es = None \<Longrightarrow> es = []"
  by (cases es) (auto split: option.splits if_splits)

lemma latest_spec:
  "latest es = Some l \<Longrightarrow> l \<in> set es \<and> (\<forall>e \<in> set es. TimestampNS e \<le> TimestampNS l)"
proof (induction es arbitrary: l)
  case (Cons e es)
  show ?case
  proof (cases "latest es")
    case None
    with Cons.prems show ?thesis by (auto dest: latest_None)
  next
    case (Some l')
    with Cons.IH [OF Some] Cons.prems show ?thesis by (fastforce split: if_splits)
  qed
qed simp

definition newer :: "'v LogEntry option \<Rightarrow> 'v LogEntry option \<Rightarrow> 'v LogEntry option" where
  "newer a b = (case a of None \<Rightarrow> b | Some x \<Rightarrow> (case b of None \<Rightarrow> a | Some y \<Rightarrow> if TimestampNS x < TimestampNS y then b else a))"

lemma map_of_append_new: "map_of m k = None \<Longrightarrow> map_of (m @ [(k, v)]) x = (if x = k then Some v else map_of m x)"
  by (auto simp: map_add_def simp del: map_of_eq_None_iff split: option.splits)

lemma last_value_lookup:
  "map_of (last_value e m) fp = (if fp = Fingerprint e then newer (map_of m fp) (Some e) else map_of m fp)"
  by (cases "map_of m (Fingerprint e)") (auto simp: last_value_def newer_def map_of_append_new update_conv' simp del: map_of_append)

lemma collect_last_spec:
  assumes "list_all (\<lambda>e. Err e = None) es"
  shows "\<exists>m'. collect_last es m = Inr m' \<and>
    (\<forall>fp. map_of m' fp = newer (map_of m fp) (latest (filter (\<lambda>e. Fingerprint e = fp) es)))"
  using assms
proof (induction es arbitrary: m)
  case Nil
  then show ?case by (auto simp: newer_def split: option.splits)
next
  case (Cons e es)
  then obtain m' where m': "collect_last es (last_value e m) = Inr m'"
    "\<And>fp. map_of m' fp = newer (map_of (last_value e m) fp) (latest (filter (\<lambda>e. Fingerprint e = fp) es))"
    by (metis list.pred_inject(2))
  have "newer (newer a (Some e)) b = newer a (case b of None \<Rightarrow> Some e | Some l \<Rightarrow> if TimestampNS e < TimestampNS l then Some l else Some e)" for a b
    by (auto simp: newer_def split: option.splits)
  with m' Cons.prems show ?case by (auto simp: last_value_lookup)
qed

lemma last_value_keys: "distinct (map fst m) \<Longrightarrow> distinct (map fst (last_value e m))"
  by (auto simp: last_value_def distinct_update map_of_eq_None_iff split: option.splits)

lemma collect_last_distinct: "collect_last es m = Inr m' \<Longrightarrow> distinct (map fst m) \<Longrightarrow> distinct (map fst m')"
  by (induction es arbitrary: m) (auto split: option.splits intro: last_value_keys)

definition instant_json :: "('v \<Rightarrow> string) \<Rightarrow> 'v LogEntry \<Rightarrow> json" where
  "instant_json fmt e =
     JObj [(''metric'', JObj (map (\<lambda>(k, v). (k, JStr v)) (label_list (Labels e)))),
       (''value'', JArr [JRaw (show_int (go_div (TimestampNS e) 1000000000)), JStr (format_value fmt (Value e))])]"

lemma instant_toks: "jtoks (instant_json fmt e) = instant_value fmt e"
  by (simp add: instant_json_def instant_value_def writeMap_json)

lemma instant_rows:
  "out_text (map (\<lambda>(n, e). chunk ((if n > 0 then [TMore] else []) @ instant_value fmt e)) (enumerate k es)) =
     (if k > 0 then concat (map (\<lambda>e. TMore # instant_value fmt e) es) else sep_by TMore (map (instant_value fmt) es))"
proof (induction es arbitrary: k)
  case (Cons e es)
  show ?case using Cons [of "Suc k"] by (simp add: sep_by_Cons comp_def)
qed simp

text \<open>
  C36: the answer to an instant metric query. It has exactly one value per fingerprint of the
  stream, the first of its entries with the greatest time.
\<close>

theorem export_instant_json:
  assumes "list_all (\<lambda>e. Err e = None) (concat (map until_eof out))"
  shows "\<exists>m. distinct (map fst m) \<and>
    (\<forall>fp. map_of m fp = latest (filter (\<lambda>e. Fingerprint e = fp) (concat (map until_eof out)))) \<and>
    out_text (exportInstant fmt out) = jtoks (response ''vector'' (map (\<lambda>(fp, e). instant_json fmt e) m))"
proof -
  obtain m where m: "collect_last (concat (map until_eof out)) [] = Inr m"
    "\<forall>fp. map_of m fp = newer (map_of [] fp) (latest (filter (\<lambda>e. Fingerprint e = fp) (concat (map until_eof out))))"
    using collect_last_spec [OF assms, of "[]"] by blast
  have "out_text (exportInstant fmt out) = jtoks (response ''vector'' (map (\<lambda>(fp, e). instant_json fmt e) m))"
    using instant_rows [of fmt 0 "map snd m"]
    by (simp add: exportInstant_def m(1) response_toks instant_toks [symmetric] comp_def case_prod_unfold)
  moreover have "distinct (map fst m)" using collect_last_distinct [OF m(1)] by simp
  ultimately show ?thesis using m(2) by (intro exI [of _ m]) (simp add: newer_def)
qed


theorem export_instant_json_witness:
  "\<exists>m. map_of m (9 :: 64 word) = Some (entry_of 5 9 [] ''b'') \<and>
     out_text (exportInstant show_int [[entry_of 2 9 [] ''a'', entry_of 5 9 [] ''b'', err_entry int_lib EOF]]) =
     jtoks (response ''vector'' (map (\<lambda>(fp, e). instant_json show_int e) m))"
proof -
  let ?out = "[[entry_of 2 9 [] ''a'', entry_of 5 9 [] ''b'', err_entry int_lib EOF]]"
  have es: "concat (map until_eof ?out) = [entry_of 2 9 [] ''a'', entry_of 5 9 [] ''b'']"
    by (simp add: until_eof_def entry_of_def err_entry_def)
  have "latest (filter (\<lambda>e. Fingerprint e = 9) (concat (map until_eof ?out))) = Some (entry_of 5 9 [] ''b'')"
    unfolding es by (simp add: entry_of_def)
  moreover have "list_all (\<lambda>e. Err e = None) (concat (map until_eof ?out))"
    unfolding es by (simp add: entry_of_def)
  then obtain m where "\<forall>fp. map_of m fp = latest (filter (\<lambda>e. Fingerprint e = fp) (concat (map until_eof ?out)))"
    "out_text (exportInstant show_int ?out) = jtoks (response ''vector'' (map (\<lambda>(fp, e). instant_json show_int e) m))"
    using export_instant_json [of ?out show_int] by blast
  ultimately show ?thesis by (intro exI [of _ m]) simp
qed

subsection \<open>Volume\<close>

definition run_sum :: "'v lib \<Rightarrow> 'v LogEntry list \<Rightarrow> (string \<times> string) list \<times> 'v" where
  "run_sum L r = (label_list (Labels (hd r)), foldl (\<lambda>v e. f_add L v (Value e)) (f_zero L) r)"

lemma volume_loop_run:
  assumes "fp \<noteq> 0" "list_all (\<lambda>e. Fingerprint e \<noteq> 0) es"
  shows "volume_loop L fp m v es =
    (m, foldl (\<lambda>v e. f_add L v (Value e)) v (takeWhile (\<lambda>x. Fingerprint x = fp) es)) #
    map (run_sum L) (fp_runs (dropWhile (\<lambda>x. Fingerprint x = fp) es))"
  using assms
proof (induction es arbitrary: fp m v)
  case (Cons e es)
  show ?case
  proof (cases "Fingerprint e = fp")
    case True
    with Cons show ?thesis by simp
  next
    case False
    with Cons show ?thesis by (simp add: run_sum_def)
  qed
qed simp

text \<open>
  the volume of a query. Per run of entries of one fingerprint the sum of the values, if no
  fingerprint is zero. Errors are not looked at: a stream that breaks off with an error gives the
  same volumes as one that ends there.
\<close>

theorem volume_of_runs:
  assumes "list_all (\<lambda>e. Fingerprint e \<noteq> 0) (concat out)"
  shows "volume_rows L (out @ [[err_entry L e]]) = map (run_sum L) (fp_runs (concat out))"
proof -
  have close: "volume_loop L fp m v (es @ [err_entry L e]) = volume_loop L fp m v es"
    if "fp \<noteq> 0 \<or> es \<noteq> []" "list_all (\<lambda>e. Fingerprint e \<noteq> 0) es" for fp m v es
    using that by (induction es arbitrary: fp m v) (auto simp: err_entry_def)
  show ?thesis
  proof (cases "concat out")
    case Nil
    then show ?thesis by (simp add: volume_rows_def err_entry_def del: concat_eq_Nil_conv)
  next
    case (Cons e' es)
    with assms close [of 0 "concat out"] volume_loop_run [of "Fingerprint e'" es] show ?thesis
      by (simp add: volume_rows_def run_sum_def)
  qed
qed

theorem volume_of_runs_witness:
  "volume_rows int_lib [[entry_of 1 9 [] '''', entry_of 2 9 [] ''''], [err_entry int_lib (ErrMsg ''timeout'')]] = [([], 0)]"
  using volume_of_runs [of "[[entry_of 1 9 [] '''', entry_of 2 9 [] '''']]" int_lib "ErrMsg ''timeout''"]
  by (simp add: entry_of_def run_sum_def label_list_def int_lib_def)

subsection \<open>Tailing\<close>

lemma tail_entries_from:
  assumes "tail_entries fp i j from es = Inr (ts, i', from')"
  shows "from \<le> from' \<and> (\<forall>e \<in> set es. Err e = None \<longrightarrow> TimestampNS e \<le> from')"
  using assms
proof (induction es arbitrary: fp i j "from" ts i' from')
  case (Cons e es)
  show ?case
  proof (cases "Err e")
    case None
    with Cons.prems obtain fp2 i2 ts2 i3 where
      "tail_entries fp2 i2 True (if from < TimestampNS e then TimestampNS e + 1 else from) es = Inr (ts2, i3, from')"
      by (auto simp: Let_def rbind_Inr_iff split: if_splits)
    from Cons.IH [OF this] show ?thesis by (auto split: if_splits)
  next
    case (Some err)
    with Cons show ?thesis by (auto split: if_splits)
  qed
qed simp

text \<open>
  the start of the next tick when tailing. It never goes back, and of the entries delivered
  exactly those whose time is the new start are selected again by the next tick: with an entry at
  the start itself and none later, the entry is sent again on every tick.
\<close>

theorem tail_redelivers:
  assumes "tail_tick from out = Inr (ts, from')" "e \<in> set (concat out)" "Err e = None"
  shows "from \<le> from' \<and> (from' \<le> TimestampNS e \<longleftrightarrow> TimestampNS e = from') \<and>
    (TimestampNS e = from \<and> (\<forall>x \<in> set (concat out). Err x = None \<longrightarrow> TimestampNS x \<le> from) \<longrightarrow>
     from' = TimestampNS e)"
proof -
  from assms(1) obtain ts1 i where run: "tail_entries 0 False False from (concat out) = Inr (ts1, i, from')"
    by (auto simp: tail_tick_def rbind_Inr_iff)
  have still: "\<forall>x \<in> set es. Err x = None \<longrightarrow> TimestampNS x \<le> from \<Longrightarrow>
      tail_entries fp i j from es = Inr (ts, i', f) \<Longrightarrow> f = from" for fp i j es ts i' f
    by (induction es arbitrary: fp i j ts i' f)
       (auto simp: Let_def rbind_Inr_iff split: option.splits if_splits)
  have "from \<le> from'" "TimestampNS e \<le> from'"
    using tail_entries_from [OF run] assms(2,3) by blast+
  with still [OF _ run] show ?thesis by (metis order_antisym)
qed

theorem tail_redelivers_witness:
  "\<exists>ts. tail_tick 7 [[entry_of 7 9 [] ''boom'', err_entry int_lib EOF]] = Inr (ts, 7)"
proof -
  obtain ts from' where t: "tail_tick 7 [[entry_of 7 9 [] ''boom'', err_entry int_lib EOF]] = Inr (ts, from')"
    by (simp add: tail_tick_def entry_of_def err_entry_def)
  from tail_redelivers [OF t, of "entry_of 7 9 [] ''boom''"] t show ?thesis
    by (auto simp: entry_of_def err_entry_def)
qed


subsection \<open>The service as a whole\<close>

definition answer_ctx :: "planner_ctx \<Rightarrow> int \<Rightarrow> int \<Rightarrow> int \<Rightarrow> int \<Rightarrow> bool \<Rightarrow> (nat \<Rightarrow> int) \<Rightarrow> planner_ctx" where
  "answer_ctx ctx fromNs toNs stepMs limit forward now =
     at_times (request_ctx fromNs toNs stepMs limit now) (ctx\<lparr>pc_OrderASC := forward, pc_CHFinalize := True\<rparr>)"

text \<open>
  C3: the answer to a log query that ClickHouse evaluates alone. Let the plan be exactly one getter
  of log rows (no stage in process), for a script that is no binary expression and has a
  selector; let the request not be cancelled, the query be planned and printed, and the database
  answer it with rows that can all be read; let there be no row or the first row have a
  fingerprint other than 0, which the code takes for the state before the first series. Then the
  service answers with the JSON document of these rows, all of them and in order, and without an
  error.
\<close>

theorem log_query_answer:
  assumes "Plan (env_lib E) script = Inr (ClickhouseGetter s True False)"
    "\<not> IsBinary s" "at_StrSelector (ql_Head s) \<noteq> None" "ch_Plan E s True = Inr p"
    "run_planner E (answer_ctx ctx fromNs toNs stepMs limit forward (env_clock E)) p = Inr q"
    "fst (render (if pc_IsCluster ctx then [STRING_OPT_INLINE_WITH] else []) (SelectObj q) (DefaultCtx (env_fmt_f E))) = Inr sql"
    "db_logs db sql = Inr (map Inr rows)" "rows = [] \<or> row_Fingerprint (hd rows) \<noteq> 0"
  shows "\<exists>out. QueryRange E fmt fmt_ts ctx db (\<lambda>k. False) script fromNs toNs stepMs limit forward = Inr out \<and>
    out_text out = jtoks (response ''streams'' (map (series_json ''stream'' log_json) (fp_runs (map (log_entry (env_lib E)) rows)))) \<and>
    list_all (\<lambda>c. out_Err c = None) out"
proof -
  let ?L = "env_lib E"
  let ?es = "Scan ?L (\<lambda>k. False) (map Inr rows)"
  have cluster: "pc_IsCluster (answer_ctx ctx fromNs toNs stepMs limit forward (env_clock E)) = pc_IsCluster ctx"
    by (simp add: answer_ctx_def at_times_def)
  have run: "fst (run ?L (ch_source E (ctx\<lparr>pc_OrderASC := forward, pc_CHFinalize := True\<rparr>) db (\<lambda>k. False))
      (ClickhouseGetter s True False) (request_ctx fromNs toNs stepMs limit (env_clock E))) = Inr ?es"
    using assms(2-7) cluster
    by (auto simp: ch_source_def ClickhouseGetter_Process_def answer_ctx_def)
  have es: "no_eof (concat ?es) = map (log_entry ?L) rows"
    using Scan_concat [of "\<lambda>k. False" ?L rows] by (simp add: no_eof_def err_entry_def filter_map comp_def log_entry_def)
  have "list_all (\<lambda>e. Err e = None) (no_eof (concat ?es))"
    unfolding es by (simp add: list_all_iff log_entry_def)
  moreover have "no_eof (concat ?es) = [] \<or> Fingerprint (hd (no_eof (concat ?es))) \<noteq> 0"
    unfolding es using assms(8) by (cases rows) (auto simp: log_entry_def)
  ultimately show ?thesis
    using exportStreams_ok [of ?es] run assms(1)
    by (simp add: QueryRange_def prepareOutput_def es)
qed

definition job_log :: LogQLScript where
  "job_log = selector_script \<lparr>sel_StrSelCmds = [job_api], sel_Pipelines = []\<rparr>"

definition one_row :: "string row" where
  "one_row = \<lparr>row_Fingerprint = 5, row_Labels = [(''job'', ''api'')], row_Col = ''boom'', row_TimestampNS = 7\<rparr>"

theorem log_query_answer_witness:
  "\<exists>out. QueryRange example_env (\<lambda>x. show_int (sint x)) show_int fed_ctx
       \<lparr>db_logs = (\<lambda>s. Inr [Inr one_row]), db_matrix = (\<lambda>s. Inl EOF)\<rparr> (\<lambda>k. False) job_log 0 0 1000 100 True = Inr out \<and>
     out_text out = jtoks (response ''streams'' [JObj [(''stream'', JObj [(''job'', JStr ''api'')]),
       (''values'', JArr [JArr [JStr ''7'', JStr ''boom'']])]])"
proof -
  let ?ctx = "answer_ctx fed_ctx 0 0 1000 100 True (env_clock example_env)"
  let ?render = "\<lambda>q. fst (render [] (SelectObj q) (DefaultCtx (env_fmt_f example_env)))"
  have "isr_res (rbind (ch_Plan example_env job_log True) (\<lambda>p. rbind (run_planner example_env ?ctx p) ?render))"
    by code_simp
  then obtain p q sql where pq: "ch_Plan example_env job_log True = Inr p" "run_planner example_env ?ctx p = Inr q" "?render q = Inr sql"
    by (auto simp: isr_res_def rbind_Inr_iff split: sum.splits)
  have plan: "Plan (env_lib example_env) job_log = Inr (ClickhouseGetter job_log True False)" by code_simp
  have head: "\<not> IsBinary job_log" "at_StrSelector (ql_Head job_log) \<noteq> None"
    by (simp_all add: job_log_def IsBinary_def selector_script_def)
  have cluster: "\<not> pc_IsCluster fed_ctx" by (simp add: fed_ctx_def)
  have num: "show_int 7 = ''7''" by code_simp
  show ?thesis
    using log_query_answer [OF plan head pq(1,2), of sql "\<lparr>db_logs = (\<lambda>s. Inr [Inr one_row]), db_matrix = (\<lambda>s. Inl EOF)\<rparr>"
        "[one_row]" "\<lambda>x. show_int (sint x)" show_int] pq(3) cluster
    by (simp add: one_row_def log_entry_def series_json_def log_json_def label_list_def num del: jtoks.simps render.simps) blast
qed

lemma populate_federated:
  assumes "tc_federated c"
  shows "pc_Federated (PopulateTableNames c ctx)" "pc_OidFilter (PopulateTableNames c ctx) = OidFilterFromContext (tc_oid c)"
  using assms by (simp_all add: PopulateTableNames_def Let_def)

text \<open>
  What a request with header \<open>header\<close> gets from the middleware: the filter in its context.
\<close>

lemma populate_filter:
  assumes "tc_federated c" "tc_oid c = ReadOidPreRequestPlugin True rctx header"
  shows "pc_OidFilter (PopulateTableNames c ctx) = OidFilterFor header"
  using assms by (simp add: populate_federated ReadOidPreRequestPlugin_def OidFilterFromContext_def)

text \<open>
  C11: the tenant condition. Let \<open>v\<close> give the conditions of a query their documented meaning on a
  row. With federation on, a query to which the planners add the condition of their context, in
  \<open>WHERE\<close> or \<open>PREWHERE\<close>, accepts a row exactly if it did before and the \<open>oid\<close> column of the table
  read under that alias holds a tenant that the header names: the header is made of valid tenant
  names with bars between and white space around. If no header was resolved it accepts no row.
\<close>

theorem tenant_isolation:
  assumes "row_atoms row v" "tc_federated c"
  shows "(tc_oid c = ReadOidPreRequestPlugin True rctx header \<longrightarrow>
      (clause_holds v (s_where (oid_AndWhere (PopulateTableNames c ctx) al q)) \<longleftrightarrow>
         clause_holds v (s_where q) \<and> names_tenant header (row (if al = '''' then ''oid'' else al @ ''.oid''))) \<and>
      (oid_AndPreWhere (PopulateTableNames c ctx) al q = Inr q' \<longrightarrow>
        (clause_holds v (s_preWhere q') \<longleftrightarrow>
           clause_holds v (s_preWhere q) \<and> names_tenant header (row (if al = '''' then ''oid'' else al @ ''.oid''))))) \<and>
    (tc_oid c = None \<longrightarrow> \<not> clause_holds v (s_where (oid_AndWhere (PopulateTableNames c ctx) al q)))"
proof -
  have pre: "clause_holds v (s_preWhere q') \<longleftrightarrow> clause_holds v (s_preWhere q) \<and> cond_holds v x"
    if pw: "sel_AndPreWhere [x] q = Inr q'" for x
    using pw by (cases q) (auto simp: sel_AndPreWhere_def clause_holds_def cond_holds_append_and split: option.splits if_splits)
  have cnd: "GetOidFilter (PopulateTableNames c ctx) al =
      Some (BuildOidCondition (if al = '''' then ''oid'' else al @ ''.oid'') (pc_OidFilter (PopulateTableNames c ctx)))"
    using populate_federated(1) [OF assms(2)] by (simp add: GetOidFilter_def)
  note holds = BuildOidCondition_holds [OF assms(1)]
  show ?thesis
    using pre populate_filter [OF assms(2)]
    by (auto simp: oid_AndWhere_def oid_AndPreWhere_def cnd AndWhere_holds holds OidFilterFor_names [symmetric]
        populate_federated(2) [OF assms(2)] OidFilterFromContext_def)
qed

theorem tenant_isolation_witness:
  "clause_holds (example_atoms (\<lambda>col. if col = ''s.oid'' then ''b'' else ''x''))
     (s_where (oid_AndWhere (PopulateTableNames
       \<lparr>tc_federated = True, tc_oid = ReadOidPreRequestPlugin True None ''a| b '', tc_plugin = None,
        tc_suffix = ''_dist'', tc_cluster = '''', tc_database = ''gigapipe''\<rparr> fed_ctx) ''s'' NewSelect))"
proof -
  have "names_tenant ''a| b '' ''b''"
  proof -
    have "ResolveTenants ''a| b '' = Some [''a'', ''b'']" by code_simp
    then show ?thesis by (simp add: names_tenant_iff)
  qed
  then show ?thesis
    using tenant_isolation [OF example_atoms_laws, of
      "\<lparr>tc_federated = True, tc_oid = ReadOidPreRequestPlugin True None ''a| b '', tc_plugin = None,
        tc_suffix = ''_dist'', tc_cluster = '''', tc_database = ''gigapipe''\<rparr>" None "''a| b ''"
      "\<lambda>col. if col = ''s.oid'' then ''b'' else ''x''" fed_ctx "''s''" NewSelect NewSelect]
    by (simp add: NewSelect_def clause_holds_def)
qed






end
