(* ===== verification/Insert_Columns.thy ===== *)
theory Insert_Columns
  imports Loki_Sharding
begin

section \<open>Column buffers of the insert services (writer/service, writer/service/insert)\<close>

text \<open>
  An insert service collects the rows of many requests in column buffers and sends them to
  ClickHouse in one insert. This theory models the pooled columns (column\_pool.go,
  insert\_column\_pools.go), the requests (model/insert\_request.go) and, per table, the acquirer
  with its column list and the function \<open>ProcessRequest\<close> that appends a request to the columns.

  A column of ch-go is the list of the values appended to it, tagged with its Go type. The
  columns are shared by pointer and changed in place, so a panic in the middle of
  \<open>ProcessRequest\<close> leaves the values that were already appended: \<open>ProcPanic\<close> carries them.
  The argument \<open>fx size bytes\<close> says whether \<open>ColFixedStr.Append\<close> of ch-go accepts the bytes for a
  column of that size (it is documented to panic on another length).
\<close>

subsection \<open>Values of the profile columns (model/helper.go)\<close>

record ValuesAgg =
  va_ValueStr :: string
  va_ValueInt64 :: "64 word"
  va_ValueInt32 :: "32 word"

record ValuesArrTuple =
  vt_ValueStr :: string
  vt_FirstValueInt64 :: "64 word"
  vt_SecondValueInt64 :: "64 word"

record TreeRootStructure =
  tr_Field1 :: "64 word"
  tr_Field2 :: "64 word"
  tr_Field3 :: "64 word"
  tr_ValueArrTuple :: "ValuesArrTuple list"

type_synonym Function = "64 word \<times> string"
type_synonym StrStr = "string \<times> string"

subsection \<open>Requests (model/insert\_request.go)\<close>

record ProfileData =
  pd_TimestampNs :: "64 word list"
  pd_Ptype :: "string list"
  pd_ServiceName :: "string list"
  pd_SamplesTypesUnits :: "StrStr list"
  pd_PeriodType :: "string list"
  pd_PeriodUnit :: "string list"
  pd_Tags :: "StrStr list"
  pd_DurationNs :: "64 word list"
  pd_PayloadType :: "string list"
  pd_Payload :: "string list"
  pd_ValuesAgg :: "ValuesAgg list"
  pd_Tree :: "TreeRootStructure list"
  pd_Function :: "Function list"
  pd_Size :: int

record TempoTag =
  tt_MTraceId :: "string list"
  tt_MSpanId :: "string list"
  tt_MTimestampNs :: "64 word list"
  tt_MDurationNs :: "64 word list"
  tt_MDate :: "int list"
  tt_MKey :: "string list"
  tt_MVal :: "string list"
  tt_Size :: int

record TempoSamples =
  tp_MTraceId :: "string list"
  tp_MSpanId :: "string list"
  tp_MTimestampNs :: "64 word list"
  tp_MDurationNs :: "64 word list"
  tp_MParentId :: "string list"
  tp_MName :: "string list"
  tp_MServiceName :: "string list"
  tp_MPayloadType :: "8 word list"
  tp_MPayload :: "string list"
  tp_Size :: int

record PatternsData =
  pt_MTimestamp10m :: "32 word list"
  pt_MFingerprint :: "64 word list"
  pt_MTimestampS :: "32 word list"
  pt_MTokens :: "string list list"
  pt_MClasses :: "32 word list list"
  pt_MWriterID :: "string list"
  pt_MOverallCost :: "32 word list"
  pt_MGeneralizedCost :: "32 word list"
  pt_MSamplesCount :: "32 word list"
  pt_MPatternId :: "64 word list"
  pt_MIterationId :: "64 word list"

text \<open>The dynamic value behind \<open>any\<close> that a service gets: one of the request types.\<close>

datatype insert_req =
    ReqSeries TimeSeriesData
  | ReqSamples TimeSamplesData
  | ReqSpans TempoSamples
  | ReqTags TempoTag
  | ReqProfile ProfileData
  | ReqPatterns PatternsData

text \<open>\<open>PatternsData.GetSize\<close> indexes the classes with the indices of the tokens.\<close>

fun patterns_arrays_size :: "string list list \<Rightarrow> 32 word list list \<Rightarrow> int res" where
  "patterns_arrays_size [] cs = Inr 0"
| "patterns_arrays_size (toks # ts) [] = Inl (Panic ''index out of range'')"
| "patterns_arrays_size (toks # ts) (c # cs) =
     rbind (patterns_arrays_size ts cs)
       (\<lambda>n. Inr (sum_list (map (\<lambda>t. int (length t) + 1) toks) + int (length c) * 4 + n))"

definition PatternsData_GetSize :: "PatternsData \<Rightarrow> int res" where
  "PatternsData_GetSize t =
     (if pt_MTimestamp10m t = [] then Inr 0
      else rbind (patterns_arrays_size (pt_MTokens t) (pt_MClasses t))
        (\<lambda>arraysSize. Inr (arraysSize + int
           (length (pt_MTimestamp10m t) * 4 + length (pt_MFingerprint t) * 8
            + length (pt_MPatternId t) * 8 + length (pt_MIterationId t) * 4
            + length (pt_MTimestampS t) * 4 + length (pt_MOverallCost t) * 4
            + length (pt_MGeneralizedCost t) * 4 + length (pt_MSamplesCount t) * 4))))"

fun GetSize :: "insert_req \<Rightarrow> int res" where
  "GetSize (ReqSeries d) = Inr (ts_Size d)"
| "GetSize (ReqSamples d) = Inr (spl_Size d)"
| "GetSize (ReqSpans d) = Inr (tp_Size d)"
| "GetSize (ReqTags d) = Inr (tt_Size d)"
| "GetSize (ReqProfile d) = Inr (pd_Size d)"
| "GetSize (ReqPatterns d) = PatternsData_GetSize d"

subsection \<open>Pooled columns\<close>

datatype cell =
    CU8 "8 word" | CU32 "32 word" | CU64 "64 word" | CI8 "8 word" | CI64 "64 word"
  | CF64 "64 word" | CDate int | CStr string | CFixed string
  | CArrStr "string list" | CArrU32 "32 word list" | CArrStrStr "StrStr list"
  | CArrValuesAgg "ValuesAgg list" | CArrTree "TreeRootStructure list"
  | CArrFunction "Function list"

datatype col_type =
    TUInt8 | TUInt32 | TUInt64 | TInt8 | TInt64 | TFloat64 | TDate | TStr | TFixedStr
  | TArrStr | TArrUInt32 | TArrStrStr | TArrValuesAgg | TArrTree | TArrFunction

text \<open>\<open>pc_Fixed\<close> is the size of a fixed string column; the pool makes it with size 8.\<close>

record pooled_column =
  pc_Name :: string
  pc_Type :: col_type
  pc_Fixed :: nat
  pc_Data :: "cell list"

definition Acquire :: "col_type \<Rightarrow> string \<Rightarrow> pooled_column" where
  "Acquire ty name = \<lparr>pc_Name = name, pc_Type = ty, pc_Fixed = 8, pc_Data = []\<rparr>"

definition SetSize :: "nat \<Rightarrow> pooled_column \<Rightarrow> pooled_column" where
  "SetSize n c = c\<lparr>pc_Fixed := n\<rparr>"

definition PooledColumn_Size :: "pooled_column \<Rightarrow> int" where
  "PooledColumn_Size c = int (length (pc_Data c))"

text \<open>\<open>for _, v := range vs { col.Data.Append(v) }\<close> and \<open>AppendArr\<close>.\<close>

definition append_cells :: "cell list \<Rightarrow> pooled_column \<Rightarrow> pooled_column" where
  "append_cells vs c = c\<lparr>pc_Data := pc_Data c @ vs\<rparr>"

text \<open>\<open>FixedStrAdaptor.AppendArr\<close>: the second component is \<open>False\<close> if an append panicked.\<close>

fun FixedStrAdaptor_AppendArr ::
  "(nat \<Rightarrow> string \<Rightarrow> bool) \<Rightarrow> string list \<Rightarrow> pooled_column \<Rightarrow> pooled_column \<times> bool" where
  "FixedStrAdaptor_AppendArr fx [] c = (c, True)"
| "FixedStrAdaptor_AppendArr fx (e # arr) c =
     (if fx (pc_Fixed c) e then FixedStrAdaptor_AppendArr fx arr (append_cells [CFixed e] c)
      else (c, False))"

text \<open>\<open>res[i].(*PooledColumn[T])\<close>: out of range and a wrong type both panic.\<close>

definition col_at :: "pooled_column list \<Rightarrow> nat \<Rightarrow> col_type \<Rightarrow> pooled_column res" where
  "col_at cols i ty =
     (if \<not> i < length cols then Inl (Panic ''index out of range'')
      else if pc_Type (cols ! i) \<noteq> ty then Inl (Panic ''interface conversion'')
      else Inr (cols ! i))"

datatype proc_out =
    Processed int "pooled_column list"         \<comment> \<open>rows inserted, columns\<close>
  | ProcFailed string                          \<comment> \<open>\<open>0, nil, err\<close>\<close>
  | ProcPanic go_error "pooled_column list"    \<comment> \<open>a panic and the columns it leaves\<close>

end
