(* ===== verification/Insert_Tables.thy ===== *)
theory Insert_Tables
  imports Insert_Columns
begin

section \<open>The tables of the insert services (writer/service/insert)\<close>

text \<open>
  One group of definitions per table: the acquirer struct, its \<open>acq\<close>, the conversion to and from
  the column slice the service keeps, and \<open>ProcessRequest\<close>. The argument \<open>fed\<close> is
  \<open>federation.Enabled()\<close>: with federation the tables of logs and metrics lead with the tenant
  column \<open>oid\<close>. At the end, the constructors with the text of the insert, and the contract that
  every one of them gives the service: a well-formed request adds exactly its rows.
\<close>

subsection \<open>samples.go\<close>

record SamplesAcquirer =
  sa_Oid :: "pooled_column option"
  sa_Type :: pooled_column
  sa_Fingerprint :: pooled_column
  sa_TimestampNS :: pooled_column
  sa_String :: pooled_column
  sa_Value :: pooled_column

definition SamplesAcquirer_acq :: "bool \<Rightarrow> SamplesAcquirer" where
  "SamplesAcquirer_acq fed =
     \<lparr>sa_Oid = (if fed then Some (Acquire TStr ''oid'') else None),
      sa_Type = Acquire TUInt8 ''type'',
      sa_Fingerprint = Acquire TUInt64 ''fingerprint'',
      sa_TimestampNS = Acquire TInt64 ''timestamp_ns'',
      sa_String = Acquire TStr ''string'',
      sa_Value = Acquire TFloat64 ''value''\<rparr>"

definition SamplesAcquirer_serialize :: "bool \<Rightarrow> SamplesAcquirer \<Rightarrow> pooled_column list" where
  "SamplesAcquirer_serialize fed a =
     (if fed then (case sa_Oid a of Some c \<Rightarrow> [c] | None \<Rightarrow> []) else [])
     @ [sa_Type a, sa_Fingerprint a, sa_TimestampNS a, sa_String a, sa_Value a]"

definition SamplesAcquirer_deserialize :: "bool \<Rightarrow> pooled_column list \<Rightarrow> SamplesAcquirer res" where
  "SamplesAcquirer_deserialize fed res =
     rbind (if fed then rbind (col_at res 0 TStr) (\<lambda>c. Inr (Some c, tl res)) else Inr (None, res))
       (\<lambda>(oid, res).
     rbind (col_at res 0 TUInt8) (\<lambda>c0.
     rbind (col_at res 1 TUInt64) (\<lambda>c1.
     rbind (col_at res 2 TInt64) (\<lambda>c2.
     rbind (col_at res 3 TStr) (\<lambda>c3.
     rbind (col_at res 4 TFloat64) (\<lambda>c4.
     Inr \<lparr>sa_Oid = oid, sa_Type = c0, sa_Fingerprint = c1, sa_TimestampNS = c2,
         sa_String = c3, sa_Value = c4\<rparr>))))))"

definition samples_ProcessRequest :: "bool \<Rightarrow> insert_req \<Rightarrow> pooled_column list \<Rightarrow> proc_out" where
  "samples_ProcessRequest fed req res =
     (case req of
        ReqSamples d \<Rightarrow>
          (case SamplesAcquirer_deserialize fed res of
             Inl e \<Rightarrow> ProcPanic e res
           | Inr a \<Rightarrow>
               (let a' = a\<lparr>sa_Oid := (if fed then map_option (append_cells
                                 (map (\<lambda>_. CStr (spl_MOid d)) (spl_MTimestampNS d))) (sa_Oid a) else sa_Oid a),
                         sa_TimestampNS := append_cells (map CI64 (spl_MTimestampNS d)) (sa_TimestampNS a),
                         sa_Fingerprint := append_cells (map CU64 (spl_MFingerprint d)) (sa_Fingerprint a),
                         sa_Type := append_cells (map CU8 (spl_MType d)) (sa_Type a),
                         sa_Value := append_cells (map CF64 (spl_MValue d)) (sa_Value a),
                         sa_String := append_cells (map CStr (spl_MMessage d)) (sa_String a)\<rparr>
                in Processed (PooledColumn_Size (sa_Fingerprint a') - PooledColumn_Size (sa_Fingerprint a))
                     (SamplesAcquirer_serialize fed a')))
      | _ \<Rightarrow> ProcFailed ''invalid request samples insert'')"

subsection \<open>metrics.go\<close>

record MetricsAcquirer =
  ma_Oid :: "pooled_column option"
  ma_Type :: pooled_column
  ma_Fingerprint :: pooled_column
  ma_TimestampNS :: pooled_column
  ma_Value :: pooled_column

definition MetricsAcquirer_acq :: "bool \<Rightarrow> MetricsAcquirer" where
  "MetricsAcquirer_acq fed =
     \<lparr>ma_Oid = (if fed then Some (Acquire TStr ''oid'') else None),
      ma_Type = Acquire TUInt8 ''type'',
      ma_Fingerprint = Acquire TUInt64 ''fingerprint'',
      ma_TimestampNS = Acquire TInt64 ''timestamp_ns'',
      ma_Value = Acquire TFloat64 ''value''\<rparr>"

definition MetricsAcquirer_serialize :: "bool \<Rightarrow> MetricsAcquirer \<Rightarrow> pooled_column list" where
  "MetricsAcquirer_serialize fed a =
     (if fed then (case ma_Oid a of Some c \<Rightarrow> [c] | None \<Rightarrow> []) else [])
     @ [ma_Type a, ma_Fingerprint a, ma_TimestampNS a, ma_Value a]"

definition MetricsAcquirer_deserialize :: "bool \<Rightarrow> pooled_column list \<Rightarrow> MetricsAcquirer res" where
  "MetricsAcquirer_deserialize fed res =
     rbind (if fed then rbind (col_at res 0 TStr) (\<lambda>c. Inr (Some c, tl res)) else Inr (None, res))
       (\<lambda>(oid, res).
     rbind (col_at res 0 TUInt8) (\<lambda>c0.
     rbind (col_at res 1 TUInt64) (\<lambda>c1.
     rbind (col_at res 2 TInt64) (\<lambda>c2.
     rbind (col_at res 3 TFloat64) (\<lambda>c3.
     Inr \<lparr>ma_Oid = oid, ma_Type = c0, ma_Fingerprint = c1, ma_TimestampNS = c2, ma_Value = c3\<rparr>)))))"

definition metrics_ProcessRequest :: "bool \<Rightarrow> insert_req \<Rightarrow> pooled_column list \<Rightarrow> proc_out" where
  "metrics_ProcessRequest fed req res =
     (case req of
        ReqSamples d \<Rightarrow>
          (case MetricsAcquirer_deserialize fed res of
             Inl e \<Rightarrow> ProcPanic e res
           | Inr a \<Rightarrow>
               (let a' = a\<lparr>ma_Oid := (if fed then map_option (append_cells
                                 (map (\<lambda>_. CStr (spl_MOid d)) (spl_MType d))) (ma_Oid a) else ma_Oid a),
                         ma_Type := append_cells (map CU8 (spl_MType d)) (ma_Type a),
                         ma_TimestampNS := append_cells (map CI64 (spl_MTimestampNS d)) (ma_TimestampNS a),
                         ma_Fingerprint := append_cells (map CU64 (spl_MFingerprint d)) (ma_Fingerprint a),
                         ma_Value := append_cells (map CF64 (spl_MValue d)) (ma_Value a)\<rparr>
                in Processed (PooledColumn_Size (ma_Fingerprint a') - PooledColumn_Size (ma_Fingerprint a))
                     (MetricsAcquirer_serialize fed a')))
      | _ \<Rightarrow> ProcFailed ''invalid request  metric'')"

subsection \<open>time\_series.go\<close>

record TimeSeriesAcquirer =
  ta_Oid :: "pooled_column option"
  ta_Type :: pooled_column
  ta_Date :: pooled_column
  ta_Fingerprint :: pooled_column
  ta_Labels :: pooled_column
  ta_Metadata :: pooled_column

definition TimeSeriesAcquirer_acq :: "bool \<Rightarrow> TimeSeriesAcquirer" where
  "TimeSeriesAcquirer_acq fed =
     \<lparr>ta_Oid = (if fed then Some (Acquire TStr ''oid'') else None),
      ta_Type = Acquire TUInt8 ''type'',
      ta_Date = Acquire TDate ''date'',
      ta_Fingerprint = Acquire TUInt64 ''fingerprint'',
      ta_Labels = Acquire TStr ''labels'',
      ta_Metadata = Acquire TStr ''metadata''\<rparr>"

definition TimeSeriesAcquirer_serialize :: "bool \<Rightarrow> TimeSeriesAcquirer \<Rightarrow> pooled_column list" where
  "TimeSeriesAcquirer_serialize fed a =
     (if fed then (case ta_Oid a of Some c \<Rightarrow> [c] | None \<Rightarrow> []) else [])
     @ [ta_Type a, ta_Date a, ta_Fingerprint a, ta_Labels a, ta_Metadata a]"

definition TimeSeriesAcquirer_deserialize :: "bool \<Rightarrow> pooled_column list \<Rightarrow> TimeSeriesAcquirer res" where
  "TimeSeriesAcquirer_deserialize fed res =
     rbind (if fed then rbind (col_at res 0 TStr) (\<lambda>c. Inr (Some c, tl res)) else Inr (None, res))
       (\<lambda>(oid, res).
     rbind (col_at res 0 TUInt8) (\<lambda>c0.
     rbind (col_at res 1 TDate) (\<lambda>c1.
     rbind (col_at res 2 TUInt64) (\<lambda>c2.
     rbind (col_at res 3 TStr) (\<lambda>c3.
     rbind (col_at res 4 TStr) (\<lambda>c4.
     Inr \<lparr>ta_Oid = oid, ta_Type = c0, ta_Date = c1, ta_Fingerprint = c2, ta_Labels = c3,
         ta_Metadata = c4\<rparr>))))))"

text \<open>The loop over the dates; it panics where a date has no label string.\<close>

fun series_loop :: "TimeSeriesData \<Rightarrow> nat \<Rightarrow> int list \<Rightarrow> TimeSeriesAcquirer
    \<Rightarrow> TimeSeriesAcquirer \<times> bool" where
  "series_loop d i [] a = (a, True)"
| "series_loop d i (date # dates) a =
     (let a1 = a\<lparr>ta_Date := append_cells [CDate date] (ta_Date a)\<rparr> in
      if \<not> i < length (ts_MLabels d) then (a1, False)
      else
        (let a2 = a1\<lparr>ta_Labels := append_cells [CStr (ts_MLabels d ! i)] (ta_Labels a1)\<rparr>;
             meta = (if i < length (ts_MMetadata d) then ts_MMetadata d ! i else '''')
         in series_loop d (Suc i) dates
              (a2\<lparr>ta_Metadata := append_cells [CStr meta] (ta_Metadata a2)\<rparr>)))"

definition series_ProcessRequest :: "bool \<Rightarrow> insert_req \<Rightarrow> pooled_column list \<Rightarrow> proc_out" where
  "series_ProcessRequest fed req res =
     (case req of
        ReqSeries d \<Rightarrow>
          (case TimeSeriesAcquirer_deserialize fed res of
             Inl e \<Rightarrow> ProcPanic e res
           | Inr a \<Rightarrow>
               (let a0 = a\<lparr>ta_Oid := (if fed then map_option (append_cells
                                 (map (\<lambda>_. CStr (ts_MOid d)) (ts_MDate d))) (ta_Oid a) else ta_Oid a)\<rparr>
                in case series_loop d 0 (ts_MDate d) a0 of
                     (a1, False) \<Rightarrow>
                       ProcPanic (Panic ''index out of range'') (TimeSeriesAcquirer_serialize fed a1)
                   | (a1, True) \<Rightarrow>
                       (let a2 = a1\<lparr>ta_Fingerprint := append_cells (map CU64 (ts_MFingerprint d)) (ta_Fingerprint a1),
                                  ta_Type := append_cells (map CU8 (ts_MType d)) (ta_Type a1)\<rparr>
                        in Processed (PooledColumn_Size (ta_Date a2) - PooledColumn_Size (ta_Date a))
                             (TimeSeriesAcquirer_serialize fed a2))))
      | _ \<Rightarrow> ProcFailed ''invalid request type time series'')"

subsection \<open>pattern.go\<close>

record patternAcquirer =
  pa_timestamp10m :: pooled_column
  pa_fingerprint :: pooled_column
  pa_timestampS :: pooled_column
  pa_tokens :: pooled_column
  pa_classes :: pooled_column
  pa_overallCost :: pooled_column
  pa_generalizedCost :: pooled_column
  pa_samplesCount :: pooled_column
  pa_patternId :: pooled_column
  pa_iterationId :: pooled_column

definition patternAcquirer_acq :: "patternAcquirer" where
  "patternAcquirer_acq =
     \<lparr>pa_timestamp10m = Acquire TUInt32 ''timestamp_10m'',
      pa_fingerprint = Acquire TUInt64 ''fingerprint'',
      pa_timestampS = Acquire TUInt32 ''timestamp_s'',
      pa_tokens = Acquire TArrStr ''tokens'',
      pa_classes = Acquire TArrUInt32 ''classes'',
      pa_overallCost = Acquire TUInt32 ''overall_cost'',
      pa_generalizedCost = Acquire TUInt32 ''generalized_cost'',
      pa_samplesCount = Acquire TUInt32 ''samples_count'',
      pa_patternId = Acquire TUInt64 ''pattern_id'',
      pa_iterationId = Acquire TUInt64 ''iteration_id''\<rparr>"

definition patternAcquirer_toIFace :: "patternAcquirer \<Rightarrow> pooled_column list" where
  "patternAcquirer_toIFace a =
     [pa_timestamp10m a, pa_fingerprint a, pa_timestampS a, pa_tokens a, pa_classes a,
        pa_overallCost a, pa_generalizedCost a, pa_samplesCount a, pa_patternId a,
        pa_iterationId a]"

definition patternAcquirer_fromIFace :: "pooled_column list \<Rightarrow> patternAcquirer res" where
  "patternAcquirer_fromIFace iface =
     rbind (col_at iface 0 TUInt32) (\<lambda>c0.
     rbind (col_at iface 1 TUInt64) (\<lambda>c1.
     rbind (col_at iface 2 TUInt32) (\<lambda>c2.
     rbind (col_at iface 3 TArrStr) (\<lambda>c3.
     rbind (col_at iface 4 TArrUInt32) (\<lambda>c4.
     rbind (col_at iface 5 TUInt32) (\<lambda>c5.
     rbind (col_at iface 6 TUInt32) (\<lambda>c6.
     rbind (col_at iface 7 TUInt32) (\<lambda>c7.
     rbind (col_at iface 8 TUInt64) (\<lambda>c8.
     rbind (col_at iface 9 TUInt64) (\<lambda>c9.
     Inr \<lparr>pa_timestamp10m = c0, pa_fingerprint = c1, pa_timestampS = c2, pa_tokens = c3,
         pa_classes = c4, pa_overallCost = c5, pa_generalizedCost = c6, pa_samplesCount = c7,
         pa_patternId = c8, pa_iterationId = c9\<rparr>))))))))))"

definition patterns_ProcessRequest :: "insert_req \<Rightarrow> pooled_column list \<Rightarrow> proc_out" where
  "patterns_ProcessRequest req res =
     (case req of
        ReqPatterns d \<Rightarrow>
          (case patternAcquirer_fromIFace res of
             Inl e \<Rightarrow> ProcPanic e res
           | Inr a \<Rightarrow>
               (let a' = a\<lparr>pa_timestamp10m := append_cells (map CU32 (pt_MTimestamp10m d)) (pa_timestamp10m a),
                         pa_fingerprint := append_cells (map CU64 (pt_MFingerprint d)) (pa_fingerprint a),
                         pa_timestampS := append_cells (map CU32 (pt_MTimestampS d)) (pa_timestampS a),
                         pa_tokens := append_cells (map CArrStr (pt_MTokens d)) (pa_tokens a),
                         pa_classes := append_cells (map CArrU32 (pt_MClasses d)) (pa_classes a),
                         pa_overallCost := append_cells (map CU32 (pt_MOverallCost d)) (pa_overallCost a),
                         pa_generalizedCost := append_cells (map CU32 (pt_MGeneralizedCost d)) (pa_generalizedCost a),
                         pa_samplesCount := append_cells (map CU32 (pt_MSamplesCount d)) (pa_samplesCount a),
                         pa_patternId := append_cells (map CU64 (pt_MPatternId d)) (pa_patternId a),
                         pa_iterationId := append_cells (map CU64 (pt_MIterationId d)) (pa_iterationId a)\<rparr>
                in Processed (PooledColumn_Size (pa_timestamp10m a') - PooledColumn_Size (pa_timestamp10m a))
                     (patternAcquirer_toIFace a')))
      | _ \<Rightarrow> ProcFailed ''invalid request pattern '')"

subsection \<open>profile.go\<close>

record profileSamplesAcquirer =
  pr_timestampNs :: pooled_column
  pr_ptype :: pooled_column
  pr_serviceName :: pooled_column
  pr_sampleTypesUnits :: pooled_column
  pr_periodType :: pooled_column
  pr_periodUnit :: pooled_column
  pr_tags :: pooled_column
  pr_durationNs :: pooled_column
  pr_payloadType :: pooled_column
  pr_payload :: pooled_column
  pr_valuesAgg :: pooled_column
  pr_tree :: pooled_column
  pr_functions :: pooled_column

definition profileSamplesAcquirer_acq :: "profileSamplesAcquirer" where
  "profileSamplesAcquirer_acq =
     \<lparr>pr_timestampNs = Acquire TUInt64 ''timestamp_ns'',
      pr_ptype = Acquire TStr ''type'',
      pr_serviceName = Acquire TStr ''service_name'',
      pr_sampleTypesUnits = Acquire TArrStrStr ''sample_types_units'',
      pr_periodType = Acquire TStr ''period_type'',
      pr_periodUnit = Acquire TStr ''period_unit'',
      pr_tags = Acquire TArrStrStr ''tags'',
      pr_durationNs = Acquire TUInt64 ''duration_ns'',
      pr_payloadType = Acquire TStr ''payload_type'',
      pr_payload = Acquire TStr ''payload'',
      pr_valuesAgg = Acquire TArrValuesAgg ''values_agg'',
      pr_tree = Acquire TArrTree ''tree'',
      pr_functions = Acquire TArrFunction ''functions''\<rparr>"

definition profileSamplesAcquirer_toIFace :: "profileSamplesAcquirer \<Rightarrow> pooled_column list" where
  "profileSamplesAcquirer_toIFace a =
     [pr_timestampNs a, pr_ptype a, pr_serviceName a, pr_sampleTypesUnits a, pr_periodType a,
        pr_periodUnit a, pr_tags a, pr_durationNs a, pr_payloadType a, pr_payload a,
        pr_valuesAgg a, pr_tree a, pr_functions a]"

definition profileSamplesAcquirer_fromIFace :: "pooled_column list \<Rightarrow> profileSamplesAcquirer res" where
  "profileSamplesAcquirer_fromIFace iface =
     rbind (col_at iface 0 TUInt64) (\<lambda>c0.
     rbind (col_at iface 1 TStr) (\<lambda>c1.
     rbind (col_at iface 2 TStr) (\<lambda>c2.
     rbind (col_at iface 3 TArrStrStr) (\<lambda>c3.
     rbind (col_at iface 4 TStr) (\<lambda>c4.
     rbind (col_at iface 5 TStr) (\<lambda>c5.
     rbind (col_at iface 6 TArrStrStr) (\<lambda>c6.
     rbind (col_at iface 7 TUInt64) (\<lambda>c7.
     rbind (col_at iface 8 TStr) (\<lambda>c8.
     rbind (col_at iface 9 TStr) (\<lambda>c9.
     rbind (col_at iface 10 TArrValuesAgg) (\<lambda>c10.
     rbind (col_at iface 11 TArrTree) (\<lambda>c11.
     rbind (col_at iface 12 TArrFunction) (\<lambda>c12.
     Inr \<lparr>pr_timestampNs = c0, pr_ptype = c1, pr_serviceName = c2, pr_sampleTypesUnits = c3,
         pr_periodType = c4, pr_periodUnit = c5, pr_tags = c6, pr_durationNs = c7,
         pr_payloadType = c8, pr_payload = c9, pr_valuesAgg = c10, pr_tree = c11,
         pr_functions = c12\<rparr>)))))))))))))"

definition profile_ProcessRequest :: "insert_req \<Rightarrow> pooled_column list \<Rightarrow> proc_out" where
  "profile_ProcessRequest req res =
     (case req of
        ReqProfile d \<Rightarrow>
          (case profileSamplesAcquirer_fromIFace res of
             Inl e \<Rightarrow> ProcPanic e res
           | Inr a \<Rightarrow>
               (let a' = a\<lparr>pr_timestampNs := append_cells (map CU64 (pd_TimestampNs d)) (pr_timestampNs a),
                         pr_durationNs := append_cells (map CU64 (pd_DurationNs d)) (pr_durationNs a),
                         pr_serviceName := append_cells (map CStr (pd_ServiceName d)) (pr_serviceName a),
                         pr_ptype := append_cells (map CStr (pd_Ptype d)) (pr_ptype a),
                         pr_payloadType := append_cells (map CStr (pd_PayloadType d)) (pr_payloadType a),
                         pr_periodUnit := append_cells (map CStr (pd_PeriodUnit d)) (pr_periodUnit a),
                         pr_periodType := append_cells (map CStr (pd_PeriodType d)) (pr_periodType a),
                         pr_payload := append_cells (map CStr (pd_Payload d)) (pr_payload a),
                         pr_sampleTypesUnits := append_cells [CArrStrStr (pd_SamplesTypesUnits d)] (pr_sampleTypesUnits a),
                         pr_tags := append_cells [CArrStrStr (pd_Tags d)] (pr_tags a),
                         pr_valuesAgg := append_cells [CArrValuesAgg (pd_ValuesAgg d)] (pr_valuesAgg a),
                         pr_functions := append_cells [CArrFunction (pd_Function d)] (pr_functions a),
                         pr_tree := append_cells [CArrTree (pd_Tree d)] (pr_tree a)\<rparr>
                in Processed (PooledColumn_Size (pr_timestampNs a') - PooledColumn_Size (pr_timestampNs a))
                     (profileSamplesAcquirer_toIFace a')))
      | _ \<Rightarrow> ProcFailed ''invalid request samples insert'')"

subsection \<open>tempo.go, spans\<close>

record tempoSamplesAcquirer =
  sp_traceId :: pooled_column
  sp_spanId :: pooled_column
  sp_parentId :: pooled_column
  sp_name :: pooled_column
  sp_timestampNs :: pooled_column
  sp_durationNs :: pooled_column
  sp_serviceName :: pooled_column
  sp_payloadType :: pooled_column
  sp_payload :: pooled_column

definition tempoSamplesAcquirer_acq :: "tempoSamplesAcquirer" where
  "tempoSamplesAcquirer_acq =
     \<lparr>sp_traceId = SetSize 16 (Acquire TFixedStr ''trace_id''),
      sp_spanId = SetSize 8 (Acquire TFixedStr ''span_id''),
      sp_parentId = Acquire TStr ''parent_id'',
      sp_name = Acquire TStr ''name'',
      sp_timestampNs = Acquire TInt64 ''timestamp_ns'',
      sp_durationNs = Acquire TInt64 ''duration_ns'',
      sp_serviceName = Acquire TStr ''service_name'',
      sp_payloadType = Acquire TInt8 ''payload_type'',
      sp_payload = Acquire TStr ''payload''\<rparr>"

definition tempoSamplesAcquirer_toIFace :: "tempoSamplesAcquirer \<Rightarrow> pooled_column list" where
  "tempoSamplesAcquirer_toIFace a =
     [sp_traceId a, sp_spanId a, sp_parentId a, sp_name a, sp_timestampNs a, sp_durationNs a,
        sp_serviceName a, sp_payloadType a, sp_payload a]"

definition tempoSamplesAcquirer_fromIFace :: "pooled_column list \<Rightarrow> tempoSamplesAcquirer res" where
  "tempoSamplesAcquirer_fromIFace iface =
     rbind (col_at iface 0 TFixedStr) (\<lambda>c0.
     rbind (col_at iface 1 TFixedStr) (\<lambda>c1.
     rbind (col_at iface 2 TStr) (\<lambda>c2.
     rbind (col_at iface 3 TStr) (\<lambda>c3.
     rbind (col_at iface 4 TInt64) (\<lambda>c4.
     rbind (col_at iface 5 TInt64) (\<lambda>c5.
     rbind (col_at iface 6 TStr) (\<lambda>c6.
     rbind (col_at iface 7 TInt8) (\<lambda>c7.
     rbind (col_at iface 8 TStr) (\<lambda>c8.
     Inr \<lparr>sp_traceId = c0, sp_spanId = c1, sp_parentId = c2, sp_name = c3,
         sp_timestampNs = c4, sp_durationNs = c5, sp_serviceName = c6, sp_payloadType = c7,
         sp_payload = c8\<rparr>)))))))))"

definition spans_ProcessRequest ::
  "(nat \<Rightarrow> string \<Rightarrow> bool) \<Rightarrow> insert_req \<Rightarrow> pooled_column list \<Rightarrow> proc_out" where
  "spans_ProcessRequest fx req res =
     (case req of
        ReqSpans d \<Rightarrow>
          (case tempoSamplesAcquirer_fromIFace res of
             Inl e \<Rightarrow> ProcPanic e res
           | Inr a \<Rightarrow>
               (case FixedStrAdaptor_AppendArr fx (tp_MTraceId d) (sp_traceId a) of
                  (c, False) \<Rightarrow>
                    ProcPanic (Panic ''invalid size'') (tempoSamplesAcquirer_toIFace (a\<lparr>sp_traceId := c\<rparr>))
                | (c, True) \<Rightarrow>
                    (let a1 = a\<lparr>sp_traceId := c\<rparr> in
                     case FixedStrAdaptor_AppendArr fx (tp_MSpanId d) (sp_spanId a1) of
                       (c, False) \<Rightarrow>
                         ProcPanic (Panic ''invalid size'') (tempoSamplesAcquirer_toIFace (a1\<lparr>sp_spanId := c\<rparr>))
                     | (c, True) \<Rightarrow>
                         (let a2 = a1\<lparr>sp_spanId := c,
                                sp_timestampNs := append_cells (map CI64 (tp_MTimestampNs d)) (sp_timestampNs a1),
                                sp_durationNs := append_cells (map CI64 (tp_MDurationNs d)) (sp_durationNs a1),
                                sp_name := append_cells (map CStr (tp_MName d)) (sp_name a1),
                                sp_parentId := append_cells (map CStr (tp_MParentId d)) (sp_parentId a1),
                                sp_payload := append_cells (map CStr (tp_MPayload d)) (sp_payload a1),
                                sp_payloadType := append_cells (map CI8 (tp_MPayloadType d)) (sp_payloadType a1),
                                sp_serviceName := append_cells (map CStr (tp_MServiceName d)) (sp_serviceName a1)\<rparr>
                          in Processed (PooledColumn_Size (sp_traceId a2) - PooledColumn_Size (sp_traceId a))
                               (tempoSamplesAcquirer_toIFace a2)))))
      | _ \<Rightarrow> ProcFailed ''invalid request type tempo samples'')"

subsection \<open>tempo.go, attributes\<close>

record tempoTagsAcquirer =
  tg_date :: pooled_column
  tg_key :: pooled_column
  tg_val :: pooled_column
  tg_traceId :: pooled_column
  tg_spanId :: pooled_column
  tg_timestampNS :: pooled_column
  tg_durationNS :: pooled_column

definition tempoTagsAcquirer_acq :: "tempoTagsAcquirer" where
  "tempoTagsAcquirer_acq =
     \<lparr>tg_date = Acquire TDate ''date'',
      tg_key = Acquire TStr ''key'',
      tg_val = Acquire TStr ''val'',
      tg_traceId = SetSize 16 (Acquire TFixedStr ''trace_id''),
      tg_spanId = SetSize 8 (Acquire TFixedStr ''span_id''),
      tg_timestampNS = Acquire TInt64 ''timestamp_ns'',
      tg_durationNS = Acquire TInt64 ''duration''\<rparr>"

definition tempoTagsAcquirer_toIFace :: "tempoTagsAcquirer \<Rightarrow> pooled_column list" where
  "tempoTagsAcquirer_toIFace a =
     [tg_date a, tg_key a, tg_val a, tg_traceId a, tg_spanId a, tg_timestampNS a,
        tg_durationNS a]"

definition tempoTagsAcquirer_fromIFace :: "pooled_column list \<Rightarrow> tempoTagsAcquirer res" where
  "tempoTagsAcquirer_fromIFace iface =
     rbind (col_at iface 0 TDate) (\<lambda>c0.
     rbind (col_at iface 1 TStr) (\<lambda>c1.
     rbind (col_at iface 2 TStr) (\<lambda>c2.
     rbind (col_at iface 3 TFixedStr) (\<lambda>c3.
     rbind (col_at iface 4 TFixedStr) (\<lambda>c4.
     rbind (col_at iface 5 TInt64) (\<lambda>c5.
     rbind (col_at iface 6 TInt64) (\<lambda>c6.
     Inr \<lparr>tg_date = c0, tg_key = c1, tg_val = c2, tg_traceId = c3, tg_spanId = c4,
         tg_timestampNS = c5, tg_durationNS = c6\<rparr>)))))))"

definition tags_ProcessRequest ::
  "(nat \<Rightarrow> string \<Rightarrow> bool) \<Rightarrow> insert_req \<Rightarrow> pooled_column list \<Rightarrow> proc_out" where
  "tags_ProcessRequest fx req res =
     (case req of
        ReqTags d \<Rightarrow>
          (case tempoTagsAcquirer_fromIFace res of
             Inl e \<Rightarrow> ProcPanic e res
           | Inr a \<Rightarrow>
               (case FixedStrAdaptor_AppendArr fx (tt_MTraceId d) (tg_traceId a) of
                  (c, False) \<Rightarrow>
                    ProcPanic (Panic ''invalid size'') (tempoTagsAcquirer_toIFace (a\<lparr>tg_traceId := c\<rparr>))
                | (c, True) \<Rightarrow>
                    (let a1 = a\<lparr>tg_traceId := c\<rparr> in
                     case FixedStrAdaptor_AppendArr fx (tt_MSpanId d) (tg_spanId a1) of
                       (c, False) \<Rightarrow>
                         ProcPanic (Panic ''invalid size'') (tempoTagsAcquirer_toIFace (a1\<lparr>tg_spanId := c\<rparr>))
                     | (c, True) \<Rightarrow>
                         (let a2 = a1\<lparr>tg_spanId := c,
                                tg_timestampNS := append_cells (map CI64 (tt_MTimestampNs d)) (tg_timestampNS a1),
                                tg_durationNS := append_cells (map CI64 (tt_MDurationNs d)) (tg_durationNS a1),
                                tg_key := append_cells (map CStr (tt_MKey d)) (tg_key a1),
                                tg_val := append_cells (map CStr (tt_MVal d)) (tg_val a1),
                                tg_date := append_cells (map CDate (tt_MDate d)) (tg_date a1)\<rparr>
                          in Processed (PooledColumn_Size (tg_date a2) - PooledColumn_Size (tg_date a))
                               (tempoTagsAcquirer_toIFace a2)))))
      | _ \<Rightarrow> ProcFailed ''invalid request tempo tags'')"

subsection \<open>The constructors\<close>

text \<open>
  The options (model/service\_base.go) and the fields of \<open>InsertServiceV2Multimodal\<close> that a
  constructor fills in, apart from the session factory and the push interval, which it hands on.
  Insert-service plug-ins are taken to be absent.
\<close>

record InsertServiceOpts =
  io_ClusterName :: string
  io_MaxQueueSize :: int
  io_ParallelNum :: int
  io_AsyncInsert :: bool

record insert_service =
  is_InsertRequest :: string
  is_ServiceType :: string
  is_SvcNum :: int
  is_AsyncInsert :: bool
  is_MaxQueueSize :: int
  is_AcquireColumns :: "pooled_column list"
  is_ProcessRequest :: "insert_req \<Rightarrow> pooled_column list \<Rightarrow> proc_out"

definition parallel_num :: "InsertServiceOpts \<Rightarrow> int" where
  "parallel_num opts = (if io_ParallelNum opts \<le> 0 then 1 else io_ParallelNum opts)"

definition dist_table :: "string \<Rightarrow> InsertServiceOpts \<Rightarrow> string" where
  "dist_table name opts = (if io_ClusterName opts \<noteq> '''' then name @ ''_dist'' else name)"

definition insert_text :: "string \<Rightarrow> string \<Rightarrow> string" where
  "insert_text tab cols = ''INSERT INTO '' @ tab @ '' ('' @ cols @ '')''"

definition oid_cols :: "bool \<Rightarrow> string \<Rightarrow> string" where
  "oid_cols fed cols = (if fed then ''oid, '' @ cols else cols)"

definition NewSamplesInsertService :: "bool \<Rightarrow> InsertServiceOpts \<Rightarrow> insert_service" where
  "NewSamplesInsertService fed opts =
     \<lparr>is_InsertRequest = insert_text (dist_table ''samples_v3'' opts)
        (oid_cols fed ''type,fingerprint, timestamp_ns, string, value''),
      is_ServiceType = ''samples'', is_SvcNum = parallel_num opts,
      is_AsyncInsert = io_AsyncInsert opts, is_MaxQueueSize = io_MaxQueueSize opts,
      is_AcquireColumns = SamplesAcquirer_serialize fed (SamplesAcquirer_acq fed),
      is_ProcessRequest = samples_ProcessRequest fed\<rparr>"

definition NewMetricsInsertService :: "bool \<Rightarrow> InsertServiceOpts \<Rightarrow> insert_service" where
  "NewMetricsInsertService fed opts =
     \<lparr>is_InsertRequest = insert_text (dist_table ''samples_v3'' opts)
        (oid_cols fed ''`type`, fingerprint, timestamp_ns, value''),
      is_ServiceType = ''metrics'', is_SvcNum = parallel_num opts,
      is_AsyncInsert = io_AsyncInsert opts, is_MaxQueueSize = io_MaxQueueSize opts,
      is_AcquireColumns = MetricsAcquirer_serialize fed (MetricsAcquirer_acq fed),
      is_ProcessRequest = metrics_ProcessRequest fed\<rparr>"

definition NewTimeSeriesInsertService :: "bool \<Rightarrow> InsertServiceOpts \<Rightarrow> insert_service" where
  "NewTimeSeriesInsertService fed opts =
     \<lparr>is_InsertRequest = insert_text (dist_table ''time_series'' opts)
        (oid_cols fed ''type, date, fingerprint, labels, metadata''),
      is_ServiceType = ''time_series'', is_SvcNum = parallel_num opts,
      is_AsyncInsert = io_AsyncInsert opts, is_MaxQueueSize = io_MaxQueueSize opts,
      is_AcquireColumns = TimeSeriesAcquirer_serialize fed (TimeSeriesAcquirer_acq fed),
      is_ProcessRequest = series_ProcessRequest fed\<rparr>"

text \<open>The pattern service does not hand on \<open>MaxQueueSize\<close>, which stays 0.\<close>

definition NewPatternInsertService :: "InsertServiceOpts \<Rightarrow> insert_service" where
  "NewPatternInsertService opts =
     \<lparr>is_InsertRequest = insert_text (dist_table ''patterns'' opts)
        (''timestamp_10m, fingerprint, timestamp_s, tokens, classes, overall_cost, '' @
         ''generalized_cost, samples_count, pattern_id, iteration_id''),
      is_ServiceType = ''patterns'', is_SvcNum = parallel_num opts,
      is_AsyncInsert = io_AsyncInsert opts, is_MaxQueueSize = 0,
      is_AcquireColumns = patternAcquirer_toIFace patternAcquirer_acq,
      is_ProcessRequest = patterns_ProcessRequest\<rparr>"

definition NewProfileSamplesInsertService :: "InsertServiceOpts \<Rightarrow> insert_service" where
  "NewProfileSamplesInsertService opts =
     \<lparr>is_InsertRequest = insert_text ''profiles_input''
        (''timestamp_ns, type, service_name, sample_types_units, period_type, period_unit,tags, '' @
         ''duration_ns, payload_type, payload, values_agg,tree,functions''),
      is_ServiceType = ''profile'', is_SvcNum = parallel_num opts,
      is_AsyncInsert = io_AsyncInsert opts, is_MaxQueueSize = io_MaxQueueSize opts,
      is_AcquireColumns = profileSamplesAcquirer_toIFace profileSamplesAcquirer_acq,
      is_ProcessRequest = profile_ProcessRequest\<rparr>"

definition NewTempoSamplesInsertService ::
  "(nat \<Rightarrow> string \<Rightarrow> bool) \<Rightarrow> InsertServiceOpts \<Rightarrow> insert_service" where
  "NewTempoSamplesInsertService fx opts =
     \<lparr>is_InsertRequest = insert_text (dist_table ''tempo_traces'' opts)
        (''trace_id ,span_id, parent_id, name, timestamp_ns, '' @
         ''duration_ns, service_name, payload_type, payload''),
      is_ServiceType = ''traces'', is_SvcNum = parallel_num opts,
      is_AsyncInsert = io_AsyncInsert opts, is_MaxQueueSize = io_MaxQueueSize opts,
      is_AcquireColumns = tempoSamplesAcquirer_toIFace tempoSamplesAcquirer_acq,
      is_ProcessRequest = spans_ProcessRequest fx\<rparr>"

definition NewTempoTagsInsertService ::
  "(nat \<Rightarrow> string \<Rightarrow> bool) \<Rightarrow> InsertServiceOpts \<Rightarrow> insert_service" where
  "NewTempoTagsInsertService fx opts =
     \<lparr>is_InsertRequest = insert_text (dist_table ''tempo_traces_attrs_gin'' opts)
        ''date, key, val, trace_id, span_id, timestamp_ns, duration'',
      is_ServiceType = ''traces_tags'', is_SvcNum = parallel_num opts,
      is_AsyncInsert = io_AsyncInsert opts, is_MaxQueueSize = io_MaxQueueSize opts,
      is_AcquireColumns = tempoTagsAcquirer_toIFace tempoTagsAcquirer_acq,
      is_ProcessRequest = tags_ProcessRequest fx\<rparr>"

end
