(* ===== verification/Insert_Contract.thy ===== *)
theory Insert_Contract
  imports Insert_Tables
begin

section \<open>What the tables promise to the insert service\<close>

text \<open>
  The rows a request asks for, per table, and the contract of \<open>ProcessRequest\<close>: on columns of the
  right types and of equal length, a well-formed request is appended as exactly its rows.
  The locale \<open>insert_table\<close> is this contract as the service relies on it.
\<close>

subsection \<open>Rows of a set of columns\<close>

definition aligned :: "'a list list \<Rightarrow> bool" where
  "aligned css \<longleftrightarrow> css \<noteq> [] \<and> (\<forall>c\<in>set css. length c = length (hd css))"

definition table_rows :: "'a list list \<Rightarrow> 'a list list" where
  "table_rows css = map (\<lambda>i. map (\<lambda>c. c ! i) css) [0..<length (hd css)]"

definition col_sig :: "pooled_column \<Rightarrow> string \<times> col_type \<times> nat" where
  "col_sig c = (pc_Name c, pc_Type c, pc_Fixed c)"

definition col_rows :: "pooled_column list \<Rightarrow> cell list list" where
  "col_rows cols = table_rows (map pc_Data cols)"

lemma aligned_map2_append:
  "aligned css \<Longrightarrow> aligned dss \<Longrightarrow> length css = length dss \<Longrightarrow> aligned (map2 (@) css dss)"
  by (cases css; cases dss) (auto simp: aligned_def set_zip)

lemma nth_map2_append:
  assumes "\<forall>c\<in>set css. length c = n" "length css = length dss"
  shows "i < n \<Longrightarrow> map (\<lambda>c. c ! i) (map2 (@) css dss) = map (\<lambda>c. c ! i) css"
    and "map (\<lambda>c. c ! (n + i)) (map2 (@) css dss) = map (\<lambda>c. c ! i) dss"
  using assms(2,1) by (induction css dss rule: list_induct2) (simp_all add: nth_append)

lemma table_rows_append:
  assumes "aligned css" "aligned dss" "length css = length dss"
  shows "table_rows (map2 (@) css dss) = table_rows css @ table_rows dss"
proof -
  let ?n = "length (hd css)" and ?m = "length (hd dss)"
  have "css \<noteq> []" "dss \<noteq> []" using assms unfolding aligned_def by blast+
  then have hd: "length (hd (map2 (@) css dss)) = ?n + ?m" by (cases css; cases dss) simp_all
  have len: "\<forall>c\<in>set css. length c = ?n" using assms(1) unfolding aligned_def by blast
  have split: "[0..<?n + ?m] = [0..<?n] @ map (\<lambda>i. ?n + i) [0..<?m]"
    using upt_add_eq_append [of 0 ?n ?m] map_add_upt [of ?n ?m] by (simp add: add.commute)
  show ?thesis
    unfolding table_rows_def hd split map_append
    using nth_map2_append [OF len assms(3)] by (simp add: comp_def)
qed

lemma length_table_rows [simp]: "length (table_rows css) = length (hd css)"
  by (simp add: table_rows_def)

subsection \<open>The rows a request asks for\<close>

datatype table_kind = SamplesT | MetricsT | SeriesT | PatternsT | ProfileT | SpansT | TagsT

definition oid_cells :: "bool \<Rightarrow> string \<Rightarrow> nat \<Rightarrow> cell list list" where
  "oid_cells fed oid n = (if fed then [replicate n (CStr oid)] else [])"

fun request_columns :: "bool \<Rightarrow> table_kind \<Rightarrow> insert_req \<Rightarrow> cell list list" where
  "request_columns fed SamplesT (ReqSamples d) =
     oid_cells fed (spl_MOid d) (length (spl_MTimestampNS d)) @
     [map CU8 (spl_MType d), map CU64 (spl_MFingerprint d), map CI64 (spl_MTimestampNS d),
      map CStr (spl_MMessage d), map CF64 (spl_MValue d)]"
| "request_columns fed MetricsT (ReqSamples d) =
     oid_cells fed (spl_MOid d) (length (spl_MType d)) @
     [map CU8 (spl_MType d), map CU64 (spl_MFingerprint d), map CI64 (spl_MTimestampNS d),
      map CF64 (spl_MValue d)]"
| "request_columns fed SeriesT (ReqSeries d) =
     oid_cells fed (ts_MOid d) (length (ts_MDate d)) @
     [map CU8 (ts_MType d), map CDate (ts_MDate d), map CU64 (ts_MFingerprint d),
      map CStr (take (length (ts_MDate d)) (ts_MLabels d)),
      map (\<lambda>i. CStr (str_at (ts_MMetadata d) i)) [0..<length (ts_MDate d)]]"
| "request_columns fed PatternsT (ReqPatterns d) =
     [map CU32 (pt_MTimestamp10m d), map CU64 (pt_MFingerprint d), map CU32 (pt_MTimestampS d),
      map CArrStr (pt_MTokens d), map CArrU32 (pt_MClasses d), map CU32 (pt_MOverallCost d),
      map CU32 (pt_MGeneralizedCost d), map CU32 (pt_MSamplesCount d),
      map CU64 (pt_MPatternId d), map CU64 (pt_MIterationId d)]"
| "request_columns fed ProfileT (ReqProfile d) =
     [map CU64 (pd_TimestampNs d), map CStr (pd_Ptype d), map CStr (pd_ServiceName d),
      [CArrStrStr (pd_SamplesTypesUnits d)], map CStr (pd_PeriodType d), map CStr (pd_PeriodUnit d),
      [CArrStrStr (pd_Tags d)], map CU64 (pd_DurationNs d), map CStr (pd_PayloadType d),
      map CStr (pd_Payload d), [CArrValuesAgg (pd_ValuesAgg d)], [CArrTree (pd_Tree d)],
      [CArrFunction (pd_Function d)]]"
| "request_columns fed SpansT (ReqSpans d) =
     [map CFixed (tp_MTraceId d), map CFixed (tp_MSpanId d), map CStr (tp_MParentId d),
      map CStr (tp_MName d), map CI64 (tp_MTimestampNs d), map CI64 (tp_MDurationNs d),
      map CStr (tp_MServiceName d), map CI8 (tp_MPayloadType d), map CStr (tp_MPayload d)]"
| "request_columns fed TagsT (ReqTags d) =
     [map CDate (tt_MDate d), map CStr (tt_MKey d), map CStr (tt_MVal d),
      map CFixed (tt_MTraceId d), map CFixed (tt_MSpanId d), map CI64 (tt_MTimestampNs d),
      map CI64 (tt_MDurationNs d)]"
| "request_columns fed _ _ = []"

text \<open>The ids of a span request have to fit the fixed size columns.\<close>

fun ids_fit :: "(nat \<Rightarrow> string \<Rightarrow> bool) \<Rightarrow> insert_req \<Rightarrow> bool" where
  "ids_fit fx (ReqSpans d) = (list_all (fx 16) (tp_MTraceId d) \<and> list_all (fx 8) (tp_MSpanId d))"
| "ids_fit fx (ReqTags d) = (list_all (fx 16) (tt_MTraceId d) \<and> list_all (fx 8) (tt_MSpanId d))"
| "ids_fit fx _ = True"

text \<open>A well-formed request: the type of the table, columns of equal length, fitting ids.\<close>

definition well_formed :: "(nat \<Rightarrow> string \<Rightarrow> bool) \<Rightarrow> bool \<Rightarrow> table_kind \<Rightarrow> insert_req \<Rightarrow> bool" where
  "well_formed fx fed t r \<longleftrightarrow> aligned (request_columns fed t r) \<and> ids_fit fx r"

definition request_rows :: "bool \<Rightarrow> table_kind \<Rightarrow> insert_req \<Rightarrow> cell list list" where
  "request_rows fed t r = table_rows (request_columns fed t r)"

fun table_service ::
  "(nat \<Rightarrow> string \<Rightarrow> bool) \<Rightarrow> bool \<Rightarrow> InsertServiceOpts \<Rightarrow> table_kind \<Rightarrow> insert_service" where
  "table_service fx fed opts SamplesT = NewSamplesInsertService fed opts"
| "table_service fx fed opts MetricsT = NewMetricsInsertService fed opts"
| "table_service fx fed opts SeriesT = NewTimeSeriesInsertService fed opts"
| "table_service fx fed opts PatternsT = NewPatternInsertService opts"
| "table_service fx fed opts ProfileT = NewProfileSamplesInsertService opts"
| "table_service fx fed opts SpansT = NewTempoSamplesInsertService fx opts"
| "table_service fx fed opts TagsT = NewTempoTagsInsertService fx opts"

text \<open>Columns as the service keeps them between two requests.\<close>

definition fits :: "insert_service \<Rightarrow> pooled_column list \<Rightarrow> bool" where
  "fits svc cols \<longleftrightarrow>
     map col_sig cols = map col_sig (is_AcquireColumns svc) \<and> aligned (map pc_Data cols)"

subsection \<open>The contract, table by table\<close>

text \<open>
  Each processor answers the number of rows and appends, column by column, what the request
  asks for; names, types and sizes of the columns stay.
\<close>

definition appends :: "(insert_req \<Rightarrow> pooled_column list \<Rightarrow> proc_out) \<Rightarrow> insert_req
    \<Rightarrow> pooled_column list \<Rightarrow> cell list list \<Rightarrow> int \<Rightarrow> bool" where
  "appends process r cols css n \<longleftrightarrow>
     (\<exists>cols'. process r cols = Processed n cols' \<and> map col_sig cols' = map col_sig cols \<and>
        map pc_Data cols' = map2 (@) (map pc_Data cols) css)"

lemmas column_simps =
  appends_def map_eq_Cons_conv Cons_eq_map_conv col_sig_def Acquire_def SetSize_def col_at_def
  append_cells_def PooledColumn_Size_def oid_cells_def map_replicate_const

lemma samples_appends:
  assumes "map col_sig cols = map col_sig (SamplesAcquirer_serialize fed (SamplesAcquirer_acq fed))"
  shows "appends (samples_ProcessRequest fed) (ReqSamples d) cols
           (request_columns fed SamplesT (ReqSamples d)) (int (length (spl_MFingerprint d)))"
  using assms
  by (cases fed)
     (auto simp: column_simps SamplesAcquirer_serialize_def SamplesAcquirer_acq_def
        samples_ProcessRequest_def SamplesAcquirer_deserialize_def)

lemma metrics_appends:
  assumes "map col_sig cols = map col_sig (MetricsAcquirer_serialize fed (MetricsAcquirer_acq fed))"
  shows "appends (metrics_ProcessRequest fed) (ReqSamples d) cols
           (request_columns fed MetricsT (ReqSamples d)) (int (length (spl_MFingerprint d)))"
  using assms
  by (cases fed)
     (auto simp: column_simps MetricsAcquirer_serialize_def MetricsAcquirer_acq_def
        metrics_ProcessRequest_def MetricsAcquirer_deserialize_def)

lemma patterns_appends:
  assumes "map col_sig cols = map col_sig (patternAcquirer_toIFace patternAcquirer_acq)"
  shows "appends patterns_ProcessRequest (ReqPatterns d) cols
           (request_columns fed PatternsT (ReqPatterns d)) (int (length (pt_MTimestamp10m d)))"
  using assms
  by (auto simp: column_simps patternAcquirer_toIFace_def patternAcquirer_acq_def
        patterns_ProcessRequest_def patternAcquirer_fromIFace_def)

lemma profile_appends:
  assumes "map col_sig cols = map col_sig (profileSamplesAcquirer_toIFace profileSamplesAcquirer_acq)"
  shows "appends profile_ProcessRequest (ReqProfile d) cols
           (request_columns fed ProfileT (ReqProfile d)) (int (length (pd_TimestampNs d)))"
  using assms
  by (auto simp: column_simps profileSamplesAcquirer_toIFace_def profileSamplesAcquirer_acq_def
        profile_ProcessRequest_def profileSamplesAcquirer_fromIFace_def)

lemma AppendArr_fits:
  "list_all (fx (pc_Fixed c)) arr \<Longrightarrow>
     FixedStrAdaptor_AppendArr fx arr c = (append_cells (map CFixed arr) c, True)"
  by (induction arr arbitrary: c) (auto simp: append_cells_def)

lemma spans_appends:
  assumes "map col_sig cols = map col_sig (tempoSamplesAcquirer_toIFace tempoSamplesAcquirer_acq)"
    and "ids_fit fx (ReqSpans d)"
  shows "appends (spans_ProcessRequest fx) (ReqSpans d) cols
           (request_columns fed SpansT (ReqSpans d)) (int (length (tp_MTraceId d)))"
  using assms
  by (auto simp: column_simps tempoSamplesAcquirer_toIFace_def tempoSamplesAcquirer_acq_def
        spans_ProcessRequest_def tempoSamplesAcquirer_fromIFace_def AppendArr_fits)

lemma tags_appends:
  assumes "map col_sig cols = map col_sig (tempoTagsAcquirer_toIFace tempoTagsAcquirer_acq)"
    and "ids_fit fx (ReqTags d)"
  shows "appends (tags_ProcessRequest fx) (ReqTags d) cols
           (request_columns fed TagsT (ReqTags d)) (int (length (tt_MDate d)))"
  using assms
  by (auto simp: column_simps tempoTagsAcquirer_toIFace_def tempoTagsAcquirer_acq_def
        tags_ProcessRequest_def tempoTagsAcquirer_fromIFace_def AppendArr_fits)

lemma series_loop_appends:
  "i + length dates \<le> length (ts_MLabels d) \<Longrightarrow>
     series_loop d i dates a =
       (a\<lparr>ta_Date := append_cells (map CDate dates) (ta_Date a),
          ta_Labels := append_cells (map CStr (take (length dates) (drop i (ts_MLabels d)))) (ta_Labels a),
          ta_Metadata := append_cells (map (\<lambda>k. CStr (str_at (ts_MMetadata d) k)) [i..<i + length dates])
            (ta_Metadata a)\<rparr>, True)"
proof (induction d i dates a rule: series_loop.induct)
  case (2 d i date dates a)
  have "drop i (ts_MLabels d) = ts_MLabels d ! i # drop (Suc i) (ts_MLabels d)"
    using 2 by (simp add: Cons_nth_drop_Suc)
  moreover have "[i..<i + length (date # dates)] = i # [Suc i..<Suc i + length dates]"
    by (simp add: upt_conv_Cons del: upt_Suc)
  ultimately show ?case
    using 2 by (simp add: append_cells_def Let_def str_at_def)
qed (simp add: append_cells_def)

lemma series_appends:
  assumes "map col_sig cols = map col_sig (TimeSeriesAcquirer_serialize fed (TimeSeriesAcquirer_acq fed))"
    and "length (ts_MDate d) \<le> length (ts_MLabels d)"
  shows "appends (series_ProcessRequest fed) (ReqSeries d) cols
           (request_columns fed SeriesT (ReqSeries d)) (int (length (ts_MDate d)))"
  using assms
  by (cases fed)
     (auto simp: column_simps TimeSeriesAcquirer_serialize_def TimeSeriesAcquirer_acq_def
        series_ProcessRequest_def TimeSeriesAcquirer_deserialize_def series_loop_appends)

lemma well_formed_length:
  "well_formed fx fed t r \<Longrightarrow> c \<in> set (request_columns fed t r) \<Longrightarrow>
     length c = length (request_rows fed t r)"
  unfolding well_formed_def aligned_def request_rows_def by (metis length_table_rows)

lemma table_appends:
  assumes wf: "well_formed fx fed t r"
    and sig: "map col_sig cols = map col_sig (is_AcquireColumns (table_service fx fed opts t))"
  shows "appends (is_ProcessRequest (table_service fx fed opts t)) r cols (request_columns fed t r)
           (int (length (request_rows fed t r)))"
proof -
  note len = well_formed_length [OF wf]
  have fit: "request_columns fed t r \<noteq> []" "ids_fit fx r"
    using wf unfolding well_formed_def aligned_def by blast+
  show ?thesis
  proof (cases t)
    case SamplesT
    then obtain d where r: "r = ReqSamples d" using fit by (cases r) auto
    show ?thesis using samples_appends [of cols fed d] sig len [of "map CU64 (spl_MFingerprint d)"]
      by (simp add: SamplesT r NewSamplesInsertService_def)
  next
    case MetricsT
    then obtain d where r: "r = ReqSamples d" using fit by (cases r) auto
    show ?thesis using metrics_appends [of cols fed d] sig len [of "map CU64 (spl_MFingerprint d)"]
      by (simp add: MetricsT r NewMetricsInsertService_def)
  next
    case SeriesT
    then obtain d where r: "r = ReqSeries d" using fit by (cases r) auto
    show ?thesis
      using series_appends [of cols fed d] sig len [of "map CDate (ts_MDate d)"]
        len [of "map CStr (take (length (ts_MDate d)) (ts_MLabels d))"]
      by (simp add: SeriesT r NewTimeSeriesInsertService_def)
  next
    case PatternsT
    then obtain d where r: "r = ReqPatterns d" using fit by (cases r) auto
    show ?thesis using patterns_appends [of cols d fed] sig len [of "map CU32 (pt_MTimestamp10m d)"]
      by (simp add: PatternsT r NewPatternInsertService_def)
  next
    case ProfileT
    then obtain d where r: "r = ReqProfile d" using fit by (cases r) auto
    show ?thesis using profile_appends [of cols d fed] sig len [of "map CU64 (pd_TimestampNs d)"]
      by (simp add: ProfileT r NewProfileSamplesInsertService_def)
  next
    case SpansT
    then obtain d where r: "r = ReqSpans d" using fit by (cases r) auto
    show ?thesis using spans_appends [of cols fx d fed] sig fit(2) len [of "map CFixed (tp_MTraceId d)"]
      by (simp add: SpansT r NewTempoSamplesInsertService_def)
  next
    case TagsT
    then obtain d where r: "r = ReqTags d" using fit by (cases r) auto
    show ?thesis using tags_appends [of cols fx d fed] sig fit(2) len [of "map CDate (tt_MDate d)"]
      by (simp add: TagsT r NewTempoTagsInsertService_def)
  qed
qed

end
