(* ===== verification/Ingest_Builder.thy ===== *)
theory Ingest_Builder
  imports Insert_Contract City_Hash_Writer Ram_Parser
begin

section \<open>Building insert requests (writer/utils/unmarshal/builder.go, shared.go)\<close>

text \<open>
  A decoder of the writer calls \<open>onEntries\<close>, \<open>onSpan\<close> or \<open>onProfile\<close> for what it reads from a
  request body; these collect the rows in column slices and send them on a channel as requests
  for the insert services, about one megabyte at a time. The channel is the list of responses
  sent on it. A run-time panic is caught by \<open>tamePanic\<close> and sent as an error.

  Arguments of the model: the 64-bit CityHash of the package go-faster/city, \<open>strconv.Quote\<close>,
  the JSON encoding of the metric metadata, and the order in which Go walks the map of dates.
\<close>

type_synonym labels = "(string \<times> string) list"

subsection \<open>Metric metadata (utils/metadata/parser.go)\<close>

record metadata_entry =
  md_Type :: string
  md_Help :: string
  md_Unit :: string

definition metadata_put :: "string \<times> string \<Rightarrow> metadata_entry \<Rightarrow> metadata_entry" where
  "metadata_put l m =
     (if fst l = ''__metric_type__'' then m\<lparr>md_Type := snd l\<rparr>
      else if fst l = ''__metric_help__'' then m\<lparr>md_Help := snd l\<rparr>
      else if fst l = ''__metric_unit__'' then m\<lparr>md_Unit := snd l\<rparr> else m)"

definition ExtractMetadataFromLabels :: "labels \<Rightarrow> metadata_entry" where
  "ExtractMetadataFromLabels ls = fold metadata_put ls \<lparr>md_Type = '''', md_Help = '''', md_Unit = ''''\<rparr>"

definition metadata_IsZero :: "metadata_entry \<Rightarrow> bool" where
  "metadata_IsZero m \<longleftrightarrow> md_Type m = '''' \<and> md_Help m = '''' \<and> md_Unit m = ''''"

definition IsMetadataLabel :: "string \<Rightarrow> bool" where
  "IsMetadataLabel name \<longleftrightarrow>
     name = ''__metric_type__'' \<or> name = ''__metric_help__'' \<or> name = ''__metric_unit__''"

datatype fp_type = FINGERPRINT_CityHash | FINGERPRINT_Bernstein | FINGERPRINT_none

record ingest_env =
  ie_CH64 :: "bytes \<Rightarrow> 64 word"
  ie_FingerPrintType :: fp_type
  ie_Quote :: "string \<Rightarrow> string"
  ie_json :: "metadata_entry \<Rightarrow> string res"
  ie_order :: "int list \<Rightarrow> int list"

definition metadata_ToJSON :: "ingest_env \<Rightarrow> metadata_entry \<Rightarrow> string res" where
  "metadata_ToJSON E m = (if metadata_IsZero m then Inr '''' else ie_json E m)"

subsection \<open>Labels and fingerprints (unmarshal.go)\<close>

definition string_bytes :: "string \<Rightarrow> bytes" where
  "string_bytes s = map (\<lambda>c. word_of_nat (of_char c)) s"

definition encodeLabels :: "ingest_env \<Rightarrow> labels \<Rightarrow> string" where
  "encodeLabels E ls =
     ''{'' @ go_join '','' (map (\<lambda>l. ie_Quote E (fst l) @ '':'' @ ie_Quote E (snd l)) ls) @ ''}''"

definition label_hash :: "ingest_env \<Rightarrow> string \<times> string \<Rightarrow> 64 word" where
  "label_hash E l =
     w_Hash128to64 (ie_CH64 E (string_bytes (fst l)), ie_CH64 E (string_bytes (snd l)))"

definition determs_step :: "ingest_env \<Rightarrow> string \<times> string \<Rightarrow> 64 word \<times> 64 word \<times> 64 word
    \<Rightarrow> 64 word \<times> 64 word \<times> 64 word" where
  "determs_step E l d =
     (let h = label_hash E l in
      (fst d + h, fst (snd d) XOR h, snd (snd d) * (1779033703 + 2 * h)))"

definition FingerprintLabelsDJBHashPrometheus :: "bytes \<Rightarrow> 32 word" where
  "FingerprintLabelsDJBHashPrometheus bs = fold (\<lambda>b h. (h * 33) XOR ucast b) (rev bs) 5381"

definition fingerprintLabels :: "ingest_env \<Rightarrow> labels \<Rightarrow> 64 word" where
  "fingerprintLabels E ls =
     (case fold (determs_step E) ls (0, 0, 1) of
        (a, b, c) \<Rightarrow>
          (let fingerByte = w_put64 a @ w_put64 b @ w_put64 c in
           case ie_FingerPrintType E of
             FINGERPRINT_CityHash \<Rightarrow> ie_CH64 E fingerByte
           | FINGERPRINT_Bernstein \<Rightarrow> ucast (FingerprintLabelsDJBHashPrometheus fingerByte)
           | FINGERPRINT_none \<Rightarrow> 0))"

text \<open>
  \<open>sanitizeLabels\<close>: the expression replaces what is no letter, digit or underscore, and a first
  character that is a digit; long values are cut. The expression works on code points and the
  cut on bytes; a character of the model is both, so names are taken to be ASCII.
\<close>

definition sanitize_name :: "string \<Rightarrow> string" where
  "sanitize_name s =
     (case s of
        c # cs \<Rightarrow> (if CHR ''0'' \<le> c \<and> c \<le> CHR ''9'' then CHR ''_'' # sanitizeLabel cs else sanitizeLabel s)
      | [] \<Rightarrow> [])"

definition sanitizeLabels :: "labels \<Rightarrow> labels" where
  "sanitizeLabels ls =
     map (\<lambda>l. (sanitize_name (fst l),
               if length (snd l) > 100 then take 100 (snd l) @ ''...'' else snd l)) ls"

subsection \<open>Helpers of the builder\<close>

text \<open>
  \<open>fastFillArray\<close> fills a slice by doubling the filled part; \<open>z\<close> is the zero value of the type.
\<close>

function fill_double :: "nat \<Rightarrow> 'a list \<Rightarrow> 'a list" where
  "fill_double l arr =
     (if 0 < l \<and> l < length arr
      then fill_double (2 * l) (take l arr @ take (length arr - l) (take l arr) @ drop (2 * l) arr)
      else arr)"
  by pat_completeness auto
termination
  by (relation "measure (\<lambda>(l, arr). length arr - l)") auto

definition fastFillArray :: "'a \<Rightarrow> nat \<Rightarrow> 'a \<Rightarrow> 'a list res" where
  "fastFillArray z n v =
     (if n = 0 then Inl (Panic ''index out of range'') else Inr (fill_double 1 ((replicate n z)[0 := v])))"

text \<open>\<open>strconv.ParseInt(s, 10, bits)\<close>.\<close>

definition ParseInt10 :: "nat \<Rightarrow> string \<Rightarrow> int option" where
  "ParseInt10 bits s =
     (let neg = (has_prefix ''-'' s);
          ds = (if neg \<or> has_prefix ''+'' s then tl s else s);
          v = (if neg then - int (digits_val ds) else int (digits_val ds))
      in if ds = [] \<or> \<not> list_all (\<lambda>c. CHR ''0'' \<le> c \<and> c \<le> CHR ''9'') ds then None
         else if v < - (2 ^ (bits - 1)) \<or> 2 ^ (bits - 1) \<le> v then None
         else Some v)"

definition serviceNameCandidates :: "string list" where
  "serviceNameCandidates =
     [''service'', ''app'', ''application'', ''app_name'', ''name'', ''app_kubernetes_io_name'',
      ''container'', ''container_name'', ''k8s_container_name'', ''component'', ''workload'',
      ''job'', ''k8s_job_name'']"

fun service_name_loop :: "string \<Rightarrow> labels \<Rightarrow> bool \<times> string" where
  "service_name_loop name [] = (False, name)"
| "service_name_loop name (l # ls) =
     (if fst l = ''service_name'' then (True, '''')
      else service_name_loop (if fst l \<in> set serviceNameCandidates then snd l else name) ls)"

definition discoverServiceName :: "labels \<Rightarrow> labels" where
  "discoverServiceName ls =
     (case service_name_loop ''unknown'' ls of
        (found, name) \<Rightarrow> if \<not> found \<and> name \<noteq> '''' then ls @ [(''service_name'', name)] else ls)"

text \<open>The label filter of \<open>onEntries\<close>, with the time to live a label may set.\<close>

fun filter_special :: "16 word \<Rightarrow> labels \<Rightarrow> 16 word \<times> labels" where
  "filter_special ttl [] = (ttl, [])"
| "filter_special ttl (l # ls) =
     (if fst l = ''__ttl_days__'' \<and> ttl = 0
      then filter_special (case ParseInt10 16 (snd l) of Some n \<Rightarrow> word_of_int n | None \<Rightarrow> ttl) ls
      else if IsMetadataLabel (fst l) then filter_special ttl ls
      else (case filter_special ttl ls of (ttl', fs) \<Rightarrow> (ttl', l # fs)))"

subsection \<open>The cache of announced series (utils/numbercache/cache.go)\<close>

text \<open>
  The set of keys of one database. The third-party cache behind it may forget keys when it is
  full, and it is emptied by a timer; forgetting is a cache with fewer keys, and the theorems
  below hold for every cache a decoder starts with.
\<close>

record fp_cache =
  fc_isDistributed :: bool
  fc_sets :: "64 word list"

definition CheckAndSet :: "64 word \<Rightarrow> fp_cache \<Rightarrow> bool \<times> fp_cache" where
  "CheckAndSet k c =
     (if fc_isDistributed c then (False, c)
      else if k \<in> set (fc_sets c) then (True, c)
      else (False, c\<lparr>fc_sets := k # fc_sets c\<rparr>))"

definition fp_key :: "ingest_env \<Rightarrow> int \<Rightarrow> 64 word \<Rightarrow> 64 word" where
  "fp_key E date fp = ie_CH64 E (w_put64 (word_of_int date) @ w_put64 fp)"

definition maybeAddFp :: "ingest_env \<Rightarrow> int \<Rightarrow> 64 word \<Rightarrow> fp_cache \<Rightarrow> bool \<times> fp_cache" where
  "maybeAddFp E date fp c = (case CheckAndSet (fp_key E date fp) c of (seen, c') \<Rightarrow> (\<not> seen, c'))"

subsection \<open>Log and metric entries\<close>

datatype parser_response =
    RespError go_error
  | RespLogs TimeSeriesData TimeSamplesData
  | RespSpans TempoSamples TempoTag
  | RespProfile ProfileData

record entries_call =
  ec_labels :: labels
  ec_timestamps :: "64 word list"
  ec_message :: "string list"
  ec_value :: "64 word list"
  ec_types :: "8 word list"

text \<open>The parts of \<open>parserDoer\<close> that the log path uses; \<open>do_res\<close> is what was sent on the channel.\<close>

record logs_doer =
  do_ts :: TimeSeriesData
  do_spl :: TimeSamplesData
  do_meta :: string
  do_oid :: string
  do_ttlDays :: "16 word"
  do_fpCache :: fp_cache
  do_res :: "parser_response list"

definition tsSpl_reset :: "logs_doer \<Rightarrow> logs_doer" where
  "tsSpl_reset p = p\<lparr>do_ts := empty_series (do_meta p) (do_oid p), do_spl := empty_samples (do_oid p)\<rparr>"

definition tsSpl_flush :: "logs_doer \<Rightarrow> logs_doer" where
  "tsSpl_flush p = p\<lparr>do_res := do_res p @ [RespLogs (do_ts p) (do_spl p)]\<rparr>"

text \<open>\<open>time.Unix(tsns/1000000000, 0).Truncate(time.Hour*24)\<close> in seconds.\<close>

definition day_of :: "64 word \<Rightarrow> int" where
  "day_of tsns = (go_div (sint tsns) 1000000000 div 86400) * 86400"

definition add_series_row :: "int \<Rightarrow> string \<Rightarrow> 64 word \<Rightarrow> 16 word \<Rightarrow> string \<Rightarrow> 8 word
    \<Rightarrow> TimeSeriesData \<Rightarrow> TimeSeriesData" where
  "add_series_row d lbls fp ttl meta t ts =
     ts\<lparr>ts_MDate := ts_MDate ts @ [d], ts_MLabels := ts_MLabels ts @ [lbls],
        ts_MFingerprint := ts_MFingerprint ts @ [fp], ts_MType := ts_MType ts @ [t],
        ts_MTTLDays := ts_MTTLDays ts @ [ttl], ts_MMetadata := ts_MMetadata ts @ [meta],
        ts_Size := ts_Size ts + (14 + int (length lbls) + int (length meta))\<rparr>"

text \<open>The array \<open>tps\<close> as the list of the types that are set, in its order.\<close>

definition types_of :: "8 word list \<Rightarrow> 8 word list" where
  "types_of types = filter (\<lambda>t. t \<in> set types) [0, 1, 2]"

fun announce_rows :: "ingest_env \<Rightarrow> string \<Rightarrow> 64 word \<Rightarrow> 16 word \<Rightarrow> string \<Rightarrow> 8 word list \<Rightarrow> int list
    \<Rightarrow> TimeSeriesData \<times> fp_cache \<Rightarrow> TimeSeriesData \<times> fp_cache" where
  "announce_rows E lbls fp ttl meta tps [] s = s"
| "announce_rows E lbls fp ttl meta tps (d # ds) s =
     (case maybeAddFp E d fp (snd s) of
        (new, c) \<Rightarrow>
          announce_rows E lbls fp ttl meta tps ds
            (if new then fold (add_series_row d lbls fp ttl meta) tps (fst s) else fst s, c))"

text \<open>What \<open>onEntries\<close> can panic on before it changes anything that is kept.\<close>

definition entries_check :: "entries_call \<Rightarrow> unit res" where
  "entries_check c =
     (if \<exists>t\<in>set (ec_types c). \<not> t < 3 then Inl (Panic ''index out of range'')
      else if length (ec_message c) < length (ec_timestamps c) then Inl (Panic ''index out of range'')
      else Inr ())"

definition onEntries :: "ingest_env \<Rightarrow> entries_call \<Rightarrow> logs_doer \<Rightarrow> logs_doer res" where
  "onEntries E c p =
     (let metricMetadata = ExtractMetadataFromLabels (ec_labels c);
          (ttlDays, filtered0) = filter_special (do_ttlDays p) (ec_labels c);
          filtered = discoverServiceName filtered0;
          fp = fingerprintLabels E filtered;
          n = length (ec_timestamps c)
      in rbind (fastFillArray 0 n fp) (\<lambda>fps.
         rbind (fastFillArray 0 n ttlDays) (\<lambda>ttls.
         rbind (entries_check c) (\<lambda>_.
         rbind (metadata_ToJSON E metricMetadata) (\<lambda>meta.
           let spl = (do_spl p)\<lparr>
                 spl_MMessage := spl_MMessage (do_spl p) @ ec_message c,
                 spl_MValue := spl_MValue (do_spl p) @ ec_value c,
                 spl_MTimestampNS := spl_MTimestampNS (do_spl p) @ ec_timestamps c,
                 spl_MFingerprint := spl_MFingerprint (do_spl p) @ fps,
                 spl_MTTLDays := spl_MTTLDays (do_spl p) @ ttls,
                 spl_MType := spl_MType (do_spl p) @ ec_types c,
                 spl_Size := spl_Size (do_spl p)
                   + sum_list (map (\<lambda>i. int (length (ec_message c ! i)) + 26) [0..<n])\<rparr>;
               dates = ie_order E (remdups (map day_of (ec_timestamps c)));
               (ts, cache) = announce_rows E (encodeLabels E filtered) fp ttlDays meta
                 (types_of (ec_types c)) dates (do_ts p, do_fpCache p);
               p1 = p\<lparr>do_ts := ts, do_spl := spl, do_fpCache := cache\<rparr>
           in Inr (if spl_Size spl + ts_Size ts > 1 * 1024 * 1024
                   then tsSpl_reset (tsSpl_flush p1) else p1))))))"

text \<open>
  \<open>doParseLogs\<close>: the decoder as the calls it makes and the error it ends with; a call that fails
  ends it. The result is what the channel carries and the cache afterwards.
\<close>

fun decode_calls :: "ingest_env \<Rightarrow> entries_call list \<Rightarrow> logs_doer \<Rightarrow> logs_doer \<times> go_error option" where
  "decode_calls E [] p = (p, None)"
| "decode_calls E (c # cs) p =
     (case onEntries E c p of Inl e \<Rightarrow> (p, Some e) | Inr p' \<Rightarrow> decode_calls E cs p')"

definition new_doer :: "string \<Rightarrow> string \<Rightarrow> 16 word \<Rightarrow> fp_cache \<Rightarrow> logs_doer" where
  "new_doer meta oid ttl cache =
     \<lparr>do_ts = empty_series meta oid, do_spl = empty_samples oid, do_meta = meta, do_oid = oid,
      do_ttlDays = ttl, do_fpCache = cache, do_res = []\<rparr>"

definition doParseLogs :: "ingest_env \<Rightarrow> string \<Rightarrow> string \<Rightarrow> 16 word \<Rightarrow> fp_cache
    \<Rightarrow> entries_call list \<times> go_error option \<Rightarrow> parser_response list \<times> fp_cache" where
  "doParseLogs E meta oid ttl cache decoder =
     (case decode_calls E (fst decoder) (new_doer meta oid ttl cache) of
        (p, Some e) \<Rightarrow> (do_res p @ [RespError e], do_fpCache p)
      | (p, None) \<Rightarrow>
          (case snd decoder of
             Some e \<Rightarrow> (do_res p @ [RespError e], do_fpCache p)
           | None \<Rightarrow> (do_res (tsSpl_flush p), do_fpCache p)))"

subsection \<open>Spans\<close>

record span_call =
  sc_traceId :: string
  sc_spanId :: string
  sc_timestampNs :: "64 word"
  sc_durationNs :: "64 word"
  sc_parentId :: string
  sc_name :: string
  sc_serviceName :: string
  sc_payload :: string
  sc_key :: "string list"
  sc_val :: "string list"

record spans_doer =
  sd_spans :: TempoSamples
  sd_attrs :: TempoTag
  sd_payloadType :: "8 word"
  sd_res :: "parser_response list"

definition empty_spans :: TempoSamples where
  "empty_spans = \<lparr>tp_MTraceId = [], tp_MSpanId = [], tp_MTimestampNs = [], tp_MDurationNs = [],
     tp_MParentId = [], tp_MName = [], tp_MServiceName = [], tp_MPayloadType = [], tp_MPayload = [],
     tp_Size = 0\<rparr>"

definition empty_attrs :: TempoTag where
  "empty_attrs = \<lparr>tt_MTraceId = [], tt_MSpanId = [], tt_MTimestampNs = [], tt_MDurationNs = [],
     tt_MDate = [], tt_MKey = [], tt_MVal = [], tt_Size = 0\<rparr>"

definition resetSpans :: "spans_doer \<Rightarrow> spans_doer" where
  "resetSpans p = p\<lparr>sd_spans := empty_spans, sd_attrs := empty_attrs\<rparr>"

definition add_span :: "8 word \<Rightarrow> span_call \<Rightarrow> TempoSamples \<Rightarrow> TempoSamples" where
  "add_span payloadType c s =
     s\<lparr>tp_MTraceId := tp_MTraceId s @ [sc_traceId c], tp_MSpanId := tp_MSpanId s @ [sc_spanId c],
       tp_MTimestampNs := tp_MTimestampNs s @ [sc_timestampNs c],
       tp_MDurationNs := tp_MDurationNs s @ [sc_durationNs c],
       tp_MParentId := tp_MParentId s @ [sc_parentId c], tp_MName := tp_MName s @ [sc_name c],
       tp_MServiceName := tp_MServiceName s @ [sc_serviceName c],
       tp_MPayloadType := tp_MPayloadType s @ [payloadType],
       tp_MPayload := tp_MPayload s @ [sc_payload c],
       tp_Size := tp_Size s + int (49 + length (sc_parentId c) + length (sc_name c)
         + length (sc_serviceName c) + length (sc_payload c))\<rparr>"

definition add_attr :: "span_call \<Rightarrow> string \<Rightarrow> string \<Rightarrow> TempoTag \<Rightarrow> TempoTag" where
  "add_attr c k v a =
     a\<lparr>tt_MTraceId := tt_MTraceId a @ [sc_traceId c], tt_MSpanId := tt_MSpanId a @ [sc_spanId c],
       tt_MTimestampNs := tt_MTimestampNs a @ [sc_timestampNs c],
       tt_MDurationNs := tt_MDurationNs a @ [sc_durationNs c],
       tt_MKey := tt_MKey a @ [k], tt_MVal := tt_MVal a @ [v],
       tt_MDate := tt_MDate a @ [go_div (sint (sc_timestampNs c)) 1000000000],
       tt_Size := tt_Size a + int (40 + length k + length v)\<rparr>"

text \<open>\<open>val[i]\<close> panics where there are fewer values than keys.\<close>

fun add_attrs :: "span_call \<Rightarrow> string list \<Rightarrow> string list \<Rightarrow> TempoTag \<Rightarrow> TempoTag res" where
  "add_attrs c [] vs a = Inr a"
| "add_attrs c (k # ks) [] a = Inl (Panic ''index out of range'')"
| "add_attrs c (k # ks) (v # vs) a = add_attrs c ks vs (add_attr c k v a)"

definition onSpan :: "span_call \<Rightarrow> spans_doer \<Rightarrow> spans_doer res" where
  "onSpan c p =
     rbind (add_attrs c (sc_key c) (sc_val c) (sd_attrs p)) (\<lambda>attrs.
       let p1 = p\<lparr>sd_spans := add_span (sd_payloadType p) c (sd_spans p), sd_attrs := attrs\<rparr> in
       Inr (if tt_Size (sd_attrs p1) + tp_Size (sd_spans p1) > 1 * 1024 * 1024
            then resetSpans (p1\<lparr>sd_res := sd_res p1 @ [RespSpans (sd_spans p1) (sd_attrs p1)]\<rparr>)
            else p1))"

fun decode_spans :: "span_call list \<Rightarrow> spans_doer \<Rightarrow> spans_doer \<times> go_error option" where
  "decode_spans [] p = (p, None)"
| "decode_spans (c # cs) p =
     (case onSpan c p of Inl e \<Rightarrow> (p, Some e) | Inr p' \<Rightarrow> decode_spans cs p')"

definition doParseSpans :: "8 word \<Rightarrow> span_call list \<times> go_error option \<Rightarrow> parser_response list" where
  "doParseSpans payloadType decoder =
     (case decode_spans (fst decoder)
             (resetSpans \<lparr>sd_spans = empty_spans, sd_attrs = empty_attrs, sd_payloadType = payloadType, sd_res = []\<rparr>) of
        (p, Some e) \<Rightarrow> sd_res p @ [RespError e]
      | (p, None) \<Rightarrow>
          (case snd decoder of
             Some e \<Rightarrow> sd_res p @ [RespError e]
           | None \<Rightarrow> sd_res p @ [RespSpans (sd_spans p) (sd_attrs p)]))"

subsection \<open>Profiles\<close>

record profile_call =
  pf_timestampNs :: "64 word"
  pf_Type :: string
  pf_serviceName :: string
  pf_samplesTypesUnits :: "StrStr list"
  pf_periodType :: string
  pf_periodUnit :: string
  pf_tags :: "StrStr list"
  pf_durationNs :: "64 word"
  pf_payloadType :: string
  pf_payload :: string
  pf_valuesAgg :: "ValuesAgg list"
  pf_tree :: "TreeRootStructure list"
  pf_functions :: "Function list"

text \<open>\<open>len\<close> of the string slices is the number of their elements.\<close>

definition calculateProfileSize :: "ProfileData \<Rightarrow> int" where
  "calculateProfileSize d =
     int (8 + length (pd_Ptype d) + length (pd_ServiceName d) + length (pd_PeriodType d)
       + length (pd_PeriodUnit d) + 8 + length (pd_PayloadType d) + length (pd_Payload d)
       + sum_list (map (\<lambda>st. length (fst st) + length (snd st)) (pd_SamplesTypesUnits d))
       + sum_list (map (\<lambda>tag. length (snd tag) + length (fst tag)) (pd_Tags d)))"

text \<open>\<open>onProfile\<close> starts from an empty profile, which it leaves again.\<close>

definition onProfile :: "profile_call \<Rightarrow> ProfileData" where
  "onProfile c =
     (let d = \<lparr>pd_TimestampNs = [pf_timestampNs c], pd_Ptype = [pf_Type c],
               pd_ServiceName = [pf_serviceName c], pd_SamplesTypesUnits = pf_samplesTypesUnits c,
               pd_PeriodType = [pf_periodType c], pd_PeriodUnit = [pf_periodUnit c],
               pd_Tags = pf_tags c, pd_DurationNs = [pf_durationNs c],
               pd_PayloadType = [pf_payloadType c], pd_Payload = [pf_payload c],
               pd_ValuesAgg = pf_valuesAgg c, pd_Tree = pf_tree c, pd_Function = pf_functions c,
               pd_Size = 0\<rparr>
      in d\<lparr>pd_Size := calculateProfileSize d\<rparr>)"

definition doParseProfile :: "profile_call list \<times> go_error option \<Rightarrow> parser_response list" where
  "doParseProfile decoder =
     map (\<lambda>c. RespProfile (onProfile c)) (fst decoder) @
     (case snd decoder of Some e \<Rightarrow> [RespError e] | None \<Rightarrow> [])"

end
