(* ===== verification/Insert_Service.thy ===== *)
theory Insert_Service
  imports Insert_Contract
begin

section \<open>The insert service (writer/service/generic\_insert.go, writer/utils/promise)\<close>

text \<open>
  \<open>InsertServiceV2\<close> collects requests in column buffers under a mutex; the goroutine \<open>Run\<close> swaps the
  buffers when the push interval is over or the queue is full, sends them in one insert and
  resolves the promises of the requests with the outcome.

  The operations are functions on the service state and the heap of promises (a promise is its
  index). Callers and the loop run concurrently: the transition system \<open>svc_step\<close> interleaves
  them at the points where the mutex is free. A panic in a request ends the process, since the
  requests are made in goroutines without a recover (\<open>doPush\<close>). What the outside decides
  (the clock, whether a connection is made, the outcome of an insert or a ping) is free.
  The counters of the monitoring (\<open>stat\<close>) and the hook \<open>OnBeforeInsert\<close> are not modelled.
\<close>

subsection \<open>Promises\<close>

record promise =
  p_pending :: bool
  p_res :: "32 word"
  p_err :: "string option"

definition promise_New :: promise where
  "promise_New = \<lparr>p_pending = True, p_res = 0, p_err = None\<rparr>"

definition promise_Fulfilled :: "string option \<Rightarrow> 32 word \<Rightarrow> promise" where
  "promise_Fulfilled err r = \<lparr>p_pending = False, p_res = r, p_err = err\<rparr>"

definition promise_Done :: "32 word \<Rightarrow> string option \<Rightarrow> promise \<Rightarrow> promise" where
  "promise_Done r err p =
     (if \<not> p_pending p then p else p\<lparr>p_pending := False, p_res := r, p_err := err\<rparr>)"

text \<open>\<open>Get\<close> blocks (\<open>None\<close>) until the promise is done; \<open>GetCtx\<close> may also give up.\<close>

definition promise_Get :: "promise \<Rightarrow> (32 word \<times> string option) option" where
  "promise_Get p = (if p_pending p then None else Some (p_res p, p_err p))"

definition promise_GetCtx :: "bool \<Rightarrow> promise \<Rightarrow> (32 word \<times> string option) option" where
  "promise_GetCtx expired p =
     (if expired then Some (0, Some ''get operation context timed out'') else promise_Get p)"

type_synonym heap = "promise list"

definition heap_Done :: "nat \<Rightarrow> string option \<Rightarrow> heap \<Rightarrow> heap" where
  "heap_Done p err h = (if p < length h then h[p := promise_Done 0 err (h ! p)] else h)"

text \<open>\<open>for _, w := range waiting { w.Done(0, err) }\<close>\<close>

definition releaseAll :: "nat list \<Rightarrow> string option \<Rightarrow> heap \<Rightarrow> heap" where
  "releaseAll ps err h = fold (\<lambda>p. heap_Done p err) ps h"

subsection \<open>The service\<close>

definition INSERT_STATE_IDLE :: nat where "INSERT_STATE_IDLE = 0"
definition INSERT_STATE_INSERTING :: nat where "INSERT_STATE_INSERTING = 1"
definition INSERT_STATE_CLOSING :: nat where "INSERT_STATE_CLOSING = 2"

text \<open>
  \<open>sv_stop\<close> and \<open>sv_flush\<close> say that \<open>ctx\<close> and \<open>insertCtx\<close> are done; \<open>sv_client\<close> that the client is
  not nil. A nil column slice is the empty list. Times are nanoseconds.
\<close>

record InsertServiceV2 =
  sv_columns :: "pooled_column list"
  sv_size :: int
  sv_lastSend :: int
  sv_results :: "nat list"
  sv_running :: bool
  sv_lastRequest :: int
  sv_stop :: bool
  sv_flush :: bool
  sv_client :: bool
  sv_state :: nat

record requestPortion =
  rp_cols :: "pooled_column list"
  rp_res :: "nat list"
  rp_size :: int

definition svc_zero :: InsertServiceV2 where
  "svc_zero =
     \<lparr>sv_columns = [], sv_size = 0, sv_lastSend = 0, sv_results = [], sv_running = False,
      sv_lastRequest = 0, sv_stop = False, sv_flush = False, sv_client = False, sv_state = 0\<rparr>"

definition svc_Init :: "insert_service \<Rightarrow> int \<Rightarrow> InsertServiceV2 \<Rightarrow> InsertServiceV2" where
  "svc_Init kind now svc =
     (if sv_running svc then svc
      else svc\<lparr>sv_stop := False, sv_flush := False, sv_columns := is_AcquireColumns kind,
               sv_lastRequest := now, sv_running := True\<rparr>)"

definition svc_PlanFlush :: "InsertServiceV2 \<Rightarrow> InsertServiceV2" where
  "svc_PlanFlush svc = svc\<lparr>sv_flush := True\<rparr>"

definition svc_Stop :: "InsertServiceV2 \<Rightarrow> InsertServiceV2" where
  "svc_Stop svc = svc\<lparr>sv_stop := True\<rparr>"

definition svc_GetState :: "InsertServiceV2 \<Rightarrow> nat" where
  "svc_GetState svc = sv_state svc"

text \<open>\<open>Ping\<close>: the service counts as stuck after twice the write timeout and five seconds.\<close>

definition svc_Ping :: "int \<Rightarrow> int \<Rightarrow> InsertServiceV2 \<Rightarrow> int \<times> string option" where
  "svc_Ping writeTimeout now svc =
     (let checkDuration = writeTimeout * 1000000000 * 2 + 1000000000 * 5 in
      if sv_lastRequest svc + checkDuration > now then (sv_lastRequest svc, None)
      else (sv_lastRequest svc, Some ''[SVC005] insert service must be in a deadlock''))"

text \<open>\<open>ping\<close> of the watchdog; \<open>ok\<close> is the outcome of the client's ping.\<close>

definition svc_ping :: "int \<Rightarrow> bool \<Rightarrow> InsertServiceV2 \<Rightarrow> InsertServiceV2" where
  "svc_ping now ok svc =
     (if \<not> sv_client svc then svc
      else if sv_lastRequest svc + 1000000000 > now then svc
      else if \<not> ok then svc\<lparr>sv_client := False\<rparr>
      else svc\<lparr>sv_lastRequest := now\<rparr>)"

subsection \<open>\<open>Request\<close>\<close>

text \<open>
  The part before the lock: a new promise, the check of \<open>running\<close>, the size of the request.
  The value is the new promise and, if the call goes on to the lock, the size.
\<close>

definition Request_start ::
  "insert_req \<Rightarrow> InsertServiceV2 \<Rightarrow> heap \<Rightarrow> (nat \<times> int option) res \<times> heap" where
  "Request_start req svc h =
     (let p = length h; h' = h @ [promise_New] in
      if \<not> sv_running svc then (Inr (p, None), heap_Done p (Some ''service stopped'') h')
      else
        (case GetSize req of
           Inl e \<Rightarrow> (Inl e, h')
         | Inr sz \<Rightarrow> (Inr (p, Some sz), h')))"

text \<open>The part under the lock.\<close>

definition Request_locked ::
  "insert_service \<Rightarrow> insert_req \<Rightarrow> int \<Rightarrow> nat \<Rightarrow> InsertServiceV2 \<Rightarrow> heap
    \<Rightarrow> unit res \<times> InsertServiceV2 \<times> heap" where
  "Request_locked kind req sz p svc h =
     (case is_ProcessRequest kind req (sv_columns svc) of
        ProcPanic e cols \<Rightarrow> (Inl e, svc\<lparr>sv_columns := cols\<rparr>, h)
      | ProcFailed msg \<Rightarrow> (Inr (), svc\<lparr>sv_columns := []\<rparr>, heap_Done p (Some msg) h)
      | Processed inserted cols \<Rightarrow>
          (let svc1 = svc\<lparr>sv_columns := cols\<rparr> in
           if inserted = 0 then (Inr (), svc1, heap_Done p None h)
           else
             (let svc2 = svc1\<lparr>sv_size := sv_size svc1 + sz\<rparr>;
                  svc3 = (if is_MaxQueueSize kind > 0 \<and> sv_size svc2 > is_MaxQueueSize kind
                          then svc2\<lparr>sv_flush := True\<rparr> else svc2)
              in (Inr (), svc3\<lparr>sv_results := sv_results svc3 @ [p]\<rparr>, h))))"

text \<open>The whole call, when no other goroutine comes between.\<close>

definition svc_Request ::
  "insert_service \<Rightarrow> insert_req \<Rightarrow> InsertServiceV2 \<Rightarrow> heap \<Rightarrow> nat res \<times> InsertServiceV2 \<times> heap" where
  "svc_Request kind req svc h =
     (case Request_start req svc h of
        (Inl e, h') \<Rightarrow> (Inl e, svc, h')
      | (Inr (p, None), h') \<Rightarrow> (Inr p, svc, h')
      | (Inr (p, Some sz), h') \<Rightarrow>
          (case Request_locked kind req sz p svc h' of
             (r, svc', h'') \<Rightarrow> (rbind r (\<lambda>_. Inr p), svc', h'')))"

subsection \<open>The loop\<close>

definition swapBuffers ::
  "insert_service \<Rightarrow> int \<Rightarrow> InsertServiceV2 \<Rightarrow> requestPortion option \<times> InsertServiceV2" where
  "swapBuffers kind now svc =
     (let svc1 = svc\<lparr>sv_flush := False\<rparr> in
      if sv_size svc1 = 0 then (None, svc1)
      else
        (Some \<lparr>rp_cols = sv_columns svc1, rp_res = sv_results svc1, rp_size = sv_size svc1\<rparr>,
         svc1\<lparr>sv_columns := is_AcquireColumns kind, sv_lastSend := now, sv_size := 0,
              sv_results := []\<rparr>))"

text \<open>
  The three parts of \<open>fetchLoopIteration\<close>: connecting (\<open>False\<close> if the session factory fails, after
  which the call returns), preparing the insert (\<open>input[0]\<close> panics if there are no columns), and
  what follows the insert with outcome \<open>err\<close>.
\<close>

definition fetch_connect :: "bool \<Rightarrow> InsertServiceV2 \<Rightarrow> bool \<times> InsertServiceV2" where
  "fetch_connect ok svc =
     (if sv_client svc then (True, svc)
      else if ok then (True, svc\<lparr>sv_client := True\<rparr>) else (False, svc))"

definition fetch_prepare :: "requestPortion \<Rightarrow> InsertServiceV2 \<Rightarrow> unit res \<times> InsertServiceV2" where
  "fetch_prepare portion svc =
     (if rp_cols portion = [] then (Inl (Panic ''index out of range''), svc\<lparr>sv_state := INSERT_STATE_IDLE\<rparr>)
      else (Inr (), svc\<lparr>sv_state := INSERT_STATE_INSERTING\<rparr>))"

definition fetch_finish ::
  "int \<Rightarrow> string option \<Rightarrow> requestPortion \<Rightarrow> InsertServiceV2 \<Rightarrow> heap \<Rightarrow> InsertServiceV2 \<times> heap" where
  "fetch_finish now err portion svc h =
     (let svc1 = svc\<lparr>sv_lastRequest := now\<rparr>;
          svc2 = (if err \<noteq> None then svc1\<lparr>sv_client := False\<rparr> else svc1)
      in (svc2\<lparr>sv_state := INSERT_STATE_IDLE\<rparr>, releaseAll (rp_res portion) err h))"

text \<open>The case \<open>ctx.Done()\<close> of \<open>Run\<close>.\<close>

definition Run_stopped :: "InsertServiceV2 \<Rightarrow> heap \<Rightarrow> InsertServiceV2 \<times> heap" where
  "Run_stopped svc h =
     (svc\<lparr>sv_running := False\<rparr>,
      releaseAll (sv_results svc) (Some ''[IS003] insert service is stopped'') h)"

text \<open>The whole iteration, when no other goroutine comes between; the last component is the insert.\<close>

definition fetchLoopIteration ::
  "insert_service \<Rightarrow> int \<Rightarrow> bool \<Rightarrow> string option \<Rightarrow> InsertServiceV2 \<Rightarrow> heap
    \<Rightarrow> (requestPortion option) res \<times> InsertServiceV2 \<times> heap" where
  "fetchLoopIteration kind now ok err svc h =
     (case fetch_connect ok svc of
        (False, svc1) \<Rightarrow> (Inr None, svc1, h)
      | (True, svc1) \<Rightarrow>
          (case swapBuffers kind now svc1 of
             (None, svc2) \<Rightarrow> (Inr None, svc2, h)
           | (Some portion, svc2) \<Rightarrow>
               (case fetch_prepare portion svc2 of
                  (Inl e, svc3) \<Rightarrow> (Inl e, svc3, h)
                | (Inr _, svc3) \<Rightarrow>
                    (case fetch_finish now err portion svc3 h of
                       (svc4, h') \<Rightarrow> (Inr (Some portion), svc4, h')))))"

subsection \<open>Callers and loop together\<close>

datatype loop_pc = AtSelect | AtSwap | Sending requestPortion | Returned

text \<open>
  \<open>w_issued\<close> is the request behind each promise, \<open>w_entering\<close> the calls that have passed the check
  of \<open>running\<close> and wait for the lock, \<open>w_log\<close> the inserts made with their outcome, \<open>w_crash\<close> the
  panic that ended the process.
\<close>

record world =
  w_svc :: InsertServiceV2
  w_heap :: heap
  w_issued :: "insert_req list"
  w_entering :: "(nat \<times> int) list"
  w_loop :: loop_pc
  w_log :: "(requestPortion \<times> string option) list"
  w_crash :: "go_error option"

definition world_init :: "insert_service \<Rightarrow> int \<Rightarrow> world" where
  "world_init kind now =
     \<lparr>w_svc = svc_Init kind now svc_zero, w_heap = [], w_issued = [], w_entering = [],
      w_loop = AtSelect, w_log = [], w_crash = None\<rparr>"

definition do_start :: "insert_req \<Rightarrow> world \<Rightarrow> world" where
  "do_start req w =
     (case Request_start req (w_svc w) (w_heap w) of
        (Inl e, h) \<Rightarrow> w\<lparr>w_heap := h, w_issued := w_issued w @ [req], w_crash := Some e\<rparr>
      | (Inr (p, None), h) \<Rightarrow> w\<lparr>w_heap := h, w_issued := w_issued w @ [req]\<rparr>
      | (Inr (p, Some sz), h) \<Rightarrow>
          w\<lparr>w_heap := h, w_issued := w_issued w @ [req], w_entering := w_entering w @ [(p, sz)]\<rparr>)"

definition do_locked :: "insert_service \<Rightarrow> nat \<Rightarrow> int \<Rightarrow> world \<Rightarrow> world" where
  "do_locked kind p sz w =
     (case Request_locked kind (w_issued w ! p) sz p (w_svc w) (w_heap w) of
        (r, svc, h) \<Rightarrow>
          w\<lparr>w_svc := svc, w_heap := h, w_entering := remove1 (p, sz) (w_entering w),
            w_crash := (case r of Inl e \<Rightarrow> Some e | Inr _ \<Rightarrow> None)\<rparr>)"

definition do_connect :: "bool \<Rightarrow> world \<Rightarrow> world" where
  "do_connect ok w =
     (case fetch_connect ok (w_svc w) of
        (go, svc) \<Rightarrow> w\<lparr>w_svc := svc, w_loop := (if go then AtSwap else AtSelect)\<rparr>)"

definition do_swap :: "insert_service \<Rightarrow> int \<Rightarrow> world \<Rightarrow> world" where
  "do_swap kind now w =
     (case swapBuffers kind now (w_svc w) of
        (None, svc) \<Rightarrow> w\<lparr>w_svc := svc, w_loop := AtSelect\<rparr>
      | (Some portion, svc) \<Rightarrow>
          (case fetch_prepare portion svc of
             (Inl e, svc') \<Rightarrow> w\<lparr>w_svc := svc', w_loop := Returned, w_crash := Some e\<rparr>
           | (Inr _, svc') \<Rightarrow> w\<lparr>w_svc := svc', w_loop := Sending portion\<rparr>))"

definition do_finish :: "int \<Rightarrow> string option \<Rightarrow> requestPortion \<Rightarrow> world \<Rightarrow> world" where
  "do_finish now err portion w =
     (case fetch_finish now err portion (w_svc w) (w_heap w) of
        (svc, h) \<Rightarrow> w\<lparr>w_svc := svc, w_heap := h, w_loop := AtSelect, w_log := w_log w @ [(portion, err)]\<rparr>)"

definition do_stopped :: "world \<Rightarrow> world" where
  "do_stopped w =
     (case Run_stopped (w_svc w) (w_heap w) of
        (svc, h) \<Rightarrow> w\<lparr>w_svc := svc, w_heap := h, w_loop := Returned\<rparr>)"

text \<open>Requests are drawn from those that satisfy \<open>ok\<close>.\<close>

inductive svc_step :: "insert_service \<Rightarrow> (insert_req \<Rightarrow> bool) \<Rightarrow> world \<Rightarrow> world \<Rightarrow> bool"
  for kind ok where
  start: "w_crash w = None \<Longrightarrow> ok req \<Longrightarrow> svc_step kind ok w (do_start req w)"
| locked: "w_crash w = None \<Longrightarrow> (p, sz) \<in> set (w_entering w) \<Longrightarrow>
    svc_step kind ok w (do_locked kind p sz w)"
| timer: "w_crash w = None \<Longrightarrow> svc_step kind ok w (w\<lparr>w_svc := svc_PlanFlush (w_svc w)\<rparr>)"
| stop: "w_crash w = None \<Longrightarrow> svc_step kind ok w (w\<lparr>w_svc := svc_Stop (w_svc w)\<rparr>)"
| ping: "w_crash w = None \<Longrightarrow> w_loop w = AtSelect \<Longrightarrow>
    svc_step kind ok w (w\<lparr>w_svc := svc_ping now alive (w_svc w)\<rparr>)"
| connect: "w_crash w = None \<Longrightarrow> w_loop w = AtSelect \<Longrightarrow> sv_flush (w_svc w) \<Longrightarrow>
    svc_step kind ok w (do_connect good w)"
| swap: "w_crash w = None \<Longrightarrow> w_loop w = AtSwap \<Longrightarrow> svc_step kind ok w (do_swap kind now w)"
| finish: "w_crash w = None \<Longrightarrow> w_loop w = Sending portion \<Longrightarrow>
    svc_step kind ok w (do_finish now err portion w)"
| stopped: "w_crash w = None \<Longrightarrow> w_loop w = AtSelect \<Longrightarrow> sv_stop (w_svc w) \<Longrightarrow>
    svc_step kind ok w (do_stopped w)"

inductive svc_reach :: "insert_service \<Rightarrow> (insert_req \<Rightarrow> bool) \<Rightarrow> world \<Rightarrow> bool" for kind ok where
  init: "svc_reach kind ok (world_init kind now)"
| step: "svc_reach kind ok w \<Longrightarrow> svc_step kind ok w w' \<Longrightarrow> svc_reach kind ok w'"

end
