(* ===== verification/Insert_Service_Correct.thy ===== *)
theory Insert_Service_Correct
  imports Insert_Service
begin

section \<open>Correctness of the insert service\<close>

text \<open>
  In every state that callers and the loop can reach together, each promise is in one place, each
  buffer holds exactly the rows of the requests behind its promises, and a promise that reports
  success stands for rows that one successful insert contained. The proofs rely only on the
  contract \<open>insert_table\<close>, which every table of \<open>Insert_Tables\<close> meets.
\<close>

subsection \<open>Promises\<close>

lemma promise_Done_pending: "p_pending p \<Longrightarrow> promise_Done 0 err p = promise_Fulfilled err 0"
  by (cases p) (simp add: promise_Done_def promise_Fulfilled_def)

lemma promise_Done_done [simp]: "\<not> p_pending p \<Longrightarrow> promise_Done r err p = p"
  by (simp add: promise_Done_def)

lemma not_pending_Done [simp]: "\<not> p_pending (promise_Done r err p)"
  by (simp add: promise_Done_def)

lemma Fulfilled_simps [simp]:
  "\<not> p_pending (promise_Fulfilled err r)" "p_err (promise_Fulfilled err r) = err"
  by (simp_all add: promise_Fulfilled_def)

lemma New_pending [simp]: "p_pending promise_New"
  by (simp add: promise_New_def)

lemma length_heap_Done [simp]: "length (heap_Done p err h) = length h"
  by (simp add: heap_Done_def)

lemma nth_heap_Done:
  "q < length h \<Longrightarrow> heap_Done p err h ! q = (if q = p then promise_Done 0 err (h ! q) else h ! q)"
  by (simp add: heap_Done_def)

lemma length_releaseAll [simp]: "length (releaseAll ps err h) = length h"
  by (induction ps arbitrary: h) (simp_all add: releaseAll_def)

lemma releaseAll_simps [simp]:
  "releaseAll [] err h = h"
  "releaseAll (p # ps) err h = releaseAll ps err (heap_Done p err h)"
  by (simp_all add: releaseAll_def)

lemma nth_releaseAll:
  "q < length h \<Longrightarrow>
     releaseAll ps err h ! q = (if q \<in> set ps then promise_Done 0 err (h ! q) else h ! q)"
  by (induction ps arbitrary: h) (auto simp: nth_heap_Done)

subsection \<open>The contract and the invariant\<close>

locale insert_table =
  fixes kind :: insert_service
    and good :: "insert_req \<Rightarrow> bool"
    and rows :: "insert_req \<Rightarrow> cell list list"
    and fit :: "pooled_column list \<Rightarrow> bool"
  assumes acquire_fit: "fit (is_AcquireColumns kind)"
    and acquire_rows: "col_rows (is_AcquireColumns kind) = []"
    and fit_not_nil: "fit cols \<Longrightarrow> cols \<noteq> []"
    and process_good: "fit cols \<Longrightarrow> good r \<Longrightarrow>
      \<exists>cols'. is_ProcessRequest kind r cols = Processed (int (length (rows r))) cols' \<and>
        fit cols' \<and> col_rows cols' = col_rows cols @ rows r"
    and size_good: "good r \<Longrightarrow> \<exists>n. GetSize r = Inr n \<and> (rows r \<noteq> [] \<longrightarrow> 0 < n)"

definition in_flight :: "world \<Rightarrow> nat list" where
  "in_flight w = (case w_loop w of Sending po \<Rightarrow> rp_res po | _ \<Rightarrow> [])"

definition logged :: "world \<Rightarrow> nat list" where
  "logged w = concat (map (\<lambda>e. rp_res (fst e)) (w_log w))"

definition places :: "world \<Rightarrow> nat list" where
  "places w = map fst (w_entering w) @ sv_results (w_svc w) @ in_flight w @ logged w"

text \<open>The columns hold the rows of the requests behind the promises, in their order.\<close>

definition batch_ok :: "(insert_req \<Rightarrow> cell list list) \<Rightarrow> (pooled_column list \<Rightarrow> bool)
    \<Rightarrow> insert_req list \<Rightarrow> pooled_column list \<Rightarrow> nat list \<Rightarrow> bool" where
  "batch_ok rows fit issued cols ps \<longleftrightarrow>
     fit cols \<and> col_rows cols = concat (map (\<lambda>p. rows (issued ! p)) ps)"

text \<open>Every promise exists and is in one place.\<close>

definition places_inv :: "(insert_req \<Rightarrow> bool) \<Rightarrow> world \<Rightarrow> bool" where
  "places_inv good w \<longleftrightarrow>
     w_crash w = None \<and> length (w_issued w) = length (w_heap w) \<and>
     (\<forall>r\<in>set (w_issued w). good r) \<and>
     distinct (places w) \<and> (\<forall>p\<in>set (places w). p < length (w_heap w)) \<and>
     (\<forall>e\<in>set (w_entering w). GetSize (w_issued w ! fst e) = Inr (snd e)) \<and>
     (sv_running (w_svc w) \<longleftrightarrow> w_loop w \<noteq> Returned)"

text \<open>Every buffer holds the rows of its promises; the queue size tells whether there are any.\<close>

definition rows_inv :: "(insert_req \<Rightarrow> cell list list) \<Rightarrow> (pooled_column list \<Rightarrow> bool) \<Rightarrow> world \<Rightarrow> bool" where
  "rows_inv rows fit w \<longleftrightarrow>
     batch_ok rows fit (w_issued w) (sv_columns (w_svc w)) (sv_results (w_svc w)) \<and>
     (\<forall>po. w_loop w = Sending po \<longrightarrow> batch_ok rows fit (w_issued w) (rp_cols po) (rp_res po)) \<and>
     (\<forall>e\<in>set (w_log w). batch_ok rows fit (w_issued w) (rp_cols (fst e)) (rp_res (fst e))) \<and>
     (if sv_results (w_svc w) = [] then sv_size (w_svc w) = 0 else 0 < sv_size (w_svc w))"

text \<open>What is pending waits somewhere; what is done was answered as the log says.\<close>

definition answers_inv :: "(insert_req \<Rightarrow> cell list list) \<Rightarrow> world \<Rightarrow> bool" where
  "answers_inv rows w \<longleftrightarrow>
     (\<forall>p\<in>set (map fst (w_entering w)) \<union> set (in_flight w). p_pending (w_heap w ! p)) \<and>
     (w_loop w \<noteq> Returned \<longrightarrow> (\<forall>p\<in>set (sv_results (w_svc w)). p_pending (w_heap w ! p))) \<and>
     (\<forall>p<length (w_heap w). p_pending (w_heap w ! p) \<longrightarrow>
        p \<in> set (map fst (w_entering w)) \<union> set (sv_results (w_svc w)) \<union> set (in_flight w)) \<and>
     (\<forall>e\<in>set (w_log w). \<forall>p\<in>set (rp_res (fst e)). w_heap w ! p = promise_Fulfilled (snd e) 0) \<and>
     (\<forall>p<length (w_heap w). \<not> p_pending (w_heap w ! p) \<longrightarrow> p_err (w_heap w ! p) = None \<longrightarrow>
        rows (w_issued w ! p) = [] \<or> p \<in> set (logged w))"

definition svc_inv :: "(insert_req \<Rightarrow> bool) \<Rightarrow> (insert_req \<Rightarrow> cell list list)
    \<Rightarrow> (pooled_column list \<Rightarrow> bool) \<Rightarrow> world \<Rightarrow> bool" where
  "svc_inv good rows fit w \<longleftrightarrow> places_inv good w \<and> rows_inv rows fit w \<and> answers_inv rows w"

lemma batch_ok_more:
  "batch_ok rows fit issued cols ps \<Longrightarrow> \<forall>p\<in>set ps. p < length issued \<Longrightarrow>
     batch_ok rows fit (issued @ rs) cols ps"
  unfolding batch_ok_def by (auto simp: nth_append cong: map_cong)

lemmas world_defs = places_def in_flight_def logged_def

lemma remove1_keys:
  "distinct (map fst es) \<Longrightarrow> (p, n) \<in> set es \<Longrightarrow>
     distinct (map fst (remove1 (p, n) es)) \<and> fst ` set (remove1 (p, n) es) = fst ` set es - {p}"
  by (induction es) (auto simp: image_iff)

lemma move_key:
  assumes "distinct (map fst es @ ps @ qs)" "(p, n) \<in> set es"
  shows "distinct (map fst (remove1 (p, n) es) @ ps @ qs)"
    and "distinct (map fst (remove1 (p, n) es) @ (ps @ [p]) @ qs)"
    and "set (map fst (remove1 (p, n) es) @ ps @ qs) \<subseteq> set (map fst es @ ps @ qs)"
    and "set (map fst (remove1 (p, n) es) @ (ps @ [p]) @ qs) = set (map fst es @ ps @ qs)"
proof -
  have d: "distinct (map fst es)" using assms(1) by simp
  have p: "p \<in> fst ` set es" using assms(2) by force
  note k = remove1_keys [OF d assms(2)]
  show "distinct (map fst (remove1 (p, n) es) @ ps @ qs)"
    using assms(1) k by (simp add: distinct_append) blast
  show "distinct (map fst (remove1 (p, n) es) @ (ps @ [p]) @ qs)"
    using assms(1) k p by (simp add: distinct_append) blast
  show "set (map fst (remove1 (p, n) es) @ ps @ qs) \<subseteq> set (map fst es @ ps @ qs)"
    using k by auto
  show "set (map fst (remove1 (p, n) es) @ (ps @ [p]) @ qs) = set (map fst es @ ps @ qs)"
    using k p by auto
qed

subsection \<open>What the steps do\<close>

lemma do_start_stopped:
  "\<not> sv_running (w_svc w) \<Longrightarrow>
     do_start r w = w\<lparr>w_heap := w_heap w @ [promise_Fulfilled (Some ''service stopped'') 0],
                      w_issued := w_issued w @ [r]\<rparr>"
  by (simp add: do_start_def Request_start_def Let_def heap_Done_def promise_Done_pending)

lemma do_start_running:
  "sv_running (w_svc w) \<Longrightarrow> GetSize r = Inr n \<Longrightarrow>
     do_start r w = w\<lparr>w_heap := w_heap w @ [promise_New], w_issued := w_issued w @ [r],
                      w_entering := w_entering w @ [(length (w_heap w), n)]\<rparr>"
  by (simp add: do_start_def Request_start_def Let_def)

lemma do_finish_eq:
  "do_finish now err po w =
     w\<lparr>w_svc := (w_svc w)\<lparr>sv_lastRequest := now,
                   sv_client := (if err = None then sv_client (w_svc w) else False),
                   sv_state := INSERT_STATE_IDLE\<rparr>,
       w_heap := releaseAll (rp_res po) err (w_heap w), w_loop := AtSelect,
       w_log := w_log w @ [(po, err)]\<rparr>"
  by (simp add: do_finish_def fetch_finish_def Let_def)

lemma do_stopped_eq:
  "do_stopped w =
     w\<lparr>w_svc := (w_svc w)\<lparr>sv_running := False\<rparr>,
       w_heap := releaseAll (sv_results (w_svc w)) (Some ''[IS003] insert service is stopped'') (w_heap w),
       w_loop := Returned\<rparr>"
  by (simp add: do_stopped_def Run_stopped_def)

text \<open>Steps that touch neither buffers, promises nor the position of the loop.\<close>

definition same_work :: "world \<Rightarrow> world \<Rightarrow> bool" where
  "same_work w w' \<longleftrightarrow>
     w_heap w' = w_heap w \<and> w_issued w' = w_issued w \<and> w_entering w' = w_entering w \<and>
     w_log w' = w_log w \<and> w_crash w' = w_crash w \<and> in_flight w' = in_flight w \<and>
     (w_loop w' = Returned \<longleftrightarrow> w_loop w = Returned) \<and>
     (\<forall>po. w_loop w' = Sending po \<longleftrightarrow> w_loop w = Sending po) \<and>
     sv_columns (w_svc w') = sv_columns (w_svc w) \<and> sv_size (w_svc w') = sv_size (w_svc w) \<and>
     sv_results (w_svc w') = sv_results (w_svc w) \<and> sv_running (w_svc w') = sv_running (w_svc w)"

lemma same_work_inv: "same_work w w' \<Longrightarrow> svc_inv good rows fit w \<Longrightarrow> svc_inv good rows fit w'"
  by (simp add: svc_inv_def places_inv_def rows_inv_def answers_inv_def places_def logged_def
        same_work_def)

lemma same_work_steps:
  "same_work w (w\<lparr>w_svc := svc_PlanFlush (w_svc w)\<rparr>)"
  "same_work w (w\<lparr>w_svc := svc_Stop (w_svc w)\<rparr>)"
  "same_work w (w\<lparr>w_svc := svc_ping now alive (w_svc w)\<rparr>)"
  "w_loop w = AtSelect \<Longrightarrow> same_work w (do_connect ok w)"
  by (simp_all add: same_work_def in_flight_def svc_PlanFlush_def svc_Stop_def svc_ping_def
        do_connect_def fetch_connect_def)

subsection \<open>Every step keeps the invariant\<close>

lemma start_inv:
  assumes inv: "svc_inv good rows fit w" and r: "good r" "GetSize r = Inr n"
  shows "svc_inv good rows fit (do_start r w)"
proof -
  let ?w = "do_start r w"
  have w: "w_svc ?w = w_svc w" "w_loop ?w = w_loop w" "w_log ?w = w_log w"
      "w_issued ?w = w_issued w @ [r]" "w_crash ?w = w_crash w" "in_flight ?w = in_flight w"
      "logged ?w = logged w"
    using r by (cases "sv_running (w_svc w)"; simp add: do_start_stopped do_start_running world_defs)+
  have lt: "\<forall>p\<in>set (places w). p < length (w_heap w)" "length (w_issued w) = length (w_heap w)"
    using inv by (simp_all add: svc_inv_def places_inv_def)
  have "places_inv good ?w"
    using inv r
    by (cases "sv_running (w_svc w)")
       (auto simp: svc_inv_def places_inv_def do_start_stopped do_start_running world_defs
          nth_append less_Suc_eq)
  moreover have "rows_inv rows fit ?w"
    using inv lt
    by (auto simp: svc_inv_def rows_inv_def w world_defs intro!: batch_ok_more)
  moreover have "answers_inv rows ?w"
    using inv r lt
    by (cases "sv_running (w_svc w)")
       (auto simp: svc_inv_def answers_inv_def do_start_stopped do_start_running world_defs
          nth_append less_Suc_eq)
  ultimately show ?thesis by (simp add: svc_inv_def)
qed

lemma finish_inv:
  assumes inv: "svc_inv good rows fit w" and loop: "w_loop w = Sending po"
  shows "svc_inv good rows fit (do_finish now err po w)"
proof -
  let ?w = "do_finish now err po w"
  have fl: "in_flight w = rp_res po" using loop by (simp add: in_flight_def)
  have lt: "\<forall>p\<in>set (places w). p < length (w_heap w)" and d: "distinct (places w)"
    and pend: "\<forall>p\<in>set (rp_res po). p_pending (w_heap w ! p)"
    using inv loop by (auto simp: svc_inv_def places_inv_def answers_inv_def fl)
  have "places_inv good ?w"
    using inv by (auto simp: svc_inv_def places_inv_def do_finish_eq world_defs loop)
  moreover have "rows_inv rows fit ?w"
    using inv loop by (auto simp: svc_inv_def rows_inv_def do_finish_eq)
  moreover have "answers_inv rows ?w"
    unfolding answers_inv_def
  proof (intro conjI ballI allI impI)
    fix e p assume e: "e \<in> set (w_log ?w)" "p \<in> set (rp_res (fst e))"
    show "w_heap ?w ! p = promise_Fulfilled (snd e) 0"
    proof (cases "e \<in> set (w_log w)")
      case True
      then have "p \<in> set (logged w)" using e by (auto simp: logged_def)
      then have "p < length (w_heap w)" "p \<notin> set (rp_res po)"
        using lt d by (auto simp: places_def fl)
      then show ?thesis
        using inv e True by (simp add: svc_inv_def answers_inv_def do_finish_eq nth_releaseAll)
    next
      case False
      then have "e = (po, err)" using e by (simp add: do_finish_eq)
      then show ?thesis
        using e lt pend by (simp add: do_finish_eq nth_releaseAll promise_Done_pending places_def fl)
    qed
  qed (use inv lt d pend loop in \<open>auto simp: svc_inv_def answers_inv_def do_finish_eq world_defs
         nth_releaseAll split: if_splits\<close>)
  ultimately show ?thesis by (simp add: svc_inv_def)
qed

lemma stopped_inv:
  assumes inv: "svc_inv good rows fit w" and loop: "w_loop w = AtSelect"
  shows "svc_inv good rows fit (do_stopped w)"
proof -
  have lt: "\<forall>p\<in>set (places w). p < length (w_heap w)" and d: "distinct (places w)"
    using inv by (simp_all add: svc_inv_def places_inv_def)
  have "places_inv good (do_stopped w)"
    using inv by (auto simp: svc_inv_def places_inv_def do_stopped_eq world_defs loop)
  moreover have "rows_inv rows fit (do_stopped w)"
    using inv loop by (auto simp: svc_inv_def rows_inv_def do_stopped_eq)
  moreover have "answers_inv rows (do_stopped w)"
    unfolding answers_inv_def
  proof (intro conjI ballI allI impI)
    fix e p assume e: "e \<in> set (w_log (do_stopped w))" "p \<in> set (rp_res (fst e))"
    then have "p \<in> set (logged w)" by (auto simp: logged_def do_stopped_eq)
    then have "p < length (w_heap w)" "p \<notin> set (sv_results (w_svc w))"
      using lt d by (auto simp: places_def)
    then show "w_heap (do_stopped w) ! p = promise_Fulfilled (snd e) 0"
      using inv e by (simp add: svc_inv_def answers_inv_def do_stopped_eq nth_releaseAll)
  qed (use inv lt d loop in \<open>auto simp: svc_inv_def answers_inv_def do_stopped_eq world_defs
         nth_releaseAll promise_Done_def split: if_splits\<close>)
  ultimately show ?thesis by (simp add: svc_inv_def)
qed

context insert_table
begin

lemma locked_eq:
  assumes "fit (sv_columns (w_svc w))" "good (w_issued w ! p)"
  shows "\<exists>cols flush. fit cols \<and>
    col_rows cols = col_rows (sv_columns (w_svc w)) @ rows (w_issued w ! p) \<and>
    do_locked kind p n w =
       (if rows (w_issued w ! p) = []
        then w\<lparr>w_svc := (w_svc w)\<lparr>sv_columns := cols\<rparr>, w_heap := heap_Done p None (w_heap w),
               w_entering := remove1 (p, n) (w_entering w), w_crash := None\<rparr>
        else w\<lparr>w_svc := (w_svc w)\<lparr>sv_columns := cols, sv_size := sv_size (w_svc w) + n,
                 sv_flush := flush, sv_results := sv_results (w_svc w) @ [p]\<rparr>,
               w_entering := remove1 (p, n) (w_entering w), w_crash := None\<rparr>)"
proof -
  obtain cols where cols: "is_ProcessRequest kind (w_issued w ! p) (sv_columns (w_svc w))
        = Processed (int (length (rows (w_issued w ! p)))) cols"
      "fit cols" "col_rows cols = col_rows (sv_columns (w_svc w)) @ rows (w_issued w ! p)"
    using process_good [OF assms] by blast
  let ?full = "0 < is_MaxQueueSize kind \<and> is_MaxQueueSize kind < sv_size (w_svc w) + n"
  show ?thesis
    by (rule exI [of _ cols], rule exI [of _ "?full \<or> sv_flush (w_svc w)"], cases "w_svc w")
       (use cols in \<open>auto simp: do_locked_def Request_locked_def Let_def\<close>)
qed

lemma locked_inv:
  assumes inv: "svc_inv good rows fit w" and e: "(p, n) \<in> set (w_entering w)"
  shows "svc_inv good rows fit (do_locked kind p n w)"
proof -
  have pe: "p \<in> fst ` set (w_entering w)" using e by force
  then have p: "p < length (w_heap w)" "GetSize (w_issued w ! p) = Inr n" "good (w_issued w ! p)"
    and fit: "fit (sv_columns (w_svc w))" and pend: "p_pending (w_heap w ! p)"
    using inv e unfolding svc_inv_def places_inv_def rows_inv_def answers_inv_def batch_ok_def places_def
    by auto
  have pos: "rows (w_issued w ! p) \<noteq> [] \<Longrightarrow> 0 < n"
    using size_good [OF p(3)] p(2) by auto
  have d: "distinct (map fst (w_entering w))"
    using inv by (simp add: svc_inv_def places_inv_def places_def)
  define es where "es = remove1 (p, n) (w_entering w)"
  have es: "distinct (map fst es)" "fst ` set es = fst ` set (w_entering w) - {p}"
      "\<And>x. x \<in> set es \<Longrightarrow> x \<in> set (w_entering w)"
    using remove1_keys [OF d e] set_remove1_subset by (auto simp: es_def)
  obtain cols flush where c: "fit cols"
      "col_rows cols = col_rows (sv_columns (w_svc w)) @ rows (w_issued w ! p)"
      and eq: "do_locked kind p n w =
       (if rows (w_issued w ! p) = []
        then w\<lparr>w_svc := (w_svc w)\<lparr>sv_columns := cols\<rparr>, w_heap := heap_Done p None (w_heap w),
               w_entering := es, w_crash := None\<rparr>
        else w\<lparr>w_svc := (w_svc w)\<lparr>sv_columns := cols, sv_size := sv_size (w_svc w) + n,
                 sv_flush := flush, sv_results := sv_results (w_svc w) @ [p]\<rparr>,
               w_entering := es, w_crash := None\<rparr>)"
    using locked_eq [OF fit p(3), of n] unfolding es_def by blast
  have dis: "distinct (map fst (w_entering w) @ sv_results (w_svc w) @ (in_flight w @ logged w))"
    using inv by (simp add: svc_inv_def places_inv_def places_def)
  note move = move_key [OF dis e, folded es_def]
  have same: "in_flight (do_locked kind p n w) = in_flight w" "logged (do_locked kind p n w) = logged w"
      "w_issued (do_locked kind p n w) = w_issued w" "w_entering (do_locked kind p n w) = es"
      "length (w_heap (do_locked kind p n w)) = length (w_heap w)"
      "w_loop (do_locked kind p n w) = w_loop w" "w_crash (do_locked kind p n w) = None"
      "sv_running (w_svc (do_locked kind p n w)) = sv_running (w_svc w)"
      "sv_results (w_svc (do_locked kind p n w)) =
         (if rows (w_issued w ! p) = [] then sv_results (w_svc w) else sv_results (w_svc w) @ [p])"
    by (simp_all add: eq in_flight_def logged_def)
  have "distinct (places (do_locked kind p n w))"
    unfolding places_def same using move(1,2) by (simp split: if_split)
  moreover have "set (places (do_locked kind p n w)) \<subseteq> set (places w)"
    unfolding places_def same using move(3) equalityD1 [OF move(4)]
    by (cases "rows (w_issued w ! p) = []") (simp_all only: refl if_True if_False)
  ultimately have "places_inv good (do_locked kind p n w)"
    using inv es(3) unfolding svc_inv_def places_inv_def same by blast
  moreover have "rows_inv rows fit (do_locked kind p n w)"
    using inv c pos by (auto simp: svc_inv_def rows_inv_def eq batch_ok_def split: if_splits)
  moreover have "answers_inv rows (do_locked kind p n w)"
  proof -
    have h: "w_heap (do_locked kind p n w) ! q =
        (if rows (w_issued w ! p) = [] \<and> q = p then promise_Fulfilled None 0 else w_heap w ! q)"
      if "q < length (w_heap w)" for q
      using that pend by (simp add: eq nth_heap_Done promise_Done_pending)
    have apart: "p \<notin> set (in_flight w)" "p \<notin> set (logged w)" "p \<notin> set (sv_results (w_svc w))"
      using dis pe by auto
    have lt: "q \<in> fst ` set (w_entering w) \<or> q \<in> set (sv_results (w_svc w)) \<or> q \<in> set (in_flight w)
        \<or> q \<in> set (logged w) \<Longrightarrow> q < length (w_heap w)" for q
      using inv by (auto simp: svc_inv_def places_inv_def places_def)
    have inlog: "e \<in> set (w_log w) \<Longrightarrow> q \<in> set (rp_res (fst e)) \<Longrightarrow> q \<in> set (logged w)" for e q
      by (auto simp: logged_def)
    have log: "w_log (do_locked kind p n w) = w_log w" by (simp add: eq)
    have old: "answers_inv rows w" using inv by (simp add: svc_inv_def)
    show ?thesis
      unfolding answers_inv_def same log
    proof (intro conjI ballI allI impI)
      fix q assume "q \<in> set (map fst es) \<union> set (in_flight w)"
      then have q: "q \<in> fst ` set (w_entering w) \<union> set (in_flight w)" "q \<noteq> p"
        using es(2) apart(1) by auto
      then have "p_pending (w_heap w ! q)" using old unfolding answers_inv_def set_map by blast
      moreover have "q < length (w_heap w)" using lt q by blast
      ultimately show "p_pending (w_heap (do_locked kind p n w) ! q)" using q(2) by (simp add: h)
    next
      fix q assume "w_loop w \<noteq> Returned"
        "q \<in> set (if rows (w_issued w ! p) = [] then sv_results (w_svc w) else sv_results (w_svc w) @ [p])"
      then show "p_pending (w_heap (do_locked kind p n w) ! q)"
        using old apart(3) pend p(1) by (auto simp: h lt answers_inv_def split: if_splits)
    next
      fix q assume "q < length (w_heap w)" "p_pending (w_heap (do_locked kind p n w) ! q)"
      then show "q \<in> set (map fst es) \<union> set (if rows (w_issued w ! p) = [] then sv_results (w_svc w)
          else sv_results (w_svc w) @ [p]) \<union> set (in_flight w)"
        using old es(2) by (auto simp: h answers_inv_def split: if_splits)
    next
      fix e q assume q: "e \<in> set (w_log w)" "q \<in> set (rp_res (fst e))"
      then have "q < length (w_heap w)" "q \<noteq> p" using inlog lt apart(2) by blast+
      then show "w_heap (do_locked kind p n w) ! q = promise_Fulfilled (snd e) 0"
        using old q by (simp add: h answers_inv_def)
    next
      fix q assume "q < length (w_heap w)" "\<not> p_pending (w_heap (do_locked kind p n w) ! q)"
        "p_err (w_heap (do_locked kind p n w) ! q) = None"
      then show "rows (w_issued w ! q) = [] \<or> q \<in> set (logged w)"
        using old by (auto simp: h answers_inv_def split: if_splits)
    qed
  qed
  ultimately show ?thesis by (simp add: svc_inv_def)
qed

lemma swap_inv:
  assumes inv: "svc_inv good rows fit w" and loop: "w_loop w = AtSwap"
  shows "svc_inv good rows fit (do_swap kind now w)"
proof (cases "sv_size (w_svc w) = 0")
  case True
  then have "same_work w (do_swap kind now w)"
    by (simp add: same_work_def in_flight_def do_swap_def swapBuffers_def loop)
  then show ?thesis using inv by (rule same_work_inv)
next
  case False
  let ?po = "\<lparr>rp_cols = sv_columns (w_svc w), rp_res = sv_results (w_svc w), rp_size = sv_size (w_svc w)\<rparr>"
  have fit: "fit (sv_columns (w_svc w))"
    using inv by (simp add: svc_inv_def rows_inv_def batch_ok_def)
  then have eq: "do_swap kind now w =
      w\<lparr>w_svc := (w_svc w)\<lparr>sv_flush := False, sv_columns := is_AcquireColumns kind, sv_lastSend := now,
          sv_size := 0, sv_results := [], sv_state := INSERT_STATE_INSERTING\<rparr>, w_loop := Sending ?po\<rparr>"
    using False fit_not_nil by (simp add: do_swap_def swapBuffers_def fetch_prepare_def Let_def)
  have "places_inv good (do_swap kind now w)"
    using inv by (auto simp: svc_inv_def places_inv_def eq world_defs loop)
  moreover have "rows_inv rows fit (do_swap kind now w)"
    using inv by (auto simp: svc_inv_def rows_inv_def eq batch_ok_def acquire_fit acquire_rows)
  moreover have "answers_inv rows (do_swap kind now w)"
    using inv by (auto simp: svc_inv_def answers_inv_def eq world_defs loop)
  ultimately show ?thesis by (simp add: svc_inv_def)
qed

lemma step_inv:
  assumes "svc_step kind good w w'" "svc_inv good rows fit w"
  shows "svc_inv good rows fit w'"
  using assms
proof cases
  case (start r)
  then obtain n where "GetSize r = Inr n" using size_good by blast
  with start assms(2) show ?thesis by (simp add: start_inv)
qed (use assms(2) in \<open>auto intro: locked_inv swap_inv finish_inv stopped_inv
       same_work_inv [OF same_work_steps(1)] same_work_inv [OF same_work_steps(2)]
       same_work_inv [OF same_work_steps(3)] same_work_inv [OF same_work_steps(4)]\<close>)

lemma init_inv: "svc_inv good rows fit (world_init kind now)"
  by (simp add: svc_inv_def places_inv_def rows_inv_def answers_inv_def world_init_def world_defs
        svc_Init_def svc_zero_def batch_ok_def acquire_fit acquire_rows)

lemma reach_inv: "svc_reach kind good w \<Longrightarrow> svc_inv good rows fit w"
  by (induction rule: svc_reach.induct) (auto intro: init_inv step_inv)

lemma acknowledged:
  assumes "svc_reach kind good w" "p < length (w_heap w)"
    and "promise_Get (w_heap w ! p) = Some (r, None)"
  shows "rows (w_issued w ! p) = [] \<or>
    (\<exists>po before after. (po, None) \<in> set (w_log w) \<and> rp_res po = before @ p # after \<and>
       col_rows (rp_cols po) =
         concat (map (\<lambda>q. rows (w_issued w ! q)) before) @ rows (w_issued w ! p) @
         concat (map (\<lambda>q. rows (w_issued w ! q)) after))"
proof -
  have inv: "rows_inv rows fit w" "answers_inv rows w"
    using reach_inv [OF assms(1)] by (simp_all add: svc_inv_def)
  have fin: "\<not> p_pending (w_heap w ! p)" "p_err (w_heap w ! p) = None"
    using assms(3) by (auto simp: promise_Get_def split: if_splits)
  show ?thesis
  proof (cases "rows (w_issued w ! p) = []")
    case False
    then have "p \<in> set (logged w)" using inv(2) assms(2) fin unfolding answers_inv_def by blast
    then obtain po err where e: "(po, err) \<in> set (w_log w)" "p \<in> set (rp_res po)"
      by (auto simp: logged_def)
    then have "w_heap w ! p = promise_Fulfilled err 0"
      using inv(2) by (fastforce simp: answers_inv_def)
    with fin(2) have "err = None" by simp
    moreover obtain before after where "rp_res po = before @ p # after"
      using e(2) by (meson split_list)
    moreover have "batch_ok rows fit (w_issued w) (rp_cols po) (rp_res po)"
      using inv(1) e(1) by (fastforce simp: rows_inv_def)
    ultimately show ?thesis using e(1) by (auto simp: batch_ok_def)
  qed simp
qed

lemma bookkeeping:
  assumes "svc_reach kind good w"
  shows "w_crash w = None" "distinct (places w)"
    "col_rows (sv_columns (w_svc w)) = concat (map (\<lambda>q. rows (w_issued w ! q)) (sv_results (w_svc w)))"
    "p < length (w_heap w) \<Longrightarrow> promise_Get (w_heap w ! p) = None \<Longrightarrow>
       p \<in> set (map fst (w_entering w)) \<union> set (sv_results (w_svc w)) \<union> set (in_flight w)"
  using reach_inv [OF assms]
  unfolding svc_inv_def places_inv_def rows_inv_def answers_inv_def batch_ok_def promise_Get_def
  by (auto split: if_splits)

lemma iteration:
  assumes r: "svc_reach kind good w" and loop: "w_loop w = AtSelect" and ne: "sv_results (w_svc w) \<noteq> []"
  shows "\<exists>po svc' h'. fetchLoopIteration kind now True err (w_svc w) (w_heap w) = (Inr (Some po), svc', h') \<and>
    rp_res po = sv_results (w_svc w) \<and>
    col_rows (rp_cols po) = concat (map (\<lambda>q. rows (w_issued w ! q)) (sv_results (w_svc w))) \<and>
    (\<forall>p\<in>set (sv_results (w_svc w)). promise_Get (h' ! p) = Some (0, err)) \<and>
    sv_results svc' = [] \<and> sv_size svc' = 0 \<and> col_rows (sv_columns svc') = []"
proof -
  have inv: "svc_inv good rows fit w" using reach_inv [OF r] .
  have sz: "sv_size (w_svc w) \<noteq> 0" and fit: "fit (sv_columns (w_svc w))"
    using inv ne by (auto simp: svc_inv_def rows_inv_def batch_ok_def)
  have nn: "sv_columns (w_svc w) \<noteq> []" using fit fit_not_nil by blast
  have "p < length (w_heap w)" "p_pending (w_heap w ! p)" if "p \<in> set (sv_results (w_svc w))" for p
    using inv loop that by (auto simp: svc_inv_def places_inv_def answers_inv_def places_def)
  then have "\<forall>p\<in>set (sv_results (w_svc w)).
      promise_Get (releaseAll (sv_results (w_svc w)) err (w_heap w) ! p) = Some (0, err)"
    by (simp add: nth_releaseAll promise_Done_pending promise_Get_def promise_Fulfilled_def)
  then show ?thesis
    using sz nn bookkeeping(3) [OF r]
    by (cases "sv_client (w_svc w)")
       (simp_all add: fetchLoopIteration_def fetch_connect_def swapBuffers_def fetch_prepare_def
          fetch_finish_def Let_def acquire_rows)
qed

text \<open>After the loop has returned nobody answers what is still queued.\<close>

definition stranded :: "nat \<Rightarrow> world \<Rightarrow> bool" where
  "stranded p w \<longleftrightarrow> svc_inv good rows fit w \<and> w_loop w = Returned \<and>
     p \<in> set (sv_results (w_svc w)) \<and> p < length (w_heap w) \<and> p_pending (w_heap w ! p)"

lemma stranded_step:
  assumes s: "stranded p w" and st: "svc_step kind good w w'"
  shows "stranded p w'"
proof -
  have inv: "svc_inv good rows fit w" "svc_inv good rows fit w'"
    using s step_inv [OF st] by (simp_all add: stranded_def)
  have w: "w_loop w = Returned" "p \<in> set (sv_results (w_svc w))" "p < length (w_heap w)"
    "p_pending (w_heap w ! p)" using s by (simp_all add: stranded_def)
  have "w_loop w' = Returned \<and> p \<in> set (sv_results (w_svc w')) \<and> p < length (w_heap w') \<and>
      p_pending (w_heap w' ! p)"
    using st
  proof cases
    case (start r)
    then obtain n where "GetSize r = Inr n" using size_good by blast
    then show ?thesis using start w
      by (cases "sv_running (w_svc w)") (simp_all add: do_start_running do_start_stopped nth_append)
  next
    case (locked q n)
    have q: "q \<in> fst ` set (w_entering w)" using locked by force
    then have "q \<noteq> p" using inv(1) w(2) by (auto simp: svc_inv_def places_inv_def places_def)
    moreover have "fit (sv_columns (w_svc w))" "good (w_issued w ! q)"
      using inv(1) q unfolding svc_inv_def places_inv_def rows_inv_def batch_ok_def places_def by auto
    ultimately show ?thesis
      using locked w locked_eq [of w q n] by (auto simp: nth_heap_Done)
  qed (use w in \<open>simp_all add: svc_PlanFlush_def svc_Stop_def\<close>)
  then show ?thesis using inv(2) by (simp add: stranded_def)
qed

lemma stranded_for_ever:
  "(svc_step kind good)\<^sup>*\<^sup>* w w' \<Longrightarrow> stranded p w \<Longrightarrow> stranded p w'"
  by (induction rule: rtranclp_induct) (auto intro: stranded_step)

lemma stop_strands:
  assumes r: "svc_reach kind good w" and loop: "w_loop w = AtSelect" and st: "sv_stop (w_svc w)"
    and e: "(p, n) \<in> set (w_entering w)" and ne: "rows (w_issued w ! p) \<noteq> []"
  shows "svc_step kind good w (do_stopped w)"
    and "svc_step kind good (do_stopped w) (do_locked kind p n (do_stopped w))"
    and "stranded p (do_locked kind p n (do_stopped w))"
proof -
  have inv: "svc_inv good rows fit w" using reach_inv [OF r] .
  have crash: "w_crash w = None" "w_crash (do_stopped w) = None"
    using inv by (simp_all add: svc_inv_def places_inv_def do_stopped_eq)
  show 1: "svc_step kind good w (do_stopped w)"
    using crash(1) loop st by (rule svc_step.stopped)
  have e': "(p, n) \<in> set (w_entering (do_stopped w))" using e by (simp add: do_stopped_eq)
  show 2: "svc_step kind good (do_stopped w) (do_locked kind p n (do_stopped w))"
    using crash(2) e' by (rule svc_step.locked)
  have inv1: "svc_inv good rows fit (do_stopped w)" using step_inv [OF 1 inv] .
  have pe: "p \<in> fst ` set (w_entering (do_stopped w))" using e' by force
  have "fit (sv_columns (w_svc (do_stopped w)))" "good (w_issued (do_stopped w) ! p)"
      "p < length (w_heap (do_stopped w))" "p_pending (w_heap (do_stopped w) ! p)"
    using inv1 pe unfolding svc_inv_def places_inv_def rows_inv_def batch_ok_def places_def answers_inv_def
    by auto
  with ne locked_eq [of "do_stopped w" p n] step_inv [OF 2 inv1]
  show "stranded p (do_locked kind p n (do_stopped w))"
    by (auto simp: stranded_def do_stopped_eq)
qed

end

end
