(* ===== verification/Insert_Theorems.thy ===== *)
theory Insert_Theorems
  imports Insert_Service_Correct
begin

section \<open>The insert services of all tables\<close>

text \<open>
  The contract \<open>insert_table\<close> holds for every table, so the results about the service hold for
  samples, metrics, series, patterns, profiles, spans and span attributes alike. The requests
  considered are those the decoders build: columns of equal length, ids of the right size, and
  a positive size where there are rows.
\<close>

definition accepted :: "(nat \<Rightarrow> string \<Rightarrow> bool) \<Rightarrow> bool \<Rightarrow> table_kind \<Rightarrow> insert_req \<Rightarrow> bool" where
  "accepted fx fed t r \<longleftrightarrow>
     well_formed fx fed t r \<and>
     (case GetSize r of Inl _ \<Rightarrow> False | Inr n \<Rightarrow> request_rows fed t r = [] \<or> 0 < n)"

lemmas acquire_defs =
  NewSamplesInsertService_def NewMetricsInsertService_def NewTimeSeriesInsertService_def
  NewPatternInsertService_def NewProfileSamplesInsertService_def NewTempoSamplesInsertService_def
  NewTempoTagsInsertService_def SamplesAcquirer_serialize_def SamplesAcquirer_acq_def
  MetricsAcquirer_serialize_def MetricsAcquirer_acq_def TimeSeriesAcquirer_serialize_def
  TimeSeriesAcquirer_acq_def patternAcquirer_toIFace_def patternAcquirer_acq_def
  profileSamplesAcquirer_toIFace_def profileSamplesAcquirer_acq_def
  tempoSamplesAcquirer_toIFace_def tempoSamplesAcquirer_acq_def
  tempoTagsAcquirer_toIFace_def tempoTagsAcquirer_acq_def Acquire_def SetSize_def

lemma acquired_empty:
  "c \<in> set (is_AcquireColumns (table_service fx fed opts t)) \<Longrightarrow> pc_Data c = []"
  "is_AcquireColumns (table_service fx fed opts t) \<noteq> []"
  by (cases t; cases fed; auto simp: acquire_defs)+

lemma request_columns_length:
  "request_columns fed t r \<noteq> [] \<Longrightarrow>
     length (request_columns fed t r) = length (is_AcquireColumns (table_service fx fed opts t))"
  by (cases t; cases r; cases fed) (simp_all add: acquire_defs oid_cells_def)

lemma acquired_fits:
  "fits (table_service fx fed opts t) (is_AcquireColumns (table_service fx fed opts t))"
  "col_rows (is_AcquireColumns (table_service fx fed opts t)) = []"
proof -
  let ?cols = "is_AcquireColumns (table_service fx fed opts t)"
  have empty: "hd (map pc_Data ?cols) = []"
    using acquired_empty [where fx = fx and fed = fed and opts = opts and t = t] by (simp add: hd_map)
  then show "col_rows ?cols = []" by (simp add: col_rows_def table_rows_def)
  show "fits (table_service fx fed opts t) ?cols"
    using acquired_empty [where fx = fx and fed = fed and opts = opts and t = t] empty
    by (simp add: fits_def aligned_def)
qed

lemma table_process:
  assumes "fits (table_service fx fed opts t) cols" "well_formed fx fed t r"
  shows "\<exists>cols'. is_ProcessRequest (table_service fx fed opts t) r cols =
      Processed (int (length (request_rows fed t r))) cols' \<and>
      fits (table_service fx fed opts t) cols' \<and> col_rows cols' = col_rows cols @ request_rows fed t r"
proof -
  have sig: "map col_sig cols = map col_sig (is_AcquireColumns (table_service fx fed opts t))"
    and al: "aligned (map pc_Data cols)" using assms(1) by (simp_all add: fits_def)
  have wf: "aligned (request_columns fed t r)" using assms(2) by (simp add: well_formed_def)
  then have ne: "request_columns fed t r \<noteq> []" unfolding aligned_def by blast
  have len: "length (map pc_Data cols) = length (request_columns fed t r)"
    using map_eq_imp_length_eq [OF sig] request_columns_length [OF ne] by simp
  obtain cols' where c: "is_ProcessRequest (table_service fx fed opts t) r cols =
      Processed (int (length (request_rows fed t r))) cols'"
      "map col_sig cols' = map col_sig cols"
      "map pc_Data cols' = map2 (@) (map pc_Data cols) (request_columns fed t r)"
    using table_appends [OF assms(2) sig] by (auto simp: appends_def)
  show ?thesis
    using c sig aligned_map2_append [OF al wf len] table_rows_append [OF al wf len]
    by (simp add: fits_def col_rows_def request_rows_def)
qed

lemma fits_not_nil: "fits (table_service fx fed opts t) cols \<Longrightarrow> cols \<noteq> []"
  using acquired_empty(2) [of fx fed opts t] by (auto simp: fits_def)

interpretation svc: insert_table "table_service fx fed opts t" "accepted fx fed t"
    "request_rows fed t" "fits (table_service fx fed opts t)" for fx fed opts t
proof unfold_locales
  fix r assume "accepted fx fed t r"
  then show "\<exists>n. GetSize r = Inr n \<and> (request_rows fed t r \<noteq> [] \<longrightarrow> 0 < n)"
    by (auto simp: accepted_def split: sum.splits)
qed (use acquired_fits table_process fits_not_nil in \<open>auto simp: accepted_def\<close>)

text \<open>
  C5: A promise that reports success stands for rows that are in ClickHouse: in every state that
  callers, loop, stops and failed inserts can reach together, the rows of the request are
  part of one insert that succeeded, next to each other and in order, between the rows of the
  requests before and after it in that batch.
\<close>

theorem acknowledged_rows_inserted:
  assumes "svc_reach (table_service fx fed opts t) (accepted fx fed t) w"
    and "p < length (w_heap w)" and "promise_Get (w_heap w ! p) = Some (n, None)"
  shows "request_rows fed t (w_issued w ! p) = [] \<or>
    (\<exists>po before after. (po, None) \<in> set (w_log w) \<and> rp_res po = before @ p # after \<and>
       col_rows (rp_cols po) =
         concat (map (\<lambda>q. request_rows fed t (w_issued w ! q)) before) @
         request_rows fed t (w_issued w ! p) @
         concat (map (\<lambda>q. request_rows fed t (w_issued w ! q)) after))"
  using assms by (rule svc.acknowledged)

text \<open>A run of the samples service: one request, the push interval, one successful insert.\<close>

definition one_sample :: TimeSamplesData where
  "one_sample = \<lparr>spl_MFingerprint = [7], spl_MTimestampNS = [5], spl_MMessage = [''hi''],
     spl_MValue = [0], spl_MTTLDays = [0], spl_Size = 28, spl_MType = [1], spl_MOid = ''t''\<rparr>"

definition same_length :: "nat \<Rightarrow> string \<Rightarrow> bool" where
  "same_length n b \<longleftrightarrow> length b = n"

definition plain_opts :: InsertServiceOpts where
  "plain_opts = \<lparr>io_ClusterName = '''', io_MaxQueueSize = 0, io_ParallelNum = 1, io_AsyncInsert = False\<rparr>"

definition sample_kind :: insert_service where
  "sample_kind = table_service same_length False plain_opts SamplesT"

definition waiting_world :: world where
  "waiting_world = do_start (ReqSamples one_sample) (world_init sample_kind 0)"

definition queued_world :: world where
  "queued_world = do_locked sample_kind 0 28 waiting_world"

definition ready_world :: world where
  "ready_world = queued_world\<lparr>w_svc := svc_PlanFlush (w_svc queued_world)\<rparr>"

definition connected_world :: world where
  "connected_world = do_connect True ready_world"

definition sending_world :: world where
  "sending_world = do_swap sample_kind 1 connected_world"

definition sent_portion :: requestPortion where
  "sent_portion = \<lparr>rp_cols = sv_columns (w_svc queued_world), rp_res = [0], rp_size = 28\<rparr>"

definition sent_world :: world where
  "sent_world = do_finish 2 None sent_portion sending_world"

lemmas sample_run_defs =
  sent_world_def sending_world_def connected_world_def ready_world_def queued_world_def
  waiting_world_def sent_portion_def sample_kind_def plain_opts_def one_sample_def

lemma one_sample_accepted: "accepted same_length False SamplesT (ReqSamples one_sample)"
  by code_simp

lemma sample_run_facts:
  "w_crash waiting_world = None" "w_entering waiting_world = [(0, 28)]"
  "w_crash queued_world = None" "w_crash ready_world = None" "w_loop ready_world = AtSelect"
  "sv_flush (w_svc ready_world)" "w_crash connected_world = None" "w_loop connected_world = AtSwap"
  "w_crash sending_world = None" "w_loop sending_world = Sending sent_portion"
  by code_simp+

abbreviation sample_reach :: "world \<Rightarrow> bool" where
  "sample_reach \<equiv> svc_reach (table_service same_length False plain_opts SamplesT)
     (accepted same_length False SamplesT)"

abbreviation sample_step :: "world \<Rightarrow> world \<Rightarrow> bool" where
  "sample_step \<equiv> svc_step (table_service same_length False plain_opts SamplesT)
     (accepted same_length False SamplesT)"

lemma sample_run:
  "sample_reach waiting_world" "sample_reach queued_world" "sample_reach connected_world"
  "sample_reach sent_world"
proof -
  have "w_crash (world_init sample_kind 0) = None" by code_simp
  from svc_step.start [OF this, where ok = "accepted same_length False SamplesT", OF one_sample_accepted]
  show 1: "sample_reach waiting_world"
    unfolding waiting_world_def sample_kind_def by (rule svc_reach.step [OF svc_reach.init])
  have "sample_step waiting_world queued_world"
    unfolding queued_world_def sample_kind_def
    by (rule svc_step.locked) (simp_all add: sample_run_facts)
  with 1 show 2: "sample_reach queued_world" by (rule svc_reach.step)
  have "sample_step queued_world ready_world"
    unfolding ready_world_def by (rule svc_step.timer) (simp add: sample_run_facts)
  with 2 have 3: "sample_reach ready_world" by (rule svc_reach.step)
  have "sample_step ready_world connected_world"
    unfolding connected_world_def by (rule svc_step.connect) (simp_all add: sample_run_facts)
  with 3 show 4: "sample_reach connected_world" by (rule svc_reach.step)
  have "sample_step connected_world sending_world"
    unfolding sending_world_def sample_kind_def by (rule svc_step.swap) (simp_all add: sample_run_facts)
  with 4 have 5: "sample_reach sending_world" by (rule svc_reach.step)
  have "sample_step sending_world sent_world"
    unfolding sent_world_def by (rule svc_step.finish) (simp_all add: sample_run_facts)
  with 5 show "sample_reach sent_world" by (rule svc_reach.step)
qed

lemma sent_world_facts:
  "length (w_heap sent_world) = 1" "promise_Get (w_heap sent_world ! 0) = Some (0, None)"
  "w_issued sent_world ! 0 = ReqSamples one_sample"
  by code_simp+

lemma one_sample_rows:
  "request_rows False SamplesT (ReqSamples one_sample) = [[CU8 1, CU64 7, CI64 5, CStr ''hi'', CF64 0]]"
  by code_simp

theorem acknowledged_rows_inserted_witness:
  "\<exists>po before after. (po, None) \<in> set (w_log sent_world) \<and> rp_res po = before @ 0 # after \<and>
     col_rows (rp_cols po) =
       concat (map (\<lambda>q. request_rows False SamplesT (w_issued sent_world ! q)) before) @
       [[CU8 1, CU64 7, CI64 5, CStr ''hi'', CF64 0]] @
       concat (map (\<lambda>q. request_rows False SamplesT (w_issued sent_world ! q)) after)"
  using acknowledged_rows_inserted [OF sample_run(4), of 0 0]
  by (simp add: sent_world_facts one_sample_rows)

text \<open>
  C23: In every reachable state the process has not crashed, each promise is in one place (waiting
  for the lock, queued, in flight or in the log of inserts), the column buffer holds exactly the
  rows of the queued requests in their order, and a promise that is still pending waits for the
  lock, is queued or is in flight.
\<close>

theorem promise_bookkeeping:
  assumes "svc_reach (table_service fx fed opts t) (accepted fx fed t) w"
  shows "w_crash w = None \<and> distinct (places w) \<and>
    col_rows (sv_columns (w_svc w)) =
      concat (map (\<lambda>q. request_rows fed t (w_issued w ! q)) (sv_results (w_svc w))) \<and>
    (\<forall>p<length (w_heap w). promise_Get (w_heap w ! p) = None \<longrightarrow>
       p \<in> set (map fst (w_entering w)) \<union> set (sv_results (w_svc w)) \<union> set (in_flight w))"
  using svc.bookkeeping [OF assms] by blast

theorem promise_bookkeeping_witness:
  "w_crash queued_world = None \<and> distinct (places queued_world) \<and>
   col_rows (sv_columns (w_svc queued_world)) = [[CU8 1, CU64 7, CI64 5, CStr ''hi'', CF64 0]] \<and>
   0 \<in> set (map fst (w_entering queued_world)) \<union> set (sv_results (w_svc queued_world)) \<union>
     set (in_flight queued_world)"
proof -
  have facts: "sv_results (w_svc queued_world) = [0]" "w_issued queued_world = [ReqSamples one_sample]"
      "length (w_heap queued_world) = 1" "promise_Get (w_heap queued_world ! 0) = None"
    by code_simp+
  show ?thesis
    using promise_bookkeeping [OF sample_run(2)] by (auto simp: facts one_sample_rows)
qed

text \<open>
  C24: When the push interval is over, one iteration of the loop with a connection sends all queued
  rows in one insert and answers all queued requests with its outcome, error or not, and leaves
  an empty queue. Without a connection nothing is lost: the iteration changes nothing.
\<close>

theorem iteration_answers_all:
  assumes "svc_reach (table_service fx fed opts t) (accepted fx fed t) w"
    and "w_loop w = AtSelect" and "sv_results (w_svc w) \<noteq> []"
  shows "(\<exists>po svc' h'. fetchLoopIteration (table_service fx fed opts t) now True err (w_svc w) (w_heap w)
        = (Inr (Some po), svc', h') \<and> rp_res po = sv_results (w_svc w) \<and>
      col_rows (rp_cols po) =
        concat (map (\<lambda>q. request_rows fed t (w_issued w ! q)) (sv_results (w_svc w))) \<and>
      (\<forall>p\<in>set (sv_results (w_svc w)). promise_Get (h' ! p) = Some (0, err)) \<and>
      sv_results svc' = [] \<and> sv_size svc' = 0 \<and> col_rows (sv_columns svc') = []) \<and>
    (\<not> sv_client (w_svc w) \<longrightarrow>
       fetchLoopIteration (table_service fx fed opts t) now False err (w_svc w) (w_heap w)
         = (Inr None, w_svc w, w_heap w))"
  using svc.iteration [OF assms] by (auto simp: fetchLoopIteration_def fetch_connect_def)

theorem iteration_answers_all_witness:
  "\<exists>po svc' h'. fetchLoopIteration (table_service same_length False plain_opts SamplesT) 1 True
       (Some ''refused'') (w_svc queued_world) (w_heap queued_world) = (Inr (Some po), svc', h') \<and>
     promise_Get (h' ! 0) = Some (0, Some ''refused'') \<and> sv_results svc' = []"
proof -
  have facts: "sv_results (w_svc queued_world) = [0]" "w_loop queued_world = AtSelect" by code_simp+
  show ?thesis
    using iteration_answers_all [OF sample_run(2), of 1 "Some ''refused''"] by (auto simp: facts)
qed

text \<open>
  C25: A call that has seen the service running and takes the lock after the loop has returned is
  never answered: its promise stays pending in every later state, so the caller, which waits
  without a time limit, hangs.
\<close>

theorem stop_strands_request:
  assumes "svc_reach (table_service fx fed opts t) (accepted fx fed t) w"
    and "w_loop w = AtSelect" and "sv_stop (w_svc w)" and "(p, n) \<in> set (w_entering w)"
    and "request_rows fed t (w_issued w ! p) \<noteq> []"
  shows "\<exists>w1 w2. svc_step (table_service fx fed opts t) (accepted fx fed t) w w1 \<and>
    svc_step (table_service fx fed opts t) (accepted fx fed t) w1 w2 \<and>
    (\<forall>w'. (svc_step (table_service fx fed opts t) (accepted fx fed t))\<^sup>*\<^sup>* w2 w' \<longrightarrow>
       promise_Get (w_heap w' ! p) = None)"
proof -
  note s = svc.stop_strands [OF assms]
  have "promise_Get (w_heap w' ! p) = None"
    if "(svc_step (table_service fx fed opts t) (accepted fx fed t))\<^sup>*\<^sup>*
          (do_locked (table_service fx fed opts t) p n (do_stopped w)) w'" for w'
    using svc.stranded_for_ever [OF that s(3)] by (simp add: svc.stranded_def promise_Get_def)
  with s(1,2) show ?thesis by blast
qed

theorem stop_strands_request_witness:
  "\<exists>w w1 w2. sample_reach w \<and> sample_step w w1 \<and> sample_step w1 w2 \<and>
     (\<forall>w'. sample_step\<^sup>*\<^sup>* w2 w' \<longrightarrow> promise_Get (w_heap w' ! 0) = None)"
proof -
  let ?w = "waiting_world\<lparr>w_svc := svc_Stop (w_svc waiting_world)\<rparr>"
  have "sample_step waiting_world ?w" by (rule svc_step.stop) (simp add: sample_run_facts)
  with sample_run(1) have r: "sample_reach ?w" by (rule svc_reach.step)
  have loop: "w_loop ?w = AtSelect" by code_simp
  have stop: "sv_stop (w_svc ?w)" by code_simp
  have entering: "(0, 28) \<in> set (w_entering ?w)" by (simp add: sample_run_facts)
  have rows: "request_rows False SamplesT (w_issued ?w ! 0) \<noteq> []" by code_simp
  from stop_strands_request [OF r loop stop entering rows] r show ?thesis by blast
qed

lemma AppendArr_snd:
  "snd (FixedStrAdaptor_AppendArr fx arr c) \<longleftrightarrow> list_all (fx (pc_Fixed c)) arr"
  by (induction arr arbitrary: c) (simp_all add: append_cells_def)

lemma span_process_panics:
  assumes "fits (table_service fx fed opts SpansT) cols" "\<not> ids_fit fx (ReqSpans d)"
  shows "\<exists>cols'. spans_ProcessRequest fx (ReqSpans d) cols = ProcPanic (Panic ''invalid size'') cols'"
proof -
  have sig: "map col_sig cols = map col_sig (tempoSamplesAcquirer_toIFace tempoSamplesAcquirer_acq)"
    using assms(1) by (simp add: fits_def NewTempoSamplesInsertService_def)
  obtain a where a: "tempoSamplesAcquirer_fromIFace cols = Inr a"
      "pc_Fixed (sp_traceId a) = 16" "pc_Fixed (sp_spanId a) = 8"
    using sig by (auto simp: column_simps tempoSamplesAcquirer_toIFace_def
        tempoSamplesAcquirer_acq_def tempoSamplesAcquirer_fromIFace_def)
  show ?thesis
    using assms(2) a AppendArr_snd [of fx "tp_MTraceId d" "sp_traceId a"]
      AppendArr_snd [of fx "tp_MSpanId d" "sp_spanId a"]
    by (auto simp: spans_ProcessRequest_def Let_def split: prod.splits bool.splits)
qed

text \<open>
  C26: A span request with a trace or span id that the fixed size column does not take makes the
  call panic while it holds the lock: the promise is never answered, and the panic is raised in
  a goroutine without a recover, so it ends the process.
\<close>

theorem unfit_span_id_panics:
  assumes "fits (table_service fx fed opts SpansT) (sv_columns svc)" "sv_running svc"
    and "\<not> ids_fit fx (ReqSpans d)"
  shows "\<exists>svc' h'. svc_Request (table_service fx fed opts SpansT) (ReqSpans d) svc h =
      (Inl (Panic ''invalid size''), svc', h') \<and> promise_Get (h' ! length h) = None"
proof -
  obtain cols where "spans_ProcessRequest fx (ReqSpans d) (sv_columns svc)
      = ProcPanic (Panic ''invalid size'') cols"
    using span_process_panics [OF assms(1,3)] by blast
  then show ?thesis
    using assms(2)
    by (intro exI [of _ "svc\<lparr>sv_columns := cols\<rparr>"] exI [of _ "h @ [promise_New]"])
       (simp add: svc_Request_def Request_start_def Request_locked_def
          NewTempoSamplesInsertService_def promise_Get_def)
qed

definition short_id_span :: TempoSamples where
  "short_id_span = \<lparr>tp_MTraceId = [''x''], tp_MSpanId = [''12345678''], tp_MTimestampNs = [1],
     tp_MDurationNs = [1], tp_MParentId = [''''], tp_MName = [''n''], tp_MServiceName = [''s''],
     tp_MPayloadType = [2], tp_MPayload = [''p''], tp_Size = 52\<rparr>"

theorem unfit_span_id_panics_witness:
  "\<exists>svc' h'. svc_Request (table_service same_length False plain_opts SpansT) (ReqSpans short_id_span)
      (svc_Init (table_service same_length False plain_opts SpansT) 0 svc_zero) [] =
        (Inl (Panic ''invalid size''), svc', h') \<and> promise_Get (h' ! 0) = None"
proof -
  let ?svc = "svc_Init (table_service same_length False plain_opts SpansT) 0 svc_zero"
  have "sv_columns ?svc = is_AcquireColumns (table_service same_length False plain_opts SpansT)"
    by (simp add: svc_Init_def svc_zero_def)
  then have fit: "fits (table_service same_length False plain_opts SpansT) (sv_columns ?svc)"
    using acquired_fits(1) [of same_length False plain_opts SpansT] by simp
  have run: "sv_running ?svc" by (simp add: svc_Init_def)
  have bad: "\<not> ids_fit same_length (ReqSpans short_id_span)" by code_simp
  from unfit_span_id_panics [OF fit run bad, of "[]"] show ?thesis by simp
qed

end
