(* ===== verification/Ingest_Correct.thy ===== *)
theory Ingest_Correct
  imports Ingest_Builder Insert_Theorems
begin

section \<open>Correctness of the request builder\<close>

text \<open>
  The fingerprint of a label set does not depend on the order of the labels; every entry a
  decoder hands over is in exactly one of the requests, in order; all requests are of the form
  the insert services rely on (\<open>accepted\<close>), so what is proved there applies to them.
\<close>

subsection \<open>Filling by doubling\<close>

lemma fill_double_replicate:
  "0 < l \<Longrightarrow> l \<le> length arr \<Longrightarrow> take l arr = replicate l v \<Longrightarrow> fill_double l arr = replicate (length arr) v"
proof (induction l arr rule: fill_double.induct)
  case (1 l arr)
  let ?next = "take l arr @ take (length arr - l) (take l arr) @ drop (2 * l) arr"
  show ?case
  proof (cases "l < length arr")
    case False
    then show ?thesis using 1(3,4) by (subst fill_double.simps) simp
  next
    case True
    have len: "length ?next = length arr" using True by auto
    show ?thesis
    proof (cases "2 * l \<le> length arr")
      case fits: True
      have "take (2 * l) ?next = replicate (2 * l) v"
        using fits 1(4) by (auto simp: replicate_add [symmetric] mult_2 min_def)
      then show ?thesis
        using 1(1) [OF conjI [OF 1(2) True]] 1(2) fits len True by (subst fill_double.simps) simp
    next
      case over: False
      have "?next = replicate (length arr) v"
        using over True 1(4) by (simp add: replicate_add [symmetric] min_def)
      moreover have "fill_double (2 * l) ?next = ?next"
        using over len by (subst fill_double.simps) simp
      ultimately show ?thesis using 1(2) True by (subst fill_double.simps) simp
    qed
  qed
qed

lemma fastFillArray_eq:
  "fastFillArray z n v = (if n = 0 then Inl (Panic ''index out of range'') else Inr (replicate n v))"
proof (cases n)
  case (Suc m)
  have "fill_double 1 (v # replicate m z) = replicate (length (v # replicate m z)) v"
    by (rule fill_double_replicate) simp_all
  then show ?thesis by (simp add: fastFillArray_def Suc del: fill_double.simps)
qed (simp add: fastFillArray_def)

subsection \<open>Fingerprints\<close>

text \<open>
  C9: The fingerprint of a label set is the same for every order of its labels: the three hashes it
  is made of are combined with addition, exclusive or and multiplication of words.
\<close>

theorem fingerprint_any_order:
  assumes "mset ls = mset ls'"
  shows "fingerprintLabels E ls = fingerprintLabels E ls'"
proof -
  have "determs_step E x \<circ> determs_step E y = determs_step E y \<circ> determs_step E x" for x y
    by (auto simp: determs_step_def fun_eq_iff Let_def ac_simps)
  then have "fold (determs_step E) ls = fold (determs_step E) ls'"
    using assms by (intro fold_multiset_equiv) auto
  then show ?thesis by (simp add: fingerprintLabels_def)
qed

text \<open>A small environment to evaluate the builder in.\<close>

definition toy_env :: ingest_env where
  "toy_env = \<lparr>ie_CH64 = (\<lambda>bs. foldr (\<lambda>b h. ucast b + 31 * h) bs 7), ie_FingerPrintType = FINGERPRINT_CityHash,
     ie_Quote = (\<lambda>s. CHR 0x22 # s @ [CHR 0x22]), ie_json = (\<lambda>m. Inr (md_Type m)), ie_order = (\<lambda>ds. ds)\<rparr>"

theorem fingerprint_any_order_witness:
  "fingerprintLabels toy_env [(''app'', ''a''), (''env'', ''b'')] =
     fingerprintLabels toy_env [(''env'', ''b''), (''app'', ''a'')]"
  by (rule fingerprint_any_order) simp

lemma service_name_loop_append:
  "''service_name'' \<notin> fst ` set ls \<Longrightarrow>
     service_name_loop name (ls @ ls') = service_name_loop (snd (service_name_loop name ls)) ls'"
  by (induction ls arbitrary: name) auto

text \<open>
  Which service name is added depends on the order of the labels: the last candidate wins. Two
  orders of one label set give two label sets, so a decoder that walks a map, as the one for
  OTLP logs does, files one stream under several fingerprints.
\<close>

theorem service_name_by_order:
  assumes "''service_name'' \<notin> fst ` set ls" "ka \<in> set serviceNameCandidates" "kb \<in> set serviceNameCandidates"
    and "v \<noteq> ''''" "w \<noteq> ''''"
  shows "mset (ls @ [(ka, v), (kb, w)]) = mset (ls @ [(kb, w), (ka, v)]) \<and>
    discoverServiceName (ls @ [(ka, v), (kb, w)]) = ls @ [(ka, v), (kb, w), (''service_name'', w)] \<and>
    discoverServiceName (ls @ [(kb, w), (ka, v)]) = ls @ [(kb, w), (ka, v), (''service_name'', v)]"
proof -
  have "ka \<noteq> ''service_name''" "kb \<noteq> ''service_name''"
    using assms(2,3) by (auto simp: serviceNameCandidates_def)
  then show ?thesis using assms by (simp add: discoverServiceName_def service_name_loop_append)
qed

theorem service_name_by_order_witness:
  "discoverServiceName [(''app'', ''x''), (''job'', ''y'')] = [(''app'', ''x''), (''job'', ''y''), (''service_name'', ''y'')] \<and>
   discoverServiceName [(''job'', ''y''), (''app'', ''x'')] = [(''job'', ''y''), (''app'', ''x''), (''service_name'', ''x'')]"
  using service_name_by_order [of "[]" "''app''" "''job''" "''x''" "''y''"]
  by (simp add: serviceNameCandidates_def)

subsection \<open>Log and metric entries\<close>

text \<open>What the decoders hand over: at least one entry, slices of one length, known types.\<close>

definition entry_shape :: "entries_call \<Rightarrow> bool" where
  "entry_shape c \<longleftrightarrow> ec_timestamps c \<noteq> [] \<and> length (ec_message c) = length (ec_timestamps c) \<and>
     length (ec_value c) = length (ec_timestamps c) \<and> length (ec_types c) = length (ec_timestamps c) \<and>
     (\<forall>t\<in>set (ec_types c). t < 3)"

text \<open>The label set a call is stored under, and its fingerprint.\<close>

definition stored_labels :: "16 word \<Rightarrow> entries_call \<Rightarrow> labels" where
  "stored_labels ttl c = discoverServiceName (snd (filter_special ttl (ec_labels c)))"

definition call_fp :: "ingest_env \<Rightarrow> 16 word \<Rightarrow> entries_call \<Rightarrow> 64 word" where
  "call_fp E ttl c = fingerprintLabels E (stored_labels ttl c)"

definition samples_ok :: "TimeSamplesData \<Rightarrow> bool" where
  "samples_ok s \<longleftrightarrow>
     length (spl_MTimestampNS s) = length (spl_MFingerprint s) \<and>
     length (spl_MMessage s) = length (spl_MFingerprint s) \<and>
     length (spl_MValue s) = length (spl_MFingerprint s) \<and>
     length (spl_MType s) = length (spl_MFingerprint s) \<and>
     26 * int (length (spl_MFingerprint s)) \<le> spl_Size s"

definition series_ok :: "TimeSeriesData \<Rightarrow> bool" where
  "series_ok s \<longleftrightarrow>
     length (ts_MLabels s) = length (ts_MDate s) \<and> length (ts_MFingerprint s) = length (ts_MDate s) \<and>
     length (ts_MType s) = length (ts_MDate s) \<and> 14 * int (length (ts_MDate s)) \<le> ts_Size s"

lemma samples_ok_accepted: "samples_ok s \<Longrightarrow> accepted fx fed SamplesT (ReqSamples s)"
  by (cases "length (spl_MFingerprint s)")
     (auto simp: samples_ok_def accepted_def well_formed_def aligned_def request_rows_def
        table_rows_def oid_cells_def)

lemma series_ok_accepted: "series_ok s \<Longrightarrow> accepted fx fed SeriesT (ReqSeries s)"
  by (cases "length (ts_MDate s)")
     (auto simp: series_ok_def accepted_def well_formed_def aligned_def request_rows_def
        table_rows_def oid_cells_def)

lemma empty_ok [simp]: "samples_ok (empty_samples oid)" "series_ok (empty_series meta oid)"
  by (simp_all add: samples_ok_def empty_samples_def series_ok_def empty_series_def)

lemma add_series_row_ok: "series_ok ts \<Longrightarrow> series_ok (add_series_row d lbls fp ttl meta t ts)"
  by (simp add: series_ok_def add_series_row_def)

lemma fold_series_row_ok: "series_ok ts \<Longrightarrow> series_ok (fold (add_series_row d lbls fp ttl meta) tps ts)"
  by (induction tps arbitrary: ts) (simp_all add: add_series_row_ok)

lemma announce_rows_ok: "series_ok (fst s) \<Longrightarrow> series_ok (fst (announce_rows E lbls fp ttl meta tps ds s))"
  by (induction ds arbitrary: s) (simp_all add: fold_series_row_ok split: prod.splits)

lemma sum_sizes: "26 * int n \<le> (\<Sum>i\<leftarrow>[0..<n]. int (length (f i)) + 26)"
  by (induction n) auto


lemma onEntries_eq:
  assumes "entry_shape c"
  shows "onEntries E c p =
    rbind (metadata_ToJSON E (ExtractMetadataFromLabels (ec_labels c))) (\<lambda>meta.
      let n = length (ec_timestamps c);
          ttl = fst (filter_special (do_ttlDays p) (ec_labels c));
          fp = call_fp E (do_ttlDays p) c;
          spl = (do_spl p)\<lparr>
            spl_MMessage := spl_MMessage (do_spl p) @ ec_message c,
            spl_MValue := spl_MValue (do_spl p) @ ec_value c,
            spl_MTimestampNS := spl_MTimestampNS (do_spl p) @ ec_timestamps c,
            spl_MFingerprint := spl_MFingerprint (do_spl p) @ replicate n fp,
            spl_MTTLDays := spl_MTTLDays (do_spl p) @ replicate n ttl,
            spl_MType := spl_MType (do_spl p) @ ec_types c,
            spl_Size := spl_Size (do_spl p)
              + sum_list (map (\<lambda>i. int (length (ec_message c ! i)) + 26) [0..<n])\<rparr>;
          s = announce_rows E (encodeLabels E (stored_labels (do_ttlDays p) c)) fp ttl meta
            (types_of (ec_types c)) (ie_order E (remdups (map day_of (ec_timestamps c))))
            (do_ts p, do_fpCache p);
          p1 = p\<lparr>do_ts := fst s, do_spl := spl, do_fpCache := snd s\<rparr>
      in Inr (if spl_Size spl + ts_Size (fst s) > 1024 * 1024 then tsSpl_reset (tsSpl_flush p1) else p1))"
proof -
  have chk: "entries_check c = Inr ()" "length (ec_timestamps c) \<noteq> 0"
    using assms by (auto simp: entry_shape_def entries_check_def)
  show ?thesis
    unfolding onEntries_def call_fp_def stored_labels_def fastFillArray_eq
    using chk by (simp add: Let_def split_beta)
qed

text \<open>The part of the builder's state that the next batch depends on is well formed.\<close>

definition doer_ok :: "logs_doer \<Rightarrow> bool" where
  "doer_ok p \<longleftrightarrow> samples_ok (do_spl p) \<and> series_ok (do_ts p) \<and> spl_MOid (do_spl p) = do_oid p \<and>
     ts_MOid (do_ts p) = do_oid p \<and>
     (\<forall>r\<in>set (do_res p). \<exists>ts spl. r = RespLogs ts spl \<and> series_ok ts \<and> samples_ok spl \<and>
        ts_MOid ts = do_oid p \<and> spl_MOid spl = do_oid p)"

lemma series_row_oid [simp]: "ts_MOid (add_series_row d lbls fp ttl meta t ts) = ts_MOid ts"
  by (simp add: add_series_row_def)

lemma fold_series_row_oid [simp]:
  "ts_MOid (fold (add_series_row d lbls fp ttl meta) tps ts) = ts_MOid ts"
  by (induction tps arbitrary: ts) simp_all

lemma announce_rows_oid [simp]:
  "ts_MOid (fst (announce_rows E lbls fp ttl meta tps ds s)) = ts_MOid (fst s)"
  by (induction ds arbitrary: s) (simp_all split: prod.splits)

text \<open>All samples of a builder, sent or not, in one column each.\<close>

definition resp_samples :: "parser_response \<Rightarrow> TimeSamplesData list" where
  "resp_samples r = (case r of RespLogs ts spl \<Rightarrow> [spl] | _ \<Rightarrow> [])"

definition column_of :: "(TimeSamplesData \<Rightarrow> 'a list) \<Rightarrow> parser_response list \<Rightarrow> 'a list" where
  "column_of f rs = concat (map f (concat (map resp_samples rs)))"

lemma onEntries_step:
  assumes c: "entry_shape c" and p: "doer_ok p" and on: "onEntries E c p = Inr p'"
  shows "doer_ok p' \<and> do_ttlDays p' = do_ttlDays p \<and> do_oid p' = do_oid p \<and> do_meta p' = do_meta p"
    and "column_of spl_MTimestampNS (do_res p') @ spl_MTimestampNS (do_spl p')
       = (column_of spl_MTimestampNS (do_res p) @ spl_MTimestampNS (do_spl p)) @ ec_timestamps c"
    and "column_of spl_MMessage (do_res p') @ spl_MMessage (do_spl p')
       = (column_of spl_MMessage (do_res p) @ spl_MMessage (do_spl p)) @ ec_message c"
    and "column_of spl_MValue (do_res p') @ spl_MValue (do_spl p')
       = (column_of spl_MValue (do_res p) @ spl_MValue (do_spl p)) @ ec_value c"
    and "column_of spl_MType (do_res p') @ spl_MType (do_spl p')
       = (column_of spl_MType (do_res p) @ spl_MType (do_spl p)) @ ec_types c"
    and "column_of spl_MFingerprint (do_res p') @ spl_MFingerprint (do_spl p')
       = (column_of spl_MFingerprint (do_res p) @ spl_MFingerprint (do_spl p))
         @ replicate (length (ec_timestamps c)) (call_fp E (do_ttlDays p) c)"
proof -
  let ?n = "length (ec_timestamps c)"
  have sz: "26 * int ?n \<le> (\<Sum>i\<leftarrow>[0..<?n]. int (length (ec_message c ! i)) + 26)"
    by (rule sum_sizes)
  have ser: "series_ok (fst (announce_rows E lbls fp ttl meta tps ds (do_ts p, do_fpCache p)))"
    for lbls fp ttl meta tps ds
    using p by (simp add: announce_rows_ok doer_ok_def)
  obtain meta where "metadata_ToJSON E (ExtractMetadataFromLabels (ec_labels c)) = Inr meta"
    using on by (auto simp: onEntries_eq [OF c] res_simps)
  note eq = on [unfolded onEntries_eq [OF c] this rbind_Inr Let_def, symmetric]
  show "doer_ok p' \<and> do_ttlDays p' = do_ttlDays p \<and> do_oid p' = do_oid p \<and> do_meta p' = do_meta p"
    using eq c p sz ser
    by (auto simp: doer_ok_def tsSpl_reset_def tsSpl_flush_def samples_ok_def entry_shape_def
          empty_series_def empty_samples_def series_ok_def split: if_splits)
qed (use on in \<open>auto simp: onEntries_eq [OF c] res_simps Let_def tsSpl_reset_def tsSpl_flush_def
       column_of_def resp_samples_def empty_samples_def split: if_splits\<close>)

lemma column_of_flush: "column_of f (do_res (tsSpl_flush p)) = column_of f (do_res p) @ f (do_spl p)"
  by (simp add: column_of_def tsSpl_flush_def resp_samples_def)

lemma onEntries_succeeds:
  "entry_shape c \<Longrightarrow> metadata_ToJSON E (ExtractMetadataFromLabels (ec_labels c)) = Inr m \<Longrightarrow>
     \<exists>p'. onEntries E c p = Inr p'"
  by (simp add: onEntries_eq Let_def)

lemma decode_calls_deliver:
  assumes "\<forall>c\<in>set cs. entry_shape c" "doer_ok p"
    and "\<forall>c\<in>set cs. \<exists>m. metadata_ToJSON E (ExtractMetadataFromLabels (ec_labels c)) = Inr m"
  shows "\<exists>p'. decode_calls E cs p = (p', None) \<and> doer_ok p' \<and> do_oid p' = do_oid p \<and>
    column_of spl_MTimestampNS (do_res p') @ spl_MTimestampNS (do_spl p') =
      (column_of spl_MTimestampNS (do_res p) @ spl_MTimestampNS (do_spl p)) @ concat (map ec_timestamps cs) \<and>
    column_of spl_MMessage (do_res p') @ spl_MMessage (do_spl p') =
      (column_of spl_MMessage (do_res p) @ spl_MMessage (do_spl p)) @ concat (map ec_message cs) \<and>
    column_of spl_MValue (do_res p') @ spl_MValue (do_spl p') =
      (column_of spl_MValue (do_res p) @ spl_MValue (do_spl p)) @ concat (map ec_value cs) \<and>
    column_of spl_MType (do_res p') @ spl_MType (do_spl p') =
      (column_of spl_MType (do_res p) @ spl_MType (do_spl p)) @ concat (map ec_types cs) \<and>
    column_of spl_MFingerprint (do_res p') @ spl_MFingerprint (do_spl p') =
      (column_of spl_MFingerprint (do_res p) @ spl_MFingerprint (do_spl p)) @
      concat (map (\<lambda>c. replicate (length (ec_timestamps c)) (call_fp E (do_ttlDays p) c)) cs)"
  using assms
proof (induction cs arbitrary: p)
  case (Cons c cs)
  then obtain p1 where on: "onEntries E c p = Inr p1" using onEntries_succeeds by fastforce
  note st = onEntries_step [OF _ _ on]
  have "doer_ok p1" "do_ttlDays p1 = do_ttlDays p" "do_oid p1 = do_oid p"
    using st(1) Cons.prems by simp_all
  with Cons.IH [of p1] Cons.prems on st(2-) show ?case by auto
qed simp

lemma doParseLogs_delivers:
  assumes "\<forall>c\<in>set calls. entry_shape c"
    and "\<forall>c\<in>set calls. \<exists>m. metadata_ToJSON E (ExtractMetadataFromLabels (ec_labels c)) = Inr m"
  shows "\<exists>out cache'. doParseLogs E meta oid ttl cache (calls, None) = (out, cache') \<and>
    (\<forall>r\<in>set out. \<exists>ts spl. r = RespLogs ts spl \<and> ts_MOid ts = oid \<and> spl_MOid spl = oid \<and>
       accepted fx fed SeriesT (ReqSeries ts) \<and> accepted fx fed SamplesT (ReqSamples spl)) \<and>
    column_of spl_MTimestampNS out = concat (map ec_timestamps calls) \<and>
    column_of spl_MMessage out = concat (map ec_message calls) \<and>
    column_of spl_MValue out = concat (map ec_value calls) \<and>
    column_of spl_MType out = concat (map ec_types calls) \<and>
    column_of spl_MFingerprint out =
      concat (map (\<lambda>c. replicate (length (ec_timestamps c)) (call_fp E ttl c)) calls)"
proof -
  have ok: "doer_ok (new_doer meta oid ttl cache)"
    by (simp add: doer_ok_def new_doer_def) (simp add: empty_samples_def empty_series_def)
  obtain p' where p': "decode_calls E calls (new_doer meta oid ttl cache) = (p', None)" "doer_ok p'"
      "do_oid p' = oid"
      "column_of spl_MTimestampNS (do_res p') @ spl_MTimestampNS (do_spl p') = concat (map ec_timestamps calls)"
      "column_of spl_MMessage (do_res p') @ spl_MMessage (do_spl p') = concat (map ec_message calls)"
      "column_of spl_MValue (do_res p') @ spl_MValue (do_spl p') = concat (map ec_value calls)"
      "column_of spl_MType (do_res p') @ spl_MType (do_spl p') = concat (map ec_types calls)"
      "column_of spl_MFingerprint (do_res p') @ spl_MFingerprint (do_spl p') =
        concat (map (\<lambda>c. replicate (length (ec_timestamps c)) (call_fp E ttl c)) calls)"
    using decode_calls_deliver [OF assms(1) ok assms(2)]
    by (auto simp: new_doer_def column_of_def empty_samples_def)
  have "\<forall>r\<in>set (do_res (tsSpl_flush p')). \<exists>ts spl. r = RespLogs ts spl \<and> ts_MOid ts = oid \<and>
      spl_MOid spl = oid \<and> accepted fx fed SeriesT (ReqSeries ts) \<and> accepted fx fed SamplesT (ReqSamples spl)"
    using p'(2,3) series_ok_accepted samples_ok_accepted
    unfolding doer_ok_def tsSpl_flush_def by fastforce
  then show ?thesis using p' by (simp add: doParseLogs_def column_of_flush)
qed

text \<open>
  C6: Every entry a decoder hands over is in exactly one of the requests sent, in order: the columns
  of the sample requests, one after the other, are the columns of the calls, each row with the
  fingerprint of the labels of its call. Every request carries the tenant of the HTTP request
  and has the form the insert services rely on.
\<close>

theorem log_entries_delivered:
  assumes "\<forall>c\<in>set calls. entry_shape c"
    and "\<forall>c\<in>set calls. \<exists>m. metadata_ToJSON E (ExtractMetadataFromLabels (ec_labels c)) = Inr m"
  shows "\<exists>out cache'. doParseLogs E meta oid ttl cache (calls, None) = (out, cache') \<and>
    (\<forall>r\<in>set out. \<exists>ts spl. r = RespLogs ts spl \<and> ts_MOid ts = oid \<and> spl_MOid spl = oid \<and>
       accepted fx fed SeriesT (ReqSeries ts) \<and> accepted fx fed SamplesT (ReqSamples spl)) \<and>
    column_of spl_MTimestampNS out = concat (map ec_timestamps calls) \<and>
    column_of spl_MMessage out = concat (map ec_message calls) \<and>
    column_of spl_MValue out = concat (map ec_value calls) \<and>
    column_of spl_MType out = concat (map ec_types calls) \<and>
    column_of spl_MFingerprint out =
      concat (map (\<lambda>c. replicate (length (ec_timestamps c)) (call_fp E ttl c)) calls)"
  using assms by (rule doParseLogs_delivers)

subsection \<open>Announced series\<close>

definition series_entries :: "TimeSeriesData \<Rightarrow> (int \<times> 64 word \<times> string) list" where
  "series_entries ts = zip (ts_MDate ts) (zip (ts_MFingerprint ts) (ts_MLabels ts))"

lemma series_entries_add [simp]:
  "series_ok ts \<Longrightarrow> series_entries (add_series_row d lbls fp ttl meta t ts) = series_entries ts @ [(d, fp, lbls)]"
  by (simp add: series_entries_def series_ok_def add_series_row_def)

lemma series_entries_fold:
  "series_ok ts \<Longrightarrow> set (series_entries (fold (add_series_row d lbls fp ttl meta) tps ts)) =
     set (series_entries ts) \<union> (if tps = [] then {} else {(d, fp, lbls)})"
  by (induction tps arbitrary: ts) (auto simp: add_series_row_ok)

text \<open>How a step of the builder relates new series rows, their keys and the cache.\<close>

definition announces :: "ingest_env \<Rightarrow> 64 word \<Rightarrow> string \<Rightarrow> int list \<Rightarrow> TimeSeriesData \<times> fp_cache
    \<Rightarrow> TimeSeriesData \<times> fp_cache \<Rightarrow> bool" where
  "announces E fp lbls ds s s' \<longleftrightarrow>
     set (series_entries (fst s)) \<subseteq> set (series_entries (fst s')) \<and>
     set (fc_sets (snd s)) \<subseteq> set (fc_sets (snd s')) \<and>
     (\<forall>k\<in>set (fc_sets (snd s')). k \<in> set (fc_sets (snd s)) \<or>
        (\<exists>d\<in>set ds. k = fp_key E d fp \<and> (d, fp, lbls) \<in> set (series_entries (fst s')))) \<and>
     (\<forall>d\<in>set ds. fp_key E d fp \<in> set (fc_sets (snd s')) \<or> (d, fp, lbls) \<in> set (series_entries (fst s')))"

lemma announce_rows_announce:
  assumes "tps \<noteq> []"
  shows "series_ok (fst s) \<Longrightarrow> announces E fp lbls ds s (announce_rows E lbls fp ttl meta tps ds s)"
proof (induction ds arbitrary: s)
  case (Cons x ds)
  obtain new c where m: "maybeAddFp E x fp (snd s) = (new, c)" by force
  define s1 where "s1 = (if new then fold (add_series_row x lbls fp ttl meta) tps (fst s) else fst s, c)"
  have eq: "announce_rows E lbls fp ttl meta tps (x # ds) s = announce_rows E lbls fp ttl meta tps ds s1"
    by (simp add: m s1_def)
  have ok1: "series_ok (fst s1)" using Cons.prems by (auto simp: s1_def fold_series_row_ok)
  have ent: "set (series_entries (fst s1)) = set (series_entries (fst s)) \<union> (if new then {(x, fp, lbls)} else {})"
    using series_entries_fold [OF Cons.prems] assms(1) by (simp add: s1_def)
  have c: "set (fc_sets (snd s)) \<subseteq> set (fc_sets (snd s1))"
      "set (fc_sets (snd s1)) \<subseteq> set (fc_sets (snd s)) \<union> (if new then {fp_key E x fp} else {})"
      "new \<or> fp_key E x fp \<in> set (fc_sets (snd s1))"
    using m by (auto simp: maybeAddFp_def CheckAndSet_def s1_def split: if_splits)
  show ?case
    using Cons.IH [OF ok1] ent c unfolding eq announces_def
    by (cases new) (simp_all, blast+)
qed (simp add: announces_def)


definition resp_entries :: "parser_response \<Rightarrow> (int \<times> 64 word \<times> string) list" where
  "resp_entries r = (case r of RespLogs ts spl \<Rightarrow> series_entries ts | _ \<Rightarrow> [])"

definition all_entries :: "logs_doer \<Rightarrow> (int \<times> 64 word \<times> string) set" where
  "all_entries p = set (concat (map resp_entries (do_res p))) \<union> set (series_entries (do_ts p))"

text \<open>The series row that stands for a call on a day.\<close>

definition call_entry :: "ingest_env \<Rightarrow> 16 word \<Rightarrow> entries_call \<Rightarrow> int \<Rightarrow> int \<times> 64 word \<times> string" where
  "call_entry E ttl c d = (d, call_fp E ttl c, encodeLabels E (stored_labels ttl c))"

definition call_days :: "entries_call \<Rightarrow> int set" where
  "call_days c = day_of ` set (ec_timestamps c)"

lemma types_of_not_empty: "entry_shape c \<Longrightarrow> types_of (ec_types c) \<noteq> []"
proof -
  assume c: "entry_shape c"
  then obtain t where "t \<in> set (ec_types c)" "t < 3"
    by (cases "ec_types c") (auto simp: entry_shape_def)
  moreover have "t = 0 \<or> t = 1 \<or> t = 2" using \<open>t < 3\<close> by (simp add: word_less_nat_alt) unat_arith
  ultimately show ?thesis by (auto simp: types_of_def filter_empty_conv)
qed

lemma onEntries_announce:
  assumes c: "entry_shape c" and p: "doer_ok p" and on: "onEntries E c p = Inr p'"
    and ord: "\<And>ds. set (ie_order E ds) = set ds"
  shows "all_entries p \<subseteq> all_entries p'" "set (fc_sets (do_fpCache p)) \<subseteq> set (fc_sets (do_fpCache p'))"
    and "\<forall>k\<in>set (fc_sets (do_fpCache p')). k \<in> set (fc_sets (do_fpCache p)) \<or>
       (\<exists>d\<in>call_days c. k = fp_key E d (call_fp E (do_ttlDays p) c) \<and>
          call_entry E (do_ttlDays p) c d \<in> all_entries p')"
    and "\<forall>d\<in>call_days c. fp_key E d (call_fp E (do_ttlDays p) c) \<in> set (fc_sets (do_fpCache p')) \<or>
       call_entry E (do_ttlDays p) c d \<in> all_entries p'"
proof -
  obtain meta where meta: "metadata_ToJSON E (ExtractMetadataFromLabels (ec_labels c)) = Inr meta"
    using on by (auto simp: onEntries_eq [OF c] res_simps)
  define ds where "ds = ie_order E (remdups (map day_of (ec_timestamps c)))"
  define s' where "s' = announce_rows E (encodeLabels E (stored_labels (do_ttlDays p) c))
      (call_fp E (do_ttlDays p) c) (fst (filter_special (do_ttlDays p) (ec_labels c))) meta
      (types_of (ec_types c)) ds (do_ts p, do_fpCache p)"
  have days: "set ds = call_days c" by (simp add: ds_def ord call_days_def)
  have ann: "announces E (call_fp E (do_ttlDays p) c) (encodeLabels E (stored_labels (do_ttlDays p) c)) ds
      (do_ts p, do_fpCache p) s'"
    unfolding s'_def using p by (intro announce_rows_announce types_of_not_empty [OF c]) (simp add: doer_ok_def)
  have "all_entries p' = set (concat (map resp_entries (do_res p))) \<union> set (series_entries (fst s'))"
      "do_fpCache p' = snd s'"
    using on unfolding onEntries_eq [OF c] meta rbind_Inr Let_def s'_def [symmetric] ds_def [symmetric]
    by (auto simp: all_entries_def tsSpl_reset_def tsSpl_flush_def resp_entries_def empty_series_def
          series_entries_def split: if_splits)
  then show "all_entries p \<subseteq> all_entries p'" "set (fc_sets (do_fpCache p)) \<subseteq> set (fc_sets (do_fpCache p'))"
    and "\<forall>k\<in>set (fc_sets (do_fpCache p')). k \<in> set (fc_sets (do_fpCache p)) \<or>
       (\<exists>d\<in>call_days c. k = fp_key E d (call_fp E (do_ttlDays p) c) \<and>
          call_entry E (do_ttlDays p) c d \<in> all_entries p')"
    and "\<forall>d\<in>call_days c. fp_key E d (call_fp E (do_ttlDays p) c) \<in> set (fc_sets (do_fpCache p')) \<or>
       call_entry E (do_ttlDays p) c d \<in> all_entries p'"
    using ann unfolding announces_def days all_entries_def call_entry_def by auto
qed

lemma decode_calls_announce:
  assumes "\<forall>c\<in>set cs. entry_shape c" "doer_ok p" "decode_calls E cs p = (p', None)"
    and ord: "\<And>ds. set (ie_order E ds) = set ds"
  shows "all_entries p \<subseteq> all_entries p' \<and> set (fc_sets (do_fpCache p)) \<subseteq> set (fc_sets (do_fpCache p')) \<and>
    (\<forall>k\<in>set (fc_sets (do_fpCache p')). k \<in> set (fc_sets (do_fpCache p)) \<or>
       (\<exists>c\<in>set cs. \<exists>d\<in>call_days c. k = fp_key E d (call_fp E (do_ttlDays p) c) \<and>
          call_entry E (do_ttlDays p) c d \<in> all_entries p')) \<and>
    (\<forall>c\<in>set cs. \<forall>d\<in>call_days c. fp_key E d (call_fp E (do_ttlDays p) c) \<in> set (fc_sets (do_fpCache p')) \<or>
       call_entry E (do_ttlDays p) c d \<in> all_entries p')"
  using assms(1-3)
proof (induction cs arbitrary: p)
  case (Cons c cs)
  then obtain p1 where on: "onEntries E c p = Inr p1" and rest: "decode_calls E cs p1 = (p', None)"
    by (auto split: sum.splits)
  have "doer_ok p1" "do_ttlDays p1 = do_ttlDays p"
    using onEntries_step(1) [OF _ _ on] Cons.prems by simp_all
  moreover have "entry_shape c" "\<forall>c\<in>set cs. entry_shape c" using Cons.prems(1) by simp_all
  ultimately have IH: "all_entries p1 \<subseteq> all_entries p'"
      "set (fc_sets (do_fpCache p1)) \<subseteq> set (fc_sets (do_fpCache p'))"
      "\<forall>k\<in>set (fc_sets (do_fpCache p')). k \<in> set (fc_sets (do_fpCache p1)) \<or>
         (\<exists>c\<in>set cs. \<exists>d\<in>call_days c. k = fp_key E d (call_fp E (do_ttlDays p) c) \<and>
            call_entry E (do_ttlDays p) c d \<in> all_entries p')"
      "\<forall>c\<in>set cs. \<forall>d\<in>call_days c. fp_key E d (call_fp E (do_ttlDays p) c) \<in> set (fc_sets (do_fpCache p')) \<or>
         call_entry E (do_ttlDays p) c d \<in> all_entries p'"
    using Cons.IH [OF _ _ rest] by simp_all
  note one = onEntries_announce [OF \<open>entry_shape c\<close> Cons.prems(2) on ord]
  show ?case
  proof (intro conjI)
    show "\<forall>k\<in>set (fc_sets (do_fpCache p')). k \<in> set (fc_sets (do_fpCache p)) \<or>
       (\<exists>c\<in>set (c # cs). \<exists>d\<in>call_days c. k = fp_key E d (call_fp E (do_ttlDays p) c) \<and>
          call_entry E (do_ttlDays p) c d \<in> all_entries p')"
    proof
      fix k assume "k \<in> set (fc_sets (do_fpCache p'))"
      then consider "k \<in> set (fc_sets (do_fpCache p1))" | "\<exists>c\<in>set cs. \<exists>d\<in>call_days c.
          k = fp_key E d (call_fp E (do_ttlDays p) c) \<and> call_entry E (do_ttlDays p) c d \<in> all_entries p'"
        using IH(3) by blast
      then show "k \<in> set (fc_sets (do_fpCache p)) \<or> (\<exists>c\<in>set (c # cs). \<exists>d\<in>call_days c.
          k = fp_key E d (call_fp E (do_ttlDays p) c) \<and> call_entry E (do_ttlDays p) c d \<in> all_entries p')"
        using one(3) IH(1) by cases (simp_all, blast+)
    qed
    show "\<forall>c\<in>set (c # cs). \<forall>d\<in>call_days c.
        fp_key E d (call_fp E (do_ttlDays p) c) \<in> set (fc_sets (do_fpCache p')) \<or>
        call_entry E (do_ttlDays p) c d \<in> all_entries p'"
      using one(4) IH(1,2,4) by auto
  qed (use one(1,2) IH(1,2) in auto)
qed simp

text \<open>The 16 bytes of a day and a fingerprint determine both.\<close>

lemma w_put64_inj: "w_put64 a = w_put64 b \<Longrightarrow> a = b"
proof (rule bit_word_eqI)
  fix n assume eq: "w_put64 a = w_put64 b" and n: "n < LENGTH(64)"
  then have "n div 8 < 8" "n mod 8 < 8" by simp_all
  then have "(ucast (drop_bit (8 * (n div 8)) a) :: 8 word) = ucast (drop_bit (8 * (n div 8)) b)"
    using arg_cong [OF eq, of "\<lambda>bs. bs ! (n div 8)"] by (simp add: w_put64_def)
  then have "bit (ucast (drop_bit (8 * (n div 8)) a) :: 8 word) (n mod 8) =
      bit (ucast (drop_bit (8 * (n div 8)) b) :: 8 word) (n mod 8)" by simp
  then show "bit a n = bit b n"
    using \<open>n mod 8 < 8\<close> by (simp add: bit_ucast_iff bit_drop_bit_eq)
qed

lemma day_of_bounds: "- (2 ^ 63) \<le> day_of t \<and> day_of t < 2 ^ 63"
proof -
  define s where "s = sint t"
  have s: "- (2 ^ 63) \<le> s" "s < 2 ^ 63" using sint_greater_eq [of t] sint_less [of t] by (simp_all add: s_def)
  define q where "q = go_div s 1000000000"
  have q: "- (2 ^ 63) \<le> q * 1000000000" "q * 1000000000 < 2 ^ 63"
    using s unfolding q_def go_div_def by (cases "0 \<le> s"; simp add: sgn_if; linarith)+
  have "q - 86400 < q div 86400 * 86400" "q div 86400 * 86400 \<le> q" by linarith+
  with q have "- 9223372036854775808 \<le> q div 86400 * 86400" "q div 86400 * 86400 < 9223372036854775808"
    unfolding power_numeral by simp_all
  then show ?thesis by (simp add: day_of_def q_def s_def)
qed

lemma day_word_inj:
  assumes "(word_of_int (day_of t) :: 64 word) = word_of_int (day_of u)"
  shows "day_of t = day_of u"
proof -
  have "sint (word_of_int (day_of t) :: 64 word) = day_of t" for t
    using day_of_bounds [of t] by (simp add: sint_sbintrunc' signed_take_bit_int_eq_self)
  then show ?thesis using assms by metis
qed

definition day_fp_bytes :: "int \<Rightarrow> 64 word \<Rightarrow> 8 word list" where
  "day_fp_bytes d fp = w_put64 (word_of_int d) @ w_put64 fp"

lemma day_fp_bytes_inj:
  "day_fp_bytes (day_of t) fp = day_fp_bytes (day_of u) fp' \<longleftrightarrow> day_of t = day_of u \<and> fp = fp'"
  using day_word_inj w_put64_inj by (auto simp: day_fp_bytes_def w_put64_def [of "word_of_int _"] append_eq_append_conv)

text \<open>
  C7: Every stream is announced. The cache holds hashes of the 16 bytes of a day and a
  fingerprint; let the hash have no collision among the days and fingerprints of the calls. For
  every entry, either the hash of its day and fingerprint was in the cache before, or one of the
  series requests sent has a row with the day of this entry, its fingerprint, and the labels of a
  call with that fingerprint.
\<close>

theorem series_announced:
  assumes "\<forall>c\<in>set calls. entry_shape c"
    and "\<forall>c\<in>set calls. \<exists>m. metadata_ToJSON E (ExtractMetadataFromLabels (ec_labels c)) = Inr m"
    and "\<And>ds. set (ie_order E ds) = set ds"
    and "inj_on (ie_CH64 E) {day_fp_bytes d (call_fp E ttl c) |d c. c \<in> set calls \<and> d \<in> call_days c}"
    and "c \<in> set calls" "t \<in> set (ec_timestamps c)"
  shows "ie_CH64 E (day_fp_bytes (day_of t) (call_fp E ttl c)) \<in> set (fc_sets cache) \<or>
    (\<exists>r\<in>set (fst (doParseLogs E meta oid ttl cache (calls, None))). \<exists>c'\<in>set calls.
       call_fp E ttl c' = call_fp E ttl c \<and>
       (day_of t, call_fp E ttl c, encodeLabels E (stored_labels ttl c')) \<in> set (resp_entries r))"
proof -
  let ?p = "new_doer meta oid ttl cache"
  have key: "fp_key E d fp = ie_CH64 E (day_fp_bytes d fp)" for d fp by (simp add: fp_key_def day_fp_bytes_def)
  have ok: "doer_ok ?p"
    by (simp add: doer_ok_def new_doer_def) (simp add: empty_samples_def empty_series_def)
  obtain p' where p': "decode_calls E calls ?p = (p', None)"
    using decode_calls_deliver [OF assms(1) ok assms(2)] by blast
  have out: "(\<exists>r\<in>set (fst (doParseLogs E meta oid ttl cache (calls, None))). e \<in> set (resp_entries r))
      \<longleftrightarrow> e \<in> all_entries p'" for e
    by (auto simp: doParseLogs_def p' tsSpl_flush_def all_entries_def resp_entries_def)
  have d: "day_of t \<in> call_days c" using assms(6) by (simp add: call_days_def)
  have "fp_key E (day_of t) (call_fp E ttl c) \<in> set (fc_sets cache) \<or>
      (\<exists>c'\<in>set calls. \<exists>d\<in>call_days c'. call_entry E ttl c' d \<in> all_entries p' \<and>
         fp_key E d (call_fp E ttl c') = fp_key E (day_of t) (call_fp E ttl c))"
    using decode_calls_announce [OF assms(1) ok p' assms(3)] assms(5) d
    unfolding new_doer_def logs_doer.simps by metis
  moreover have "d = day_of t \<and> call_fp E ttl c' = call_fp E ttl c"
    if mem: "c' \<in> set calls" "d \<in> call_days c'" and eq: "fp_key E d (call_fp E ttl c') = fp_key E (day_of t) (call_fp E ttl c)"
    for c' d
  proof -
    have "day_fp_bytes d (call_fp E ttl c') = day_fp_bytes (day_of t) (call_fp E ttl c)"
      by (rule inj_onD [OF assms(4) eq [unfolded key]]) (use mem d assms(5) in blast)+
    then show ?thesis using mem(2) day_fp_bytes_inj by (auto simp: call_days_def)
  qed
  ultimately have "ie_CH64 E (day_fp_bytes (day_of t) (call_fp E ttl c)) \<in> set (fc_sets cache) \<or>
      (\<exists>c'\<in>set calls. call_fp E ttl c' = call_fp E ttl c \<and> call_entry E ttl c' (day_of t) \<in> all_entries p')"
    unfolding key by metis
  then show ?thesis using out by (metis call_entry_def)
qed

definition log_call :: "8 word \<Rightarrow> entries_call" where
  "log_call t = \<lparr>ec_labels = [(''app'', ''x'')], ec_timestamps = [5, 6], ec_message = [''a'', ''b''],
     ec_value = [0, 0], ec_types = [t, t]\<rparr>"

definition no_cache :: fp_cache where
  "no_cache = \<lparr>fc_isDistributed = False, fc_sets = []\<rparr>"

lemma log_call_ok:
  "entry_shape (log_call 0)" "entry_shape (log_call 1)"
  "metadata_ToJSON toy_env (ExtractMetadataFromLabels (ec_labels (log_call t))) = Inr ''''"
  by (simp_all add: entry_shape_def log_call_def metadata_ToJSON_def ExtractMetadataFromLabels_def
        metadata_put_def metadata_IsZero_def)

theorem log_entries_delivered_witness:
  "\<exists>out cache'. doParseLogs toy_env [] ''t'' 0 no_cache ([log_call 1, log_call 1], None) = (out, cache') \<and>
     column_of spl_MMessage out = [''a'', ''b'', ''a'', ''b''] \<and>
     (\<forall>r\<in>set out. \<exists>ts spl. r = RespLogs ts spl \<and> spl_MOid spl = ''t'')"
proof -
  have s: "\<forall>c\<in>set [log_call 1, log_call 1]. entry_shape c" by (simp add: log_call_ok)
  have j: "\<forall>c\<in>set [log_call 1, log_call 1].
      \<exists>m. metadata_ToJSON toy_env (ExtractMetadataFromLabels (ec_labels c)) = Inr m"
    by (simp add: log_call_ok)
  have m: "concat (map ec_message [log_call 1, log_call 1]) = [''a'', ''b'', ''a'', ''b'']"
    by (simp add: log_call_def)
  show ?thesis
    using log_entries_delivered [OF s j, of "[]" "''t''" 0 no_cache same_length False] unfolding m by blast
qed

theorem series_announced_witness:
  "\<exists>r\<in>set (fst (doParseLogs toy_env [] ''t'' 0 no_cache ([log_call 1], None))).
     (0, call_fp toy_env 0 (log_call 1), encodeLabels toy_env (stored_labels 0 (log_call 1))) \<in> set (resp_entries r)"
proof -
  have s: "\<forall>c\<in>set [log_call 1]. entry_shape c" by (simp add: log_call_ok)
  have j: "\<forall>c\<in>set [log_call 1].
      \<exists>m. metadata_ToJSON toy_env (ExtractMetadataFromLabels (ec_labels c)) = Inr m"
    by (simp add: log_call_ok)
  have o: "\<And>ds. set (ie_order toy_env ds) = set ds" by (simp add: toy_env_def)
  have days: "call_days (log_call 1) = {0}" "day_of 5 = 0" by (simp_all add: call_days_def log_call_def day_of_def go_div_def)
  have one: "{day_fp_bytes d (call_fp toy_env 0 c) |d c. c \<in> set [log_call 1] \<and> d \<in> call_days c} =
      {day_fp_bytes 0 (call_fp toy_env 0 (log_call 1))}"
    using days by auto
  have i: "inj_on (ie_CH64 toy_env) {day_fp_bytes d (call_fp toy_env 0 c) |d c. c \<in> set [log_call 1] \<and> d \<in> call_days c}"
    unfolding one by simp
  have "log_call 1 \<in> set [log_call 1]" "5 \<in> set (ec_timestamps (log_call 1))"
    by (simp_all add: log_call_def)
  from series_announced [OF s j o i this, of no_cache "[]" "''t''"] show ?thesis
    by (auto simp: no_cache_def days)
qed

text \<open>
  The key leaves out the type of the sample: if a stream sends lines (type 1) and then lines
  with values (type 0) on the same day, the samples of both types are sent, but a series row
  only for the first type.
\<close>

theorem second_type_not_announced:
  "case doParseLogs toy_env [] ''t'' 0 no_cache ([log_call 1, log_call 0], None) of
     (out, _) \<Rightarrow> column_of spl_MType out = [1, 1, 0, 0] \<and>
       concat (map (\<lambda>r. case r of RespLogs ts spl \<Rightarrow> ts_MType ts | _ \<Rightarrow> []) out) = [1]"
proof -
  have fp: "call_fp toy_env 0 (log_call 0) = call_fp toy_env 0 (log_call 1)"
    by (simp add: call_fp_def stored_labels_def log_call_def)
  have parts: "ec_timestamps (log_call t) = [5, 6]" "ec_types (log_call t) = [t, t]"
      "ec_message (log_call t) = [''a'', ''b'']" "ec_value (log_call t) = [0, 0]" for t
    by (simp_all add: log_call_def)
  have days: "day_of 5 = 0" "day_of 6 = 0" "ie_order toy_env ds = ds" for ds
    by (simp_all add: toy_env_def day_of_def go_div_def)
  have labels: "length (encodeLabels toy_env (stored_labels 0 (log_call t))) = 30" for t
    by (simp add: encodeLabels_def stored_labels_def log_call_def IsMetadataLabel_def
          discoverServiceName_def serviceNameCandidates_def toy_env_def)
  show ?thesis
    by (simp add: doParseLogs_def onEntries_eq log_call_ok new_doer_def Let_def fp parts days labels
          types_of_def maybeAddFp_def CheckAndSet_def no_cache_def add_series_row_def
          tsSpl_flush_def tsSpl_reset_def column_of_def resp_samples_def empty_samples_def
          empty_series_def)
qed

subsection \<open>Spans\<close>

definition spans_ok :: "TempoSamples \<Rightarrow> bool" where
  "spans_ok s \<longleftrightarrow>
     length (tp_MSpanId s) = length (tp_MTraceId s) \<and> length (tp_MTimestampNs s) = length (tp_MTraceId s) \<and>
     length (tp_MDurationNs s) = length (tp_MTraceId s) \<and> length (tp_MParentId s) = length (tp_MTraceId s) \<and>
     length (tp_MName s) = length (tp_MTraceId s) \<and> length (tp_MServiceName s) = length (tp_MTraceId s) \<and>
     length (tp_MPayloadType s) = length (tp_MTraceId s) \<and> length (tp_MPayload s) = length (tp_MTraceId s) \<and>
     49 * int (length (tp_MTraceId s)) \<le> tp_Size s"

definition tags_ok :: "TempoTag \<Rightarrow> bool" where
  "tags_ok a \<longleftrightarrow>
     length (tt_MTraceId a) = length (tt_MDate a) \<and> length (tt_MSpanId a) = length (tt_MDate a) \<and>
     length (tt_MTimestampNs a) = length (tt_MDate a) \<and> length (tt_MDurationNs a) = length (tt_MDate a) \<and>
     length (tt_MKey a) = length (tt_MDate a) \<and> length (tt_MVal a) = length (tt_MDate a) \<and>
     40 * int (length (tt_MDate a)) \<le> tt_Size a"

lemma spans_ok_accepted: "spans_ok s \<Longrightarrow> ids_fit fx (ReqSpans s) \<Longrightarrow> accepted fx fed SpansT (ReqSpans s)"
  by (cases "length (tp_MTraceId s)")
     (auto simp: spans_ok_def accepted_def well_formed_def aligned_def request_rows_def table_rows_def)

lemma tags_ok_accepted: "tags_ok s \<Longrightarrow> ids_fit fx (ReqTags s) \<Longrightarrow> accepted fx fed TagsT (ReqTags s)"
  by (cases "length (tt_MDate s)")
     (auto simp: tags_ok_def accepted_def well_formed_def aligned_def request_rows_def table_rows_def)

text \<open>The rows of the two tables that a pair of column buffers makes, with all their columns.\<close>

definition span_rows :: "TempoSamples \<Rightarrow>
    (string \<times> string \<times> 64 word \<times> 64 word \<times> string \<times> string \<times> string \<times> 8 word \<times> string) list" where
  "span_rows s =
     zip (tp_MTraceId s) (zip (tp_MSpanId s) (zip (tp_MTimestampNs s) (zip (tp_MDurationNs s) (zip (tp_MParentId s)
       (zip (tp_MName s) (zip (tp_MServiceName s) (zip (tp_MPayloadType s) (tp_MPayload s))))))))"

definition tag_rows :: "TempoTag \<Rightarrow> (string \<times> string \<times> 64 word \<times> 64 word \<times> int \<times> string \<times> string) list" where
  "tag_rows a =
     zip (tt_MTraceId a) (zip (tt_MSpanId a) (zip (tt_MTimestampNs a) (zip (tt_MDurationNs a) (zip (tt_MDate a)
       (zip (tt_MKey a) (tt_MVal a))))))"

text \<open>What a call of the decoder means: one row of the spans, and one row for each attribute.\<close>

definition call_span :: "8 word \<Rightarrow> span_call \<Rightarrow>
    string \<times> string \<times> 64 word \<times> 64 word \<times> string \<times> string \<times> string \<times> 8 word \<times> string" where
  "call_span pt c =
     (sc_traceId c, sc_spanId c, sc_timestampNs c, sc_durationNs c, sc_parentId c, sc_name c, sc_serviceName c, pt,
      sc_payload c)"

definition call_tags :: "span_call \<Rightarrow> (string \<times> string \<times> 64 word \<times> 64 word \<times> int \<times> string \<times> string) list" where
  "call_tags c =
     map (\<lambda>(k, v). (sc_traceId c, sc_spanId c, sc_timestampNs c, sc_durationNs c,
       go_div (sint (sc_timestampNs c)) 1000000000, k, v)) (zip (sc_key c) (sc_val c))"

lemma span_rows_ids:
  assumes "spans_ok s"
  shows "ids_fit fx (ReqSpans s) = (\<forall>i\<in>set (span_rows s). fx 16 (fst i) \<and> fx 8 (fst (snd i)))"
proof -
  have "tp_MTraceId s = map fst (span_rows s)" "tp_MSpanId s = map fst (map snd (span_rows s))"
    using assms by (simp_all add: spans_ok_def span_rows_def del: map_map)
  then show ?thesis by (auto simp: list_all_iff)
qed

lemma tag_rows_ids:
  assumes "tags_ok a"
  shows "ids_fit fx (ReqTags a) = (\<forall>i\<in>set (tag_rows a). fx 16 (fst i) \<and> fx 8 (fst (snd i)))"
proof -
  have "tt_MTraceId a = map fst (tag_rows a)" "tt_MSpanId a = map fst (map snd (tag_rows a))"
    using assms by (simp_all add: tags_ok_def tag_rows_def del: map_map)
  then show ?thesis by (auto simp: list_all_iff)
qed

lemma span_rows_add: "spans_ok s \<Longrightarrow> span_rows (add_span pt c s) = span_rows s @ [call_span pt c]"
  by (simp add: spans_ok_def span_rows_def add_span_def call_span_def)

lemma add_attrs_rows:
  assumes "length ks \<le> length vs" "tags_ok a"
  shows "\<exists>a'. add_attrs c ks vs a = Inr a' \<and> tags_ok a' \<and>
    tag_rows a' = tag_rows a @ map (\<lambda>(k, v). (sc_traceId c, sc_spanId c, sc_timestampNs c, sc_durationNs c,
       go_div (sint (sc_timestampNs c)) 1000000000, k, v)) (zip ks vs)"
  using assms
proof (induction c ks vs a rule: add_attrs.induct)
  case (3 c k ks v vs a)
  have "tags_ok (add_attr c k v a)" using 3(3) by (simp add: add_attr_def tags_ok_def)
  moreover have "tag_rows (add_attr c k v a) = tag_rows a @ [(sc_traceId c, sc_spanId c, sc_timestampNs c,
      sc_durationNs c, go_div (sint (sc_timestampNs c)) 1000000000, k, v)]"
    using 3(3) by (simp add: tags_ok_def tag_rows_def add_attr_def)
  ultimately show ?case using 3(1,2) by simp
qed simp_all

definition sent_spans :: "parser_response list \<Rightarrow>
    (string \<times> string \<times> 64 word \<times> 64 word \<times> string \<times> string \<times> string \<times> 8 word \<times> string) list" where
  "sent_spans rs = concat (map (\<lambda>r. case r of RespSpans s a \<Rightarrow> span_rows s | _ \<Rightarrow> []) rs)"

definition sent_tags :: "parser_response list \<Rightarrow>
    (string \<times> string \<times> 64 word \<times> 64 word \<times> int \<times> string \<times> string) list" where
  "sent_tags rs = concat (map (\<lambda>r. case r of RespSpans s a \<Rightarrow> tag_rows a | _ \<Rightarrow> []) rs)"

definition sdoer_ok :: "spans_doer \<Rightarrow> bool" where
  "sdoer_ok p \<longleftrightarrow> spans_ok (sd_spans p) \<and> tags_ok (sd_attrs p) \<and>
     (\<forall>r\<in>set (sd_res p). \<exists>s a. r = RespSpans s a \<and> spans_ok s \<and> tags_ok a)"

text \<open>What has been collected, sent or not: the responses if the parse ended now.\<close>

definition sent_so_far :: "spans_doer \<Rightarrow> parser_response list" where
  "sent_so_far p = sd_res p @ [RespSpans (sd_spans p) (sd_attrs p)]"

lemma empty_buffers [simp]:
  "spans_ok empty_spans" "tags_ok empty_attrs" "span_rows empty_spans = []" "tag_rows empty_attrs = []"
  by (simp_all add: spans_ok_def empty_spans_def tags_ok_def empty_attrs_def span_rows_def tag_rows_def)

lemma onSpan_step:
  assumes len: "length (sc_key c) \<le> length (sc_val c)" and p: "sdoer_ok p"
  shows "\<exists>p'. onSpan c p = Inr p' \<and> sdoer_ok p' \<and> sd_payloadType p' = sd_payloadType p \<and>
    sent_spans (sent_so_far p') = sent_spans (sent_so_far p) @ [call_span (sd_payloadType p) c] \<and>
    sent_tags (sent_so_far p') = sent_tags (sent_so_far p) @ call_tags c"
proof -
  obtain a where a: "add_attrs c (sc_key c) (sc_val c) (sd_attrs p) = Inr a" "tags_ok a"
      "tag_rows a = tag_rows (sd_attrs p) @ call_tags c"
    using add_attrs_rows [OF len, of "sd_attrs p" c] p by (auto simp: sdoer_ok_def call_tags_def)
  have "spans_ok (add_span (sd_payloadType p) c (sd_spans p))"
    using p by (simp add: sdoer_ok_def spans_ok_def add_span_def)
  then show ?thesis
    using p a span_rows_add [of "sd_spans p"]
    by (auto simp: onSpan_def Let_def sdoer_ok_def sent_so_far_def sent_spans_def sent_tags_def resetSpans_def)
qed

lemma decode_spans_deliver:
  assumes "\<forall>c\<in>set cs. length (sc_key c) \<le> length (sc_val c)" "sdoer_ok p"
  shows "\<exists>p'. decode_spans cs p = (p', None) \<and> sdoer_ok p' \<and>
    sent_spans (sent_so_far p') = sent_spans (sent_so_far p) @ map (call_span (sd_payloadType p)) cs \<and>
    sent_tags (sent_so_far p') = sent_tags (sent_so_far p) @ concat (map call_tags cs)"
  using assms
proof (induction cs arbitrary: p)
  case (Cons c cs)
  then obtain p1 where "onSpan c p = Inr p1" "sdoer_ok p1" "sd_payloadType p1 = sd_payloadType p"
      "sent_spans (sent_so_far p1) = sent_spans (sent_so_far p) @ [call_span (sd_payloadType p) c]"
      "sent_tags (sent_so_far p1) = sent_tags (sent_so_far p) @ call_tags c"
    using onSpan_step [of c p] by auto
  then show ?case using Cons.IH [of p1] Cons.prems by auto
qed simp

text \<open>
  C8: Every span a decoder hands over is one row of the span requests, with all nine columns as
  the decoder gave them and the payload type of the parser, and each of its attributes is one row
  of the attribute requests, with trace and span id, time, duration and date of the span, key and
  value; nothing else is sent, and the order is kept. The columns of every request have one
  length. The ids are passed on as they are: all span and attribute requests fit their tables
  exactly if the ids of every span do, so one span with an id of another length makes a request on
  which the insert service panics.
\<close>

theorem spans_delivered:
  assumes "\<forall>c\<in>set calls. length (sc_key c) \<le> length (sc_val c)"
  shows "(\<forall>r\<in>set (doParseSpans pt (calls, None)). \<exists>s a. r = RespSpans s a \<and> spans_ok s \<and> tags_ok a) \<and>
    sent_spans (doParseSpans pt (calls, None)) = map (call_span pt) calls \<and>
    sent_tags (doParseSpans pt (calls, None)) = concat (map call_tags calls) \<and>
    ((\<forall>s a. RespSpans s a \<in> set (doParseSpans pt (calls, None)) \<longrightarrow>
        accepted fx fed SpansT (ReqSpans s) \<and> accepted fx fed TagsT (ReqTags a)) \<longleftrightarrow>
       (\<forall>c\<in>set calls. fx 16 (sc_traceId c) \<and> fx 8 (sc_spanId c)))"
proof -
  let ?p = "resetSpans \<lparr>sd_spans = empty_spans, sd_attrs = empty_attrs, sd_payloadType = pt, sd_res = []\<rparr>"
  let ?out = "doParseSpans pt (calls, None)"
  let ?fit = "\<lambda>i. fx 16 (fst i) \<and> fx 8 (fst (snd i))"
  have ok: "sdoer_ok ?p" by (simp add: sdoer_ok_def resetSpans_def)
  obtain p' where p': "decode_spans calls ?p = (p', None)" "sdoer_ok p'"
      "sent_spans (sent_so_far p') = map (call_span pt) calls"
      "sent_tags (sent_so_far p') = concat (map call_tags calls)"
    using decode_spans_deliver [OF assms ok]
    by (auto simp: resetSpans_def sent_so_far_def sent_spans_def sent_tags_def)
  have out: "?out = sent_so_far p'" by (simp add: doParseSpans_def p'(1) sent_so_far_def)
  have all: "\<forall>r\<in>set ?out. \<exists>s a. r = RespSpans s a \<and> spans_ok s \<and> tags_ok a"
    using p'(2) by (auto simp: out sent_so_far_def sdoer_ok_def)
  have ids: "ids_fit fx (ReqSpans s) = (\<forall>i\<in>set (span_rows s). ?fit i)"
      "ids_fit fx (ReqTags a) = (\<forall>i\<in>set (tag_rows a). ?fit i)"
    if resp: "RespSpans s a \<in> set ?out" for s a
    using bspec [OF all resp] by (simp_all add: span_rows_ids tag_rows_ids del: ids_fit.simps)
  have "(\<forall>s a. RespSpans s a \<in> set ?out \<longrightarrow> accepted fx fed SpansT (ReqSpans s) \<and> accepted fx fed TagsT (ReqTags a)) \<longleftrightarrow>
      (\<forall>s a. RespSpans s a \<in> set ?out \<longrightarrow> ids_fit fx (ReqSpans s) \<and> ids_fit fx (ReqTags a))"
    using all spans_ok_accepted tags_ok_accepted by (fastforce simp: accepted_def well_formed_def)
  also have "\<dots> \<longleftrightarrow> (\<forall>i\<in>set (sent_spans ?out). ?fit i) \<and> (\<forall>i\<in>set (sent_tags ?out). ?fit i)"
    using all ids by (fastforce simp: sent_spans_def sent_tags_def split: parser_response.splits)
  also have "\<dots> \<longleftrightarrow> (\<forall>c\<in>set calls. fx 16 (sc_traceId c) \<and> fx 8 (sc_spanId c))"
    unfolding out p'(3,4) by (auto simp: call_span_def call_tags_def)
  finally show ?thesis using all p'(3,4) unfolding out by blast
qed

definition short_span :: span_call where
  "short_span = \<lparr>sc_traceId = ''0123456789abcdef'', sc_spanId = ''1'', sc_timestampNs = 1,
     sc_durationNs = 2, sc_parentId = [], sc_name = ''get'', sc_serviceName = ''api'',
     sc_payload = ''p'', sc_key = [''k''], sc_val = [''v'']\<rparr>"

text \<open>
  A span with an eight byte id missing seven of its bytes reaches the insert service in a
  request that does not fit.
\<close>

theorem spans_delivered_witness:
  "(\<exists>s a. RespSpans s a \<in> set (doParseSpans 2 ([short_span], None)) \<and>
      \<not> (accepted same_length False SpansT (ReqSpans s) \<and> accepted same_length False TagsT (ReqTags a))) \<and>
   sent_tags (doParseSpans 2 ([short_span], None)) = [(''0123456789abcdef'', ''1'', 1, 2, 0, ''k'', ''v'')]"
proof -
  have one: "\<forall>c\<in>set [short_span]. length (sc_key c) \<le> length (sc_val c)" by (simp add: short_span_def)
  have bad: "\<not> (\<forall>c\<in>set [short_span]. same_length 16 (sc_traceId c) \<and> same_length 8 (sc_spanId c))"
    by (simp add: short_span_def same_length_def)
  have tags: "concat (map call_tags [short_span]) = [(''0123456789abcdef'', ''1'', 1, 2, 0, ''k'', ''v'')]"
    by (simp add: call_tags_def short_span_def go_div_def)
  show ?thesis
    using spans_delivered [OF one, of 2 same_length False] bad tags by metis
qed

end
