(* ===== verification/Insert_Pool.thy ===== *)
theory Insert_Pool
  imports Insert_Theorems
begin

section \<open>Pools of insert services (writer/service/generic\_insert.go)\<close>

text \<open>
  \<open>InsertServiceV2RoundRobin\<close> spreads requests over several services of one table, and
  \<open>InsertServiceV2Multimodal\<close> keeps one such pool for synchronous and one for asynchronous
  inserts. A member of a pool is a \<open>world\<close> of \<open>Insert_Service\<close>: the service with its promises and
  its goroutine.

  Which member gets a request depends on the states seen while walking over the members,
  which may have changed since, and on a random number. The states are therefore an argument
  \<open>obs\<close>, and \<open>draw n\<close> is \<open>int(randomIdx * float64(n))\<close>; \<open>Float64\<close> is at least 0 and below 1.
\<close>

subsection \<open>The round-robin pool\<close>

type_synonym rr_pool = "world list"

definition member_state :: "world \<Rightarrow> nat" where
  "member_state w = svc_GetState (w_svc w)"

definition rr_init :: "insert_service \<Rightarrow> int \<Rightarrow> nat \<Rightarrow> rr_pool" where
  "rr_init kind now svcNum = replicate svcNum (world_init kind now)"

definition rr_PlanFlush :: "rr_pool \<Rightarrow> rr_pool" where
  "rr_PlanFlush ws = map (\<lambda>w. w\<lparr>w_svc := svc_PlanFlush (w_svc w)\<rparr>) ws"

definition rr_Stop :: "rr_pool \<Rightarrow> rr_pool" where
  "rr_Stop ws = map (\<lambda>w. w\<lparr>w_svc := svc_Stop (w_svc w)\<rparr>) ws"

fun rr_state_loop :: "bool \<Rightarrow> nat list \<Rightarrow> nat" where
  "rr_state_loop idle [] = (if idle then INSERT_STATE_IDLE else INSERT_STATE_CLOSING)"
| "rr_state_loop idle (s # ss) =
     (if s = INSERT_STATE_INSERTING then INSERT_STATE_INSERTING
      else rr_state_loop (idle \<or> s = INSERT_STATE_IDLE) ss)"

definition rr_GetState :: "rr_pool \<Rightarrow> nat" where
  "rr_GetState ws = rr_state_loop False (map member_state ws)"

fun ping_loop :: "int \<Rightarrow> (int \<times> string option) list \<Rightarrow> int \<times> string option" where
  "ping_loop minTime [] = (minTime, None)"
| "ping_loop minTime ((t, err) # ps) =
     (if err \<noteq> None then (t, err) else ping_loop (if t < minTime then t else minTime) ps)"

definition rr_Ping :: "int \<Rightarrow> int \<Rightarrow> rr_pool \<Rightarrow> int \<times> string option" where
  "rr_Ping writeTimeout now ws = ping_loop now (map (\<lambda>w. svc_Ping writeTimeout now (w_svc w)) ws)"

definition members_in :: "nat \<Rightarrow> nat list \<Rightarrow> nat list" where
  "members_in s obs = filter (\<lambda>i. obs ! i = s) [0..<length obs]"

definition pool_at :: "'a list \<Rightarrow> nat \<Rightarrow> 'a res" where
  "pool_at xs i = (if i < length xs then Inr (xs ! i) else Inl (Panic ''index out of range''))"

text \<open>\<open>Request\<close>: the number of the member the request is handed to.\<close>

definition rr_choose :: "(nat \<Rightarrow> nat) \<Rightarrow> nat list \<Rightarrow> nat res" where
  "rr_choose draw obs =
     (let inserting = members_in INSERT_STATE_INSERTING obs;
          idle = members_in INSERT_STATE_IDLE obs
      in if inserting \<noteq> [] then pool_at inserting (draw (length inserting))
         else if idle \<noteq> [] then pool_at idle (draw (length idle))
         else pool_at [0..<length obs] (draw (length obs)))"

definition rr_Request :: "(nat \<Rightarrow> nat) \<Rightarrow> nat list \<Rightarrow> insert_req \<Rightarrow> rr_pool \<Rightarrow> rr_pool res" where
  "rr_Request draw obs req ws =
     rbind (rr_choose draw obs) (\<lambda>i. Inr (ws[i := do_start req (ws ! i)]))"

subsection \<open>The two modes\<close>

datatype insert_mode = INSERT_MODE_DEFAULT | INSERT_MODE_SYNC | INSERT_MODE_ASYNC

record mm_pool =
  mm_AsyncInsert :: bool
  mm_SyncService :: rr_pool
  mm_AsyncService :: rr_pool

definition mm_init :: "insert_service \<Rightarrow> int \<Rightarrow> nat \<Rightarrow> bool \<Rightarrow> mm_pool" where
  "mm_init kind now svcNum async =
     \<lparr>mm_AsyncInsert = async, mm_SyncService = rr_init kind now svcNum,
      mm_AsyncService = rr_init kind now svcNum\<rparr>"

definition mm_PlanFlush :: "mm_pool \<Rightarrow> mm_pool" where
  "mm_PlanFlush m = m\<lparr>mm_SyncService := rr_PlanFlush (mm_SyncService m),
                      mm_AsyncService := rr_PlanFlush (mm_AsyncService m)\<rparr>"

definition mm_Stop :: "mm_pool \<Rightarrow> mm_pool" where
  "mm_Stop m = m\<lparr>mm_SyncService := rr_Stop (mm_SyncService m),
                 mm_AsyncService := rr_Stop (mm_AsyncService m)\<rparr>"

fun mm_GetState :: "insert_mode \<Rightarrow> mm_pool \<Rightarrow> nat" where
  "mm_GetState INSERT_MODE_SYNC m = rr_GetState (mm_SyncService m)"
| "mm_GetState INSERT_MODE_ASYNC m = rr_GetState (mm_AsyncService m)"
| "mm_GetState INSERT_MODE_DEFAULT m =
     (if mm_AsyncInsert m then rr_GetState (mm_AsyncService m) else rr_GetState (mm_SyncService m))"

definition mm_Ping :: "int \<Rightarrow> int \<Rightarrow> mm_pool \<Rightarrow> int \<times> string option" where
  "mm_Ping writeTimeout now m =
     ping_loop now [rr_Ping writeTimeout now (mm_SyncService m), rr_Ping writeTimeout now (mm_AsyncService m)]"

definition sync_request :: "(nat \<Rightarrow> nat) \<Rightarrow> nat list \<Rightarrow> insert_req \<Rightarrow> mm_pool \<Rightarrow> mm_pool res" where
  "sync_request draw obs req m =
     rbind (rr_Request draw obs req (mm_SyncService m)) (\<lambda>ws. Inr (m\<lparr>mm_SyncService := ws\<rparr>))"

definition async_request :: "(nat \<Rightarrow> nat) \<Rightarrow> nat list \<Rightarrow> insert_req \<Rightarrow> mm_pool \<Rightarrow> mm_pool res" where
  "async_request draw obs req m =
     rbind (rr_Request draw obs req (mm_AsyncService m)) (\<lambda>ws. Inr (m\<lparr>mm_AsyncService := ws\<rparr>))"

fun mm_Request :: "insert_mode \<Rightarrow> (nat \<Rightarrow> nat) \<Rightarrow> nat list \<Rightarrow> insert_req \<Rightarrow> mm_pool \<Rightarrow> mm_pool res" where
  "mm_Request INSERT_MODE_SYNC draw obs req m = sync_request draw obs req m"
| "mm_Request INSERT_MODE_ASYNC draw obs req m = async_request draw obs req m"
| "mm_Request INSERT_MODE_DEFAULT draw obs req m =
     (if mm_AsyncInsert m then sync_request draw obs req m else sync_request draw obs req m)"

definition members :: "mm_pool \<Rightarrow> world list" where
  "members m = mm_SyncService m @ mm_AsyncService m"

text \<open>The pool that a request of a mode goes to.\<close>

fun pool_of :: "insert_mode \<Rightarrow> mm_pool \<Rightarrow> rr_pool" where
  "pool_of INSERT_MODE_ASYNC m = mm_AsyncService m"
| "pool_of _ m = mm_SyncService m"

subsection \<open>Runs of a pool\<close>

text \<open>
  Requests from outside, flushes and stops of the whole pool, and the steps the members make
  by themselves: requests waiting for a lock, timers, the stages of the loop. A panic in one
  member ends the process.
\<close>

definition no_crash :: "mm_pool \<Rightarrow> bool" where
  "no_crash m \<longleftrightarrow> list_all (\<lambda>w. w_crash w = None) (members m)"

inductive mm_step :: "insert_service \<Rightarrow> (insert_req \<Rightarrow> bool) \<Rightarrow> mm_pool \<Rightarrow> mm_pool \<Rightarrow> bool"
  for kind ok where
  request: "no_crash m \<Longrightarrow> ok req \<Longrightarrow> length obs = length (pool_of mode m) \<Longrightarrow>
    mm_Request mode draw obs req m = Inr m' \<Longrightarrow> mm_step kind ok m m'"
| plan_flush: "no_crash m \<Longrightarrow> mm_step kind ok m (mm_PlanFlush m)"
| stop_all: "no_crash m \<Longrightarrow> mm_step kind ok m (mm_Stop m)"
| sync_member: "no_crash m \<Longrightarrow> i < length (mm_SyncService m) \<Longrightarrow>
    svc_step kind (\<lambda>_. False) (mm_SyncService m ! i) w' \<Longrightarrow>
    mm_step kind ok m (m\<lparr>mm_SyncService := (mm_SyncService m)[i := w']\<rparr>)"
| async_member: "no_crash m \<Longrightarrow> i < length (mm_AsyncService m) \<Longrightarrow>
    svc_step kind (\<lambda>_. False) (mm_AsyncService m ! i) w' \<Longrightarrow>
    mm_step kind ok m (m\<lparr>mm_AsyncService := (mm_AsyncService m)[i := w']\<rparr>)"

inductive mm_reach :: "insert_service \<Rightarrow> (insert_req \<Rightarrow> bool) \<Rightarrow> mm_pool \<Rightarrow> bool" for kind ok where
  init: "mm_reach kind ok (mm_init kind now svcNum async)"
| step: "mm_reach kind ok m \<Longrightarrow> mm_step kind ok m m' \<Longrightarrow> mm_reach kind ok m'"

subsection \<open>What a pool adds\<close>

lemma pool_at_Inr [simp]: "pool_at xs i = Inr x \<longleftrightarrow> i < length xs \<and> x = xs ! i"
  by (auto simp: pool_at_def)

lemma set_members_in [simp]: "set (members_in s obs) = {i. i < length obs \<and> obs ! i = s}"
  by (auto simp: members_in_def)

lemma rr_choose_less: "rr_choose draw obs = Inr i \<Longrightarrow> i < length obs"
  unfolding rr_choose_def Let_def
  by (auto split: if_splits dest!: nth_mem)

lemma step_more: "svc_step kind (\<lambda>_. False) w w' \<Longrightarrow> svc_step kind ok w w'"
  by (erule svc_step.cases) (auto intro: svc_step.intros)

lemma in_update: "y \<in> set (xs[i := f (xs ! i)]) \<Longrightarrow> i < length xs \<Longrightarrow> y \<in> set xs \<or> (\<exists>x\<in>set xs. y = f x)"
  using set_update_subset_insert [of xs i] nth_mem [of i xs] by blast

lemma in_update_step:
  "y \<in> set (xs[i := x]) \<Longrightarrow> i < length xs \<Longrightarrow> P (xs ! i) x \<Longrightarrow> y \<in> set xs \<or> (\<exists>v\<in>set xs. P v y)"
  using set_update_subset_insert [of xs i] nth_mem [of i xs] by blast

lemma rr_PlanFlush_in: "w \<in> set (rr_PlanFlush ws) \<Longrightarrow> \<exists>v\<in>set ws. w = v\<lparr>w_svc := svc_PlanFlush (w_svc v)\<rparr>"
  by (auto simp: rr_PlanFlush_def)

lemma rr_Stop_in: "w \<in> set (rr_Stop ws) \<Longrightarrow> \<exists>v\<in>set ws. w = v\<lparr>w_svc := svc_Stop (w_svc v)\<rparr>"
  by (auto simp: rr_Stop_def)

lemma rr_Request_in:
  assumes "rr_Request draw obs req ws = Inr ws'" "length obs = length ws" "w \<in> set ws'"
  shows "w \<in> set ws \<or> (\<exists>v\<in>set ws. w = do_start req v)"
proof -
  obtain i where i: "rr_choose draw obs = Inr i" "ws' = ws[i := do_start req (ws ! i)]"
    using assms(1) by (auto simp: rr_Request_def rbind_Inr_iff)
  then show ?thesis
    using assms(2,3) rr_choose_less [OF i(1)] in_update [of w ws i "do_start req"] by auto
qed

lemma mm_Request_in:
  assumes "mm_Request mode draw obs req m = Inr m'" "length obs = length (pool_of mode m)"
    "w \<in> set (members m')"
  shows "w \<in> set (members m) \<or> (\<exists>v\<in>set (members m). w = do_start req v)"
proof -
  have s: ?thesis if "sync_request draw obs req m = Inr m'" "length obs = length (mm_SyncService m)"
    using that assms(3) by (auto simp: sync_request_def members_def rbind_Inr_iff dest!: rr_Request_in)
  have a: ?thesis if "async_request draw obs req m = Inr m'" "length obs = length (mm_AsyncService m)"
    using that assms(3) by (auto simp: async_request_def members_def rbind_Inr_iff dest!: rr_Request_in)
  show ?thesis using assms(1,2) s a by (cases mode) auto
qed

text \<open>A step of the pool moves each member by at most one step of its own.\<close>

lemma mm_step_members:
  assumes "mm_step kind ok m m'" "w \<in> set (members m')"
  shows "\<exists>v\<in>set (members m). w = v \<or> svc_step kind ok v w"
  using assms
proof (cases rule: mm_step.cases)
  case (request req obs mode draw)
  then show ?thesis
    using mm_Request_in [OF request(4,3) assms(2)]
    by (auto simp: no_crash_def list_all_iff intro: svc_step.start)
next
  case plan_flush
  then show ?thesis using assms(2)
    by (auto simp: mm_PlanFlush_def members_def no_crash_def list_all_iff
          dest!: rr_PlanFlush_in intro: svc_step.timer)
next
  case stop_all
  then show ?thesis using assms(2)
    by (auto simp: mm_Stop_def members_def no_crash_def list_all_iff
          dest!: rr_Stop_in intro: svc_step.stop)
next
  case (sync_member i w')
  then show ?thesis
    using assms(2) in_update_step [of w "mm_SyncService m" i w' "svc_step kind ok"] step_more [OF sync_member(4)]
    by (auto simp: members_def)
next
  case (async_member i w')
  then show ?thesis
    using assms(2) in_update_step [of w "mm_AsyncService m" i w' "svc_step kind ok"] step_more [OF async_member(4)]
    by (auto simp: members_def)
qed

lemma members_reach: "mm_reach kind ok m \<Longrightarrow> w \<in> set (members m) \<Longrightarrow> svc_reach kind ok w"
proof (induction arbitrary: w rule: mm_reach.induct)
  case (init now svcNum async)
  then show ?case by (auto simp: mm_init_def rr_init_def members_def intro: svc_reach.init)
next
  case (step m m')
  then show ?case using mm_step_members [OF step.hyps(2) step.prems] by (blast intro: svc_reach.step)
qed

text \<open>
  Handing a request to a pool that has members never fails: it goes to a member seen inserting
  if there is one, else to one seen idle, else to any, and no other member is touched. A pool
  without members panics.
\<close>

theorem pool_request_choice:
  assumes "\<And>n. 0 < n \<Longrightarrow> draw n < n" "length obs = length ws"
  shows "(ws = [] \<longrightarrow> rr_Request draw obs req ws = Inl (Panic ''index out of range'')) \<and>
    (ws \<noteq> [] \<longrightarrow>
      (\<exists>i<length ws. rr_Request draw obs req ws = Inr (ws[i := do_start req (ws ! i)]) \<and>
         (INSERT_STATE_INSERTING \<in> set obs \<longrightarrow> obs ! i = INSERT_STATE_INSERTING) \<and>
         (INSERT_STATE_INSERTING \<notin> set obs \<longrightarrow> INSERT_STATE_IDLE \<in> set obs \<longrightarrow> obs ! i = INSERT_STATE_IDLE)))"
proof (cases "ws = []")
  case True
  then show ?thesis using assms(2) by (simp add: rr_Request_def rr_choose_def members_in_def pool_at_def)
next
  case False
  have drawn: "draw (length xs) < length xs" if "xs \<noteq> []" for xs :: "nat list"
    using assms(1) that by simp
  have some: "members_in s obs \<noteq> [] \<longleftrightarrow> s \<in> set obs" for s
    unfolding set_empty [symmetric] set_members_in in_set_conv_nth by blast
  have pick: "\<exists>i. pool_at (members_in s obs) (draw (length (members_in s obs))) = Inr i \<and> i < length ws \<and> obs ! i = s"
    if "s \<in> set obs" for s
  proof -
    have "members_in s obs ! draw (length (members_in s obs)) \<in> set (members_in s obs)"
      using that some drawn by (intro nth_mem) blast
    then show ?thesis using that some [of s] drawn [of "members_in s obs"] assms(2) by auto
  qed
  have "0 < length obs" using False assms(2) by simp
  then have any: "pool_at [0..<length obs] (draw (length obs)) = Inr (draw (length obs))"
      "draw (length obs) < length ws"
    using assms by (auto simp: pool_at_def)
  consider (ins) "INSERT_STATE_INSERTING \<in> set obs"
    | (idle) "INSERT_STATE_INSERTING \<notin> set obs" "INSERT_STATE_IDLE \<in> set obs"
    | (other) "INSERT_STATE_INSERTING \<notin> set obs" "INSERT_STATE_IDLE \<notin> set obs" by blast
  then have "\<exists>i<length ws. rr_choose draw obs = Inr i \<and>
      (INSERT_STATE_INSERTING \<in> set obs \<longrightarrow> obs ! i = INSERT_STATE_INSERTING) \<and>
      (INSERT_STATE_INSERTING \<notin> set obs \<longrightarrow> INSERT_STATE_IDLE \<in> set obs \<longrightarrow> obs ! i = INSERT_STATE_IDLE)"
  proof cases
    case ins
    then show ?thesis using pick [OF ins] unfolding rr_choose_def Let_def some by auto
  next
    case idle
    then show ?thesis using pick [OF idle(2)] unfolding rr_choose_def Let_def some by auto
  next
    case other
    then show ?thesis using any unfolding rr_choose_def Let_def some by simp
  qed
  then show ?thesis using False by (auto simp: rr_Request_def)
qed

theorem pool_request_choice_witness:
  "rr_Request (\<lambda>n. n - 1) [INSERT_STATE_IDLE, INSERT_STATE_INSERTING, INSERT_STATE_IDLE]
       (ReqSamples one_sample) (rr_init sample_kind 0 3) =
     Inr ((rr_init sample_kind 0 3)[1 := do_start (ReqSamples one_sample) (rr_init sample_kind 0 3 ! 1)])"
proof -
  let ?obs = "[INSERT_STATE_IDLE, INSERT_STATE_INSERTING, INSERT_STATE_IDLE]"
  have d: "\<And>n. 0 < n \<Longrightarrow> n - 1 < (n :: nat)" by simp
  have l: "length ?obs = length (rr_init sample_kind 0 3)" "rr_init sample_kind 0 3 \<noteq> []"
    by (simp_all add: rr_init_def)
  have one: "i = 1" if "i < 3" "?obs ! i = INSERT_STATE_INSERTING" for i :: nat
    using that by (auto simp: less_Suc_eq numeral_3_eq_3 INSERT_STATE_IDLE_def INSERT_STATE_INSERTING_def)
  show ?thesis
    using pool_request_choice [of "\<lambda>n. n - 1" ?obs "rr_init sample_kind 0 3" "ReqSamples one_sample", OF d l(1)]
      l one by (auto simp: rr_init_def)
qed

text \<open>
  In the default mode every request goes to the synchronous pool, also when \<open>AsyncInsert\<close> is set
  and \<open>GetState\<close> reports the asynchronous one.
\<close>

lemma default_mode_uses_sync:
  "mm_Request INSERT_MODE_DEFAULT draw obs req m = mm_Request INSERT_MODE_SYNC draw obs req m"
  "mm_AsyncInsert m \<Longrightarrow> mm_GetState INSERT_MODE_DEFAULT m = mm_GetState INSERT_MODE_ASYNC m"
  by simp_all

end
