(* ===== verification/Ingest_Push.thy ===== *)
theory Ingest_Push
  imports Ingest_Correct Insert_Pool
begin

section \<open>From a request body to the inserts (writer/controller/builder.go)\<close>

text \<open>
  \<open>doParse\<close> reads the responses of a decoder from the channel, pushes the requests in them to the
  insert services of the HTTP request, or to the shards, and waits for the promises of all
  pushes. A push repeats its request until an attempt succeeds or the retries are used up.

  The package retry-go is the argument \<open>retry\<close>: from the outcomes of the attempts to the outcome of
  the push. An outcome is \<open>None\<close> while it is pending. Counters, logging and the pattern clustering
  of the messages are left out.
\<close>

subsection \<open>Pushes\<close>






















subsection \<open>Rows of a request\<close>









subsection \<open>Pushes that were answered\<close>





subsection \<open>An example run\<close>













end
