(* ===== verification/Prof_Tree.thy ===== *)
theory Prof_Tree
  imports Gp_Prelude
begin

section \<open>Profile trees (reader/service/prof\_tree.go)\<close>

text \<open>
  A profile query returns the rows of a tree of call sites. \<open>MergeTrie\<close> collects them per parent,
  \<open>BFS\<close> writes the tree as the levels of a flame graph, and two trees are aligned
  (\<open>synchronizeNames\<close>, \<open>mergeNodes\<close>) and written side by side (\<open>computeFlameGraphDiff\<close>).

  A Go map is an association list; \<open>int64\<close> values are 64-bit words, compared signed. The rows
  come typed from the database driver. The graphviz output (\<open>ToDot\<close>) is not modelled.
\<close>

record TreeNodeV2 =
  tn_FnID :: "64 word"
  tn_NodeID :: "64 word"
  tn_Self :: "64 word list"
  tn_Total :: "64 word list"

record Tree =
  tr_Names :: "string list"
  tr_NamesMap :: "(64 word \<times> nat) list"
  tr_Nodes :: "(64 word \<times> TreeNodeV2 list) list"
  tr_SampleTypes :: "string list"
  tr_maxSelf :: "64 word list"
  tr_NodesNum :: "32 word"

definition NewTree :: Tree where
  "NewTree = \<lparr>tr_Names = [''total'', ''n/a''], tr_NamesMap = [], tr_Nodes = [], tr_SampleTypes = [],
     tr_maxSelf = [0], tr_NodesNum = 0\<rparr>"

text \<open>Reading a slice, and a map whose zero value is the empty slice.\<close>

definition go_nth :: "'a list \<Rightarrow> nat \<Rightarrow> 'a res" where
  "go_nth xs i = (if i < length xs then Inr (xs ! i) else Inl (Panic ''index out of range''))"

definition children :: "Tree \<Rightarrow> 64 word \<Rightarrow> TreeNodeV2 list" where
  "children t n = (case map_of (tr_Nodes t) n of Some cs \<Rightarrow> cs | None \<Rightarrow> [])"

definition MaxSelf :: "Tree \<Rightarrow> 64 word list" where
  "MaxSelf t = (if tr_maxSelf t = [] then [0] else tr_maxSelf t)"

definition add_total :: "TreeNodeV2 \<Rightarrow> 64 word list \<Rightarrow> 64 word list res" where
  "add_total c tot =
     (if length (tn_Total c) \<le> length tot
      then Inr (map (\<lambda>i. tot ! i + (if i < length (tn_Total c) then tn_Total c ! i else 0)) [0..<length tot])
      else Inl (Panic ''index out of range''))"

fun add_totals :: "TreeNodeV2 list \<Rightarrow> 64 word list \<Rightarrow> 64 word list res" where
  "add_totals [] tot = Inr tot"
| "add_totals (c # cs) tot = rbind (add_total c tot) (add_totals cs)"

definition Total :: "Tree \<Rightarrow> 64 word list res" where
  "Total t =
     (case children t 0 of
        [] \<Rightarrow> Inr [0]
      | c # cs \<Rightarrow> add_totals (c # cs) (replicate (length (tn_Total c)) 0))"

definition AddName :: "string \<Rightarrow> 64 word \<Rightarrow> Tree \<Rightarrow> Tree" where
  "AddName name nameHash t =
     (if map_of (tr_NamesMap t) nameHash = None
      then t\<lparr>tr_Names := tr_Names t @ [name], tr_NamesMap := map_put nameHash (length (tr_Names t)) (tr_NamesMap t)\<rparr>
      else t)"

subsection \<open>Merging rows\<close>

fun type_index :: "string list \<Rightarrow> string \<Rightarrow> nat option" where
  "type_index [] s = None"
| "type_index (x # xs) s = (if x = s then Some 0 else map_option Suc (type_index xs s))"

fun findNode :: "64 word \<Rightarrow> TreeNodeV2 list \<Rightarrow> nat option" where
  "findNode n [] = None"
| "findNode n (c # cs) = (if tn_NodeID c = n then Some 0 else map_option Suc (findNode n cs))"

text \<open>A row: the parent, the function, the node, its own value and its totalal.\<close>

type_synonym tree_row = "64 word \<times> 64 word \<times> 64 word \<times> 64 word \<times> 64 word"

definition add_function :: "64 word \<times> string \<Rightarrow> Tree \<Rightarrow> Tree" where
  "add_function f t = (if length (tr_NamesMap t) < 2000000 then AddName (snd f) (fst f) t else t)"

definition unit_values :: "Tree \<Rightarrow> nat \<Rightarrow> 64 word \<Rightarrow> 64 word list" where
  "unit_values t k v = (replicate (length (tr_SampleTypes t)) 0)[k := v]"

text \<open>One row; the flag says that the limit of nodes is reached and the loop returns.\<close>

definition merge_row :: "nat \<Rightarrow> tree_row \<Rightarrow> Tree \<Rightarrow> (bool \<times> Tree) res" where
  "merge_row k row t =
     (case row of (parentID, fnID, nodeID, selfValue, totalValue) \<Rightarrow>
       rbind (go_nth (tr_maxSelf t) k) (\<lambda>mx.
         let t1 = (if sint mx < sint selfValue then t\<lparr>tr_maxSelf := (tr_maxSelf t)[k := selfValue]\<rparr> else t);
             cs = children t1 parentID
         in case findNode nodeID cs of
              Some pos \<Rightarrow>
                rbind (go_nth (tn_Self (cs ! pos)) k) (\<lambda>s.
                rbind (go_nth (tn_Total (cs ! pos)) k) (\<lambda>tot.
                  let node = (cs ! pos)\<lparr>tn_Self := (tn_Self (cs ! pos))[k := s + selfValue],
                                       tn_Total := (tn_Total (cs ! pos))[k := tot + totalValue]\<rparr>
                  in Inr (False, t1\<lparr>tr_Nodes := map_put parentID (cs[pos := node]) (tr_Nodes t1)\<rparr>)))
            | None \<Rightarrow>
                if sint (tr_NodesNum t1) \<ge> 2000000 then Inr (True, t1)
                else Inr (False, t1\<lparr>
                  tr_Nodes := map_put parentID
                    (cs @ [\<lparr>tn_FnID = fnID, tn_NodeID = nodeID, tn_Self = unit_values t1 k selfValue,
                            tn_Total = unit_values t1 k totalValue\<rparr>]) (tr_Nodes t1),
                  tr_NodesNum := tr_NodesNum t1 + 1\<rparr>)))"

fun merge_rows :: "nat \<Rightarrow> tree_row list \<Rightarrow> Tree \<Rightarrow> Tree res" where
  "merge_rows k [] t = Inr t"
| "merge_rows k (r # rs) t =
     rbind (merge_row k r t) (\<lambda>(full, t'). if full then Inr t' else merge_rows k rs t')"

definition MergeTrie :: "tree_row list \<Rightarrow> (64 word \<times> string) list \<Rightarrow> string \<Rightarrow> Tree \<Rightarrow> Tree res" where
  "MergeTrie nodes functions sampleType t =
     (case type_index (tr_SampleTypes t) sampleType of
        None \<Rightarrow> Inr t
      | Some k \<Rightarrow> merge_rows k nodes (fold add_function functions t))"

text \<open>\<open>getTree\<close> (prof.go) after the query.\<close>

definition getTree :: "tree_row list \<Rightarrow> (64 word \<times> string) list \<Rightarrow> string \<Rightarrow> Tree res" where
  "getTree nodes functions sampleTypeUnit =
     MergeTrie nodes functions sampleTypeUnit (NewTree\<lparr>tr_SampleTypes := [sampleTypeUnit]\<rparr>)"

subsection \<open>Levels of the flame graph\<close>

record bfs_state =
  bs_prepend :: "64 word"
  bs_prependMap :: "(64 word \<times> 64 word) list"
  bs_reviewed :: "64 word list"
  bs_values :: "64 word list"
  bs_next :: "TreeNodeV2 list"

definition name_index :: "Tree \<Rightarrow> 64 word \<Rightarrow> nat" where
  "name_index t fn = (case map_of (tr_NamesMap t) fn of Some i \<Rightarrow> i | None \<Rightarrow> 0)"

definition prepend_of :: "(64 word \<times> 64 word) list \<Rightarrow> 64 word \<Rightarrow> 64 word" where
  "prepend_of m n = (case map_of m n of Some v \<Rightarrow> v | None \<Rightarrow> 0)"

text \<open>The loops over the children of a parent and over the parents; \<open>None\<close> is the early return.\<close>

fun bfs_children :: "nat \<Rightarrow> Tree \<Rightarrow> TreeNodeV2 list \<Rightarrow> bfs_state \<Rightarrow> bfs_state option res" where
  "bfs_children k t [] st = Inr (Some st)"
| "bfs_children k t (c # cs) st =
     (if tn_NodeID c \<in> set (bs_reviewed st) then Inr None
      else
        rbind (go_nth (tn_Total c) k) (\<lambda>tot.
        rbind (go_nth (tn_Self c) k) (\<lambda>slf.
          bfs_children k t cs
            (st\<lparr>bs_reviewed := tn_NodeID c # bs_reviewed st,
                bs_prependMap := map_put (tn_NodeID c) (bs_prepend st) (bs_prependMap st),
                bs_next := bs_next st @ [c],
                bs_values := bs_values st @ [bs_prepend st, tot, slf, of_nat (name_index t (tn_FnID c))],
                bs_prepend := 0\<rparr>))))"

fun bfs_parents :: "nat \<Rightarrow> Tree \<Rightarrow> TreeNodeV2 list \<Rightarrow> bfs_state \<Rightarrow> bfs_state option res" where
  "bfs_parents k t [] st = Inr (Some st)"
| "bfs_parents k t (p # ps) st =
     (let st1 = st\<lparr>bs_prepend := bs_prepend st + prepend_of (bs_prependMap st) (tn_NodeID p)\<rparr> in
      case map_of (tr_Nodes t) (tn_NodeID p) of
        None \<Rightarrow>
          rbind (go_nth (tn_Total p) k) (\<lambda>tot. bfs_parents k t ps (st1\<lparr>bs_prepend := bs_prepend st1 + tot\<rparr>))
      | Some cs \<Rightarrow>
          rbind (bfs_children k t cs st1) (\<lambda>r.
            case r of
              None \<Rightarrow> Inr None
            | Some st2 \<Rightarrow>
                rbind (go_nth (tn_Self p) k) (\<lambda>slf. bfs_parents k t ps (st2\<lparr>bs_prepend := bs_prepend st2 + slf\<rparr>))))"

definition node_ids :: "Tree \<Rightarrow> 64 word set" where
  "node_ids t = (\<Union>p\<in>set (tr_Nodes t). tn_NodeID ` set (snd p))"

lemma finite_node_ids [simp]: "finite (node_ids t)"
  by (simp add: node_ids_def)

text \<open>A level adds the ids of its nodes to the reviewed ones, and none of them was there.\<close>

definition grows :: "64 word set \<Rightarrow> bfs_state \<Rightarrow> bfs_state \<Rightarrow> bool" where
  "grows ids st st' \<longleftrightarrow>
     (\<exists>new. bs_next st' = bs_next st @ new \<and> tn_NodeID ` set new \<subseteq> ids - set (bs_reviewed st) \<and>
        set (bs_reviewed st') = set (bs_reviewed st) \<union> tn_NodeID ` set new)"

lemma bfs_children_grows:
  "bfs_children k t cs st = Inr (Some st') \<Longrightarrow> tn_NodeID ` set cs \<subseteq> ids \<Longrightarrow> grows ids st st'"
proof (induction k t cs st arbitrary: st' rule: bfs_children.induct)
  case (2 k t c cs st)
  then obtain tot slf where n: "tn_NodeID c \<notin> set (bs_reviewed st)" "go_nth (tn_Total c) k = Inr tot" "go_nth (tn_Self c) k = Inr slf"
    by (auto simp: rbind_Inr_iff split: if_splits)
  let ?st1 = "st\<lparr>bs_reviewed := tn_NodeID c # bs_reviewed st,
                bs_prependMap := map_put (tn_NodeID c) (bs_prepend st) (bs_prependMap st),
                bs_next := bs_next st @ [c],
                bs_values := bs_values st @ [bs_prepend st, tot, slf, of_nat (name_index t (tn_FnID c))],
                bs_prepend := 0\<rparr>"
  have "grows ids ?st1 st'" using "2.IH" [OF n] "2.prems" n by simp
  then obtain new where "bs_next st' = bs_next st @ c # new"
      "tn_NodeID ` set new \<subseteq> ids - set (tn_NodeID c # bs_reviewed st)"
      "set (bs_reviewed st') = set (tn_NodeID c # bs_reviewed st) \<union> tn_NodeID ` set new"
    by (auto simp: grows_def)
  then show ?case
    using n(1) "2.prems"(2) unfolding grows_def by (intro exI [of _ "c # new"]) auto
qed (simp add: grows_def)

lemma grows_trans: "grows ids a b \<Longrightarrow> grows ids b c \<Longrightarrow> grows ids a c"
  unfolding grows_def
  by (elim exE conjE, rename_tac n1 n2, rule_tac x = "n1 @ n2" in exI) auto

lemma grows_prepend [simp]:
  "grows ids (st\<lparr>bs_prepend := x\<rparr>) st' \<longleftrightarrow> grows ids st st'"
  "grows ids st (st'\<lparr>bs_prepend := x\<rparr>) \<longleftrightarrow> grows ids st st'"
  by (simp_all add: grows_def)

lemma grows_refl [simp]: "grows ids st st"
  by (simp add: grows_def)

lemma children_ids: "map_of (tr_Nodes t) n = Some cs \<Longrightarrow> tn_NodeID ` set cs \<subseteq> node_ids t"
  by (force simp: node_ids_def dest: map_of_SomeD)

lemma bfs_parents_grows:
  "bfs_parents k t ps st = Inr (Some st') \<Longrightarrow> grows (node_ids t) st st'"
proof (induction ps arbitrary: st)
  case (Cons p ps)
  show ?case
  proof (cases "map_of (tr_Nodes t) (tn_NodeID p)")
    case None
    then show ?thesis using Cons.prems Cons.IH by (fastforce simp: rbind_Inr_iff Let_def)
  next
    case (Some cs)
    then obtain st2 slf where
        st2: "bfs_children k t cs (st\<lparr>bs_prepend := bs_prepend st + prepend_of (bs_prependMap st) (tn_NodeID p)\<rparr>) = Inr (Some st2)"
        "bfs_parents k t ps (st2\<lparr>bs_prepend := bs_prepend st2 + slf\<rparr>) = Inr (Some st')"
      using Cons.prems by (auto simp: rbind_Inr_iff Let_def split: option.splits)
    have "grows (node_ids t) st st2" using bfs_children_grows [OF st2(1) children_ids [OF Some]] by simp
    moreover have "grows (node_ids t) st2 st'" using Cons.IH [OF st2(2)] by simp
    ultimately show ?thesis by (rule grows_trans)
  qed
qed simp

function bfs_levels :: "nat \<Rightarrow> Tree \<Rightarrow> TreeNodeV2 list \<Rightarrow> (64 word \<times> 64 word) list \<Rightarrow> 64 word list
    \<Rightarrow> 64 word list list \<Rightarrow> 64 word list list res" where
  "bfs_levels k t current prependMap reviewed res =
     (if current = [] then Inr res
      else
        (case bfs_parents k t current \<lparr>bs_prepend = 0, bs_prependMap = prependMap, bs_reviewed = reviewed,
                bs_values = [], bs_next = []\<rparr> of
           Inl e \<Rightarrow> Inl e
         | Inr None \<Rightarrow> Inr res
         | Inr (Some st) \<Rightarrow>
             bfs_levels k t (bs_next st) (bs_prependMap st) (bs_reviewed st) (res @ [bs_values st])))"
  by pat_completeness auto
termination
proof (relation "measure (\<lambda>(k, t, current, m, reviewed, res). card (node_ids t - set reviewed) + (if current = [] then 0 else 1))",
    goal_cases)
  case (2 k t current m reviewed res r st)
  then have "grows (node_ids t) \<lparr>bs_prepend = 0, bs_prependMap = m, bs_reviewed = reviewed,
      bs_values = [], bs_next = []\<rparr> st" by (auto dest: bfs_parents_grows)
  then obtain new where new: "bs_next st = new" "tn_NodeID ` set new \<subseteq> node_ids t - set reviewed"
      "set (bs_reviewed st) = set reviewed \<union> tn_NodeID ` set new" by (auto simp: grows_def)
  show ?case
  proof (cases "new = []")
    case False
    then have "node_ids t - set (bs_reviewed st) \<subset> node_ids t - set reviewed"
      using new by (auto simp: neq_Nil_conv)
    then have "card (node_ids t - set (bs_reviewed st)) < card (node_ids t - set reviewed)"
      by (rule psubset_card_mono [rotated]) simp
    then show ?thesis using 2(1) by simp
  qed (use 2(1) new in simp)
qed simp

definition total_node :: "Tree \<Rightarrow> nat \<Rightarrow> 64 word \<Rightarrow> TreeNodeV2" where
  "total_node t k tot =
     \<lparr>tn_FnID = 0, tn_NodeID = 0, tn_Self = replicate (length (tr_SampleTypes t)) 0,
      tn_Total = unit_values t k tot\<rparr>"

definition BFS :: "string \<Rightarrow> Tree \<Rightarrow> 64 word list list res" where
  "BFS sampleType t =
     (case type_index (tr_SampleTypes t) sampleType of
        None \<Rightarrow> Inr []
      | Some k \<Rightarrow>
          rbind (mapM_res (\<lambda>c. go_nth (tn_Total c) k) (children t 0)) (\<lambda>tots.
            bfs_levels k t [total_node t k (sum_list tots)] [] [] [[0, sum_list tots, 0, 0]]))"

subsection \<open>Aligning two trees\<close>

text \<open>The order in which Go walks the map of names is the argument \<open>order\<close>.\<close>

definition missing_names :: "((64 word \<times> nat) list \<Rightarrow> (64 word \<times> nat) list) \<Rightarrow> Tree \<Rightarrow> Tree
    \<Rightarrow> (64 word \<times> string) list res" where
  "missing_names order t1 t2 =
     mapM_res (\<lambda>(i, idx). rbind (go_nth (tr_Names t1) idx) (\<lambda>name. Inr (i, name)))
       (filter (\<lambda>(i, idx). map_of (tr_NamesMap t2) i = None) (order (tr_NamesMap t1)))"

definition add_names :: "(64 word \<times> string) list \<Rightarrow> Tree \<Rightarrow> Tree" where
  "add_names ns t = fold (\<lambda>(i, name). AddName name i) ns t"

definition synchronizeNames :: "((64 word \<times> nat) list \<Rightarrow> (64 word \<times> nat) list) \<Rightarrow> Tree \<Rightarrow> Tree
    \<Rightarrow> (Tree \<times> Tree) res" where
  "synchronizeNames order t1 t2 =
     rbind (missing_names order t1 t2) (\<lambda>toT2.
       let t2' = add_names toT2 t2 in
       rbind (missing_names order t2' t1) (\<lambda>toT1. Inr (add_names toT1 t1, t2')))"

definition assertPositive :: "Tree \<Rightarrow> bool" where
  "assertPositive t = list_all (\<lambda>(_, ns). list_all (\<lambda>n. list_all (\<lambda>v. 0 \<le> sint v) (tn_Self n)) ns) (tr_Nodes t)"

definition createEmptyNode :: "TreeNodeV2 \<Rightarrow> TreeNodeV2" where
  "createEmptyNode n = n\<lparr>tn_Self := replicate (length (tn_Self n)) 0, tn_Total := replicate (length (tn_Total n)) 0\<rparr>"

fun mergeChildren :: "TreeNodeV2 list \<Rightarrow> TreeNodeV2 list \<Rightarrow> TreeNodeV2 list \<times> TreeNodeV2 list" where
  "mergeChildren (a # as) (b # bs) =
     (if tn_NodeID a = tn_NodeID b then
        (case mergeChildren as bs of (xs, ys) \<Rightarrow> (a # xs, b # ys))
      else if tn_NodeID a < tn_NodeID b then
        (case mergeChildren as (b # bs) of (xs, ys) \<Rightarrow> (a # xs, createEmptyNode a # ys))
      else
        (case mergeChildren (a # as) bs of (xs, ys) \<Rightarrow> (createEmptyNode b # xs, b # ys)))"
| "mergeChildren as [] = (as, map createEmptyNode as)"
| "mergeChildren [] bs = (map createEmptyNode bs, bs)"

text \<open>\<open>sort.Slice\<close> is not stable; the children of a node have different ids.\<close>

definition merge_key :: "64 word \<Rightarrow> Tree \<times> Tree \<Rightarrow> Tree \<times> Tree" where
  "merge_key key ts =
     (case ts of (t1, t2) \<Rightarrow>
       (case mergeChildren (sort_key tn_NodeID (children t1 key)) (sort_key tn_NodeID (children t2 key)) of
          (xs, ys) \<Rightarrow> (t1\<lparr>tr_Nodes := map_put key xs (tr_Nodes t1)\<rparr>, t2\<lparr>tr_Nodes := map_put key ys (tr_Nodes t2)\<rparr>)))"

definition mergeNodes :: "Tree \<Rightarrow> Tree \<Rightarrow> Tree \<times> Tree" where
  "mergeNodes t1 t2 = fold merge_key (remdups (map fst (tr_Nodes t1) @ map fst (tr_Nodes t2))) (t1, t2)"

subsection \<open>The flame graph of two trees\<close>

record FlameGraphDiff =
  fd_Names :: "string list"
  fd_Levels :: "64 word list list"
  fd_MaxSelf :: "64 word"
  fd_LeftTicks :: "64 word"
  fd_RightTicks :: "64 word"
  fd_Total :: "64 word"

text \<open>An element of the five queues: the two nodes, their offsets and their level.\<close>

type_synonym diff_item = "TreeNodeV2 \<times> TreeNodeV2 \<times> 64 word \<times> 64 word \<times> nat"

definition max_signed :: "64 word \<Rightarrow> 64 word \<Rightarrow> 64 word" where
  "max_signed m v = (if sint m < sint v then v else m)"

definition node_name :: "Tree \<Rightarrow> TreeNodeV2 \<Rightarrow> string res" where
  "node_name t n = (if tn_FnID n = 0 then Inr ''total'' else go_nth (tr_Names t) (name_index t (tn_FnID n)))"

text \<open>\<open>nameLocationCache\<close> maps each name to its index in \<open>Names\<close>.\<close>

definition name_location :: "string \<Rightarrow> (string \<times> nat) list \<Rightarrow> FlameGraphDiff
    \<Rightarrow> nat \<times> (string \<times> nat) list \<times> FlameGraphDiff" where
  "name_location name cache fd =
     (case map_of cache name of
        Some i \<Rightarrow> (i, cache, fd)
      | None \<Rightarrow> (length (fd_Names fd), map_put name (length (fd_Names fd)) cache, fd\<lparr>fd_Names := fd_Names fd @ [name]\<rparr>))"

definition empty_right :: TreeNodeV2 where
  "empty_right = \<lparr>tn_FnID = 0, tn_NodeID = 0, tn_Self = [0], tn_Total = [0]\<rparr>"

definition child_pairs :: "TreeNodeV2 list \<Rightarrow> TreeNodeV2 list \<Rightarrow> (TreeNodeV2 \<times> TreeNodeV2) list" where
  "child_pairs ls rs = map (\<lambda>i. (ls ! i, if i < length rs then rs ! i else empty_right)) (rev [0..<length ls])"

fun push_pairs :: "nat \<Rightarrow> 64 word \<Rightarrow> 64 word \<Rightarrow> (TreeNodeV2 \<times> TreeNodeV2) list \<Rightarrow> diff_item list res" where
  "push_pairs level xl xr [] = Inr []"
| "push_pairs level xl xr ((l, r) # ps) =
     rbind (go_nth (tn_Total l) 0) (\<lambda>lt.
     rbind (go_nth (tn_Total r) 0) (\<lambda>rt.
     rbind (push_pairs level (xl + lt) (xr + rt) ps) (\<lambda>qs. Inr ((l, r, xl, xr, level) # qs))))"

definition at_level :: "nat \<Rightarrow> 64 word list \<Rightarrow> 64 word list list \<Rightarrow> 64 word list list" where
  "at_level level vs ls =
     (let ls' = ls @ replicate (Suc level - length ls) [] in ls'[level := ls' ! level @ vs])"

definition diff_visit :: "Tree \<Rightarrow> Tree \<Rightarrow> diff_item \<Rightarrow> (string \<times> nat) list \<Rightarrow> FlameGraphDiff
    \<Rightarrow> (diff_item list \<times> (string \<times> nat) list \<times> FlameGraphDiff) res" where
  "diff_visit t1 t2 item cache fd =
     (case item of (left, right, xl, xr, level) \<Rightarrow>
       rbind (node_name t1 left) (\<lambda>name.
       case name_location name cache fd of (nameIdx, cache', fd1) \<Rightarrow>
         rbind (go_nth (tn_Self left) 0) (\<lambda>sl. rbind (go_nth (tn_Self right) 0) (\<lambda>sr.
         rbind (go_nth (tn_Total left) 0) (\<lambda>lt. rbind (go_nth (tn_Total right) 0) (\<lambda>rt.
         rbind (push_pairs (Suc level) xl xr
                  (child_pairs (children t1 (tn_NodeID left)) (children t2 (tn_NodeID right)))) (\<lambda>items.
           Inr (items, cache',
                fd1\<lparr>fd_MaxSelf := max_signed (max_signed (fd_MaxSelf fd1) sl) sr,
                    fd_Levels := at_level level [xl, lt, sl, xr, rt, sr, of_nat nameIdx] (fd_Levels fd1)\<rparr>))))))))"

partial_function (option) diff_loop :: "Tree \<Rightarrow> Tree \<Rightarrow> diff_item list \<Rightarrow> (string \<times> nat) list \<Rightarrow> FlameGraphDiff
    \<Rightarrow> FlameGraphDiff res option" where
  "diff_loop t1 t2 queue cache fd =
     (case queue of
        [] \<Rightarrow> Some (Inr fd)
      | item # rest \<Rightarrow>
          (case diff_visit t1 t2 item cache fd of
             Inl e \<Rightarrow> Some (Inl e)
           | Inr (items, cache', fd') \<Rightarrow> diff_loop t1 t2 (rest @ items) cache' fd'))"

text \<open>The last loop turns the offsets of a level into distances.\<close>

fun deltas :: "64 word \<Rightarrow> 64 word \<Rightarrow> 64 word list \<Rightarrow> 64 word list res" where
  "deltas prev0 prev3 [] = Inr []"
| "deltas prev0 prev3 (xl # lt # sl # xr # rt # sr # n # vs) =
     rbind (deltas (prev0 + (xl - prev0) + lt) (prev3 + (xr - prev3) + rt) vs) (\<lambda>ws.
       Inr ((xl - prev0) # lt # sl # (xr - prev3) # rt # sr # n # ws))"
| "deltas prev0 prev3 _ = Inl (Panic ''index out of range'')"

definition computeFlameGraphDiff :: "Tree \<Rightarrow> Tree \<Rightarrow> FlameGraphDiff res option" where
  "computeFlameGraphDiff t1 t2 =
     (case rbind (Total t1) (\<lambda>l. rbind (go_nth l 0) (\<lambda>lt.
           rbind (Total t2) (\<lambda>r. rbind (go_nth r 0) (\<lambda>rt. Inr (lt, rt))))) of
        Inl e \<Rightarrow> Some (Inl e)
      | Inr (lt, rt) \<Rightarrow>
          (case diff_loop t1 t2
                  [(\<lparr>tn_FnID = 0, tn_NodeID = 0, tn_Self = [0], tn_Total = [lt]\<rparr>,
                    \<lparr>tn_FnID = 0, tn_NodeID = 0, tn_Self = [0], tn_Total = [rt]\<rparr>, 0, 0, 0)] []
                  \<lparr>fd_Names = [], fd_Levels = [], fd_MaxSelf = 0, fd_LeftTicks = lt, fd_RightTicks = rt,
                   fd_Total = lt + rt\<rparr> of
             None \<Rightarrow> None
           | Some (Inl e) \<Rightarrow> Some (Inl e)
           | Some (Inr fd) \<Rightarrow>
               Some (rbind (mapM_res (deltas 0 0) (fd_Levels fd)) (\<lambda>ls. Inr (fd\<lparr>fd_Levels := ls\<rparr>)))))"

text \<open>\<open>RenderDiff\<close> (prof.go) after the two queries.\<close>

definition render_diff :: "((64 word \<times> nat) list \<Rightarrow> (64 word \<times> nat) list) \<Rightarrow> Tree \<Rightarrow> Tree \<Rightarrow> FlameGraphDiff res option" where
  "render_diff order left right =
     (if \<not> assertPositive left then Some (Inl (ErrMsg ''left tree is not positive''))
      else if \<not> assertPositive right then Some (Inl (ErrMsg ''right tree is not positive''))
      else
        (case synchronizeNames order left right of
           Inl e \<Rightarrow> Some (Inl e)
         | Inr (l, r) \<Rightarrow> (case mergeNodes l r of (l', r') \<Rightarrow> computeFlameGraphDiff l' r')))"

end
