(* ===== verification/Prof_Tree_Correct.thy ===== *)
theory Prof_Tree_Correct
  imports Prof_Tree
begin

section \<open>Flame graphs show the tree\<close>

text \<open>
  The layout of a flame graph: the bars of the children of a node stand side by side from the left
  edge of the node. \<open>BFS\<close> is proved to write this layout, level by level, each bar by its
  distance from the end of the bar before. Then what \<open>MergeTrie\<close> collects and how two trees
  are aligned.
\<close>

subsection \<open>The layout\<close>

abbreviation tot :: "nat \<Rightarrow> TreeNodeV2 \<Rightarrow> 64 word" where
  "tot k c \<equiv> tn_Total c ! k"

fun place :: "nat \<Rightarrow> 64 word \<Rightarrow> TreeNodeV2 list \<Rightarrow> (64 word \<times> TreeNodeV2) list" where
  "place k x [] = []"
| "place k x (c # cs) = (x, c) # place k (x + tot k c) cs"

definition next_layer :: "nat \<Rightarrow> Tree \<Rightarrow> (64 word \<times> TreeNodeV2) list \<Rightarrow> (64 word \<times> TreeNodeV2) list" where
  "next_layer k t L = concat (map (\<lambda>(x, n). place k x (children t (tn_NodeID n))) L)"

text \<open>The four numbers of a bar: distance from the bar before, total, self, name.\<close>

fun encode :: "nat \<Rightarrow> Tree \<Rightarrow> 64 word \<Rightarrow> (64 word \<times> TreeNodeV2) list \<Rightarrow> 64 word list" where
  "encode k t x [] = []"
| "encode k t x ((s, c) # L) =
     [s - x, tot k c, tn_Self c ! k, of_nat (name_index t (tn_FnID c))] @ encode k t (s + tot k c) L"

fun layer_end :: "nat \<Rightarrow> 64 word \<Rightarrow> (64 word \<times> TreeNodeV2) list \<Rightarrow> 64 word" where
  "layer_end k x [] = x"
| "layer_end k x ((s, c) # L) = layer_end k (s + tot k c) L"

text \<open>The prepend map holds the distances of a layer.\<close>

fun chained :: "nat \<Rightarrow> (64 word \<times> 64 word) list \<Rightarrow> 64 word \<Rightarrow> (64 word \<times> TreeNodeV2) list \<Rightarrow> bool" where
  "chained k m x [] \<longleftrightarrow> True"
| "chained k m x ((s, c) # L) \<longleftrightarrow> s = x + prepend_of m (tn_NodeID c) \<and> chained k m (s + tot k c) L"

abbreviation ids_of :: "(64 word \<times> TreeNodeV2) list \<Rightarrow> 64 word list" where
  "ids_of L \<equiv> map (\<lambda>a. tn_NodeID (snd a)) L"

lemma encode_append: "encode k t x (L @ M) = encode k t x L @ encode k t (layer_end k x L) M"
  by (induction k t x L rule: encode.induct) auto

lemma layer_end_append [simp]: "layer_end k x (L @ M) = layer_end k (layer_end k x L) M"
  by (induction k x L rule: layer_end.induct) auto

lemma chained_append [simp]:
  "chained k m x (L @ M) \<longleftrightarrow> chained k m x L \<and> chained k m (layer_end k x L) M"
  by (induction k m x L rule: chained.induct) auto

lemma chained_cong:
  "(\<And>n. n \<in> set (ids_of L) \<Longrightarrow> prepend_of m n = prepend_of m' n) \<Longrightarrow> chained k m x L = chained k m' x L"
  by (induction k m x L rule: chained.induct) auto

lemma snd_place [simp]: "map snd (place k x cs) = cs"
  by (induction k x cs rule: place.induct) auto

lemma ids_place [simp]: "ids_of (place k x cs) = map tn_NodeID cs"
  by (induction k x cs rule: place.induct) auto

lemma next_layer_simps [simp]:
  "next_layer k t [] = []"
  "next_layer k t ((x, p) # L) = place k x (children t (tn_NodeID p)) @ next_layer k t L"
  by (simp_all add: next_layer_def)

lemma place_append: "place k x (cs @ ds) = place k x cs @ place k (x + (\<Sum>c\<leftarrow>cs. tot k c)) ds"
  by (induction k x cs rule: place.induct) (auto simp: add.assoc)

lemma layer_end_place: "cs \<noteq> [] \<Longrightarrow> layer_end k y (place k x cs) = x + (\<Sum>c\<leftarrow>cs. tot k c)"
proof (induction k x cs arbitrary: y rule: place.induct)
  case (2 k x c cs)
  then show ?case by (cases cs) (auto simp: add.assoc)
qed simp

lemma prepend_of_put [simp]: "prepend_of (map_put i v m) n = (if n = i then v else prepend_of m n)"
  by (simp add: prepend_of_def)

subsection \<open>Trees the theorem is about\<close>

text \<open>
  Every node is the child of one parent, none is its own ancestor's root (id 0), the value
  slices have one entry per sample type, and the total of a node is its own value plus the
  totals of its children, as for a profile.
\<close>

definition proper_tree :: "nat \<Rightarrow> Tree \<Rightarrow> bool" where
  "proper_tree k t \<longleftrightarrow>
     go_map (tr_Nodes t) \<and> distinct (map tn_NodeID (concat (map snd (tr_Nodes t)))) \<and> 0 \<notin> node_ids t \<and>
     (\<forall>p c. c \<in> set (children t p) \<longrightarrow>
        k < length (tn_Total c) \<and> k < length (tn_Self c) \<and>
        (map_of (tr_Nodes t) (tn_NodeID c) \<noteq> None \<longrightarrow>
           tot k c = (\<Sum>d\<leftarrow>children t (tn_NodeID c). tot k d) + tn_Self c ! k))"

lemma distinct_concat_disjoint:
  assumes "distinct (concat xss)" "i < length xss" "j < length xss" "i \<noteq> j"
  shows "set (xss ! i) \<inter> set (xss ! j) = {}"
  using assms
proof (induction xss arbitrary: i j)
  case (Cons xs xss)
  have sub: "set (xss ! n) \<subseteq> set (concat xss)" if "n < length xss" for n
    using nth_mem [OF that] by auto
  show ?case
  proof (cases i)
    case 0
    then obtain n where "j = Suc n" using Cons.prems(4) by (cases j) auto
    then show ?thesis using Cons.prems sub [of n] 0 by auto
  next
    case (Suc m)
    then show ?thesis using Cons.prems Cons.IH sub [of m] by (cases j) auto
  qed
qed simp

lemma children_distinct:
  assumes "proper_tree k t"
  shows "distinct (map tn_NodeID (children t p))"
proof (cases "map_of (tr_Nodes t) p")
  case (Some cs)
  then have "cs \<in> set (map snd (tr_Nodes t))" by (force dest: map_of_SomeD)
  then obtain a b where "map snd (tr_Nodes t) = a @ cs # b" by (meson split_list)
  then have "concat (map snd (tr_Nodes t)) = concat a @ cs @ concat b" by simp
  with assms show ?thesis by (simp add: proper_tree_def children_def Some)
qed (simp add: children_def)

lemma children_disjoint:
  assumes "proper_tree k t" "p \<noteq> q"
  shows "tn_NodeID ` set (children t p) \<inter> tn_NodeID ` set (children t q) = {}"
proof (cases "map_of (tr_Nodes t) p = None \<or> map_of (tr_Nodes t) q = None")
  case False
  then obtain cs ds where "map_of (tr_Nodes t) p = Some cs" "map_of (tr_Nodes t) q = Some ds" by auto
  then have e: "(p, cs) \<in> set (tr_Nodes t)" "(q, ds) \<in> set (tr_Nodes t)" "children t p = cs" "children t q = ds"
    by (auto simp: children_def dest: map_of_SomeD)
  obtain i j where ij: "i < length (tr_Nodes t)" "j < length (tr_Nodes t)"
      "tr_Nodes t ! i = (p, cs)" "tr_Nodes t ! j = (q, ds)" using e(1,2) by (metis in_set_conv_nth)
  have "i \<noteq> j" using ij assms(2) by auto
  moreover have "distinct (concat (map (map tn_NodeID \<circ> snd) (tr_Nodes t)))"
    using assms(1) by (simp add: proper_tree_def map_concat)
  ultimately have "set (map (map tn_NodeID \<circ> snd) (tr_Nodes t) ! i) \<inter> set (map (map tn_NodeID \<circ> snd) (tr_Nodes t) ! j) = {}"
    using ij by (intro distinct_concat_disjoint) auto
  then show ?thesis using ij e by simp
qed (auto simp: children_def)

subsection \<open>One level\<close>

text \<open>The state of the level loop when the bars \<open>M\<close> have been written, and where it stands.\<close>

definition shows_bars :: "nat \<Rightarrow> Tree \<Rightarrow> (64 word \<times> TreeNodeV2) list \<Rightarrow> bfs_state \<Rightarrow> bool" where
  "shows_bars k t M st \<longleftrightarrow>
     bs_values st = encode k t 0 M \<and> bs_next st = map snd M \<and> chained k (bs_prependMap st) 0 M \<and>
     set (ids_of M) \<subseteq> set (bs_reviewed st)"

definition cursor :: "nat \<Rightarrow> (64 word \<times> TreeNodeV2) list \<Rightarrow> bfs_state \<Rightarrow> 64 word" where
  "cursor k M st = layer_end k 0 M + bs_prepend st"

definition has_values :: "nat \<Rightarrow> TreeNodeV2 \<Rightarrow> bool" where
  "has_values k c \<longleftrightarrow> k < length (tn_Total c) \<and> k < length (tn_Self c)"

lemma go_nth_ok [simp]: "i < length xs \<Longrightarrow> go_nth xs i = Inr (xs ! i)"
  by (simp add: go_nth_def)

lemma bfs_children_shows:
  assumes "shows_bars k t M st" "distinct (map tn_NodeID cs)"
    "tn_NodeID ` set cs \<inter> set (bs_reviewed st) = {}" "\<forall>c\<in>set cs. has_values k c"
  shows "\<exists>st'. bfs_children k t cs st = Inr (Some st') \<and>
    shows_bars k t (M @ place k (cursor k M st) cs) st' \<and>
    cursor k (M @ place k (cursor k M st) cs) st' = cursor k M st + (\<Sum>c\<leftarrow>cs. tot k c) \<and>
    set (bs_reviewed st') = set (bs_reviewed st) \<union> tn_NodeID ` set cs \<and>
    (\<forall>n. n \<notin> tn_NodeID ` set cs \<longrightarrow> prepend_of (bs_prependMap st') n = prepend_of (bs_prependMap st) n)"
  using assms
proof (induction cs arbitrary: st M)
  case (Cons c cs)
  let ?x = "cursor k M st"
  let ?st1 = "st\<lparr>bs_reviewed := tn_NodeID c # bs_reviewed st,
                bs_prependMap := map_put (tn_NodeID c) (bs_prepend st) (bs_prependMap st),
                bs_next := bs_next st @ [c],
                bs_values := bs_values st @ [bs_prepend st, tot k c, tn_Self c ! k, of_nat (name_index t (tn_FnID c))],
                bs_prepend := 0\<rparr>"
  let ?M1 = "M @ [(?x, c)]"
  have new: "tn_NodeID c \<notin> set (ids_of M)" using Cons.prems by (auto simp: shows_bars_def)
  then have "chained k (bs_prependMap ?st1) 0 M"
    using Cons.prems(1) chained_cong [of M "bs_prependMap ?st1" "bs_prependMap st" k 0]
    by (force simp: shows_bars_def)
  then have 1: "shows_bars k t ?M1 ?st1"
    using Cons.prems(1) by (auto simp: shows_bars_def encode_append cursor_def)
  have cur: "cursor k ?M1 ?st1 = ?x + tot k c" by (simp add: cursor_def)
  have hv: "has_values k c" using Cons.prems by simp
  have "bfs_children k t (c # cs) st = bfs_children k t cs ?st1"
    using hv Cons.prems(3) by (simp add: has_values_def)
  moreover have "tn_NodeID ` set cs \<inter> set (bs_reviewed ?st1) = {}" "distinct (map tn_NodeID cs)"
      "\<forall>c\<in>set cs. has_values k c"
    using Cons.prems by auto
  ultimately show ?case using Cons.IH [OF 1] Cons.prems(2) unfolding cur
    by (auto simp: add.assoc)
qed (simp add: cursor_def)

lemma disjoint_mono: "A \<inter> I = {} \<Longrightarrow> B \<subseteq> I \<Longrightarrow> A \<inter> B = {}"
  by blast

lemma disjoint_UN: "(\<And>q. q \<in> Q \<Longrightarrow> A \<inter> f q = {}) \<Longrightarrow> A \<inter> (\<Union>q\<in>Q. f q) = {}"
  by blast

lemma UN_disjoint: "(\<And>q. q \<in> Q \<Longrightarrow> f q \<inter> A = {}) \<Longrightarrow> (\<Union>q\<in>Q. f q) \<inter> A = {}"
  by blast

lemma diff_psubset: "i \<in> A \<Longrightarrow> i \<notin> R \<Longrightarrow> i \<in> S \<Longrightarrow> R \<subseteq> S \<Longrightarrow> A - S \<subset> A - R"
  by blast

lemma Un_subset_insert: "A \<subseteq> insert x R \<Longrightarrow> A \<union> B \<subseteq> insert x (R \<union> B)"
  by blast

lemma disjoint_from_Un: "A \<inter> B = {} \<Longrightarrow> A \<inter> (C \<union> D) = {} \<Longrightarrow> R = C \<union> B \<Longrightarrow> A \<inter> (R \<union> D) = {}"
  by blast

text \<open>The parents of a level, with the room their children get.\<close>

lemma bfs_parents_shows:
  assumes "proper_tree k t"
    and "shows_bars k t M st" "chained k (bs_prependMap st) (cursor k M st) L"
    and "distinct (ids_of L)" "\<forall>(x, p)\<in>set L. has_values k p"
    and "\<forall>(x, p)\<in>set L. map_of (tr_Nodes t) (tn_NodeID p) \<noteq> None \<longrightarrow>
      tot k p = (\<Sum>d\<leftarrow>children t (tn_NodeID p). tot k d) + tn_Self p ! k"
    and "\<forall>p\<in>set (ids_of L). tn_NodeID ` set (children t p) \<inter> (set (bs_reviewed st) \<union> set (ids_of L)) = {}"
  shows "\<exists>st'. bfs_parents k t (map snd L) st = Inr (Some st') \<and>
    shows_bars k t (M @ next_layer k t L) st' \<and>
    set (bs_reviewed st') = set (bs_reviewed st) \<union> set (ids_of (next_layer k t L))"
  using assms(2-)
proof (induction L arbitrary: st M)
  case (Cons xp L)
  obtain x p where xp: "xp = (x, p)" by force
  let ?st1 = "st\<lparr>bs_prepend := bs_prepend st + prepend_of (bs_prependMap st) (tn_NodeID p)\<rparr>"
  have st1: "shows_bars k t M ?st1" "cursor k M ?st1 = x"
    using Cons.prems(1,2) by (simp_all add: shows_bars_def cursor_def xp add.assoc)
  have chL: "chained k (bs_prependMap st) (x + tot k p) L"
    using Cons.prems(2) unfolding xp chained.simps by blast
  have hp: "has_values k p" using Cons.prems(4) by (simp add: xp)
  have rest: "distinct (ids_of L)" "\<forall>(x, p)\<in>set L. has_values k p"
      "\<forall>(x, p)\<in>set L. map_of (tr_Nodes t) (tn_NodeID p) \<noteq> None \<longrightarrow>
        tot k p = (\<Sum>d\<leftarrow>children t (tn_NodeID p). tot k d) + tn_Self p ! k"
    using Cons.prems(3-5) by (auto simp: xp)
  show ?case
  proof (cases "map_of (tr_Nodes t) (tn_NodeID p)")
    case None
    let ?st2 = "?st1\<lparr>bs_prepend := bs_prepend ?st1 + tot k p\<rparr>"
    have c: "children t (tn_NodeID p) = []" by (simp add: children_def None)
    have s2: "shows_bars k t M ?st2" "chained k (bs_prependMap ?st2) (cursor k M ?st2) L"
      using st1 chL by (simp_all add: shows_bars_def cursor_def flip: add.assoc)
    have "\<forall>p\<in>set (ids_of L). tn_NodeID ` set (children t p) \<inter> (set (bs_reviewed ?st2) \<union> set (ids_of L)) = {}"
      using Cons.prems(6) by (auto simp: xp)
    from Cons.IH [OF s2 rest this] show ?thesis
      using hp None by (simp add: xp has_values_def c)
  next
    case (Some cs)
    then have c: "children t (tn_NodeID p) = cs" by (simp add: children_def)
    let ?M1 = "M @ place k x cs"
    have free: "tn_NodeID ` set cs \<inter> (set (bs_reviewed st) \<union> set (ids_of ((x, p) # L))) = {}"
      using Cons.prems(6) c by (auto simp: xp)
    have d: "distinct (map tn_NodeID cs)" using children_distinct [OF assms(1), of "tn_NodeID p"] by (simp only: c)
    have f: "tn_NodeID ` set cs \<inter> set (bs_reviewed ?st1) = {}" using free by auto
    have v: "\<forall>c\<in>set cs. has_values k c"
      using assms(1) unfolding c [symmetric] proper_tree_def has_values_def by blast
    obtain st2 where st2: "bfs_children k t cs ?st1 = Inr (Some st2)" "shows_bars k t ?M1 st2"
        "cursor k ?M1 st2 = x + (\<Sum>c\<leftarrow>cs. tot k c)"
        "set (bs_reviewed st2) = set (bs_reviewed st) \<union> tn_NodeID ` set cs"
        "\<forall>n. n \<notin> tn_NodeID ` set cs \<longrightarrow> prepend_of (bs_prependMap st2) n = prepend_of (bs_prependMap st) n"
      using bfs_children_shows [OF st1(1) d f v] unfolding st1(2) by auto
    let ?st3 = "st2\<lparr>bs_prepend := bs_prepend st2 + tn_Self p ! k\<rparr>"
    have total: "tot k p = (\<Sum>d\<leftarrow>cs. tot k d) + tn_Self p ! k" using Cons.prems(5) Some c by (simp add: xp)
    then have cur: "cursor k ?M1 ?st3 = x + tot k p" using st2(3) by (simp add: cursor_def add.assoc)
    have same: "prepend_of (bs_prependMap ?st3) n = prepend_of (bs_prependMap st) n" if "n \<in> set (ids_of L)" for n
    proof -
      have "n \<notin> tn_NodeID ` set cs" using that free by auto
      then show ?thesis using st2(5) by simp
    qed
    have "chained k (bs_prependMap ?st3) (x + tot k p) L"
      using chL chained_cong [of L "bs_prependMap ?st3" "bs_prependMap st" k "x + tot k p", OF same] by blast
    then have s3: "shows_bars k t ?M1 ?st3" "chained k (bs_prependMap ?st3) (cursor k ?M1 ?st3) L"
      using st2(2) unfolding cur by (simp_all add: shows_bars_def)
    have apart: "tn_NodeID ` set (children t q) \<inter> tn_NodeID ` set cs = {}" if "q \<in> set (ids_of L)" for q
    proof -
      have "q \<noteq> tn_NodeID p" using that Cons.prems(3) by (force simp: xp)
      from children_disjoint [OF assms(1) this] show ?thesis by (simp only: c)
    qed
    have old: "tn_NodeID ` set (children t q) \<inter> (set (bs_reviewed st) \<union> set (ids_of L)) = {}"
      if "q \<in> set (ids_of L)" for q
    proof -
      have "q \<in> set (ids_of (xp # L))" "set (ids_of L) \<subseteq> set (ids_of (xp # L))" using that by auto
      then show ?thesis using Cons.prems(6) by blast
    qed
    have rev3: "set (bs_reviewed ?st3) = set (bs_reviewed st) \<union> tn_NodeID ` set cs" using st2(4) by simp
    have "\<forall>q\<in>set (ids_of L). tn_NodeID ` set (children t q) \<inter> (set (bs_reviewed ?st3) \<union> set (ids_of L)) = {}"
      by (rule ballI) (rule disjoint_from_Un [OF apart old rev3])
    from Cons.IH [OF s3 rest this] obtain st' where
        st': "bfs_parents k t (map snd L) ?st3 = Inr (Some st')" "shows_bars k t (?M1 @ next_layer k t L) st'"
        "set (bs_reviewed st') = set (bs_reviewed ?st3) \<union> set (ids_of (next_layer k t L))" by blast
    have "bfs_parents k t (map snd (xp # L)) st = Inr (Some st')"
      using hp Some st2(1) st'(1) by (simp add: xp has_values_def)
    moreover have "set (ids_of (next_layer k t (xp # L))) = tn_NodeID ` set cs \<union> set (ids_of (next_layer k t L))"
      using ids_place [of k x cs] by (simp add: xp c image_Un flip: set_map)
    ultimately show ?thesis using st'(2,3) rev3 by (simp add: xp c Un_assoc)
  qed
qed simp

subsection \<open>All levels\<close>

lemma ids_next_layer: "set (ids_of (next_layer k t L)) = (\<Union>p\<in>set (ids_of L). tn_NodeID ` set (children t p))"
proof (induction L)
  case (Cons a L)
  obtain x p where a: "a = (x, p)" by force
  have "set (ids_of (place k x (children t (tn_NodeID p)))) = tn_NodeID ` set (children t (tn_NodeID p))"
    by (simp only: ids_place set_map)
  then show ?case using Cons by (simp only: a next_layer_simps map_append set_append) simp
qed simp

lemma children_in_ids: "tn_NodeID ` set (children t p) \<subseteq> node_ids t"
  using children_ids [of t p] by (cases "map_of (tr_Nodes t) p") (simp_all add: children_def)

lemma next_layer_in: "(x, c) \<in> set (next_layer k t L) \<Longrightarrow> \<exists>p. c \<in> set (children t p)"
proof (induction L)
  case (Cons a L)
  obtain y p where a: "a = (y, p)" by force
  have "c \<in> set (children t (tn_NodeID p))" if "(x, c) \<in> set (place k y (children t (tn_NodeID p)))"
    using that snd_place [of k y "children t (tn_NodeID p)"] by (metis in_set_zipE list.set_map image_eqI snd_conv)
  then show ?case using Cons by (auto simp: a)
qed simp

lemma next_layer_distinct:
  assumes "proper_tree k t" "distinct (ids_of L)"
  shows "distinct (ids_of (next_layer k t L))"
  using assms(2)
proof (induction L)
  case (Cons a L)
  obtain x p where a: "a = (x, p)" by force
  have "tn_NodeID ` set (children t (tn_NodeID p)) \<inter> tn_NodeID ` set (children t q) = {}" if "q \<in> set (ids_of L)" for q
    using that Cons.prems by (intro children_disjoint [OF assms(1)]) (force simp: a)
  then have "tn_NodeID ` set (children t (tn_NodeID p)) \<inter> set (ids_of (next_layer k t L)) = {}"
    unfolding ids_next_layer by blast
  moreover have "distinct (ids_of (next_layer k t L))" using Cons by simp
  ultimately show ?case
    using children_distinct [OF assms(1), of "tn_NodeID p"] unfolding a next_layer_simps map_append ids_place
    by (simp only: distinct_append set_map)
qed simp

lemma bfs_levels_shows:
  assumes tree: "proper_tree k t"
  shows "chained k m 0 L \<Longrightarrow> distinct (ids_of L) \<Longrightarrow> \<forall>(x, p)\<in>set L. has_values k p \<Longrightarrow>
    \<forall>(x, p)\<in>set L. map_of (tr_Nodes t) (tn_NodeID p) \<noteq> None \<longrightarrow>
      tot k p = (\<Sum>d\<leftarrow>children t (tn_NodeID p). tot k d) + tn_Self p ! k \<Longrightarrow>
    set R = (\<Union>q\<in>Q. tn_NodeID ` set (children t q)) \<Longrightarrow> Q \<union> set (ids_of L) \<subseteq> insert 0 (set R) \<Longrightarrow>
    set (ids_of L) \<inter> Q = {} \<Longrightarrow>
    \<exists>n. bfs_levels k t (map snd L) m R res =
        Inr (res @ map (\<lambda>i. encode k t 0 ((next_layer k t ^^ Suc i) L)) [0..<n]) \<and>
      (next_layer k t ^^ n) L = [] \<and> (\<forall>i<n. (next_layer k t ^^ i) L \<noteq> [])"
proof (induction "card (node_ids t - set R)" arbitrary: L Q m R res rule: less_induct)
  case less
  show ?case
  proof (cases "L = []")
    case True
    then show ?thesis by (intro exI [of _ 0]) simp
  next
    case False
    let ?N = "next_layer k t L"
    let ?st = "\<lparr>bs_prepend = 0, bs_prependMap = m, bs_reviewed = R, bs_values = [], bs_next = []\<rparr>"
    have no0: "0 \<notin> tn_NodeID ` set (children t p)" for p
      using tree children_in_ids [of t p] unfolding proper_tree_def by blast
    have fresh: "tn_NodeID ` set (children t p) \<inter> insert 0 (set R) = {}" if "p \<in> set (ids_of L)" for p
    proof -
      have "p \<notin> Q" using that less.prems(7) by blast
      then have "tn_NodeID ` set (children t p) \<inter> tn_NodeID ` set (children t q) = {}" if "q \<in> Q" for q
        using that by (intro children_disjoint [OF tree]) blast
      then have "tn_NodeID ` set (children t p) \<inter> set R = {}" unfolding less.prems(5) by (rule disjoint_UN)
      with no0 [of p] show ?thesis by (simp only: Int_insert_right if_False)
    qed
    have free: "\<forall>p\<in>set (ids_of L). tn_NodeID ` set (children t p) \<inter> (set (bs_reviewed ?st) \<union> set (ids_of L)) = {}"
    proof (rule ballI)
      fix p assume p: "p \<in> set (ids_of L)"
      have "set (bs_reviewed ?st) \<union> set (ids_of L) \<subseteq> insert 0 (set R)" using less.prems(6) by (simp add: subset_insertI)
      with fresh [OF p] show "tn_NodeID ` set (children t p) \<inter> (set (bs_reviewed ?st) \<union> set (ids_of L)) = {}"
        by (rule disjoint_mono)
    qed
    have "shows_bars k t [] ?st" "chained k (bs_prependMap ?st) (cursor k [] ?st) L"
      using less.prems(1) by (simp_all add: shows_bars_def cursor_def)
    from bfs_parents_shows [OF tree this less.prems(2-4) free] obtain st where
        st: "bfs_parents k t (map snd L) ?st = Inr (Some st)" "shows_bars k t ?N st"
        "set (bs_reviewed st) = set R \<union> set (ids_of ?N)" by auto
    have step: "bfs_levels k t (map snd L) m R res =
        bfs_levels k t (map snd ?N) (bs_prependMap st) (bs_reviewed st) (res @ [encode k t 0 ?N])"
      using False st(1,2) by (subst bfs_levels.simps) (simp add: shows_bars_def)
    have new: "set (ids_of ?N) \<inter> insert 0 (set R) = {}" unfolding ids_next_layer by (rule UN_disjoint [OF fresh])
    show ?thesis
    proof (cases "?N = []")
      case True
      then show ?thesis using step False by (intro exI [of _ 1]) (simp add: bfs_levels.simps)
    next
      case N: False
      have sub: "set (ids_of ?N) \<subseteq> node_ids t"
        unfolding ids_next_layer by (rule UN_least) (rule children_in_ids)
      obtain i where i: "i \<in> set (ids_of ?N)" using N by (cases ?N) auto
      then have "i \<in> node_ids t" "i \<notin> set R" "i \<in> set (bs_reviewed st)" "set R \<subseteq> set (bs_reviewed st)"
        using sub new st(3) by (auto simp only: Un_iff Int_iff insert_iff)
      then have "node_ids t - set (bs_reviewed st) \<subset> node_ids t - set R" by (rule diff_psubset)
      then have card: "card (node_ids t - set (bs_reviewed st)) < card (node_ids t - set R)"
        by (rule psubset_card_mono [rotated]) simp
      have "\<forall>(x, p)\<in>set ?N. has_values k p \<and> (map_of (tr_Nodes t) (tn_NodeID p) \<noteq> None \<longrightarrow>
          tot k p = (\<Sum>d\<leftarrow>children t (tn_NodeID p). tot k d) + tn_Self p ! k)"
        using tree next_layer_in unfolding proper_tree_def has_values_def by fast
      then have vals: "\<forall>(x, p)\<in>set ?N. has_values k p"
          "\<forall>(x, p)\<in>set ?N. map_of (tr_Nodes t) (tn_NodeID p) \<noteq> None \<longrightarrow>
            tot k p = (\<Sum>d\<leftarrow>children t (tn_NodeID p). tot k d) + tn_Self p ! k" by auto
      have ch: "chained k (bs_prependMap st) 0 ?N" using st(2) by (simp add: shows_bars_def)
      have rv: "set (bs_reviewed st) = (\<Union>q\<in>Q \<union> set (ids_of L). tn_NodeID ` set (children t q))"
        by (simp only: st(3) less.prems(5) ids_next_layer UN_Un)
      have in_rv: "(Q \<union> set (ids_of L)) \<union> set (ids_of ?N) \<subseteq> insert 0 (set (bs_reviewed st))"
        using less.prems(6) unfolding st(3) by (rule Un_subset_insert)
      have out: "set (ids_of ?N) \<inter> (Q \<union> set (ids_of L)) = {}" using new less.prems(6) by (rule disjoint_mono)
      obtain n where n: "bfs_levels k t (map snd ?N) (bs_prependMap st) (bs_reviewed st) (res @ [encode k t 0 ?N]) =
            Inr ((res @ [encode k t 0 ?N]) @ map (\<lambda>i. encode k t 0 ((next_layer k t ^^ Suc i) ?N)) [0..<n])"
          "(next_layer k t ^^ n) ?N = []" "\<forall>i<n. (next_layer k t ^^ i) ?N \<noteq> []"
        using less.hyps [OF card ch next_layer_distinct [OF tree less.prems(2)] vals rv in_rv out,
          of "res @ [encode k t 0 ?N]"] by (elim exE conjE) (rule that)
      have "(next_layer k t ^^ Suc i) L \<noteq> []" if "i < n" for i using n(3) that by (simp add: funpow_swap1)
      then have ne: "\<forall>i<Suc n. (next_layer k t ^^ i) L \<noteq> []" using False by (metis funpow_0 less_Suc_eq_0_disj)
      show ?thesis
        using step n ne
        by (intro exI [of _ "Suc n"]) (simp add: funpow_swap1 map_upt_Suc del: upt_Suc)
    qed
  qed
qed

text \<open>A reader of a level adds up the distances and gets every bar back where it was placed.\<close>

fun bars :: "64 word \<Rightarrow> 64 word list \<Rightarrow> (64 word \<times> 64 word \<times> 64 word \<times> 64 word) list" where
  "bars x (d # w # s # n # vs) = (x + d, w, s, n) # bars (x + d + w) vs"
| "bars x _ = []"

lemma bars_encode:
  "bars x (encode k t x L) = map (\<lambda>(s, c). (s, tot k c, tn_Self c ! k, of_nat (name_index t (tn_FnID c)))) L"
  by (induction k t x L rule: encode.induct) auto

lemma type_index_less: "type_index ss s = Some k \<Longrightarrow> k < length ss"
  by (induction ss s arbitrary: k rule: type_index.induct) (auto split: if_splits)

lemma read_totals: "\<forall>c\<in>set cs. k < length (tn_Total c) \<Longrightarrow> mapM_res (\<lambda>c. go_nth (tn_Total c) k) cs = Inr (map (tot k) cs)"
  by (induction cs) auto

text \<open>
  C18: \<open>BFS\<close> writes the flame graph of the tree: after the bar of the whole profile, level by level, the
  bars of the nodes of that depth; the children of a node stand side by side from its left edge
  in the order of the tree, and every bar has the total, the own value and the name of its
  node. The first level without nodes is written, as an empty one, and ends the graph.
\<close>

theorem BFS_flame_graph:
  assumes "proper_tree k t" "type_index (tr_SampleTypes t) s = Some k"
  defines "whole \<equiv> (\<Sum>c\<leftarrow>children t 0. tot k c)"
  defines "layer \<equiv> \<lambda>i. (next_layer k t ^^ i) [(0, total_node t k whole)]"
  shows "\<exists>n. BFS s t = Inr ([0, whole, 0, 0] # map (\<lambda>i. encode k t 0 (layer (Suc i))) [0..<n]) \<and>
    layer n = [] \<and> (\<forall>i<n. layer i \<noteq> []) \<and>
    (\<forall>i. bars 0 (encode k t 0 (layer i)) =
       map (\<lambda>(x, c). (x, tot k c, tn_Self c ! k, of_nat (name_index t (tn_FnID c)))) (layer i))"
proof -
  let ?root = "total_node t k whole"
  have k: "k < length (tr_SampleTypes t)" by (rule type_index_less [OF assms(2)])
  have "\<forall>c\<in>set (children t 0). k < length (tn_Total c)" using assms(1) by (auto simp: proper_tree_def)
  then have tots: "mapM_res (\<lambda>c. go_nth (tn_Total c) k) (children t 0) = Inr (map (tot k) (children t 0))"
    by (rule read_totals)
  have root: "tn_NodeID ?root = 0" "has_values k ?root" "tot k ?root = whole" "tn_Self ?root ! k = 0"
    using k by (simp_all add: total_node_def has_values_def unit_values_def)
  have "\<exists>n. bfs_levels k t (map snd [(0, ?root)]) [] [] [[0, whole, 0, 0]] =
      Inr ([[0, whole, 0, 0]] @ map (\<lambda>i. encode k t 0 ((next_layer k t ^^ Suc i) [(0, ?root)])) [0..<n]) \<and>
      (next_layer k t ^^ n) [(0, ?root)] = [] \<and> (\<forall>i<n. (next_layer k t ^^ i) [(0, ?root)] \<noteq> [])"
    using bfs_levels_shows [OF assms(1), where Q = "{}" and L = "[(0, ?root)]" and m = "[]" and R = "[]"
        and res = "[[0, whole, 0, 0]]"]
    by (simp add: root prepend_of_def whole_def [symmetric] del: bfs_levels.simps)
  then obtain n where n: "BFS s t = Inr ([0, whole, 0, 0] # map (\<lambda>i. encode k t 0 (layer (Suc i))) [0..<n])"
      "layer n = []" "\<forall>i<n. layer i \<noteq> []"
    by (auto simp: BFS_def assms(2) tots layer_def whole_def simp del: bfs_levels.simps)
  have "\<forall>i. bars 0 (encode k t 0 (layer i)) =
      map (\<lambda>(x, c). (x, tot k c, tn_Self c ! k, of_nat (name_index t (tn_FnID c)))) (layer i)"
    by (simp add: bars_encode)
  with n show ?thesis by blast
qed

definition demo_tree :: Tree where
  "demo_tree =
     \<lparr>tr_Names = [''total'', ''n/a'', ''main'', ''idle'', ''work''], tr_NamesMap = [(11, 2), (12, 3), (13, 4)],
      tr_Nodes =
        [(0, [\<lparr>tn_FnID = 11, tn_NodeID = 1, tn_Self = [4], tn_Total = [10]\<rparr>,
              \<lparr>tn_FnID = 12, tn_NodeID = 2, tn_Self = [5], tn_Total = [5]\<rparr>]),
         (2, []),
         (1, [\<lparr>tn_FnID = 13, tn_NodeID = 3, tn_Self = [6], tn_Total = [6]\<rparr>])],
      tr_SampleTypes = [''cpu:ns''], tr_maxSelf = [6], tr_NodesNum = 3\<rparr>"

lemma demo_children:
  "children demo_tree p =
     (if p = 0 then [\<lparr>tn_FnID = 11, tn_NodeID = 1, tn_Self = [4], tn_Total = [10]\<rparr>,
                     \<lparr>tn_FnID = 12, tn_NodeID = 2, tn_Self = [5], tn_Total = [5]\<rparr>]
      else if p = 1 then [\<lparr>tn_FnID = 13, tn_NodeID = 3, tn_Self = [6], tn_Total = [6]\<rparr>] else [])"
  by (simp add: children_def demo_tree_def)

lemma demo_ids: "node_ids demo_tree = {1, 2, 3}"
  by (simp add: node_ids_def demo_tree_def insert_commute)

lemma demo_proper: "proper_tree 0 demo_tree"
  by (auto simp: proper_tree_def demo_children demo_ids go_map_def split: if_splits) (simp_all add: demo_tree_def)

theorem BFS_flame_graph_witness:
  "BFS ''cpu:ns'' demo_tree = Inr [[0, 15, 0, 0], [0, 10, 4, 2, 0, 5, 5, 3], [0, 6, 6, 4], []]"
proof -
  let ?layer = "\<lambda>i. (next_layer 0 demo_tree ^^ i) [(0, total_node demo_tree 0 15)]"
  have ti: "type_index (tr_SampleTypes demo_tree) ''cpu:ns'' = Some 0" by (simp add: demo_tree_def)
  have whole: "(\<Sum>c\<leftarrow>children demo_tree 0. tot 0 c) = 15" by (simp add: demo_children)
  obtain n where n: "BFS ''cpu:ns'' demo_tree = Inr ([0, 15, 0, 0] # map (\<lambda>i. encode 0 demo_tree 0 (?layer (Suc i))) [0..<n])"
      "?layer n = []" "\<forall>i<n. ?layer i \<noteq> []"
    using BFS_flame_graph [OF demo_proper ti] unfolding whole by blast
  have layers: "?layer 0 \<noteq> []" "?layer (Suc 0) \<noteq> []" "?layer (Suc (Suc 0)) \<noteq> []" "?layer (Suc (Suc (Suc 0))) = []"
    by (simp_all add: demo_children total_node_def)
  have n3: "n = Suc (Suc (Suc 0))"
  proof (rule ccontr)
    assume "n \<noteq> Suc (Suc (Suc 0))"
    then consider "n = 0" | "n = Suc 0" | "n = Suc (Suc 0)" | "Suc (Suc (Suc 0)) < n" by linarith
    then show False
    proof cases
      case 1
      from layers(1) n(2) [unfolded 1] show False by (rule notE)
    next
      case 2
      from layers(2) n(2) [unfolded 2] show False by (rule notE)
    next
      case 3
      from layers(3) n(2) [unfolded 3] show False by (rule notE)
    next
      case 4
      from n(3) [rule_format, OF 4] layers(4) show False by (rule notE)
    qed
  qed
  show ?thesis
    using n(1) unfolding n3
    by (simp add: demo_children total_node_def name_index_def) (simp add: demo_tree_def)
qed

end
