(* ===== verification/Prof_Tree_Merge.thy ===== *)
theory Prof_Tree_Merge
  imports Prof_Tree_Correct
begin

section \<open>Collecting and aligning profile trees\<close>

text \<open>
  What \<open>MergeTrie\<close> makes of the rows of a query, and that \<open>mergeNodes\<close> gives two trees the same
  shape without changing a value.
\<close>

subsection \<open>Aligning two trees\<close>

abbreviation node_ids_of :: "TreeNodeV2 list \<Rightarrow> 64 word list" where
  "node_ids_of ns \<equiv> map tn_NodeID ns"

lemma id_createEmptyNode [simp]: "tn_NodeID (createEmptyNode n) = tn_NodeID n"
  by (simp add: createEmptyNode_def)

text \<open>Both results list the same ids, in order, and each contains its own tree's nodes unchanged.\<close>

definition aligns :: "TreeNodeV2 list \<Rightarrow> TreeNodeV2 list \<Rightarrow> TreeNodeV2 list \<Rightarrow> TreeNodeV2 list \<Rightarrow> bool" where
  "aligns as bs xs ys \<longleftrightarrow>
     node_ids_of xs = node_ids_of ys \<and> sorted_wrt (<) (node_ids_of xs) \<and>
     set (node_ids_of xs) = set (node_ids_of as) \<union> set (node_ids_of bs) \<and>
     filter (\<lambda>x. tn_NodeID x \<in> set (node_ids_of as)) xs = as \<and>
     filter (\<lambda>y. tn_NodeID y \<in> set (node_ids_of bs)) ys = bs \<and>
     (\<forall>x\<in>set xs. tn_NodeID x \<in> set (node_ids_of as) \<or> (\<exists>b\<in>set bs. x = createEmptyNode b)) \<and>
     (\<forall>y\<in>set ys. tn_NodeID y \<in> set (node_ids_of bs) \<or> (\<exists>a\<in>set as. y = createEmptyNode a))"

lemma filter_ids_all: "filter (\<lambda>x. tn_NodeID x \<in> set (node_ids_of as)) as = as"
  by (rule filter_True) simp

lemma filter_ids_none: "set (node_ids_of xs) \<inter> A = {} \<Longrightarrow> filter (\<lambda>x. tn_NodeID x \<in> A) xs = []"
  by (rule filter_False) auto

lemma aligns_left: "sorted_wrt (<) (node_ids_of as) \<Longrightarrow> aligns as [] as (map createEmptyNode as)"
  by (auto simp: aligns_def comp_def filter_ids_all)

lemma aligns_right: "sorted_wrt (<) (node_ids_of bs) \<Longrightarrow> aligns [] bs (map createEmptyNode bs) bs"
  by (auto simp: aligns_def comp_def filter_ids_all)

lemma filter_ids_insert:
  "n \<notin> set (node_ids_of xs) \<Longrightarrow>
     filter (\<lambda>x. tn_NodeID x = n \<or> tn_NodeID x \<in> A) xs = filter (\<lambda>x. tn_NodeID x \<in> A) xs"
  by (rule filter_cong) auto

lemma same_ids: "node_ids_of xs = node_ids_of ys \<Longrightarrow> tn_NodeID ` set xs = tn_NodeID ` set ys"
  by (metis set_map)

lemma aligns_ids:
  assumes "aligns as bs xs ys"
  shows "tn_NodeID ` set xs = tn_NodeID ` set as \<union> tn_NodeID ` set bs"
    "tn_NodeID ` set ys = tn_NodeID ` set as \<union> tn_NodeID ` set bs"
  using assms same_ids [of xs ys] unfolding aligns_def set_map by auto

lemma above:
  assumes "aligns as bs xs ys" "\<forall>c\<in>set as \<union> set bs. n < tn_NodeID c"
  shows "\<forall>c\<in>set xs. n < tn_NodeID c" "\<forall>c\<in>set ys. n < tn_NodeID c"
    "n \<notin> set (node_ids_of xs)" "n \<notin> set (node_ids_of ys)"
proof -
  have I: "\<forall>i\<in>tn_NodeID ` set as \<union> tn_NodeID ` set bs. n < i" using assms(2) by auto
  from I [folded aligns_ids(1) [OF assms(1)]] I [folded aligns_ids(2) [OF assms(1)]]
  show "\<forall>c\<in>set xs. n < tn_NodeID c" "\<forall>c\<in>set ys. n < tn_NodeID c"
    "n \<notin> set (node_ids_of xs)" "n \<notin> set (node_ids_of ys)" by auto
qed

text \<open>The merge step: a new smallest id in front.\<close>

lemma aligns_Cons:
  assumes "aligns as bs xs ys" "tn_NodeID x = n" "tn_NodeID y = n" "\<forall>c\<in>set as \<union> set bs. n < tn_NodeID c"
  shows "x = a \<Longrightarrow> y = b \<Longrightarrow> aligns (a # as) (b # bs) (x # xs) (y # ys)"
    "x = a \<Longrightarrow> y = createEmptyNode a \<Longrightarrow> aligns (a # as) bs (x # xs) (y # ys)"
    "x = createEmptyNode b \<Longrightarrow> y = b \<Longrightarrow> aligns as (b # bs) (x # xs) (y # ys)"
proof -
  note ids = aligns_ids [OF assms(1)] and big = above [OF assms(1,4)]
  have new: "n \<notin> tn_NodeID ` set as" "n \<notin> tn_NodeID ` set bs" using assms(4) by auto
  have parts: "node_ids_of xs = node_ids_of ys" "sorted_wrt (<) (node_ids_of xs)"
      "filter (\<lambda>x. tn_NodeID x \<in> tn_NodeID ` set as) xs = as" "filter (\<lambda>y. tn_NodeID y \<in> tn_NodeID ` set bs) ys = bs"
      "\<forall>x\<in>set xs. tn_NodeID x \<in> tn_NodeID ` set as \<or> (\<exists>b\<in>set bs. x = createEmptyNode b)"
      "\<forall>y\<in>set ys. tn_NodeID y \<in> tn_NodeID ` set bs \<or> (\<exists>a\<in>set as. y = createEmptyNode a)"
    using assms(1) unfolding aligns_def set_map by blast+
  have sorted: "sorted_wrt (<) (node_ids_of (x # xs))"
    unfolding list.map sorted_wrt.simps using parts(2) big(1) assms(2) by simp
  have fil: "filter (\<lambda>x. tn_NodeID x = n \<or> tn_NodeID x \<in> tn_NodeID ` set as) xs = as"
      "filter (\<lambda>y. tn_NodeID y = n \<or> tn_NodeID y \<in> tn_NodeID ` set bs) ys = bs"
    using filter_ids_insert [OF big(3)] filter_ids_insert [OF big(4)] parts(3,4) by simp_all
  show "aligns (a # as) (b # bs) (x # xs) (y # ys)" if "x = a" "y = b"
    unfolding aligns_def using that assms(2,3) sorted parts fil ids by (intro conjI) auto
  show "aligns (a # as) bs (x # xs) (y # ys)" if "x = a" "y = createEmptyNode a"
    unfolding aligns_def using that assms(2,3) sorted parts fil ids new by (intro conjI) auto
  show "aligns as (b # bs) (x # xs) (y # ys)" if "x = createEmptyNode b" "y = b"
    unfolding aligns_def using that assms(2,3) sorted parts fil ids new by (intro conjI) auto
qed

lemma mergeChildren_aligns:
  "sorted_wrt (<) (node_ids_of as) \<Longrightarrow> sorted_wrt (<) (node_ids_of bs) \<Longrightarrow>
     aligns as bs (fst (mergeChildren as bs)) (snd (mergeChildren as bs))"
proof (induction as bs rule: mergeChildren.induct)
  case (1 a as b bs)
  have sas: "\<forall>c\<in>set as. tn_NodeID a < tn_NodeID c" and sbs: "\<forall>c\<in>set bs. tn_NodeID b < tn_NodeID c"
    using "1.prems" by auto
  consider (eq) "tn_NodeID a = tn_NodeID b" | (less) "tn_NodeID a < tn_NodeID b" | (gr) "tn_NodeID b < tn_NodeID a"
    by (meson linorder_neqE)
  then show ?case
  proof cases
    case eq
    have IH: "aligns as bs (fst (mergeChildren as bs)) (snd (mergeChildren as bs))" using 1 eq by simp
    have "\<forall>c\<in>set as \<union> set bs. tn_NodeID a < tn_NodeID c" using sas sbs eq by auto
    from aligns_Cons(1) [OF IH refl eq [symmetric] this refl refl] show ?thesis
      by (simp add: eq case_prod_beta)
  next
    case less
    have IH: "aligns as (b # bs) (fst (mergeChildren as (b # bs))) (snd (mergeChildren as (b # bs)))"
      using 1 less by simp
    have "\<forall>c\<in>set as \<union> set (b # bs). tn_NodeID a < tn_NodeID c" using sas sbs less by auto
    from aligns_Cons(2) [OF IH refl id_createEmptyNode this refl refl] less less_imp_neq [OF less] show ?thesis
      by (simp add: case_prod_beta)
  next
    case gr
    have IH: "aligns (a # as) bs (fst (mergeChildren (a # as) bs)) (snd (mergeChildren (a # as) bs))"
      using 1 gr by simp
    have "\<forall>c\<in>set (a # as) \<union> set bs. tn_NodeID b < tn_NodeID c" using sas sbs gr by auto
    from aligns_Cons(3) [OF IH id_createEmptyNode refl this refl refl] gr less_imp_neq [OF gr] less_not_sym [OF gr] show ?thesis
      by (simp add: case_prod_beta)
  qed
next
  case (2 as)
  then show ?case by (simp add: aligns_left)
next
  case (3 v va)
  then show ?case using aligns_right [of "v # va"] by simp
qed


lemma children_put [simp]: "children (t\<lparr>tr_Nodes := map_put q cs (tr_Nodes t)\<rparr>) p = (if p = q then cs else children t p)"
  by (simp add: children_def)

lemma merge_key_children:
  "merge_key q (t1, t2) = (u1, u2) \<Longrightarrow>
     children u1 p = (if p = q then fst (mergeChildren (sort_key tn_NodeID (children t1 p)) (sort_key tn_NodeID (children t2 p)))
                      else children t1 p) \<and>
     children u2 p = (if p = q then snd (mergeChildren (sort_key tn_NodeID (children t1 p)) (sort_key tn_NodeID (children t2 p)))
                      else children t2 p)"
  by (auto simp: merge_key_def case_prod_beta split: prod.splits)

lemma fold_merge_key_children:
  "distinct ks \<Longrightarrow> fold merge_key ks (t1, t2) = (u1, u2) \<Longrightarrow>
     children u1 p = (if p \<in> set ks then fst (mergeChildren (sort_key tn_NodeID (children t1 p)) (sort_key tn_NodeID (children t2 p)))
                      else children t1 p) \<and>
     children u2 p = (if p \<in> set ks then snd (mergeChildren (sort_key tn_NodeID (children t1 p)) (sort_key tn_NodeID (children t2 p)))
                      else children t2 p)"
proof (induction ks arbitrary: t1 t2)
  case (Cons q ks)
  obtain v1 v2 where v: "merge_key q (t1, t2) = (v1, v2)" by force
  then show ?case
    using Cons.IH [of v1 v2] Cons.prems merge_key_children [OF v, of p] by (auto split: if_splits)
qed simp

lemma sort_ids: "distinct (node_ids_of cs) \<Longrightarrow> sorted_wrt (<) (node_ids_of (sort_key tn_NodeID cs))"
  by (simp add: strict_sorted_iff distinct_map inj_on_def)

text \<open>
  C20: After \<open>mergeNodes\<close> both trees have the same children below every node, in the same order. No node
  is lost or changed, and what a tree did not have is there with zero values. So the flame
  graph of the two trees never runs out of nodes on the right-hand side.
\<close>

theorem mergeNodes_aligns:
  assumes "\<And>p. distinct (node_ids_of (children t1 p))" "\<And>p. distinct (node_ids_of (children t2 p))"
    and "mergeNodes t1 t2 = (u1, u2)"
  shows "aligns (sort_key tn_NodeID (children t1 p)) (sort_key tn_NodeID (children t2 p)) (children u1 p) (children u2 p)"
proof -
  let ?ks = "remdups (map fst (tr_Nodes t1) @ map fst (tr_Nodes t2))"
  have m: "children u1 p = (if p \<in> set ?ks then fst (mergeChildren (sort_key tn_NodeID (children t1 p)) (sort_key tn_NodeID (children t2 p)))
        else children t1 p)"
      "children u2 p = (if p \<in> set ?ks then snd (mergeChildren (sort_key tn_NodeID (children t1 p)) (sort_key tn_NodeID (children t2 p)))
        else children t2 p)"
    using fold_merge_key_children [of ?ks t1 t2 u1 u2 p] assms(3) unfolding mergeNodes_def by blast+
  show ?thesis
  proof (cases "p \<in> set ?ks")
    case True
    then show ?thesis using mergeChildren_aligns [OF sort_ids [OF assms(1)] sort_ids [OF assms(2)]] by (simp only: m if_True)
  next
    case False
    then have "map_of (tr_Nodes t1) p = None" "map_of (tr_Nodes t2) p = None" by (auto simp: map_of_eq_None_iff)
    then have "children t1 p = []" "children t2 p = []" by (simp_all add: children_def)
    then show ?thesis using False by (simp add: m aligns_def)
  qed
qed


theorem mergeNodes_aligns_witness:
  "aligns [\<lparr>tn_FnID = 11, tn_NodeID = 1, tn_Self = [4], tn_Total = [10]\<rparr>,
           \<lparr>tn_FnID = 12, tn_NodeID = 2, tn_Self = [5], tn_Total = [5]\<rparr>] []
     (children (fst (mergeNodes demo_tree NewTree)) 0) (children (snd (mergeNodes demo_tree NewTree)) 0)"
proof -
  have d: "distinct (node_ids_of (children demo_tree p))" "distinct (node_ids_of (children NewTree p))" for p
    by (simp_all add: demo_children) (simp add: children_def NewTree_def)
  have "sort_key tn_NodeID (children demo_tree 0) = children demo_tree 0"
    by (simp add: demo_children)
  moreover have "children NewTree 0 = []" by (simp add: children_def NewTree_def)
  ultimately show ?thesis
    using mergeNodes_aligns [OF d, of "fst (mergeNodes demo_tree NewTree)" "snd (mergeNodes demo_tree NewTree)" 0]
    by (simp add: demo_children)
qed

subsection \<open>Collecting rows\<close>

fun row_self :: "tree_row \<Rightarrow> 64 word" where
  "row_self (p, f, n, s, w) = s"

fun row_total :: "tree_row \<Rightarrow> 64 word" where
  "row_total (p, f, n, s, w) = w"

fun row_at :: "64 word \<Rightarrow> 64 word \<Rightarrow> tree_row \<Rightarrow> bool" where
  "row_at q m (p, f, n, s, w) \<longleftrightarrow> p = q \<and> n = m"

definition row_sum :: "(tree_row \<Rightarrow> 64 word) \<Rightarrow> tree_row list \<Rightarrow> 64 word \<Rightarrow> 64 word \<Rightarrow> 64 word" where
  "row_sum f rows p n = (\<Sum>r\<leftarrow>filter (row_at p n) rows. f r)"

lemma row_sum_simps [simp]:
  "row_sum f [] p n = 0"
  "row_sum f (rows @ [r]) p n = row_sum f rows p n + (if row_at p n r then f r else 0)"
  by (simp_all add: row_sum_def)

text \<open>The children of \<open>p\<close> after some rows.\<close>

definition collected_at :: "tree_row list \<Rightarrow> 64 word \<Rightarrow> TreeNodeV2 list \<Rightarrow> bool" where
  "collected_at rows p cs \<longleftrightarrow>
     distinct (node_ids_of cs) \<and> set (node_ids_of cs) = {n. \<exists>r\<in>set rows. row_at p n r} \<and>
     (\<forall>c\<in>set cs. tn_Self c = [row_sum row_self rows p (tn_NodeID c)] \<and>
                 tn_Total c = [row_sum row_total rows p (tn_NodeID c)])"

definition collected :: "tree_row list \<Rightarrow> Tree \<Rightarrow> bool" where
  "collected rows t \<longleftrightarrow>
     length (tr_SampleTypes t) = 1 \<and> length (tr_maxSelf t) = 1 \<and> unat (tr_NodesNum t) \<le> length rows \<and>
     (\<forall>p. collected_at rows p (children t p))"

lemma findNode_Some: "findNode n cs = Some i \<Longrightarrow> i < length cs \<and> tn_NodeID (cs ! i) = n"
  by (induction n cs arbitrary: i rule: findNode.induct) (auto split: if_splits)

lemma findNode_None: "findNode n cs = None \<longleftrightarrow> n \<notin> set (node_ids_of cs)"
  by (induction n cs rule: findNode.induct) auto

lemma row_sum_new: "\<not> (\<exists>r\<in>set rows. row_at p n r) \<Longrightarrow> row_sum f rows p n = 0"
  by (simp add: row_sum_def filter_False)

lemma few_nodes:
  assumes "unat (n :: 32 word) < 2000000"
  shows "sint n < 2000000" "unat (n + 1) = unat n + 1"
proof -
  have u: "uint n = int (unat n)" by simp
  have small: "uint n < 2000000" using assms unfolding u by linarith
  then have "sint n = uint n" by (simp add: sint_uint signed_take_bit_int_eq_self order_trans [of _ 0])
  with small show "sint n < 2000000" by simp
  have "unat n + unat (1 :: 32 word) < 2 ^ LENGTH(32)" using assms by simp
  then show "unat (n + 1) = unat n + 1" by (simp only: unat_add_lem) simp
qed

text \<open>One row is added to its node, or makes a new one; the other parents keep theirs.\<close>

lemma collected_other: "p \<noteq> q \<Longrightarrow> collected_at rows q cs \<Longrightarrow> collected_at (rows @ [(p, f, n, s, w)]) q cs"
  by (simp add: collected_at_def)

lemma collected_new:
  assumes "collected_at rows p cs" "n \<notin> set (node_ids_of cs)"
  shows "collected_at (rows @ [(p, f, n, s, w)]) p (cs @ [\<lparr>tn_FnID = f, tn_NodeID = n, tn_Self = [s], tn_Total = [w]\<rparr>])"
proof -
  have none: "\<not> (\<exists>r\<in>set rows. row_at p n r)" using assms by (auto simp: collected_at_def)
  have "\<forall>c\<in>set cs. n \<noteq> tn_NodeID c" using assms(2) by auto
  then show ?thesis using assms none by (auto simp: collected_at_def row_sum_new)
qed

lemma collected_update:
  assumes "collected_at rows p cs" "i < length cs" "tn_NodeID (cs ! i) = n"
  shows "collected_at (rows @ [(p, f, n, s, w)]) p
    (cs[i := (cs ! i)\<lparr>tn_Self := [row_sum row_self rows p n + s], tn_Total := [row_sum row_total rows p n + w]\<rparr>])"
    (is "collected_at ?rows p ?cs")
proof -
  have ids: "node_ids_of ?cs = node_ids_of cs" using assms(2,3) by (simp add: map_update list_update_same_conv)
  have old: "distinct (node_ids_of cs)" "set (node_ids_of cs) = {n. \<exists>r\<in>set rows. row_at p n r}"
    using assms(1) by (simp_all add: collected_at_def)
  have "n \<in> set (node_ids_of cs)" using assms(2,3) nth_mem [of i "node_ids_of cs"] by simp
  then have "set (node_ids_of ?cs) = {n. \<exists>r\<in>set ?rows. row_at p n r}" unfolding ids old(2) by auto
  moreover have "tn_Self d = [row_sum row_self ?rows p (tn_NodeID d)] \<and> tn_Total d = [row_sum row_total ?rows p (tn_NodeID d)]"
    if mem: "d \<in> set ?cs" for d
  proof -
    obtain j where j: "j < length cs" "d = ?cs ! j" using mem by (auto simp: in_set_conv_nth)
    show ?thesis
    proof (cases "j = i")
      case False
      then have "tn_NodeID d \<noteq> n" "d \<in> set cs" using j assms(2,3) old(1) by (auto simp: distinct_conv_nth)
      then show ?thesis using assms(1) by (auto simp: collected_at_def)
    qed (use j assms(2,3) in simp)
  qed
  ultimately show ?thesis using old(1) unfolding collected_at_def ids by blast
qed

lemma merge_row_collects:
  assumes "collected rows t" "length rows < 2000000"
  shows "\<exists>t'. merge_row 0 r t = Inr (False, t') \<and> collected (rows @ [r]) t'"
proof -
  obtain p f n s w where r: "r = (p, f, n, s, w)" by (cases r)
  define t1 where "t1 = (if sint (tr_maxSelf t ! 0) < sint s then t\<lparr>tr_maxSelf := (tr_maxSelf t)[0 := s]\<rparr> else t)"
  let ?cs = "children t p"
  have old: "collected_at rows q (children t q)" "unat (tr_NodesNum t) \<le> length rows" for q
    using assms(1) by (simp_all add: collected_def)
  have t1: "children t1 q = children t q" "tr_NodesNum t1 = tr_NodesNum t" "length (tr_maxSelf t1) = 1"
      "length (tr_SampleTypes t1) = 1" for q
    using assms(1) by (simp_all add: t1_def children_def collected_def)
  have max: "go_nth (tr_maxSelf t) 0 = Inr (tr_maxSelf t ! 0)" using assms(1) by (simp add: collected_def)
  have step: "merge_row 0 r t =
      (case findNode n ?cs of
         Some pos \<Rightarrow>
           rbind (go_nth (tn_Self (?cs ! pos)) 0) (\<lambda>s'. rbind (go_nth (tn_Total (?cs ! pos)) 0) (\<lambda>w'.
             Inr (False, t1\<lparr>tr_Nodes := map_put p (?cs[pos := (?cs ! pos)\<lparr>tn_Self := (tn_Self (?cs ! pos))[0 := s' + s],
                                       tn_Total := (tn_Total (?cs ! pos))[0 := w' + w]\<rparr>]) (tr_Nodes t1)\<rparr>)))
       | None \<Rightarrow>
           if sint (tr_NodesNum t) \<ge> 2000000 then Inr (True, t1)
           else Inr (False, t1\<lparr>tr_Nodes := map_put p
               (?cs @ [\<lparr>tn_FnID = f, tn_NodeID = n, tn_Self = [s], tn_Total = [w]\<rparr>]) (tr_Nodes t1),
             tr_NodesNum := tr_NodesNum t + 1\<rparr>))"
    unfolding merge_row_def r prod.case max rbind_Inr t1_def [symmetric] Let_def
    by (simp add: unit_values_def t1 cong: option.case_cong)
  have keep: "collected_at (rows @ [r]) q (if q = p then cs' else children t q)"
    if "collected_at (rows @ [r]) p cs'" for q cs'
    using that collected_other [OF _ old(1)] by (simp add: r)
  show ?thesis
  proof (cases "findNode n ?cs")
    case None
    have small: "unat (tr_NodesNum t) < 2000000" using old(2) assms(2) by linarith
    let ?cs' = "?cs @ [\<lparr>tn_FnID = f, tn_NodeID = n, tn_Self = [s], tn_Total = [w]\<rparr>]"
    let ?t' = "t1\<lparr>tr_Nodes := map_put p ?cs' (tr_Nodes t1), tr_NodesNum := tr_NodesNum t + 1\<rparr>"
    have ch: "children ?t' q = (if q = p then ?cs' else children t q)" for q
      using t1(1) [of q] by (simp add: children_def)
    have "collected_at (rows @ [r]) p ?cs'"
      using collected_new [OF old(1)] None by (simp add: r findNode_None)
    then have "collected (rows @ [r]) ?t'"
      unfolding collected_def ch using keep t1 old(2) few_nodes(2) [OF small] by simp
    moreover have "merge_row 0 r t = Inr (False, ?t')" using step None few_nodes(1) [OF small] by simp
    ultimately show ?thesis by blast
  next
    case (Some i)
    note i = findNode_Some [OF Some]
    have c: "tn_Self (?cs ! i) = [row_sum row_self rows p n]" "tn_Total (?cs ! i) = [row_sum row_total rows p n]"
      using old(1) [of p] i nth_mem [of i ?cs] by (auto simp: collected_at_def)
    let ?cs' = "?cs[i := (?cs ! i)\<lparr>tn_Self := [row_sum row_self rows p n + s], tn_Total := [row_sum row_total rows p n + w]\<rparr>]"
    let ?t' = "t1\<lparr>tr_Nodes := map_put p ?cs' (tr_Nodes t1)\<rparr>"
    have ch: "children ?t' q = (if q = p then ?cs' else children t q)" for q
      using t1(1) [of q] by (simp add: children_def)
    have "collected_at (rows @ [r]) p ?cs'" unfolding r using i by (intro collected_update [OF old(1)]) simp_all
    then have "collected (rows @ [r]) ?t'" unfolding collected_def ch using keep t1 old(2) by simp
    moreover have "merge_row 0 r t = Inr (False, ?t')" using step Some c by simp
    ultimately show ?thesis by blast
  qed
qed

lemma merge_rows_collects:
  "collected rows t \<Longrightarrow> length rows + length rs < 2000000 \<Longrightarrow>
     \<exists>t'. merge_rows 0 rs t = Inr t' \<and> collected (rows @ rs) t'"
proof (induction rs arbitrary: rows t)
  case (Cons r rs)
  then obtain t1 where t1: "merge_row 0 r t = Inr (False, t1)" "collected (rows @ [r]) t1"
    using merge_row_collects [of rows t r] by auto
  then show ?case using Cons.IH [OF t1(2)] Cons.prems by simp
qed simp

lemma add_functions_keep:
  "tr_Nodes (fold add_function fs t) = tr_Nodes t \<and> tr_SampleTypes (fold add_function fs t) = tr_SampleTypes t \<and>
   tr_maxSelf (fold add_function fs t) = tr_maxSelf t \<and> tr_NodesNum (fold add_function fs t) = tr_NodesNum t"
  by (induction fs arbitrary: t) (auto simp: add_function_def AddName_def)

text \<open>
  C19: Below the limit of two million nodes, the tree of a query has under every parent exactly the nodes
  the rows name, each once, and the values of a node are the sums over its rows (in 64 bits).
\<close>

theorem getTree_sums:
  assumes "length rows < 2000000"
  shows "\<exists>t. getTree rows fns s = Inr t \<and>
    (\<forall>p. distinct (node_ids_of (children t p)) \<and>
         set (node_ids_of (children t p)) = {n. \<exists>r\<in>set rows. row_at p n r} \<and>
         (\<forall>c\<in>set (children t p). tn_Self c = [row_sum row_self rows p (tn_NodeID c)] \<and>
                                  tn_Total c = [row_sum row_total rows p (tn_NodeID c)]))"
proof -
  let ?t0 = "fold add_function fns (NewTree\<lparr>tr_SampleTypes := [s]\<rparr>)"
  note keep = add_functions_keep [of fns "NewTree\<lparr>tr_SampleTypes := [s]\<rparr>"]
  have "collected [] ?t0" unfolding collected_def collected_at_def children_def using keep by (simp add: NewTree_def)
  with merge_rows_collects [of "[]" ?t0 rows] assms obtain t where
      "merge_rows 0 rows ?t0 = Inr t" "collected rows t" by auto
  then show ?thesis by (intro exI [of _ t]) (simp add: getTree_def MergeTrie_def collected_def collected_at_def)
qed

theorem getTree_sums_witness:
  "\<exists>t. getTree [(0, 11, 1, 2, 5), (1, 12, 2, 3, 3), (0, 11, 1, 2, 4)] [(11, ''main'')] ''cpu:ns'' = Inr t \<and>
     (\<forall>c\<in>set (children t 0). tn_NodeID c = 1 \<and> tn_Self c = [4] \<and> tn_Total c = [9])"
proof -
  let ?rows = "[(0, 11, 1, 2, 5), (1, 12, 2, 3, 3), (0, 11, 1, 2, 4)] :: tree_row list"
  have "length ?rows < 2000000" by simp
  from getTree_sums [OF this, of "[(11, ''main'')]" "''cpu:ns''"] obtain t where
      t: "getTree ?rows [(11, ''main'')] ''cpu:ns'' = Inr t"
      "set (node_ids_of (children t 0)) = {n. \<exists>r\<in>set ?rows. row_at 0 n r}"
      "\<forall>c\<in>set (children t 0). tn_Self c = [row_sum row_self ?rows 0 (tn_NodeID c)] \<and>
         tn_Total c = [row_sum row_total ?rows 0 (tn_NodeID c)]" by blast
  have "tn_NodeID c = 1" if "c \<in> set (children t 0)" for c
    using t(2) that by auto
  with t show ?thesis by (auto simp: row_sum_def)
qed

end
