(* ===== verification/Spec2Isabelle.thy ===== *)
theory Spec2Isabelle
  imports Sql_Select_Correct City_Hash_Correct City_Hash_Writer Federation Loki_Routing
    Ram_Aggregate_Correct Ch_Behaviour Ch_Labels Query_Range_Correct Ingest_Push Prof_Tree_Merge
begin

text \<open>
  \<^bold>\<open>A verification development of gigapipe\<close>

  gigapipe stores logs, metrics, traces and profiles in ClickHouse and answers LogQL, PromQL,
  TraceQL and profile queries. This development models, function by function, the path of a log
  query through the reader, from the service that answers it down to the SQL text and back to the
  JSON answer, and the path of a write through the writer, from the entries a decoder hands over
  to the insert into ClickHouse.

  \<^bold>\<open>How the program works.\<close> A LogQL query is parsed into a tree, which \<open>Plan\<close>
  (src/reader/logql/logql\_transpiler/planner.go) turns into a tree of request processors. The
  part ClickHouse can evaluate becomes one SQL query, made by the planners of clickhouse\_planner
  with the builder of src/reader/utils/sql\_select; the rest runs in process on a stream of
  batches (internal/planner). Matrix results are re-sampled on the steps of the request and
  combined by binary operators. In federated mode every read is restricted to the tenants that
  the request header names. On the write side, the decoders of the ingest protocols call the
  request builder (src/writer/utils/unmarshal/builder.go), which collects columns and sends them
  on in batches of about one megabyte. A batch is pushed to the insert service of its table, or,
  with shard routing, cut by fingerprint, a CityHash of the labels, into one batch per shard and
  pushed to a replica of that shard; the shard table follows the cluster layout. An insert
  service (src/writer/service/generic\_insert.go) collects the rows of many requests in one column
  buffer, inserts it from its own goroutine and answers each request through a promise.

  \<^bold>\<open>Theories and sources.\<close>

  \<^item> \<open>Gp_Prelude\<close>: outcomes of Go calls (\<open>res\<close>: a value, an error or a panic), Go string functions,
    number printing, and the shared lemma collections.

  \<^item> \<open>Sql_Select\<close>, \<open>Sql_Select_Correct\<close>: src/reader/utils/sql\_select. \<open>sqlobj\<close> and \<open>sel\<close> are the
    objects of the package, \<open>render\<close> their \<open>String\<close> methods (a step on the printing context, which
    hands out numbers), \<open>sel_*\<close> the builder methods. Proved: every reader of the documented syntax
    reads a printed string literal back, whatever it holds; clauses mean conjunction and
    disjunction; \<open>WITH\<close> queries stay in dependency order with distinct aliases; well-formed
    queries always print; how \<open>OrHaving\<close> and the \<open>PreWhere\<close> methods fail.

  \<^item> \<open>Federation\<close>: src/shared/federation and logql\_transpiler/shared/federation.go. Proved: which
    headers resolve, that these are the headers of a grammar stated on its own, and that the
    condition put into a query holds exactly for the rows whose \<open>oid\<close> column has a named tenant.

  \<^item> \<open>Ch_Base\<close>, \<open>Ch_Leaf\<close>, \<open>Ch_Filter\<close>, \<open>Ch_Planner\<close>, \<open>Ch_Plan\<close>, \<open>Ch_Scope\<close>: the package
    clickhouse\_planner. \<open>Process\<close> of a planner is a step on the id counter and the two \<open>WITH\<close>
    caches that the planners of one query share; \<open>sql_planner\<close> is the tree of planners,
    \<open>ch_Plan\<close> the analysis of a script and the tree it is planned into. \<open>Ch_Scope\<close> defines when
    every read in a query, however deeply nested, carries the tenant condition.

  \<^item> \<open>Ch_Scope_Plan\<close>, \<open>Ch_Example\<close>, \<open>Ch_Behaviour\<close>: what the planned query reads. Proved: the query
    of a federated request is scoped to its tenants, for every script; and which scripts lose
    filters or fail (the 15 second shortcut, empty matchers, \<open>!~\<close>).

  \<^item> \<open>Ch_Labels\<close>: the planners behind the label, series, index statistics, detected label and
    pattern endpoints (service/query\_abels.go, query\_range.go). Proved: which of these queries
    are scoped, and that the last two are not.

  \<^item> \<open>Ch_Getter\<close>: shared/planner\_clickhouse\_getter.go, the reader of the rows of a query; it
    delivers every row once and in order.

  \<^item> \<open>Query_Range\<close>, \<open>Query_Range_Correct\<close>: service/query\_range.go and utils/tables.
    \<open>prepareOutput\<close> joins planning, printing, reading and the in-process part; the exporters give
    the calls to the JSON writer. Proved: the answer to log, range and instant queries as a JSON
    document, that the data of tenants the header does not name cannot change it (given that the
    database evaluates a query under a tenant condition on the rows of these tenants), and where
    errors and tailing go wrong.

  \<^item> \<open>Logql_Model\<close>: the syntax tree of logql\_parser/model.go with its printing and \<open>FindFirst\<close>.

  \<^item> \<open>Logql_Plan\<close>, \<open>Logql_Plan_Correct\<close>: logql\_transpiler/planner.go, planner\_binary\_ram.go,
    shared/funcs.go, internal/planner/planner.go. Proved: which binary expressions are rejected,
    that the script is cut without loss before the first stage ClickHouse cannot run, the shape
    of a plan, and the two inputs on which planning panics.

  \<^item> \<open>Ram_Base\<close>, \<open>Ram_Stream\<close>, \<open>Ram_Wrap\<close>, \<open>Ram_Stages\<close>, \<open>Ram_Parser\<close>, \<open>Ram_Run\<close>: the
    in-process pipeline (internal/planner). A channel is the list of batches sent on it. The batch
    loop of generic.go with its bit mask is proved to refine a plain in-order loop; the stages are
    its callbacks; \<open>run\<close> executes a processor tree. Proved: the effect of the stages on the whole
    stream, and the stages that lose errors or whole batches.

  \<^item> \<open>Ram_Aggregate\<close>, \<open>Ram_Aggregate_Correct\<close>: the aggregators over time bins. The locale
    \<open>bin_aggregator\<close> is the contract between the loop and the functions; the range, vector and
    unwrapped aggregations are its interpretations.

  \<^item> \<open>Matrix_Post\<close>, \<open>Matrix_Post_Correct\<close>: planner\_from\_fix.go and planner\_binary\_ram.go.

  \<^item> \<open>City_Hash\<close>, \<open>City_Hash_Correct\<close>, \<open>City_Hash_Writer\<close>: the two copies of CityHash at the width
    of the source; no read is out of range and the copies agree.

  \<^item> \<open>Shard_Topo\<close>, \<open>Loki_Sharding\<close>, \<open>Loki_Routing\<close>: src/shared/shardtopo and the sharded pushes of
    the writer. Refresh ticks and pushes form a transition system; in every reachable state each
    row of a batch reaches one replica of the shard of its fingerprint.

  \<^item> \<open>Insert_Columns\<close>, \<open>Insert_Tables\<close>, \<open>Insert_Contract\<close>: the column buffers
    (writer/service/column\_pool.go, col\_adaptors.go) and, per table, the acquirer,
    \<open>ProcessRequest\<close> and the constructor (writer/service/insert). The locale \<open>insert_table\<close> is
    what a service relies on: a request that fits the table appends exactly its rows, in order.

  \<^item> \<open>Insert_Service\<close>, \<open>Insert_Service_Correct\<close>, \<open>Insert_Theorems\<close>: promises and \<open>InsertServiceV2\<close>.
    Each handler is a function; \<open>svc_step\<close> interleaves callers, the flush loop, stops and
    connection failures at the points where the lock is released. Proved inside the locale and
    interpreted on the seven tables: an acknowledged request has its rows in one successful
    insert; the bookkeeping of promises and rows; one iteration answers all queued requests; and
    the two ways a caller waits forever.

  \<^item> \<open>Ingest_Builder\<close>, \<open>Ingest_Correct\<close>: builder.go, shared.go and the label functions of
    unmarshal.go with utils/metadata and utils/numbercache. A decoder is the list of calls it makes
    and how it ends. Proved: every entry, span and attribute handed over is in exactly one
    request, in order, and the requests are the ones the insert services accept; series are
    announced unless the cache has them; fingerprints do not depend on label order, while the
    discovered service name does.

  \<^item> \<open>Insert_Pool\<close>, \<open>Ingest_Push\<close>: the pools of services (generic\_insert.go) and the push handler
    (writer/controller/builder.go). \<open>mm_step\<close> runs the members of a pool side by side. Proved: which
    member gets a request; and the theorem over all writer components: if the handler answers
    without an error, every log entry of the request is a row of an insert that succeeded.

  \<^item> \<open>Prof_Tree\<close>, \<open>Prof_Tree_Correct\<close>, \<open>Prof_Tree_Merge\<close>: reader/service/prof\_tree.go, the trees of
    profile queries. Proved: what the tree of a query holds, that \<open>BFS\<close> writes its flame graph, a
    layout defined on its own, and that two trees are aligned without loss. The loop over two
    trees may run forever on cyclic rows and is a partial function.

  \<^bold>\<open>Arguments of the model.\<close> What the program takes from outside the repository is an argument:
  floating-point arithmetic, number, duration, JSON, logfmt, template and regular expression
  parsing (records \<open>lib\<close> and \<open>ch_env\<close>), DNS and the cluster query (\<open>Shard_Topo\<close>), the rows
  ClickHouse delivers (\<open>run\<close>, \<open>Ch_Getter\<close>), the hash, quoting and metadata encoding of the builder
  and the order in which Go walks a map (\<open>ingest_env\<close>), whether a fixed size column takes a value
  (\<open>fx\<close>), the retry package and the random choice of a pool member. Connections, the outcome of an
  insert, the clock and the schedule are free in the step relation of the insert service; the
  aggregators read a clock that may differ from bin to bin. Theorems that need a law of one of
  these state it as a hypothesis: the syntax of string literals (\<open>reads_literals\<close>), the meaning of
  an equality and an \<open>IN\<close> on a row (\<open>row_atoms\<close>), the evaluation of scoped queries
  (\<open>law_of_scoping\<close>), the absence of hash collisions, laws of floating point. Times and durations
  are integers; machine words are used where the source computes modulo a word size (hashes,
  masks, shard numbers). No definition uses fuel: every loop but \<open>diff_loop\<close> of \<open>Prof_Tree\<close> is a
  total function with its own termination proof.

  \<^bold>\<open>Not modelled.\<close> The HTTP controllers and routers, which move data between requests and the
  services; sessions and the database drivers; the decoders of the ingest protocols, which wrap
  third-party parsers and generated protobuf code, up to the calls they make; the PromQL, TraceQL
  and profile planners; the merging of pprof payloads and the graphviz output of profiles; the
  ruler; schema maintenance (ctrl); pattern clustering, whose lexer is generated. The grammar of
  LogQL belongs to the participle parser generator. Planner plug-ins are taken to be absent.
\<close>

end
